(* ===== verification/Prelude.thy ===== *)
theory Prelude
  imports
    Main
    "HOL-Library.Word"
    "HOL-Library.AList"
    "HOL-Library.Char_ord"
    "HOL-Library.List_Lexorder"
    "HOL-Library.Product_Lexorder"
    "HOL-Library.Sublist"
begin

text \<open>
  What every component of the development shares.

  \<^item> The names of the model's basic types. A Rust byte is a \<open>char\<close> (256 values), a byte
    vector and a Rust string are both \<open>char list\<close>: a Rust string \<^emph>\<open>is\<close> its UTF-8
    bytes, and its \<open>Ord\<close> is the lexicographic order on those bytes, which is the order the
    library's \<open>List_Lexorder\<close> and \<open>Char_ord\<close> give. A \<open>Result\<close> is a sum.
  \<^item> The contract of the two standard containers the program uses everywhere, a finite map
    (\<open>HashMap\<close>, \<open>BTreeMap\<close>) and an ordered set (\<open>BTreeSet\<close>), as locales, with the
    executable models the components run on: association lists with distinct keys, whose order
    stands for the unspecified iteration order of a \<open>HashMap\<close>, and strictly ascending lists.
  \<^item> Little-endian integers and length-prefixed fields, as every on-disk frame uses them, with
    the contract of a prefix-free field codec as a locale.
  \<^item> Splitting a list at a separator and joining it again.
\<close>

section \<open>Basic types\<close>

type_synonym byte = char
type_synonym bytes = "char list"
type_synonym str = "char list"
type_synonym ('a, 'e) result = "'e + 'a"

abbreviation Ok :: "'a \<Rightarrow> ('a, 'e) result" where "Ok x \<equiv> Inr x"
abbreviation Err :: "'e \<Rightarrow> ('a, 'e) result" where "Err e \<equiv> Inl e"

text \<open>The largest value of the two unsigned widths the program stores.\<close>

definition u64_max :: nat where "u64_max = 2 ^ 64 - 1"
definition u32_max :: nat where "u32_max = 2 ^ 32 - 1"

text \<open>Saturating arithmetic of a \<open>u64\<close>, on its value as a natural number.\<close>

definition saturating_add :: "nat \<Rightarrow> nat \<Rightarrow> nat" where
  "saturating_add a b = min u64_max (a + b)"

definition saturating_mul :: "nat \<Rightarrow> nat \<Rightarrow> nat" where
  "saturating_mul a b = min u64_max (a * b)"

definition saturating_sub :: "nat \<Rightarrow> nat \<Rightarrow> nat" where
  "saturating_sub a b = a - b"

named_theorems saturating "definitions and bounds of saturating arithmetic"
declare saturating_add_def [saturating] saturating_mul_def [saturating]
  saturating_sub_def [saturating]

lemma saturating_add_le [simp, intro]: "saturating_add a b \<le> u64_max"
  by (simp add: saturating_add_def)

lemma saturating_mul_le [simp, intro]: "saturating_mul a b \<le> u64_max"
  by (simp add: saturating_mul_def)

lemma saturating_add_exact: "a + b \<le> u64_max \<Longrightarrow> saturating_add a b = a + b"
  by (simp add: saturating_add_def)

lemma saturating_add_ge: "a \<le> u64_max \<Longrightarrow> a \<le> saturating_add a b"
  by (simp add: saturating_add_def)

section \<open>Finite maps\<close>

text \<open>
  The contract of a key-value map with unordered iteration. \<open>keys\<close> is one iteration order; the
  laws say nothing about which.
\<close>

locale finite_map =
  fixes empty :: 'm
    and get :: "'m \<Rightarrow> 'k \<Rightarrow> 'v option"
    and insert :: "'k \<Rightarrow> 'v \<Rightarrow> 'm \<Rightarrow> 'm"
    and remove :: "'k \<Rightarrow> 'm \<Rightarrow> 'm"
    and keys :: "'m \<Rightarrow> 'k list"
    and wf :: "'m \<Rightarrow> bool"
  assumes get_empty: "get empty k = None"
    and get_insert: "get (insert k v m) = (get m)(k \<mapsto> v)"
    and get_remove: "get (remove k m) = (get m)(k := None)"
    and keys_get: "set (keys m) = dom (get m)"
    and keys_distinct: "wf m \<Longrightarrow> distinct (keys m)"
    and wf_empty: "wf empty"
    and wf_insert: "wf m \<Longrightarrow> wf (insert k v m)"
    and wf_remove: "wf m \<Longrightarrow> wf (remove k m)"
begin

text \<open>Inserting the entries of a list one after another: the last write of a key wins.\<close>

definition insert_all :: "('k \<times> 'v) list \<Rightarrow> 'm \<Rightarrow> 'm" where
  "insert_all kvs m = fold (\<lambda>(k, v). insert k v) kvs m"

lemma insert_all_simps:
  "insert_all [] m = m"
  "insert_all ((k, v) # kvs) m = insert_all kvs (insert k v m)"
  by (simp_all add: insert_all_def)

lemma insert_all_append: "insert_all (xs @ ys) m = insert_all ys (insert_all xs m)"
  by (simp add: insert_all_def)

lemma wf_insert_all: "wf m \<Longrightarrow> wf (insert_all kvs m)"
proof (induction kvs arbitrary: m)
  case (Cons kv kvs)
  then show ?case by (cases kv) (simp add: insert_all_simps wf_insert)
qed (simp add: insert_all_simps)

lemma get_insert_all:
  assumes "distinct (map fst kvs)"
  shows "get (insert_all kvs m) = get m ++ map_of kvs"
  using assms
proof (induction kvs arbitrary: m)
  case (Cons kv kvs)
  obtain k v where kv: "kv = (k, v)" by (cases kv)
  with Cons.prems have "k \<notin> dom (map_of kvs)" by (simp add: dom_map_of_conv_image_fst)
  then have "(get m)(k \<mapsto> v) ++ map_of kvs = (get m ++ map_of kvs)(k \<mapsto> v)"
    by (rule map_add_upd_left)
  with Cons kv show ?case by (simp add: insert_all_simps get_insert del: fun_upd_apply)
qed (simp add: insert_all_simps)

lemma keys_empty [simp]: "keys empty = []"
proof -
  have "set (keys empty) = {}" by (auto simp: keys_get get_empty)
  then show ?thesis by simp
qed

lemma get_eq_None: "get m k = None \<longleftrightarrow> k \<notin> set (keys m)"
  by (auto simp: keys_get)

end

text \<open>The executable model: an association list with distinct keys.\<close>

type_synonym ('k, 'v) hashmap = "('k \<times> 'v) list"

definition hm_get :: "('k, 'v) hashmap \<Rightarrow> 'k \<Rightarrow> 'v option" where
  "hm_get m k = map_of m k"

definition hm_insert :: "'k \<Rightarrow> 'v \<Rightarrow> ('k, 'v) hashmap \<Rightarrow> ('k, 'v) hashmap" where
  "hm_insert k v m = AList.update k v m"

definition hm_remove :: "'k \<Rightarrow> ('k, 'v) hashmap \<Rightarrow> ('k, 'v) hashmap" where
  "hm_remove k m = AList.delete k m"

definition hm_keys :: "('k, 'v) hashmap \<Rightarrow> 'k list" where
  "hm_keys m = map fst m"

definition hm_wf :: "('k, 'v) hashmap \<Rightarrow> bool" where
  "hm_wf m = distinct (map fst m)"

definition hm_retain :: "('k \<Rightarrow> bool) \<Rightarrow> ('k, 'v) hashmap \<Rightarrow> ('k, 'v) hashmap" where
  "hm_retain P m = filter (\<lambda>kv. P (fst kv)) m"

definition hm_contains :: "('k, 'v) hashmap \<Rightarrow> 'k \<Rightarrow> bool" where
  "hm_contains m k = (hm_get m k \<noteq> None)"

named_theorems hashmap "definitions of the map model, for evaluation"
declare hm_get_def [hashmap] hm_insert_def [hashmap] hm_remove_def [hashmap] hm_keys_def [hashmap]
  hm_retain_def [hashmap] hm_contains_def [hashmap] hm_wf_def [hashmap]

interpretation hm: finite_map "[]" hm_get hm_insert hm_remove hm_keys hm_wf
proof (unfold_locales, goal_cases)
  case (2 k v m)
  show ?case by (rule ext) (simp add: hm_get_def hm_insert_def update_conv')
next
  case (3 k m)
  show ?case by (rule ext) (simp add: hm_get_def hm_remove_def delete_conv')
next
  case (4 m)
  show ?case by (simp add: hm_keys_def hm_get_def[abs_def] dom_map_of_conv_image_fst)
next
  case (7 m k v)
  then show ?case by (simp add: hm_wf_def hm_insert_def distinct_update)
next
  case (8 m k)
  then show ?case by (simp add: hm_wf_def hm_remove_def distinct_delete)
qed (simp_all add: hm_get_def hm_keys_def hm_wf_def)

lemma hm_get_simps [simp]:
  "hm_get [] k = None"
  "hm_get (hm_insert k v m) k' = (if k' = k then Some v else hm_get m k')"
  "hm_get (hm_remove k m) k' = (if k' = k then None else hm_get m k')"
  by (simp_all add: hm.get_empty hm.get_insert hm.get_remove)

lemma hm_get_retain [simp]: "hm_get (hm_retain P m) k = (if P k then hm_get m k else None)"
  by (induction m) (auto simp: hm_get_def hm_retain_def)

lemma hm_keys_iff: "k \<in> set (hm_keys m) \<longleftrightarrow> hm_get m k \<noteq> None"
  by (auto simp: hm.keys_get)

lemma hm_contains_simps [simp]:
  "hm_contains [] k = False"
  "hm_contains (hm_insert k v m) k' = (k' = k \<or> hm_contains m k')"
  "hm_contains (hm_remove k m) k' = (k' \<noteq> k \<and> hm_contains m k')"
  "hm_contains (hm_retain P m) k' = (P k' \<and> hm_contains m k')"
  by (auto simp: hm_contains_def)

lemma hm_wf_simps [simp, intro]:
  "hm_wf []"
  "hm_wf m \<Longrightarrow> hm_wf (hm_insert k v m)"
  "hm_wf m \<Longrightarrow> hm_wf (hm_remove k m)"
  "hm_wf m \<Longrightarrow> hm_wf (hm_retain P m)"
  by (simp_all add: hm.wf_empty hm.wf_insert hm.wf_remove)
    (simp add: hm_wf_def hm_retain_def distinct_map_filter)

lemma hm_wf_mem: "hm_wf m \<Longrightarrow> (k, v) \<in> set m \<longleftrightarrow> hm_get m k = Some v"
  by (simp add: hm_wf_def hm_get_def)

lemma hm_length_card: "hm_wf m \<Longrightarrow> length m = card {k. hm_contains m k}"
proof -
  assume "hm_wf m"
  then have "length m = card (set (hm_keys m))"
    by (simp add: hm_wf_def hm_keys_def distinct_card del: set_map)
  also have "set (hm_keys m) = {k. hm_contains m k}"
    by (auto simp: hm_keys_iff hm_contains_def)
  finally show ?thesis .
qed

section \<open>Ordered sets\<close>

text \<open>
  The contract of a \<open>BTreeSet\<close>: membership is a set, and iteration is in ascending order, so the
  first element of a non-empty set is its minimum.
\<close>

locale ordered_set =
  fixes empty :: 's
    and insert :: "'a::linorder \<Rightarrow> 's \<Rightarrow> 's"
    and remove :: "'a \<Rightarrow> 's \<Rightarrow> 's"
    and to_list :: "'s \<Rightarrow> 'a list"
    and wf :: "'s \<Rightarrow> bool"
  assumes list_empty: "to_list empty = []"
    and set_insert: "set (to_list (insert x s)) = Set.insert x (set (to_list s))"
    and set_remove: "wf s \<Longrightarrow> set (to_list (remove x s)) = set (to_list s) - {x}"
    and ascending: "wf s \<Longrightarrow> sorted_wrt (<) (to_list s)"
    and wf_empty: "wf empty"
    and wf_insert: "wf s \<Longrightarrow> wf (insert x s)"
    and wf_remove: "wf s \<Longrightarrow> wf (remove x s)"
begin

lemma first_is_least:
  assumes "wf s" and "to_list s = x # xs" and "y \<in> set (to_list s)"
  shows "x \<le> y"
  using ascending [OF assms(1)] assms(2,3) by auto

lemma size_card: "wf s \<Longrightarrow> length (to_list s) = card (set (to_list s))"
  using ascending [of s] by (metis distinct_card strict_sorted_iff)

lemma determined: "wf s \<Longrightarrow> wf t \<Longrightarrow> set (to_list s) = set (to_list t) \<Longrightarrow> to_list s = to_list t"
  by (metis ascending strict_sorted_equal)

end

text \<open>The executable model: a strictly ascending list.\<close>

fun bt_insert :: "'a::linorder \<Rightarrow> 'a list \<Rightarrow> 'a list" where
  "bt_insert x [] = [x]"
| "bt_insert x (y # ys) = (if x < y then x # y # ys else if x = y then y # ys else y # bt_insert x ys)"

fun bt_remove :: "'a::linorder \<Rightarrow> 'a list \<Rightarrow> 'a list" where
  "bt_remove x [] = []"
| "bt_remove x (y # ys) = (if x = y then ys else y # bt_remove x ys)"

definition bt_wf :: "'a::linorder list \<Rightarrow> bool" where
  "bt_wf s = sorted_wrt (<) s"

definition bt_of_list :: "'a::linorder list \<Rightarrow> 'a list" where
  "bt_of_list xs = fold bt_insert xs []"

lemma set_bt_insert [simp]: "set (bt_insert x s) = insert x (set s)"
  by (induction s) auto

lemma bt_wf_Nil [simp]: "bt_wf []"
  by (simp add: bt_wf_def)

lemma bt_wf_Cons [simp]: "bt_wf (x # s) \<longleftrightarrow> (\<forall>y \<in> set s. x < y) \<and> bt_wf s"
  by (simp add: bt_wf_def)

lemma bt_wf_insert [simp, intro]: "bt_wf s \<Longrightarrow> bt_wf (bt_insert x s)"
  by (induction s) auto

lemma set_bt_remove [simp]: "bt_wf s \<Longrightarrow> set (bt_remove x s) = set s - {x}"
  by (induction s) auto

lemma set_bt_remove_subset: "set (bt_remove x s) \<subseteq> set s"
  by (induction s) auto

lemma bt_wf_remove [simp, intro]: "bt_wf s \<Longrightarrow> bt_wf (bt_remove x s)"
  by (induction s) (auto dest: subsetD [OF set_bt_remove_subset])

lemma bt_wf_filter [simp, intro]: "bt_wf s \<Longrightarrow> bt_wf (filter P s)"
  by (simp add: bt_wf_def sorted_wrt_filter)

lemma bt_wf_distinct: "bt_wf s \<Longrightarrow> distinct s"
  by (simp add: bt_wf_def strict_sorted_iff)

interpretation bt: ordered_set "[]" bt_insert bt_remove "\<lambda>s. s" bt_wf
  by unfold_locales (simp_all add: bt_wf_def [symmetric])

lemma set_fold_bt_insert: "set (fold bt_insert xs s) = set xs \<union> set s"
  by (induction xs arbitrary: s) auto

lemma bt_wf_fold_insert: "bt_wf s \<Longrightarrow> bt_wf (fold bt_insert xs s)"
  by (induction xs arbitrary: s) auto

lemma set_bt_of_list [simp]: "set (bt_of_list xs) = set xs"
  by (simp add: bt_of_list_def set_fold_bt_insert)

lemma bt_wf_of_list [simp, intro]: "bt_wf (bt_of_list xs)"
  by (simp add: bt_of_list_def bt_wf_fold_insert)

lemma bt_of_list_id: "bt_wf s \<Longrightarrow> bt_of_list s = s"
  by (rule bt.determined) auto

section \<open>Little-endian integers and length-prefixed fields\<close>

text \<open>\<open>to_le_bytes\<close> and \<open>from_le_bytes\<close> of an integer of \<open>n\<close> bytes.\<close>

primrec le_bytes :: "nat \<Rightarrow> nat \<Rightarrow> bytes" where
  "le_bytes 0 x = []"
| "le_bytes (Suc n) x = char_of (x mod 256) # le_bytes n (x div 256)"

primrec le_value :: "bytes \<Rightarrow> nat" where
  "le_value [] = 0"
| "le_value (c # cs) = of_char c + 256 * le_value cs"

lemma length_le_bytes [simp]: "length (le_bytes n x) = n"
  by (induction n arbitrary: x) auto

lemma le_value_le_bytes: "le_value (le_bytes n x) = x mod 256 ^ n"
proof (induction n arbitrary: x)
  case (Suc n)
  have "x mod 256 + 256 * (x div 256 mod 256 ^ n) = x mod (256 * 256 ^ n)"
    by (simp add: mod_mult2_eq)
  with Suc show ?case by simp
qed simp

lemma le_value_le_bytes_id [simp]: "x < 256 ^ n \<Longrightarrow> le_value (le_bytes n x) = x"
  by (simp add: le_value_le_bytes)

lemma le_value_less: "le_value bs < 256 ^ length bs"
proof (induction bs)
  case (Cons c cs)
  have "of_char c + 256 * le_value cs < 256 * (le_value cs + 1)"
    by (simp add: distrib_left add.commute)
  also have "\<dots> \<le> 256 * 256 ^ length cs" using Cons by simp
  finally show ?case by simp
qed simp

lemma le_bytes_le_value: "length bs = n \<Longrightarrow> le_bytes n (le_value bs) = bs"
  by (induction bs arbitrary: n) auto

text \<open>
  The contract of a field that can be read off the front of a longer byte string: what was written
  comes back, with exactly the bytes after it left over. \<open>ok\<close> is what the format can carry.
\<close>

locale prefix_codec =
  fixes enc :: "'a \<Rightarrow> bytes"
    and dec :: "bytes \<Rightarrow> ('a \<times> bytes) option"
    and ok :: "'a \<Rightarrow> bool"
  assumes dec_enc: "ok x \<Longrightarrow> dec (enc x @ rest) = Some (x, rest)"
begin

text \<open>Reading \<open>n\<close> fields one after another, stopping at the first that does not read.\<close>

fun dec_n :: "nat \<Rightarrow> bytes \<Rightarrow> ('a list \<times> bytes) option" where
  "dec_n 0 bs = Some ([], bs)"
| "dec_n (Suc n) bs =
     (case dec bs of None \<Rightarrow> None
      | Some (x, rest) \<Rightarrow> (case dec_n n rest of None \<Rightarrow> None | Some (xs, rest') \<Rightarrow> Some (x # xs, rest')))"

lemma dec_n_enc: "\<forall>x \<in> set xs. ok x \<Longrightarrow> dec_n (length xs) (concat (map enc xs) @ rest) = Some (xs, rest)"
  by (induction xs) (simp_all add: dec_enc)

text \<open>Two different values never share an encoding, even followed by different bytes.\<close>

lemma enc_unambiguous:
  assumes "ok x" "ok y" "enc x @ r = enc y @ s"
  shows "x = y \<and> r = s"
proof -
  have "Some (x, r) = dec (enc x @ r)" using assms(1) by (simp add: dec_enc)
  also have "\<dots> = Some (y, s)" using assms(2,3) by (simp add: dec_enc)
  finally show ?thesis by simp
qed

end

section \<open>Splitting at a separator\<close>

text \<open>
  \<open>slice::split\<close> and \<open>str::split\<close> with one separator element: never empty, and one piece more
  than there are separators.
\<close>

fun split_on :: "'a \<Rightarrow> 'a list \<Rightarrow> 'a list list" where
  "split_on d [] = [[]]"
| "split_on d (x # xs) =
     (if x = d then [] # split_on d xs
      else (case split_on d xs of [] \<Rightarrow> [[x]] | p # ps \<Rightarrow> (x # p) # ps))"

text \<open>Pieces put back together with the separator between them.\<close>

fun join_with :: "'a \<Rightarrow> 'a list list \<Rightarrow> 'a list" where
  "join_with d [] = []"
| "join_with d [p] = p"
| "join_with d (p # q # ps) = p @ d # join_with d (q # ps)"

lemma split_on_not_Nil [simp]: "split_on d xs \<noteq> []"
  by (induction xs) (auto split: list.splits)

lemma join_split_on [simp]: "join_with d (split_on d xs) = xs"
proof (induction xs)
  case (Cons x xs)
  obtain p ps where "split_on d xs = p # ps" by (meson list.exhaust split_on_not_Nil)
  with Cons show ?case by (cases ps) auto
qed simp

lemma split_on_no_sep: "d \<notin> set p \<Longrightarrow> split_on d p = [p]"
  by (induction p) auto

lemma split_on_append: "d \<notin> set p \<Longrightarrow> split_on d (p @ d # xs) = p # split_on d xs"
  by (induction p) auto

lemma split_join_with: "ps \<noteq> [] \<Longrightarrow> \<forall>p \<in> set ps. d \<notin> set p \<Longrightarrow> split_on d (join_with d ps) = ps"
  by (induction d ps rule: join_with.induct) (auto simp: split_on_no_sep split_on_append)

lemma split_on_pieces: "p \<in> set (split_on d xs) \<Longrightarrow> d \<notin> set p \<and> set p \<subseteq> set xs"
proof (induction xs arbitrary: p)
  case (Cons x xs)
  obtain q qs where qs: "split_on d xs = q # qs" by (meson list.exhaust split_on_not_Nil)
  show ?case
  proof (cases "x = d")
    case True
    with Cons show ?thesis by (auto dest: Cons.IH)
  next
    case False
    with Cons.prems qs have "p = x # q \<or> p \<in> set qs" by auto
    with False Cons.IH [of q] Cons.IH [of p] qs show ?thesis by auto
  qed
qed simp

lemma set_join_with: "set (join_with d ps) \<subseteq> insert d (\<Union> (set ` set ps))"
  by (induction d ps rule: join_with.induct) auto

lemma join_with_elem: "e \<noteq> d \<Longrightarrow> e \<in> set (join_with d ps) \<longleftrightarrow> (\<exists>p \<in> set ps. e \<in> set p)"
  by (induction d ps rule: join_with.induct) auto

section \<open>Chunks\<close>

text \<open>\<open>slice::chunks\<close>: consecutive pieces of \<open>n\<close> elements, the last one possibly shorter.\<close>

function chunks :: "nat \<Rightarrow> 'a list \<Rightarrow> 'a list list" where
  "chunks n xs = (if xs = [] \<or> n = 0 then [] else take n xs # chunks n (drop n xs))"
  by pat_completeness auto
termination by (relation "measure (\<lambda>(n, xs). length xs)") auto

declare chunks.simps [simp del]

lemma chunks_Nil [simp]: "chunks n [] = []"
  by (simp add: chunks.simps [of n "[]"])

lemma chunks_append: "length xs = n \<Longrightarrow> 0 < n \<Longrightarrow> chunks n (xs @ ys) = xs # chunks n ys"
  by (subst chunks.simps) auto

lemma chunks_short: "xs \<noteq> [] \<Longrightarrow> length xs \<le> n \<Longrightarrow> chunks n xs = [xs]"
  by (cases "n = 0") (simp_all add: chunks.simps [of n xs])

lemma chunks_lengths: "c \<in> set (chunks n xs) \<Longrightarrow> c \<noteq> [] \<and> length c \<le> n"
proof (induction n xs rule: chunks.induct)
  case (1 n xs)
  then show ?case by (cases "xs = [] \<or> n = 0") (auto simp: chunks.simps [of n xs])
qed

lemma concat_chunks: "0 < n \<Longrightarrow> concat (chunks n xs) = xs"
proof (induction n xs rule: chunks.induct)
  case (1 n xs)
  then show ?case by (cases "xs = []") (simp_all add: chunks.simps [of n xs])
qed

lemma chunks_concat:
  "0 < n \<Longrightarrow> \<forall>c \<in> set cs. length c = n \<Longrightarrow> chunks n (concat cs) = cs"
  by (induction cs) (auto simp: chunks_append)

lemma chunks_full: "0 < n \<Longrightarrow> n dvd length xs \<Longrightarrow> \<forall>c \<in> set (chunks n xs). length c = n"
proof (induction n xs rule: chunks.induct)
  case (1 n xs)
  show ?case
  proof (cases "xs = []")
    case False
    with 1(2,3) have le: "n \<le> length xs" by (auto dest: dvd_imp_le)
    from 1 False have IH: "\<forall>c \<in> set (chunks n (drop n xs)). length c = n"
      by (simp add: dvd_diff_nat)
    have "chunks n xs = take n xs # chunks n (drop n xs)"
      using False 1(2) by (subst chunks.simps) simp
    moreover have "length (take n xs) = n" using le by simp
    ultimately show ?thesis using IH by (metis set_ConsD)
  qed simp
qed

lemma length_chunks: "0 < n \<Longrightarrow> n dvd length xs \<Longrightarrow> length (chunks n xs) = length xs div n"
proof (induction n xs rule: chunks.induct)
  case (1 n xs)
  show ?case
  proof (cases "xs = []")
    case False
    with 1(2,3) have "n \<le> length xs" by (auto dest: dvd_imp_le)
    moreover from 1 False have "length (chunks n (drop n xs)) = (length xs - n) div n"
      by (simp add: dvd_diff_nat)
    ultimately show ?thesis using False 1(2) by (simp add: chunks.simps [of n xs] le_div_geq)
  qed simp
qed

section \<open>Small facts\<close>

lemma unat_less_32: "unat (w :: 32 word) < 4294967296"
proof -
  have "unat w < 2 ^ LENGTH(32)" by (rule unsigned_less)
  then show ?thesis by simp
qed

lemma map_add_upd_left_simp: "k \<notin> dom m2 \<Longrightarrow> (m1(k \<mapsto> v)) ++ m2 = (m1 ++ m2)(k \<mapsto> v)"
  by (rule map_add_upd_left)

lemma take_drop_append: "length xs = n \<Longrightarrow> take n (xs @ ys) = xs \<and> drop n (xs @ ys) = ys"
  by auto

lemma filter_set_cong: "(\<And>x. x \<in> set xs \<Longrightarrow> P x = Q x) \<Longrightarrow> filter P xs = filter Q xs"
  by (rule filter_cong) auto

end
