(* ===== verification/Rust_Text.thy ===== *)
theory Rust_Text
  imports Prelude
begin

text \<open>
  The parts of Rust's standard library for text that the database calls: trimming, line and
  delimiter splitting, printing and parsing of unsigned integers, letter case, and UTF-8 validation.
  A string is its UTF-8 bytes, so every function here is a function on byte lists. The lemmas are
  the round trips and the ordering facts the on-disk formats rest on.
\<close>

section \<open>Trimming\<close>

text \<open>
  \<open>str::trim\<close> strips characters with the Unicode property White\_Space at both ends. This is
  the complete list of those characters, each as its UTF-8 encoding.
\<close>

definition white_space :: "str list" where
  "white_space =
     [[CHR 0x09], [CHR 0x0A], [CHR 0x0B], [CHR 0x0C], [CHR 0x0D], [CHR 0x20],
      [CHR 0xC2, CHR 0x85], [CHR 0xC2, CHR 0xA0], [CHR 0xE1, CHR 0x9A, CHR 0x80],
      [CHR 0xE2, CHR 0x80, CHR 0x80], [CHR 0xE2, CHR 0x80, CHR 0x81], [CHR 0xE2, CHR 0x80, CHR 0x82],
      [CHR 0xE2, CHR 0x80, CHR 0x83], [CHR 0xE2, CHR 0x80, CHR 0x84], [CHR 0xE2, CHR 0x80, CHR 0x85],
      [CHR 0xE2, CHR 0x80, CHR 0x86], [CHR 0xE2, CHR 0x80, CHR 0x87], [CHR 0xE2, CHR 0x80, CHR 0x88],
      [CHR 0xE2, CHR 0x80, CHR 0x89], [CHR 0xE2, CHR 0x80, CHR 0x8A], [CHR 0xE2, CHR 0x80, CHR 0xA8],
      [CHR 0xE2, CHR 0x80, CHR 0xA9], [CHR 0xE2, CHR 0x80, CHR 0xAF], [CHR 0xE2, CHR 0x81, CHR 0x9F],
      [CHR 0xE3, CHR 0x80, CHR 0x80]]"

function strip_any :: "str list \<Rightarrow> str \<Rightarrow> str" where
  "strip_any ws s =
     (case find (\<lambda>w. w \<noteq> [] \<and> prefix w s) ws of
        None \<Rightarrow> s
      | Some w \<Rightarrow> strip_any ws (drop (length w) s))"
  by pat_completeness auto
termination
proof (relation "measure (\<lambda>(ws, s). length s)", goal_cases)
  case (2 ws s w)
  then have "w \<noteq> [] \<and> prefix w s" by (auto simp: find_Some_iff)
  then show ?case by (auto simp: prefix_def)
qed simp

declare strip_any.simps [simp del]

definition trim_start :: "str \<Rightarrow> str" where "trim_start s = strip_any white_space s"
definition trim_end :: "str \<Rightarrow> str" where "trim_end s = rev (strip_any (map rev white_space) (rev s))"
definition trim :: "str \<Rightarrow> str" where "trim s = trim_end (trim_start s)"

definition starts_with_any :: "str list \<Rightarrow> str \<Rightarrow> bool" where
  "starts_with_any ws s \<longleftrightarrow> (\<exists>w \<in> set ws. w \<noteq> [] \<and> prefix w s)"

lemma strip_any_id: "\<not> starts_with_any ws s \<Longrightarrow> strip_any ws s = s"
proof -
  assume "\<not> starts_with_any ws s"
  then have "find (\<lambda>w. w \<noteq> [] \<and> prefix w s) ws = None"
    by (auto simp: find_None_iff starts_with_any_def)
  then show ?thesis by (subst strip_any.simps) simp
qed

lemma strip_any_done: "\<not> starts_with_any ws (strip_any ws s)"
proof (induction ws s rule: strip_any.induct)
  case (1 ws s)
  show ?case
  proof (cases "find (\<lambda>w. w \<noteq> [] \<and> prefix w s) ws")
    case None
    then have "\<not> starts_with_any ws s" by (auto simp: find_None_iff starts_with_any_def)
    then show ?thesis by (simp add: strip_any_id)
  next
    case (Some w)
    with 1 show ?thesis by (subst strip_any.simps) simp
  qed
qed

lemma starts_with_any_prefix: "prefix t s \<Longrightarrow> starts_with_any ws t \<Longrightarrow> starts_with_any ws s"
  by (meson starts_with_any_def prefix_order.trans)

lemma strip_any_suffix: "suffix (strip_any ws s) s"
proof (induction ws s rule: strip_any.induct)
  case (1 ws s)
  show ?case
  proof (cases "find (\<lambda>w. w \<noteq> [] \<and> prefix w s) ws")
    case (Some w)
    with 1 have "suffix (strip_any ws (drop (length w) s)) (drop (length w) s)" by simp
    then have "suffix (strip_any ws (drop (length w) s)) s"
      using suffix_drop suffix_order.trans by blast
    with Some show ?thesis by (subst strip_any.simps) simp
  qed (subst strip_any.simps, simp)
qed

lemma trim_end_prefix: "prefix (trim_end s) s"
  using strip_any_suffix [of "map rev white_space" "rev s"]
  by (simp add: trim_end_def suffix_to_prefix)

lemma trim_trim [simp]: "trim (trim s) = trim s"
proof -
  let ?t = "trim_start s"
  have "\<not> starts_with_any white_space ?t"
    by (simp add: trim_start_def strip_any_done)
  then have "\<not> starts_with_any white_space (trim_end ?t)"
    using starts_with_any_prefix trim_end_prefix by blast
  then have start: "trim_start (trim_end ?t) = trim_end ?t"
    by (simp add: trim_start_def strip_any_id)
  have "trim_end (trim_end ?t) = trim_end ?t"
    by (simp add: trim_end_def strip_any_id strip_any_done)
  with start show ?thesis by (simp add: trim_def)
qed

text \<open>Text that begins and ends with visible ASCII characters has nothing to trim.\<close>

definition visible :: "char \<Rightarrow> bool" where
  "visible c \<longleftrightarrow> 33 \<le> (of_char c :: nat) \<and> (of_char c :: nat) \<le> 126"

lemma white_space_not_visible: "list_all (\<lambda>w. w \<noteq> [] \<and> \<not> visible (hd w) \<and> \<not> visible (last w)) white_space"
  by (simp add: white_space_def visible_def)

lemma not_starts_with_any:
  assumes "list_all (\<lambda>w. w \<noteq> [] \<and> \<not> visible (hd w)) ws" and "s = [] \<or> visible (hd s)"
  shows "\<not> starts_with_any ws s"
proof
  assume "starts_with_any ws s"
  then obtain w where w: "w \<in> set ws" "w \<noteq> []" "prefix w s" by (auto simp: starts_with_any_def)
  then have "hd w = hd s" "s \<noteq> []" by (auto simp: prefix_def)
  with assms w show False by (auto simp: list_all_iff)
qed

lemma trim_visible: "s = [] \<or> visible (hd s) \<and> visible (last s) \<Longrightarrow> trim s = s"
proof -
  assume s: "s = [] \<or> visible (hd s) \<and> visible (last s)"
  have "list_all (\<lambda>w. w \<noteq> [] \<and> \<not> visible (hd w)) white_space"
    "list_all (\<lambda>w. w \<noteq> [] \<and> \<not> visible (hd w)) (map rev white_space)"
    using white_space_not_visible by (auto simp: list_all_iff hd_rev)
  moreover from s have "s = [] \<or> visible (hd s)" "rev s = [] \<or> visible (hd (rev s))"
    by (auto simp: hd_rev)
  ultimately have "\<not> starts_with_any white_space s" and "\<not> starts_with_any (map rev white_space) (rev s)"
    by (simp_all only: not_starts_with_any not_False_eq_True)
  then show ?thesis by (simp add: trim_def trim_start_def trim_end_def strip_any_id)
qed

lemma trim_Nil [simp]: "trim [] = []"
  by (rule trim_visible) simp

section \<open>Delimiters and lines\<close>

definition strip_prefix :: "str \<Rightarrow> str \<Rightarrow> str option" where
  "strip_prefix p s = (if prefix p s then Some (drop (length p) s) else None)"

definition strip_suffix :: "str \<Rightarrow> str \<Rightarrow> str option" where
  "strip_suffix p s = (if suffix p s then Some (take (length s - length p) s) else None)"

definition split_once :: "char \<Rightarrow> str \<Rightarrow> (str \<times> str) option" where
  "split_once d s =
     (if d \<in> set s then Some (takeWhile (\<lambda>c. c \<noteq> d) s, tl (dropWhile (\<lambda>c. c \<noteq> d) s)) else None)"

definition rsplit_once :: "char \<Rightarrow> str \<Rightarrow> (str \<times> str) option" where
  "rsplit_once d s = map_option (\<lambda>(a, b). (rev b, rev a)) (split_once d (rev s))"

fun find_map :: "('a \<Rightarrow> 'b option) \<Rightarrow> 'a list \<Rightarrow> 'b option" where
  "find_map f [] = None"
| "find_map f (x # xs) = (case f x of Some y \<Rightarrow> Some y | None \<Rightarrow> find_map f xs)"

abbreviation newline :: char where "newline \<equiv> CHR 0x0A"
abbreviation carriage_return :: char where "carriage_return \<equiv> CHR 0x0D"

text \<open>
  \<open>str::lines\<close>: the pieces between newlines, each without one carriage return before its
  newline, and without the empty piece after a final newline.
\<close>

definition strip_cr :: "str \<Rightarrow> str" where
  "strip_cr l = (if l \<noteq> [] \<and> last l = carriage_return then butlast l else l)"

definition lines :: "str \<Rightarrow> str list" where
  "lines s =
     (let ps = split_on newline s
      in map strip_cr (butlast ps) @ (if last ps = [] then [] else [last ps]))"

definition unlines :: "str list \<Rightarrow> str" where
  "unlines ls = concat (map (\<lambda>l. l @ [newline]) ls)"

definition plain_line :: "str \<Rightarrow> bool" where
  "plain_line l \<longleftrightarrow> newline \<notin> set l \<and> (l = [] \<or> last l \<noteq> carriage_return)"

lemma strip_prefix_append [simp]: "strip_prefix p (p @ s) = Some s"
  by (simp add: strip_prefix_def)

lemma split_once_append: "d \<notin> set a \<Longrightarrow> split_once d (a @ d # b) = Some (a, b)"
  by (induction a) (auto simp: split_once_def)

lemma rsplit_once_append: "d \<notin> set b \<Longrightarrow> rsplit_once d (a @ d # b) = Some (a, b)"
  using split_once_append [of d "rev b" "rev a"] by (simp add: rsplit_once_def)

lemma split_on_unlines:
  "\<forall>l \<in> set ls. newline \<notin> set l \<Longrightarrow> split_on newline (unlines ls) = ls @ [[]]"
  by (induction ls) (auto simp: unlines_def split_on_append)

lemma lines_unlines: "\<forall>l \<in> set ls. plain_line l \<Longrightarrow> lines (unlines ls) = ls"
proof -
  assume pl: "\<forall>l \<in> set ls. plain_line l"
  then have "map strip_cr ls = ls"
    by (auto simp: plain_line_def strip_cr_def intro!: map_idI)
  moreover have "split_on newline (unlines ls) = ls @ [[]]"
    using pl by (intro split_on_unlines) (auto simp: plain_line_def)
  ultimately show ?thesis by (simp add: lines_def)
qed

section \<open>Unsigned integers as text\<close>

definition digit_char :: "nat \<Rightarrow> char" where
  "digit_char d = (if d < 10 then char_of (48 + d) else char_of (87 + d))"

definition to_digit :: "nat \<Rightarrow> char \<Rightarrow> nat option" where
  "to_digit radix c =
     (let n = of_char c;
          v = (if 48 \<le> n \<and> n \<le> 57 then n - 48
               else if 97 \<le> n \<and> n \<le> 122 then n - 87
               else if 65 \<le> n \<and> n \<le> 90 then n - 55 else radix)
      in if v < radix then Some v else None)"

fun show_radix :: "nat \<Rightarrow> nat \<Rightarrow> str" where
  "show_radix b n =
     (if b < 2 \<or> n < b then [digit_char n] else show_radix b (n div b) @ [digit_char (n mod b)])"

declare show_radix.simps [simp del]

abbreviation show_nat :: "nat \<Rightarrow> str" where "show_nat \<equiv> show_radix 10"

definition pad_left :: "nat \<Rightarrow> str \<Rightarrow> str" where
  "pad_left w s = replicate (w - length s) (CHR ''0'') @ s"

text \<open>The value of a digit string, \<open>None\<close> where some character is not a digit of the radix.\<close>

fun digits_value :: "nat \<Rightarrow> nat \<Rightarrow> str \<Rightarrow> nat option" where
  "digits_value b acc [] = Some acc"
| "digits_value b acc (c # cs) =
     (case to_digit b c of None \<Rightarrow> None | Some d \<Rightarrow> digits_value b (acc * b + d) cs)"

text \<open>
  \<open>from_str_radix\<close> of an unsigned type whose largest value is \<open>limit\<close>: one leading plus sign is
  taken, at least one digit is required, and a value past the type is an error.
\<close>

definition from_str_radix :: "nat \<Rightarrow> nat \<Rightarrow> str \<Rightarrow> nat option" where
  "from_str_radix limit b s =
     (let ds = (if s \<noteq> [] \<and> hd s = CHR ''+'' then tl s else s)
      in if ds = [] then None
         else (case digits_value b 0 ds of None \<Rightarrow> None | Some v \<Rightarrow> if v \<le> limit then Some v else None))"

abbreviation parse_u64 :: "str \<Rightarrow> nat option" where "parse_u64 \<equiv> from_str_radix u64_max 10"
abbreviation parse_u32 :: "str \<Rightarrow> nat option" where "parse_u32 \<equiv> from_str_radix u32_max 10"

lemma to_digit_digit_char: "b \<le> 16 \<Longrightarrow> d < b \<Longrightarrow> to_digit b (digit_char d) = Some d"
  by (simp add: to_digit_def digit_char_def Let_def)

lemma digits_value_append:
  "digits_value b acc (xs @ ys) =
     (case digits_value b acc xs of None \<Rightarrow> None | Some v \<Rightarrow> digits_value b v ys)"
  by (induction xs arbitrary: acc) (auto split: option.splits)

lemma digits_value_show: "2 \<le> b \<Longrightarrow> b \<le> 16 \<Longrightarrow> digits_value b 0 (show_radix b n) = Some n"
proof (induction b n rule: show_radix.induct)
  case (1 b n)
  show ?case
  proof (cases "n < b")
    case True
    with 1 show ?thesis by (subst show_radix.simps) (simp add: to_digit_digit_char)
  next
    case False
    with 1 have "digits_value b 0 (show_radix b (n div b)) = Some (n div b)" by simp
    with False 1(2,3) show ?thesis
      by (subst show_radix.simps) (simp add: digits_value_append to_digit_digit_char)
  qed
qed

lemma show_radix_chars: "2 \<le> b \<Longrightarrow> c \<in> set (show_radix b n) \<Longrightarrow> \<exists>d < b. c = digit_char d"
proof (induction b n rule: show_radix.induct)
  case (1 b n)
  show ?case
  proof (cases "n < b")
    case True
    with 1 show ?thesis by (subst (asm) show_radix.simps) auto
  next
    case False
    with 1(3) 1(2) have "c \<in> set (show_radix b (n div b)) \<or> c = digit_char (n mod b)"
      by (subst (asm) show_radix.simps) (auto split: if_splits)
    then show ?thesis
    proof
      assume "c \<in> set (show_radix b (n div b))"
      with 1(1,2) False show ?thesis by simp
    next
      assume "c = digit_char (n mod b)"
      with 1(2) show ?thesis by (intro exI [of _ "n mod b"]) simp
    qed
  qed
qed

lemma show_radix_not_Nil [simp]: "show_radix b n \<noteq> []"
  by (subst show_radix.simps) simp

lemma digit_char_visible: "d < 16 \<Longrightarrow> visible (digit_char d)"
  by (simp add: visible_def digit_char_def)

lemma digit_char_not:
  assumes "d < 16" and "(of_char c :: nat) < 48 \<or> 57 < (of_char c :: nat) \<and> (of_char c :: nat) < 97"
  shows "digit_char d \<noteq> c"
  using assms by (auto simp: digit_char_def split: if_splits)

lemma show_radix_visible: "2 \<le> b \<Longrightarrow> b \<le> 16 \<Longrightarrow> c \<in> set (show_radix b n) \<Longrightarrow> visible c"
  using show_radix_chars digit_char_visible by fastforce

lemma show_radix_avoids:
  assumes "2 \<le> b" "b \<le> 16" "(of_char c :: nat) < 48 \<or> 57 < (of_char c :: nat) \<and> (of_char c :: nat) < 97"
  shows "c \<notin> set (show_radix b n)"
proof
  assume "c \<in> set (show_radix b n)"
  then obtain d where "d < b" "c = digit_char d" using show_radix_chars [OF assms(1)] by blast
  then show False using digit_char_not [of d c] assms by simp
qed

lemma trim_show_radix: "2 \<le> b \<Longrightarrow> b \<le> 16 \<Longrightarrow> trim (show_radix b n) = show_radix b n"
  by (rule trim_visible) (meson hd_in_set last_in_set show_radix_not_Nil show_radix_visible)

lemma digits_value_zeros: "0 < b \<Longrightarrow> digits_value b 0 (replicate k (CHR ''0'') @ s) = digits_value b 0 s"
  by (induction k) (simp_all add: to_digit_def)

lemma digits_value_pad: "0 < b \<Longrightarrow> digits_value b 0 (pad_left w s) = digits_value b 0 s"
  by (simp add: pad_left_def digits_value_zeros)

lemma show_radix_hd_not_plus: "2 \<le> b \<Longrightarrow> b \<le> 16 \<Longrightarrow> hd (show_radix b n) \<noteq> CHR ''+''"
proof
  assume b: "2 \<le> b" "b \<le> 16" and "hd (show_radix b n) = CHR ''+''"
  then have "CHR ''+'' \<in> set (show_radix b n)"
    using hd_in_set [OF show_radix_not_Nil, of b n] by metis
  moreover have "CHR ''+'' \<notin> set (show_radix b n)" using b by (intro show_radix_avoids) simp_all
  ultimately show False by simp
qed

lemma from_str_radix_show:
  assumes "2 \<le> b" "b \<le> 16" "n \<le> limit"
  shows "from_str_radix limit b (show_radix b n) = Some n"
  using assms show_radix_hd_not_plus [of b n]
  by (simp add: from_str_radix_def Let_def digits_value_show)

lemma from_str_radix_pad:
  assumes "2 \<le> b" "b \<le> 16" "n \<le> limit"
  shows "from_str_radix limit b (pad_left w (show_radix b n)) = Some n"
proof (cases "w - length (show_radix b n)")
  case 0
  then show ?thesis using from_str_radix_show [OF assms] by (simp add: pad_left_def)
next
  case (Suc k)
  then have "hd (pad_left w (show_radix b n)) = CHR ''0''" by (simp add: pad_left_def)
  then show ?thesis using assms
    by (simp add: from_str_radix_def Let_def digits_value_pad digits_value_show)
      (simp add: pad_left_def)
qed

text \<open>Printed numbers of one width sort as text exactly as they sort as numbers.\<close>

lemma length_show_radix: "2 \<le> b \<Longrightarrow> n < b ^ Suc k \<Longrightarrow> length (show_radix b n) \<le> Suc k"
proof (induction k arbitrary: n)
  case 0
  then show ?case by (subst show_radix.simps) simp
next
  case (Suc k)
  then have "n div b < b ^ Suc k" by (simp add: div_less_iff_less_mult mult.commute)
  with Suc have "length (show_radix b (n div b)) \<le> Suc k" by blast
  then show ?case by (subst show_radix.simps) simp
qed

lemma digits_value_bounds:
  "digits_value b a xs = Some v \<Longrightarrow> 0 < b \<Longrightarrow> a * b ^ length xs \<le> v \<and> v < (a + 1) * b ^ length xs"
proof (induction xs arbitrary: a)
  case (Cons x xs)
  then obtain d where d: "to_digit b x = Some d" and v: "digits_value b (a * b + d) xs = Some v"
    by (auto split: option.splits)
  from d have "d < b" by (auto simp: to_digit_def Let_def split: if_splits)
  then have "(a * b + d + 1) * b ^ length xs \<le> (a + 1) * b * b ^ length xs"
    by (intro mult_le_mono1) simp
  moreover have "a * b * b ^ length xs \<le> (a * b + d) * b ^ length xs"
    by (intro mult_le_mono1) simp
  ultimately show ?case using Cons.IH [OF v] Cons.prems(2) by (auto simp: algebra_simps)
qed simp

lemma to_digit_less_iff:
  assumes "to_digit 10 c = Some d" "to_digit 10 c' = Some d'"
  shows "c < c' \<longleftrightarrow> d < d'" "c = c' \<longleftrightarrow> d = d'"
proof -
  have "of_char c = 48 + d" "of_char c' = 48 + d'"
    using assms by (auto simp: to_digit_def Let_def split: if_splits)
  then show "c < c' \<longleftrightarrow> d < d'" "c = c' \<longleftrightarrow> d = d'"
    by (auto simp: less_char_def) (metis add_left_cancel of_char_eq_iff)
qed

lemma digits_value_less_iff:
  assumes "length xs = length ys" "digits_value 10 a xs = Some v" "digits_value 10 a ys = Some w"
  shows "xs < ys \<longleftrightarrow> v < w"
  using assms
proof (induction xs ys arbitrary: a rule: list_induct2)
  case (Cons x xs y ys)
  then obtain d e where d: "to_digit 10 x = Some d" "digits_value 10 (a * 10 + d) xs = Some v"
    and e: "to_digit 10 y = Some e" "digits_value 10 (a * 10 + e) ys = Some w"
    by (auto split: option.splits)
  note order = to_digit_less_iff [OF d(1) e(1)]
  have bound: "v < w" if "d < e" "digits_value 10 (a * 10 + d) xs = Some v"
    "digits_value 10 (a * 10 + e) ys = Some w" "length xs = length ys" for d e v w xs ys
  proof -
    have "v < (a * 10 + d + 1) * 10 ^ length xs" using digits_value_bounds [OF that(2)] by simp
    also have "\<dots> \<le> (a * 10 + e) * 10 ^ length ys"
      using that(1,4) by (intro mult_le_mono) simp_all
    also have "\<dots> \<le> w" using digits_value_bounds [OF that(3)] by simp
    finally show ?thesis .
  qed
  consider "d < e" | "d = e" | "e < d" by linarith
  then show ?case
  proof cases
    case 2
    with Cons.IH [of "a * 10 + d"] d e order show ?thesis by simp
  next
    case 1
    with bound [OF 1 d(2) e(2) Cons.hyps] order show ?thesis by simp
  next
    case 3
    with bound [OF 3 e(2) d(2) Cons.hyps [symmetric]] order show ?thesis by simp
  qed
qed simp

section \<open>Letter case\<close>

definition ascii_upper :: "char \<Rightarrow> char" where
  "ascii_upper c =
     (let n = (of_char c :: nat) in if 97 \<le> n \<and> n \<le> 122 then char_of (n - 32) else c)"

definition ascii_lower :: "char \<Rightarrow> char" where
  "ascii_lower c =
     (let n = (of_char c :: nat) in if 65 \<le> n \<and> n \<le> 90 then char_of (n + 32) else c)"

definition to_ascii_lowercase :: "str \<Rightarrow> str" where
  "to_ascii_lowercase s = map ascii_lower s"

definition eq_ignore_ascii_case :: "str \<Rightarrow> str \<Rightarrow> bool" where
  "eq_ignore_ascii_case a b = (map ascii_lower a = map ascii_lower b)"

text \<open>
  \<open>str::to_uppercase\<close>, as far as an ASCII result can tell. Beside the ASCII letters, the only
  characters whose upper case is ASCII are the sharp s, the dotless i, the long s and the Latin
  ligatures, listed here with their UTF-8 encodings. Every other character has an upper case that
  is not ASCII; it is left as it is, so comparing the result with an ASCII word gives the same
  answer as the library's.
\<close>

definition upper_specials :: "(str \<times> str) list" where
  "upper_specials =
     [([CHR 0xC3, CHR 0x9F], ''SS''), ([CHR 0xC4, CHR 0xB1], ''I''), ([CHR 0xC5, CHR 0xBF], ''S''),
      ([CHR 0xEF, CHR 0xAC, CHR 0x80], ''FF''), ([CHR 0xEF, CHR 0xAC, CHR 0x81], ''FI''),
      ([CHR 0xEF, CHR 0xAC, CHR 0x82], ''FL''), ([CHR 0xEF, CHR 0xAC, CHR 0x83], ''FFI''),
      ([CHR 0xEF, CHR 0xAC, CHR 0x84], ''FFL''), ([CHR 0xEF, CHR 0xAC, CHR 0x85], ''ST''),
      ([CHR 0xEF, CHR 0xAC, CHR 0x86], ''ST'')]"

fun to_uppercase :: "str \<Rightarrow> str" where
  "to_uppercase [] = []"
| "to_uppercase (c # s) =
     (case find (\<lambda>(w, _). prefix w (c # s)) upper_specials of
        None \<Rightarrow> ascii_upper c # to_uppercase s
      | Some (w, u) \<Rightarrow> u @ to_uppercase (drop (length w - 1) s))"

definition is_ascii :: "str \<Rightarrow> bool" where
  "is_ascii s = list_all (\<lambda>c. (of_char c :: nat) < 128) s"

lemma upper_specials_not_ascii:
  "list_all (\<lambda>(w, _). w \<noteq> [] \<and> 128 \<le> (of_char (hd w) :: nat)) upper_specials"
  by (simp add: upper_specials_def)

lemma to_uppercase_ascii: "is_ascii s \<Longrightarrow> to_uppercase s = map ascii_upper s"
proof (induction s)
  case (Cons c s)
  have "\<not> prefix w (c # s)" if "(w, u) \<in> set upper_specials" for w u
  proof
    assume "prefix w (c # s)"
    moreover have "w \<noteq> []" "128 \<le> (of_char (hd w) :: nat)"
      using upper_specials_not_ascii that by (auto simp: list_all_iff)
    ultimately show False using Cons.prems by (cases w) (simp_all add: is_ascii_def)
  qed
  then have "find (\<lambda>(w, _). prefix w (c # s)) upper_specials = None"
    by (auto simp: find_None_iff)
  with Cons show ?case by (simp add: is_ascii_def)
qed simp

declare to_uppercase.simps(2) [simp del]

section \<open>UTF-8\<close>

text \<open>
  One step of the decoder behind \<open>String::from_utf8\<close> and \<open>String::from_utf8_lossy\<close>: whether the
  bytes at the front are a character, and how many bytes that character, or the maximal invalid
  sequence there, takes.
\<close>

definition in_range :: "nat \<Rightarrow> nat \<Rightarrow> bytes \<Rightarrow> nat \<Rightarrow> bool" where
  "in_range lo hi s i \<longleftrightarrow> i < length s \<and> lo \<le> of_char (s ! i) \<and> of_char (s ! i) \<le> hi"

definition utf8_step :: "bytes \<Rightarrow> bool \<times> nat" where
  "utf8_step s =
     (let b = (of_char (hd s) :: nat); cont = in_range 0x80 0xBF s in
      if b < 0x80 then (True, 1)
      else if 0xC2 \<le> b \<and> b \<le> 0xDF then (if cont 1 then (True, 2) else (False, 1))
      else if 0xE0 \<le> b \<and> b \<le> 0xEF then
        (if in_range (if b = 0xE0 then 0xA0 else 0x80) (if b = 0xED then 0x9F else 0xBF) s 1
         then (if cont 2 then (True, 3) else (False, 2)) else (False, 1))
      else if 0xF0 \<le> b \<and> b \<le> 0xF4 then
        (if in_range (if b = 0xF0 then 0x90 else 0x80) (if b = 0xF4 then 0x8F else 0xBF) s 1
         then (if cont 2 then (if cont 3 then (True, 4) else (False, 3)) else (False, 2)) else (False, 1))
      else (False, 1))"

lemma utf8_step_pos: "0 < snd (utf8_step s)"
  by (simp add: utf8_step_def Let_def)

function utf8_valid :: "bytes \<Rightarrow> bool" where
  "utf8_valid s =
     (if s = [] then True
      else if fst (utf8_step s) then utf8_valid (drop (snd (utf8_step s)) s) else False)"
  by pat_completeness auto
termination
  by (relation "measure length") (auto simp: utf8_step_pos)

function from_utf8_lossy :: "bytes \<Rightarrow> str" where
  "from_utf8_lossy s =
     (if s = [] then []
      else (if fst (utf8_step s) then take (snd (utf8_step s)) s else [CHR 0xEF, CHR 0xBF, CHR 0xBD]) @
           from_utf8_lossy (drop (snd (utf8_step s)) s))"
  by pat_completeness auto
termination
  by (relation "measure length") (auto simp: utf8_step_pos)

declare utf8_valid.simps [simp del] from_utf8_lossy.simps [simp del]

definition from_utf8 :: "bytes \<Rightarrow> str option" where
  "from_utf8 s = (if utf8_valid s then Some s else None)"

lemma utf8_valid_Nil [simp]: "utf8_valid []"
  by (simp add: utf8_valid.simps [of "[]"])

lemma from_utf8_lossy_valid: "utf8_valid s \<Longrightarrow> from_utf8_lossy s = s"
proof (induction s rule: utf8_valid.induct)
  case (1 s)
  show ?case
  proof (cases "s = []")
    case True
    then show ?thesis by (simp add: from_utf8_lossy.simps [of "[]"])
  next
    case False
    with "1.prems" have ok: "fst (utf8_step s)" "utf8_valid (drop (snd (utf8_step s)) s)"
      by (simp_all add: utf8_valid.simps [of s] split: if_splits)
    with 1 False show ?thesis by (simp add: from_utf8_lossy.simps [of s])
  qed
qed

lemma utf8_step_ascii: "(of_char c :: nat) < 128 \<Longrightarrow> utf8_step (c # s) = (True, 1)"
  by (simp add: utf8_step_def)

lemma utf8_valid_ascii_Cons: "(of_char c :: nat) < 128 \<Longrightarrow> utf8_valid (c # s) = utf8_valid s"
  by (simp add: utf8_valid.simps [of "c # s"] utf8_step_ascii)

lemma utf8_valid_ascii: "is_ascii s \<Longrightarrow> utf8_valid s"
  by (induction s) (simp_all add: is_ascii_def utf8_valid_ascii_Cons)

text \<open>A valid string in front changes nothing about what follows it.\<close>

lemma in_range_append: "in_range lo hi s i \<Longrightarrow> in_range lo hi (s @ t) i"
  by (simp add: in_range_def nth_append)

lemma in_range_length: "in_range lo hi s i \<Longrightarrow> i < length s"
  by (simp add: in_range_def)

text \<open>The shapes of the step on a whole character, with the bounds of the second byte abstracted.\<close>

lemma utf8_step_cases:
  assumes "fst (utf8_step s)"
  obtains (one) "(of_char (hd s) :: nat) < 0x80"
  | (two) "\<not> (of_char (hd s) :: nat) < 0x80" "0xC2 \<le> (of_char (hd s) :: nat) \<and> (of_char (hd s) :: nat) \<le> 0xDF"
      "in_range 0x80 0xBF s 1"
  | (three) "\<not> (of_char (hd s) :: nat) < 0x80" "\<not> (0xC2 \<le> (of_char (hd s) :: nat) \<and> (of_char (hd s) :: nat) \<le> 0xDF)"
      "0xE0 \<le> (of_char (hd s) :: nat) \<and> (of_char (hd s) :: nat) \<le> 0xEF"
      "in_range (if (of_char (hd s) :: nat) = 0xE0 then 0xA0 else 0x80) (if (of_char (hd s) :: nat) = 0xED then 0x9F else 0xBF) s 1"
      "in_range 0x80 0xBF s 2"
  | (four) "\<not> (of_char (hd s) :: nat) < 0x80" "\<not> (0xC2 \<le> (of_char (hd s) :: nat) \<and> (of_char (hd s) :: nat) \<le> 0xDF)"
      "\<not> (0xE0 \<le> (of_char (hd s) :: nat) \<and> (of_char (hd s) :: nat) \<le> 0xEF)"
      "0xF0 \<le> (of_char (hd s) :: nat) \<and> (of_char (hd s) :: nat) \<le> 0xF4"
      "in_range (if (of_char (hd s) :: nat) = 0xF0 then 0x90 else 0x80) (if (of_char (hd s) :: nat) = 0xF4 then 0x8F else 0xBF) s 1"
      "in_range 0x80 0xBF s 2" "in_range 0x80 0xBF s 3"
proof -
  define b where "b = (of_char (hd s) :: nat)"
  define r3 where "r3 = in_range (if b = 0xE0 then 0xA0 else 0x80) (if b = 0xED then 0x9F else 0xBF) s 1"
  define r4 where "r4 = in_range (if b = 0xF0 then 0x90 else 0x80) (if b = 0xF4 then 0x8F else 0xBF) s 1"
  have "fst (if b < 0x80 then (True, 1)
      else if 0xC2 \<le> b \<and> b \<le> 0xDF then (if in_range 0x80 0xBF s 1 then (True, 2) else (False, 1))
      else if 0xE0 \<le> b \<and> b \<le> 0xEF then
        (if r3 then (if in_range 0x80 0xBF s 2 then (True, 3) else (False, 2)) else (False, 1))
      else if 0xF0 \<le> b \<and> b \<le> 0xF4 then
        (if r4 then (if in_range 0x80 0xBF s 2 then (if in_range 0x80 0xBF s 3 then (True, 4) else (False, 3))
           else (False, 2)) else (False, 1))
      else (False, 1 :: nat))"
    using assms by (simp only: utf8_step_def Let_def b_def r3_def r4_def)
  then show ?thesis
    using one [folded b_def] two [folded b_def] three [folded b_def, folded r3_def] four [folded b_def, folded r4_def]
    by (simp only: split: if_split_asm) (simp_all only: fst_conv simp_thms)
qed

lemma utf8_step_append:
  assumes "s \<noteq> []" and "fst (utf8_step s)"
  shows "utf8_step (s @ t) = utf8_step s \<and> snd (utf8_step s) \<le> length s"
proof -
  have hd: "hd (s @ t) = hd s" and len: "1 \<le> length s" using assms(1) by (simp_all add: Suc_le_eq)
  from assms(2) show ?thesis
    by (cases rule: utf8_step_cases; simp only: utf8_step_def Let_def hd in_range_append if_True if_False simp_thms snd_conv)
      (use len in \<open>auto dest: in_range_length\<close>)
qed

lemma utf8_valid_append: "utf8_valid s \<Longrightarrow> utf8_valid (s @ t) = utf8_valid t"
proof (induction s rule: utf8_valid.induct)
  case (1 s)
  show ?case
  proof (cases "s = []")
    case False
    with "1.prems" have ok: "fst (utf8_step s)" "utf8_valid (drop (snd (utf8_step s)) s)"
      by (simp_all add: utf8_valid.simps [of s] split: if_splits)
    note st = utf8_step_append [OF False ok(1)]
    have "utf8_valid (s @ t) = utf8_valid (drop (snd (utf8_step s)) s @ t)"
      using False ok(1) st by (subst utf8_valid.simps) simp
    with 1(1) [OF False ok] show ?thesis by simp
  qed simp
qed

text \<open>Induction over the characters of a valid string.\<close>

definition utf8_char :: "bytes \<Rightarrow> bool" where
  "utf8_char c \<longleftrightarrow> c \<noteq> [] \<and> utf8_step c = (True, length c)"

lemma in_range_take: "in_range lo hi (take n s) i \<longleftrightarrow> i < n \<and> in_range lo hi s i"
  by (auto simp: in_range_def)

lemma utf8_step_take:
  assumes "s \<noteq> []" and "fst (utf8_step s)"
  shows "utf8_char (take (snd (utf8_step s)) s)"
proof -
  let ?n = "snd (utf8_step s)"
  have pos: "0 < ?n" by (rule utf8_step_pos)
  have le: "?n \<le> length s" using utf8_step_append [OF assms] by simp
  have hd: "hd (take ?n s) = hd s" using assms(1) pos by (cases s; cases ?n) auto
  have "utf8_step (take ?n s) = (True, ?n)"
    using assms(2)
    by (cases rule: utf8_step_cases; simp only: utf8_step_def Let_def hd in_range_take if_True if_False simp_thms snd_conv)
      simp_all
  with pos le assms(1) show ?thesis by (simp add: utf8_char_def min_def)
qed

lemma utf8_char_valid: "utf8_char c \<Longrightarrow> utf8_valid c"
  by (subst utf8_valid.simps) (simp add: utf8_char_def)

lemma utf8_valid_induct [consumes 1, case_names Nil Char]:
  assumes "utf8_valid s" and "P []" and "\<And>c s. utf8_char c \<Longrightarrow> utf8_valid s \<Longrightarrow> P s \<Longrightarrow> P (c @ s)"
  shows "P s"
  using assms(1)
proof (induction s rule: utf8_valid.induct)
  case (1 s)
  show ?case
  proof (cases "s = []")
    case False
    with "1.prems" have ok: "fst (utf8_step s)" "utf8_valid (drop (snd (utf8_step s)) s)"
      by (simp_all add: utf8_valid.simps [of s] split: if_splits)
    have "P (take (snd (utf8_step s)) s @ drop (snd (utf8_step s)) s)"
      by (rule assms(3) [OF utf8_step_take [OF False ok(1)] ok(2) 1(1) [OF False ok]])
    then show ?thesis by simp
  qed (simp add: assms(2))
qed

lemma utf8_char_cases:
  assumes "utf8_char c"
  shows "(\<exists>b. c = [b] \<and> (of_char b :: nat) < 128) \<or> (\<forall>b \<in> set c. 128 \<le> (of_char b :: nat) \<and> (of_char b :: nat) \<le> 0xF4)"
proof -
  have ne: "c \<noteq> []" and step: "utf8_step c = (True, length c)" and ok: "fst (utf8_step c)"
    using assms by (simp_all add: utf8_char_def)
  have multi: "\<forall>b \<in> set c. 128 \<le> (of_char b :: nat) \<and> (of_char b :: nat) \<le> 0xF4"
    if "128 \<le> (of_char (hd c) :: nat)" "(of_char (hd c) :: nat) \<le> 0xF4"
      "\<And>i. 0 < i \<Longrightarrow> i < length c \<Longrightarrow> in_range 0x80 0xBF c i"
  proof
    fix b assume "b \<in> set c"
    then obtain i where i: "i < length c" "b = c ! i" by (auto simp: in_set_conv_nth)
    show "128 \<le> (of_char b :: nat) \<and> (of_char b :: nat) \<le> 0xF4"
    proof (cases "i = 0")
      case True
      with i ne that(1,2) show ?thesis by (simp add: hd_conv_nth)
    next
      case False
      then have "0 < i" by simp
      from that(3) [OF this i(1)] i show ?thesis by (simp add: in_range_def)
    qed
  qed
  have widen: "in_range lo hi c i \<Longrightarrow> 0x80 \<le> lo \<Longrightarrow> hi \<le> 0xBF \<Longrightarrow> in_range 0x80 0xBF c i" for lo hi i
    by (auto simp: in_range_def)
  from ok show ?thesis
  proof (cases rule: utf8_step_cases)
    case one
    with step have "length c = 1" by (simp add: utf8_step_def)
    with one show ?thesis by (cases c) auto
  next
    case two
    with step have l: "length c = 2" by (simp add: utf8_step_def)
    show ?thesis by (rule disjI2, rule multi) (use two l in \<open>auto simp: less_Suc_eq numeral_2_eq_2\<close>)
  next
    case three
    with step have l: "length c = 3" by (simp only: utf8_step_def Let_def if_True if_False simp_thms) simp
    have one: "in_range 0x80 0xBF c 1" by (rule widen [OF three(4)]) auto
    have "in_range 0x80 0xBF c i" if "0 < i" "i < length c" for i
    proof -
      from that l have "i = 1 \<or> i = 2" by arith
      with one three(5) show ?thesis by blast
    qed
    with three show ?thesis by (intro disjI2 multi) auto
  next
    case four
    with step have l: "length c = 4" by (simp only: utf8_step_def Let_def if_True if_False simp_thms) simp
    have one: "in_range 0x80 0xBF c 1" by (rule widen [OF four(5)]) auto
    have "in_range 0x80 0xBF c i" if "0 < i" "i < length c" for i
    proof -
      from that l have "i = 1 \<or> i = 2 \<or> i = 3" by arith
      with one four(6,7) show ?thesis by blast
    qed
    with four show ?thesis by (intro disjI2 multi) auto
  qed
qed

lemma utf8_valid_bytes: "utf8_valid s \<Longrightarrow> b \<in> set s \<Longrightarrow> (of_char b :: nat) \<le> 0xF4"
proof (induction rule: utf8_valid_induct)
  case (Char c s)
  then show ?case using utf8_char_cases [OF Char(1)] by auto
qed simp

text \<open>Rewriting single ASCII characters by ASCII text keeps a string valid.\<close>

lemma utf8_valid_rewrite:
  assumes "utf8_valid s" and "\<And>c. (of_char c :: nat) < 128 \<Longrightarrow> is_ascii (f c)"
    and "\<And>c. 128 \<le> (of_char c :: nat) \<Longrightarrow> f c = [c]"
  shows "utf8_valid (concat (map f s))"
  using assms(1)
proof (induction rule: utf8_valid_induct)
  case (Char c s)
  from utf8_char_cases [OF Char(1)] show ?case
  proof
    assume "\<exists>b. c = [b] \<and> (of_char b :: nat) < 128"
    then obtain b where "c = [b]" "(of_char b :: nat) < 128" by blast
    with assms(2) Char(3) show ?thesis by (simp add: utf8_valid_append utf8_valid_ascii)
  next
    assume *: "\<forall>b \<in> set c. 128 \<le> (of_char b :: nat) \<and> (of_char b :: nat) \<le> 0xF4"
    then have "concat (map f c) = c" using assms(3) by (induction c) auto
    with Char show ?thesis by (simp add: utf8_valid_append utf8_char_valid)
  qed
qed simp

section \<open>Lines of keys and values\<close>

text \<open>A line \<open>key=value\<close>, as the small text files of the database have them.\<close>

definition key_value :: "str \<Rightarrow> str \<Rightarrow> str" where
  "key_value k v = k @ CHR ''='' # v"

definition visible_text :: "str \<Rightarrow> bool" where
  "visible_text s \<longleftrightarrow> (\<forall>c \<in> set s. visible c)"

lemma visible_text_simps [simp]:
  "visible_text []" "visible_text (c # s) \<longleftrightarrow> visible c \<and> visible_text s"
  "visible_text (s @ t) \<longleftrightarrow> visible_text s \<and> visible_text t"
  by (auto simp: visible_text_def)

lemma visible_text_key_value [simp]: "visible_text (key_value k v) \<longleftrightarrow> visible_text k \<and> visible_text v"
  by (simp add: key_value_def visible_def)

lemma visible_text_show [simp]: "2 \<le> b \<Longrightarrow> b \<le> 16 \<Longrightarrow> visible_text (show_radix b n)"
  by (simp add: visible_text_def show_radix_visible del: show_radix.simps)

lemma visible_text_pad [simp]: "visible_text s \<Longrightarrow> visible_text (pad_left w s)"
  by (auto simp: visible_text_def pad_left_def visible_def)

lemma trim_visible_text: "visible_text s \<Longrightarrow> trim s = s"
  by (rule trim_visible) (metis hd_in_set last_in_set visible_text_def)

lemma plain_visible_text: "visible_text s \<Longrightarrow> plain_line s"
  using last_in_set [of s] by (fastforce simp: visible_text_def plain_line_def visible_def)

lemma visible_text_ascii: "visible_text s \<Longrightarrow> is_ascii s"
  by (auto simp: visible_text_def is_ascii_def visible_def list_all_iff)

lemma is_ascii_simps [simp]:
  "is_ascii []" "is_ascii (c # s) \<longleftrightarrow> (of_char c :: nat) < 128 \<and> is_ascii s"
  "is_ascii (s @ t) \<longleftrightarrow> is_ascii s \<and> is_ascii t"
  by (auto simp: is_ascii_def)

lemma is_ascii_unlines: "\<forall>l \<in> set ls. is_ascii l \<Longrightarrow> is_ascii (unlines ls)"
  by (induction ls) (auto simp: unlines_def)

lemma unlines_simps [simp]:
  "unlines [] = []" "unlines (l # ls) = l @ newline # unlines ls"
  "unlines (ls @ ms) = unlines ls @ unlines ms"
  by (simp_all add: unlines_def)

lemma last_unlines: "ls \<noteq> [] \<Longrightarrow> unlines ls \<noteq> [] \<and> last (unlines ls) = newline"
  by (induction ls) (auto simp: unlines_def)

lemma split_once_key_value: "CHR ''='' \<notin> set k \<Longrightarrow> split_once (CHR ''='') (key_value k v) = Some (k, v)"
  by (simp add: key_value_def split_once_append)

end
