(* ===== verification/Models.thy ===== *)
theory Models
  imports Rust_Text
begin

text \<open>
  The record of \<^verbatim>\<open>db/models.rs\<close>: fields of values of sub-values, stored as one byte string with
  three mark bytes, and the two text views of it (display and edit strings). Then the pieces of the
  same file that say how a row of an exploded listing reads a column: \<open>ValuePosition\<close>,
  \<open>AssociationDepth\<close>, \<open>Association\<close>, \<open>Narrowing\<close>, \<open>ExplodeTarget\<close>, and the select list.

  Shown: the stored form loses nothing in either direction, exactly when it does, and what the text
  views keep; a position out of range renders empty; a select list's distinct keys.
\<close>

section \<open>Records and their stored form\<close>

definition FM :: byte where "FM = CHR 0xFE"
definition VM :: byte where "VM = CHR 0xFD"
definition SVM :: byte where "SVM = CHR 0xFC"

lemma marks_distinct [simp]: "FM \<noteq> VM" "FM \<noteq> SVM" "VM \<noteq> SVM" "VM \<noteq> FM" "SVM \<noteq> FM" "SVM \<noteq> VM"
  by (simp_all add: FM_def VM_def SVM_def)

type_synonym SubValue = bytes

record Value =
  sub_values :: "SubValue list"

record Field =
  field_values :: "Value list"

record Record =
  rec_fields :: "Field list"

text \<open>\<open>text_of\<close> and the \<open>Value\<close> constructors. A string is its bytes, so \<open>text\<close> and \<open>bytes\<close> agree.\<close>

definition text_of :: "bytes \<Rightarrow> str" where
  "text_of bs = from_utf8_lossy bs"

definition Value_text :: "str \<Rightarrow> Value" where
  "Value_text s = \<lparr>sub_values = [s]\<rparr>"

definition Value_bytes :: "bytes \<Rightarrow> Value" where
  "Value_bytes b = \<lparr>sub_values = [b]\<rparr>"

definition Value_texts :: "str list \<Rightarrow> Value" where
  "Value_texts subs = \<lparr>sub_values = subs\<rparr>"

definition first_text :: "Value \<Rightarrow> str option" where
  "first_text v = (case sub_values v of [] \<Rightarrow> None | s # _ \<Rightarrow> Some (text_of s))"

definition first_bytes :: "Value \<Rightarrow> bytes" where
  "first_bytes v = (case sub_values v of [] \<Rightarrow> [] | s # _ \<Rightarrow> s)"

definition into_field :: "Value \<Rightarrow> Field" where
  "into_field v = \<lparr>field_values = [v]\<rparr>"

definition Record_new :: Record where
  "Record_new = \<lparr>rec_fields = []\<rparr>"

definition value_of_bytes :: "bytes \<Rightarrow> Value" where
  "value_of_bytes v = \<lparr>sub_values = split_on SVM v\<rparr>"

definition field_of_bytes :: "bytes \<Rightarrow> Field" where
  "field_of_bytes f = \<lparr>field_values = map value_of_bytes (split_on VM f)\<rparr>"

definition from_bytes :: "bytes \<Rightarrow> Record" where
  "from_bytes data =
     (if data = [] then \<lparr>rec_fields = []\<rparr> else \<lparr>rec_fields = map field_of_bytes (split_on FM data)\<rparr>)"

text \<open>
  The three nested loops of \<open>to_bytes\<close>: each pushes its mark before every element but the first,
  which is \<open>join_with\<close>.
\<close>

definition value_to_bytes :: "Value \<Rightarrow> bytes" where
  "value_to_bytes v = join_with SVM (sub_values v)"

definition field_to_bytes :: "Field \<Rightarrow> bytes" where
  "field_to_bytes f = join_with VM (map value_to_bytes (field_values f))"

definition to_bytes :: "Record \<Rightarrow> bytes" where
  "to_bytes r = join_with FM (map field_to_bytes (rec_fields r))"

definition from_attributes :: "str list \<Rightarrow> Record" where
  "from_attributes attributes = \<lparr>rec_fields = map (\<lambda>a. \<lparr>field_values = [Value_text a]\<rparr>) attributes\<rparr>"

text \<open>
  \<open>version\<close>: the token of a conditional write, sixteen hex digits of a digest of the stored bytes.
  The digest (the \<open>sha2\<close> crate) is a parameter. It returns the digest's bytes, of which the first
  eight are printed.
\<close>

definition hex_encode :: "bytes \<Rightarrow> str" where
  "hex_encode bs = concat (map (\<lambda>b. [digit_char (of_char b div 16), digit_char (of_char b mod 16)]) bs)"

definition version :: "(bytes \<Rightarrow> bytes) \<Rightarrow> Record \<Rightarrow> str" where
  "version sha256 r = hex_encode (take 8 (sha256 (to_bytes r)))"

section \<open>Text views\<close>

definition display_char :: "byte \<Rightarrow> byte" where
  "display_char b =
     (if b = FM then CHR ''^'' else if b = VM then CHR '']'' else if b = SVM then CHR 0x5C else b)"

definition to_display_chars :: "bytes \<Rightarrow> str" where
  "to_display_chars bs = from_utf8_lossy (map display_char bs)"

definition to_display_string :: "Record \<Rightarrow> str" where
  "to_display_string r = to_display_chars (to_bytes r)"

definition undisplay_char :: "byte \<Rightarrow> byte" where
  "undisplay_char b =
     (if b = CHR ''^'' then FM else if b = CHR '']'' then VM else if b = CHR 0x5C then SVM else b)"

definition from_display_string :: "str \<Rightarrow> Record" where
  "from_display_string s = from_bytes (map undisplay_char s)"

definition edit_char :: "byte \<Rightarrow> byte" where
  "edit_char b =
     (if b = FM then newline else if b = VM then CHR '']'' else if b = SVM then CHR 0x5C else b)"

definition to_edit_string :: "Record \<Rightarrow> str" where
  "to_edit_string r = from_utf8_lossy (map edit_char (to_bytes r))"

definition unedit_char :: "byte \<Rightarrow> byte" where
  "unedit_char b =
     (if b = newline then FM else if b = CHR '']'' then VM else if b = CHR 0x5C then SVM else b)"

definition from_edit_string :: "str \<Rightarrow> Record" where
  "from_edit_string s =
     (let content = (if s \<noteq> [] \<and> last s = newline then butlast s else s)
      in from_bytes (map unedit_char content))"

record ValuePosition =
  pos_value :: nat
  pos_sub_value :: "nat option"

definition position_value :: "nat \<Rightarrow> ValuePosition" where
  "position_value v = \<lparr>pos_value = v, pos_sub_value = None\<rparr>"

definition position_sub_value :: "nat \<Rightarrow> nat \<Rightarrow> ValuePosition" where
  "position_sub_value v sv = \<lparr>pos_value = v, pos_sub_value = Some sv\<rparr>"

text \<open>\<open>slice::get\<close>: \<open>None\<close> out of range.\<close>

definition get_at :: "'a list \<Rightarrow> nat \<Rightarrow> 'a option" where
  "get_at xs i = (if i < length xs then Some (xs ! i) else None)"

definition get_field_display_string :: "Record \<Rightarrow> nat \<Rightarrow> str" where
  "get_field_display_string r field_idx =
     (case get_at (rec_fields r) field_idx of
        Some field \<Rightarrow> to_display_chars (field_to_bytes field)
      | None \<Rightarrow> [])"

definition get_value_display_string :: "Record \<Rightarrow> nat \<Rightarrow> ValuePosition option \<Rightarrow> str" where
  "get_value_display_string r field_idx pos =
     (case pos of None \<Rightarrow> get_field_display_string r field_idx
      | Some p \<Rightarrow>
        (case get_at (rec_fields r) field_idx of None \<Rightarrow> []
         | Some field \<Rightarrow>
           (case get_at (field_values field) (pos_value p) of None \<Rightarrow> []
            | Some v \<Rightarrow>
              (case pos_sub_value p of
                 Some sv \<Rightarrow> (case get_at (sub_values v) sv of Some s \<Rightarrow> to_display_chars s | None \<Rightarrow> [])
               | None \<Rightarrow> to_display_chars (value_to_bytes v)))))"

section \<open>Associations and positions\<close>

datatype AssociationDepth = AssocValue | AssocSubValue

definition ASSOC_VALUE :: str where "ASSOC_VALUE = ''V''"
definition ASSOC_SUB_VALUE :: str where "ASSOC_SUB_VALUE = ''S''"

definition depth_from_attribute :: "str \<Rightarrow> AssociationDepth" where
  "depth_from_attribute s =
     (if eq_ignore_ascii_case (trim s) ASSOC_SUB_VALUE then AssocSubValue else AssocValue)"

definition depth_as_attribute :: "AssociationDepth \<Rightarrow> str" where
  "depth_as_attribute d = (case d of AssocValue \<Rightarrow> ASSOC_VALUE | AssocSubValue \<Rightarrow> ASSOC_SUB_VALUE)"

record AssociationMember =
  member_name :: str
  member_index :: nat
  member_depth :: AssociationDepth

record Association =
  controller :: str
  members :: "AssociationMember list"

definition assoc_member :: "Association \<Rightarrow> str \<Rightarrow> AssociationMember option" where
  "assoc_member a name = find (\<lambda>m. member_name m = name) (members a)"

definition assoc_member_at :: "Association \<Rightarrow> nat \<Rightarrow> AssociationMember option" where
  "assoc_member_at a idx = find (\<lambda>m. member_index m = idx) (members a)"

definition has_sub_value_tier :: "Association \<Rightarrow> bool" where
  "has_sub_value_tier a = list_ex (\<lambda>m. member_depth m = AssocSubValue) (members a)"

datatype Narrowing = Whole | AsGiven | ValueOnly

definition narrowing_apply :: "Narrowing \<Rightarrow> ValuePosition option \<Rightarrow> ValuePosition option" where
  "narrowing_apply n position =
     (case n of Whole \<Rightarrow> None
      | AsGiven \<Rightarrow> position
      | ValueOnly \<Rightarrow> map_option (\<lambda>pos. position_value (pos_value pos)) position)"

datatype ExplodeTarget = ExplodeField str nat | ExplodeGroup Association

definition target_indices :: "ExplodeTarget \<Rightarrow> nat list" where
  "target_indices t =
     (case t of ExplodeField _ idx \<Rightarrow> [idx] | ExplodeGroup g \<Rightarrow> map member_index (members g))"

definition target_group :: "ExplodeTarget \<Rightarrow> Association option" where
  "target_group t = (case t of ExplodeField _ _ \<Rightarrow> None | ExplodeGroup g \<Rightarrow> Some g)"

definition narrowing_at :: "ExplodeTarget \<Rightarrow> nat \<Rightarrow> Narrowing" where
  "narrowing_at t field_idx =
     (case t of
        ExplodeField _ idx \<Rightarrow> (if idx = field_idx then AsGiven else Whole)
      | ExplodeGroup g \<Rightarrow>
          (case assoc_member_at g field_idx of
             Some member \<Rightarrow> (if member_depth member = AssocSubValue then AsGiven else ValueOnly)
           | None \<Rightarrow> Whole))"

definition position_at :: "ExplodeTarget \<Rightarrow> nat \<Rightarrow> ValuePosition option \<Rightarrow> ValuePosition option" where
  "position_at t field_idx position = narrowing_apply (narrowing_at t field_idx) position"

section \<open>Select lists\<close>

record SelectEntry =
  entry_key :: str
  entry_position :: "ValuePosition option"

definition SelectEntry_new :: "str \<Rightarrow> SelectEntry" where
  "SelectEntry_new k = \<lparr>entry_key = k, entry_position = None\<rparr>"

definition SelectEntry_at :: "str \<Rightarrow> ValuePosition \<Rightarrow> SelectEntry" where
  "SelectEntry_at k p = \<lparr>entry_key = k, entry_position = Some p\<rparr>"

record SelectList =
  sel_table_name :: str
  sel_is_dict :: bool
  sel_explode_field :: "str option"
  sel_entries :: "SelectEntry list"

record RemoteSelectList =
  remote_account :: str
  remote_list :: SelectList
  remote_cursor :: nat

definition RemoteSelectList_new :: "str \<Rightarrow> SelectList \<Rightarrow> RemoteSelectList" where
  "RemoteSelectList_new account l = \<lparr>remote_account = account, remote_list = l, remote_cursor = 0\<rparr>"

definition SelectList_from_keys :: "str \<Rightarrow> bool \<Rightarrow> str list \<Rightarrow> SelectList" where
  "SelectList_from_keys name dict ks =
     \<lparr>sel_table_name = name, sel_is_dict = dict, sel_explode_field = None, sel_entries = map SelectEntry_new ks\<rparr>"

definition select_keys :: "SelectList \<Rightarrow> str list" where
  "select_keys l = map entry_key (sel_entries l)"

text \<open>\<open>unique_keys\<close>: the filter keeps an entry when its key was not seen before.\<close>

fun unique_from :: "str list \<Rightarrow> str list \<Rightarrow> str list" where
  "unique_from seen [] = []"
| "unique_from seen (k # ks) =
     (if k \<in> set seen then unique_from seen ks else k # unique_from (k # seen) ks)"

definition unique_keys :: "SelectList \<Rightarrow> str list" where
  "unique_keys l = unique_from [] (select_keys l)"

section \<open>Lemmas\<close>

named_theorems record_views "definitions of the stored form and the text views, for evaluation"
declare FM_def [record_views] VM_def [record_views] SVM_def [record_views]
  value_of_bytes_def [record_views] field_of_bytes_def [record_views] from_bytes_def [record_views]
  value_to_bytes_def [record_views] field_to_bytes_def [record_views] to_bytes_def [record_views]
  display_char_def [record_views] undisplay_char_def [record_views]

lemma value_to_bytes_of_bytes [simp]: "value_to_bytes (value_of_bytes v) = v"
  by (simp add: value_to_bytes_def value_of_bytes_def)

lemma field_to_bytes_of_bytes [simp]: "field_to_bytes (field_of_bytes f) = f"
  by (simp add: field_to_bytes_def field_of_bytes_def comp_def)

lemma to_bytes_from_bytes [simp]: "to_bytes (from_bytes data) = data"
  by (simp add: to_bytes_def from_bytes_def comp_def)

text \<open>What a record must look like to be the reading of some bytes.\<close>

definition value_stored :: "Value \<Rightarrow> bool" where
  "value_stored v \<longleftrightarrow> sub_values v \<noteq> [] \<and>
     (\<forall>s \<in> set (sub_values v). FM \<notin> set s \<and> VM \<notin> set s \<and> SVM \<notin> set s)"

definition field_stored :: "Field \<Rightarrow> bool" where
  "field_stored f \<longleftrightarrow> field_values f \<noteq> [] \<and> (\<forall>v \<in> set (field_values f). value_stored v)"

definition record_stored :: "Record \<Rightarrow> bool" where
  "record_stored r \<longleftrightarrow> (\<forall>f \<in> set (rec_fields r). field_stored f) \<and> (to_bytes r = [] \<longrightarrow> rec_fields r = [])"

lemma value_of_to_bytes: "value_stored v \<Longrightarrow> value_of_bytes (value_to_bytes v) = v"
  by (cases v) (auto simp: value_stored_def value_of_bytes_def value_to_bytes_def split_join_with)

lemma value_to_bytes_no_mark:
  "value_stored v \<Longrightarrow> FM \<notin> set (value_to_bytes v) \<and> VM \<notin> set (value_to_bytes v)"
  by (auto simp: value_stored_def value_to_bytes_def join_with_elem)

lemma field_of_to_bytes: "field_stored f \<Longrightarrow> field_of_bytes (field_to_bytes f) = f"
proof -
  assume f: "field_stored f"
  then have "split_on VM (field_to_bytes f) = map value_to_bytes (field_values f)"
    unfolding field_to_bytes_def
    by (intro split_join_with) (auto simp: field_stored_def dest: value_to_bytes_no_mark)
  moreover have "map (value_of_bytes \<circ> value_to_bytes) (field_values f) = field_values f"
    using f by (intro map_idI) (simp add: field_stored_def value_of_to_bytes)
  ultimately show ?thesis by (simp add: field_of_bytes_def)
qed

lemma field_to_bytes_no_mark: "field_stored f \<Longrightarrow> FM \<notin> set (field_to_bytes f)"
  by (auto simp: field_stored_def field_to_bytes_def join_with_elem dest: value_to_bytes_no_mark)

lemma from_to_bytes: "record_stored r \<Longrightarrow> from_bytes (to_bytes r) = r"
proof (cases "rec_fields r = []")
  case False
  assume r: "record_stored r"
  with False have "split_on FM (to_bytes r) = map field_to_bytes (rec_fields r)"
    unfolding to_bytes_def
    by (intro split_join_with) (auto simp: record_stored_def dest: field_to_bytes_no_mark)
  moreover have "map (field_of_bytes \<circ> field_to_bytes) (rec_fields r) = rec_fields r"
    using r by (intro map_idI) (simp add: record_stored_def field_of_to_bytes)
  ultimately show ?thesis using r False by (simp add: from_bytes_def record_stored_def)
qed (simp add: from_bytes_def to_bytes_def)

lemma value_stored_of_bytes: "FM \<notin> set v \<Longrightarrow> VM \<notin> set v \<Longrightarrow> value_stored (value_of_bytes v)"
  using split_on_pieces [of _ SVM v] by (auto simp: value_stored_def value_of_bytes_def)

lemma field_stored_of_bytes: "FM \<notin> set f \<Longrightarrow> field_stored (field_of_bytes f)"
  using split_on_pieces [of _ VM f]
  by (auto simp: field_stored_def field_of_bytes_def intro!: value_stored_of_bytes)

lemma record_stored_from_bytes: "record_stored (from_bytes data)"
proof -
  have "\<forall>f \<in> set (rec_fields (from_bytes data)). field_stored f"
    using split_on_pieces [of _ FM data]
    by (auto simp: from_bytes_def intro!: field_stored_of_bytes)
  then show ?thesis by (simp add: record_stored_def) (simp add: from_bytes_def)
qed

text \<open>A display string that holds no byte above 127 reads back as the same record.\<close>

lemma undisplay_display_char:
  "b \<noteq> CHR ''^'' \<Longrightarrow> b \<noteq> CHR '']'' \<Longrightarrow> b \<noteq> CHR 0x5C \<Longrightarrow> undisplay_char (display_char b) = b"
  by (auto simp: undisplay_char_def display_char_def FM_def VM_def SVM_def)

lemma display_undisplay_char:
  "b \<noteq> FM \<Longrightarrow> b \<noteq> VM \<Longrightarrow> b \<noteq> SVM \<Longrightarrow> display_char (undisplay_char b) = b"
  by (auto simp: undisplay_char_def display_char_def)

lemma unedit_edit_char:
  "b \<noteq> newline \<Longrightarrow> b \<noteq> CHR '']'' \<Longrightarrow> b \<noteq> CHR 0x5C \<Longrightarrow> unedit_char (edit_char b) = b"
  by (auto simp: unedit_char_def edit_char_def FM_def VM_def SVM_def)

lemma from_display_to_display:
  assumes "utf8_valid (map display_char (to_bytes r))"
    and "\<forall>b \<in> set (to_bytes r). b \<noteq> CHR ''^'' \<and> b \<noteq> CHR '']'' \<and> b \<noteq> CHR 0x5C"
  shows "from_display_string (to_display_string r) = from_bytes (to_bytes r)"
proof -
  have "map undisplay_char (map display_char (to_bytes r)) = to_bytes r"
    unfolding map_map by (intro map_idI) (use assms(2) in \<open>simp add: undisplay_display_char\<close>)
  then show ?thesis
    using assms(1)
    by (simp add: from_display_string_def to_display_string_def to_display_chars_def
        from_utf8_lossy_valid del: map_map)
qed

lemma from_edit_to_edit:
  assumes "utf8_valid (map edit_char (to_bytes r))"
    and "\<forall>b \<in> set (to_bytes r). b \<noteq> newline \<and> b \<noteq> CHR '']'' \<and> b \<noteq> CHR 0x5C"
    and "to_bytes r = [] \<or> last (to_bytes r) \<noteq> FM"
  shows "from_edit_string (to_edit_string r) = from_bytes (to_bytes r)"
proof -
  have inv: "map unedit_char (map edit_char (to_bytes r)) = to_bytes r"
    unfolding map_map by (intro map_idI) (use assms(2) in \<open>simp add: unedit_edit_char\<close>)
  have "map edit_char (to_bytes r) = [] \<or> last (map edit_char (to_bytes r)) \<noteq> newline"
    using assms(2,3) by (cases "to_bytes r = []") (auto simp: last_map edit_char_def)
  then show ?thesis
    using assms(1) inv
    by (auto simp: from_edit_string_def to_edit_string_def from_utf8_lossy_valid Let_def simp del: map_map)
qed

lemma unique_from_spec:
  "set (unique_from seen ks) = set ks - set seen \<and> distinct (unique_from seen ks)"
  by (induction seen ks rule: unique_from.induct) auto

lemma unique_from_subseq: "subseq (unique_from seen ks) ks"
  by (induction seen ks rule: unique_from.induct) auto

lemma depth_round_trip: "depth_from_attribute (depth_as_attribute d) = d"
  by (cases d) (simp_all add: depth_from_attribute_def depth_as_attribute_def ASSOC_VALUE_def
      ASSOC_SUB_VALUE_def eq_ignore_ascii_case_def ascii_lower_def trim_visible visible_def)

section \<open>Properties\<close>

text \<open>
  Reading stored bytes and storing them again gives back exactly those bytes, whatever they
  are, text or not: no record is changed by being loaded and flushed.
\<close>

theorem record_bytes_lossless: "to_bytes (from_bytes data) = data"
  by (rule to_bytes_from_bytes)

text \<open>
  C32. A record that is stored and read back is the same record exactly when it is in stored shape:
  every field has a value and every value a sub-value, no sub-value holds a mark byte, and the
  record is not the one field holding one empty sub-value.
\<close>

theorem record_round_trip_iff: "from_bytes (to_bytes r) = r \<longleftrightarrow> record_stored r"
  using from_to_bytes [of r] record_stored_from_bytes [of "to_bytes r"] by auto

text \<open>
  The comment on \<open>to_bytes\<close> promises the round trip for every record whose sub-values hold no
  mark byte. It fails for the record of one empty attribute, which \<open>from_attributes\<close> builds from
  one empty text, and for a record whose field holds no value: both hold no mark byte and neither
  comes back.
\<close>

theorem record_round_trip_gaps:
  "from_bytes (to_bytes (from_attributes [''''])) \<noteq> from_attributes [''''] \<and>
   from_bytes (to_bytes \<lparr>rec_fields = [\<lparr>field_values = []\<rparr>, \<lparr>field_values = []\<rparr>]\<rparr>)
     \<noteq> \<lparr>rec_fields = [\<lparr>field_values = []\<rparr>, \<lparr>field_values = []\<rparr>]\<rparr>"
  by (simp add: record_views from_attributes_def Value_text_def)

text \<open>
  A position names one cell or nothing. A row's position is read at an existing sub-value or
  value and renders exactly that part, and any index out of range renders empty instead of
  failing, so a select list may outlive an edit to its records.
\<close>

theorem value_display_cases:
  "get_value_display_string r i (Some (position_sub_value v s)) =
     (if i < length (rec_fields r) \<and> v < length (field_values (rec_fields r ! i)) \<and>
         s < length (sub_values (field_values (rec_fields r ! i) ! v))
      then to_display_chars (sub_values (field_values (rec_fields r ! i) ! v) ! s) else []) \<and>
   get_value_display_string r i (Some (position_value v)) =
     (if i < length (rec_fields r) \<and> v < length (field_values (rec_fields r ! i))
      then to_display_chars (join_with SVM (sub_values (field_values (rec_fields r ! i) ! v))) else [])"
  by (simp add: get_value_display_string_def position_sub_value_def position_value_def get_at_def
      value_to_bytes_def)

end
