(* ===== verification/Checksum.thy ===== *)
theory Checksum
  imports Rust_Text
begin

unbundle bit_operations_syntax

text \<open>
  The arithmetic of \<^verbatim>\<open>db/hashfile.rs\<close>: the CRC32C every on-disk format carries, on 32-bit words and
  with the lookup table the code builds at compile time; the FNV-1a hash that places a key in a
  group, on 64-bit words; and the modulus policy, with the 64-bit wrap-around of its products
  written out.

  Shown: the table-driven checksum is the bitwise one; it may be fed in pieces; it detects every
  change of up to four consecutive bytes; the modulus the policy picks is the smallest power of two
  that holds the records, it is found for every record count that fits a disk, and a flush never
  changes its mind about it; the two forecasts agree with the policy.
\<close>

section \<open>The checksum\<close>

datatype FsyncPolicy = Always | MetaOnly | Never

definition FsyncPolicy_default :: FsyncPolicy where "FsyncPolicy_default = Never"

definition fsync_from_config :: "str option \<Rightarrow> FsyncPolicy" where
  "fsync_from_config v =
     (case map_option (\<lambda>x. to_ascii_lowercase (trim x)) v of
        None \<Rightarrow> FsyncPolicy_default
      | Some s \<Rightarrow>
          (if s = ''always'' then Always
           else if s = ''meta'' then MetaOnly
           else if s = ''never'' \<or> s = ''none'' \<or> s = ''off'' then Never
           else FsyncPolicy_default))"

definition syncs_groups :: "FsyncPolicy \<Rightarrow> bool" where "syncs_groups p = (p = Always)"
definition syncs_meta :: "FsyncPolicy \<Rightarrow> bool" where "syncs_meta p = (p \<noteq> Never)"

definition crc_bit :: "32 word \<Rightarrow> 32 word" where
  "crc_bit crc = (if crc AND 1 \<noteq> 0 then drop_bit 1 crc XOR 0x82F63B78 else drop_bit 1 crc)"

definition CRC32C_TABLE :: "32 word list" where
  "CRC32C_TABLE = map (\<lambda>i. (crc_bit ^^ 8) (of_nat i)) [0..<256]"

definition crc_byte :: "byte \<Rightarrow> 32 word" where
  "crc_byte b = of_nat (of_char b)"

definition crc_step :: "byte \<Rightarrow> 32 word \<Rightarrow> 32 word" where
  "crc_step b crc = drop_bit 8 crc XOR CRC32C_TABLE ! unat ((crc XOR crc_byte b) AND 0xFF)"

definition crc_new :: "32 word" where "crc_new = 0xFFFFFFFF"

definition crc_update :: "bytes \<Rightarrow> 32 word \<Rightarrow> 32 word" where
  "crc_update data crc = fold crc_step data crc"

definition crc_finish :: "32 word \<Rightarrow> 32 word" where "crc_finish crc = NOT crc"

definition crc32c :: "bytes \<Rightarrow> 32 word" where
  "crc32c data = crc_finish (crc_update data crc_new)"

lemma crc_bit_alt: "crc_bit x = drop_bit 1 x XOR (if bit x 0 then 0x82F63B78 else 0)"
proof -
  have "x AND 1 \<noteq> 0 \<longleftrightarrow> bit x 0"
    by (simp add: and_one_eq bit_0 mod2_eq_if)
  then show ?thesis by (simp add: crc_bit_def)
qed

lemma crc_bit_0 [simp]: "crc_bit 0 = 0"
  by (simp add: crc_bit_alt)

lemma crc_bit_xor: "crc_bit (x XOR y) = crc_bit x XOR crc_bit y"
  by (cases "bit x 0"; cases "bit y 0")
    (simp_all add: crc_bit_alt bit_xor_iff drop_bit_xor ac_simps xor.left_commute)

lemma crc_pow_xor: "(crc_bit ^^ n) (x XOR y) = (crc_bit ^^ n) x XOR (crc_bit ^^ n) y"
  by (induction n) (simp_all add: crc_bit_xor)

lemma bit_crc_bit_31: "bit (crc_bit x) 31 \<longleftrightarrow> bit x 0"
proof -
  have "bit (0x82F63B78 :: 32 word) 31" by simp
  moreover have "\<not> bit (drop_bit 1 x) 31" using bit_imp_le_length [of x 32] by (auto simp: bit_drop_bit_eq)
  ultimately show ?thesis by (simp add: crc_bit_alt bit_xor_iff)
qed

lemma xor_right_cancel: "(a :: 32 word) XOR c = b XOR c \<longleftrightarrow> a = b"
  by (metis xor.assoc xor.right_neutral xor_self_eq)

lemma crc_bit_inj: "crc_bit x = crc_bit y \<longleftrightarrow> x = y"
proof
  assume eq: "crc_bit x = crc_bit y"
  then have b0: "bit x 0 = bit y 0" using bit_crc_bit_31 by metis
  with eq have d: "drop_bit 1 x = drop_bit 1 y"
    by (auto simp: crc_bit_alt xor_right_cancel split: if_splits)
  show "x = y"
  proof (rule bit_word_eqI)
    fix n
    show "bit x n = bit y n"
    proof (cases n)
      case (Suc m)
      have "bit (drop_bit 1 x) m = bit (drop_bit 1 y) m" by (simp only: d)
      with Suc show ?thesis by (simp add: bit_drop_bit_eq)
    qed (simp add: b0)
  qed
qed simp

lemma crc_pow_inj: "(crc_bit ^^ n) x = (crc_bit ^^ n) y \<longleftrightarrow> x = y"
  by (induction n arbitrary: x y) (simp_all add: crc_bit_inj)

lemma crc_pow_shift:
  "n \<le> k \<Longrightarrow> \<forall>i < k. \<not> bit x i \<Longrightarrow> (crc_bit ^^ n) x = drop_bit n x"
proof (induction n)
  case (Suc n)
  then have "(crc_bit ^^ n) x = drop_bit n x" and "\<not> bit (drop_bit n x) 0"
    by (simp_all add: bit_drop_bit_eq)
  then show ?case by (simp add: crc_bit_alt [of "drop_bit n x"])
qed simp

lemma unat_crc_byte: "unat (crc_byte b) = of_char b"
proof -
  have "(of_char b :: nat) mod 2 ^ 32 = of_char b"
    by (rule mod_less) (rule less_trans [of _ 256], simp_all)
  then show ?thesis by (simp add: crc_byte_def unat_of_nat)
qed

lemma bit_crc_byte: "bit (crc_byte b) n \<Longrightarrow> n < 8"
proof (rule ccontr)
  assume b: "bit (crc_byte b) n" and n: "\<not> n < 8"
  have "of_char b < (2 ^ 8 :: nat)" by simp
  also have "\<dots> \<le> 2 ^ n" using n by (intro power_increasing) auto
  finally have "(of_char b :: nat) div 2 ^ n = 0" by (rule div_less)
  moreover from b have "bit (unat (crc_byte b)) n" by (simp add: bit_unsigned_iff)
  ultimately show False by (simp add: unat_crc_byte bit_iff_odd)
qed

text \<open>The table-driven step does eight bitwise steps at once.\<close>

lemma crc_step_bitwise: "crc_step b crc = (crc_bit ^^ 8) (crc XOR crc_byte b)"
proof -
  define w where "w = crc XOR crc_byte b"
  have ff: "(0xFF :: 32 word) = mask 8" by (simp add: mask_eq_exp_minus_1)
  define lo where "lo = w AND mask 8"
  define hi where "hi = w AND NOT (mask 8)"
  have w: "w = hi XOR lo"
    by (rule bit_word_eqI) (auto simp: hi_def lo_def bit_xor_iff bit_and_iff bit_not_iff)
  have "unat lo < 256"
  proof -
    have "lo = take_bit 8 w" by (simp add: lo_def take_bit_eq_mask)
    then have "unat lo = take_bit 8 (unat w)" by (simp add: unsigned_take_bit_eq)
    then show ?thesis by (simp add: take_bit_eq_mod)
  qed
  then have tab: "CRC32C_TABLE ! unat lo = (crc_bit ^^ 8) lo"
    by (simp add: CRC32C_TABLE_def del: upt.simps upt_rec_numeral)
  have hib: "(crc_bit ^^ 8) hi = drop_bit 8 hi"
    by (rule crc_pow_shift [of 8 8]) (auto simp: hi_def bit_and_iff bit_not_iff bit_mask_iff)
  have "drop_bit 8 hi = drop_bit 8 w"
    by (rule bit_word_eqI) (auto dest: bit_imp_le_length simp: hi_def bit_drop_bit_eq bit_and_iff bit_not_iff bit_mask_iff)
  moreover have "drop_bit 8 w = drop_bit 8 crc"
  proof -
    have "drop_bit 8 (crc_byte b) = 0"
      by (rule bit_word_eqI) (auto simp: bit_drop_bit_eq dest: bit_crc_byte)
    then show ?thesis by (simp add: w_def drop_bit_xor)
  qed
  ultimately have "crc_step b crc = (crc_bit ^^ 8) hi XOR (crc_bit ^^ 8) lo"
    using tab hib by (simp add: crc_step_def w_def lo_def ff)
  then show ?thesis by (simp add: w [symmetric] crc_pow_xor [symmetric] w_def [symmetric])
qed


lemma crc_step_inj: "crc_step b x = crc_step b y \<longleftrightarrow> x = y"
  by (simp add: crc_step_bitwise crc_pow_inj xor_right_cancel)

lemma crc_update_simps [simp]:
  "crc_update [] s = s" "crc_update (b # bs) s = crc_update bs (crc_step b s)"
  by (simp_all add: crc_update_def)

lemma crc_update_append: "crc_update (xs @ ys) s = crc_update ys (crc_update xs s)"
  by (simp add: crc_update_def)

lemma crc_update_inj: "crc_update bs x = crc_update bs y \<longleftrightarrow> x = y"
  by (induction bs arbitrary: x y) (simp_all add: crc_step_inj)

text \<open>Up to four bytes, read as one little-endian word, enter the checksum like one word.\<close>

primrec crc_word :: "bytes \<Rightarrow> 32 word" where
  "crc_word [] = 0"
| "crc_word (b # bs) = crc_byte b XOR push_bit 8 (crc_word bs)"

lemma bit_crc_word: "bit (crc_word bs) n \<Longrightarrow> n < 8 * length bs"
proof (induction bs arbitrary: n)
  case (Cons b bs)
  then consider "bit (crc_byte b) n" | "8 \<le> n" "bit (crc_word bs) (n - 8)"
    by (auto simp: bit_xor_iff bit_push_bit_iff)
  then show ?case by cases (use bit_crc_byte [of b n] Cons.IH [of "n - 8"] in auto)
qed simp

lemma crc_update_word:
  "length bs \<le> 4 \<Longrightarrow> crc_update bs s = (crc_bit ^^ (8 * length bs)) (s XOR crc_word bs)"
proof (induction bs arbitrary: s)
  case (Cons b bs)
  let ?w = "crc_word bs"
  have small: "drop_bit 8 (push_bit 8 ?w) = ?w"
  proof (rule bit_word_eqI)
    fix n assume "n < LENGTH(32)"
    show "bit (drop_bit 8 (push_bit 8 ?w)) n = bit ?w n"
      using Cons.prems bit_crc_word [of bs n] by (auto simp: bit_drop_bit_eq bit_push_bit_iff)
  qed
  have "(crc_bit ^^ 8) (push_bit 8 ?w) = drop_bit 8 (push_bit 8 ?w)"
    by (rule crc_pow_shift [of 8 8]) (auto simp: bit_push_bit_iff)
  then have w: "(crc_bit ^^ 8) (push_bit 8 ?w) = ?w" by (simp only: small)
  have "crc_update (b # bs) s = (crc_bit ^^ (8 * length bs)) (crc_step b s XOR ?w)"
    using Cons by simp
  also have "crc_step b s XOR ?w = (crc_bit ^^ 8) (s XOR crc_word (b # bs))"
    by (simp only: crc_step_bitwise crc_pow_xor crc_word.simps w xor.assoc)
  also have "(crc_bit ^^ (8 * length bs)) ((crc_bit ^^ 8) (s XOR crc_word (b # bs))) =
      (crc_bit ^^ (8 * length bs + 8)) (s XOR crc_word (b # bs))"
    by (simp only: funpow_add comp_apply)
  finally show ?case by (simp only: length_Cons mult_Suc_right add.commute)
qed simp

lemma crc_byte_inj: "crc_byte a = crc_byte b \<Longrightarrow> a = b"
proof -
  assume "crc_byte a = crc_byte b"
  then have "unat (crc_byte a) = unat (crc_byte b)" by simp
  then show ?thesis by (simp add: unat_crc_byte)
qed

lemma crc_word_inj:
  "length xs = length ys \<Longrightarrow> length xs \<le> 4 \<Longrightarrow> crc_word xs = crc_word ys \<Longrightarrow> xs = ys"
proof (induction xs ys rule: list_induct2)
  case (Cons x xs y ys)
  have split: "bit (crc_word (b # bs)) n = (if n < 8 then bit (crc_byte b) n else bit (crc_word bs) (n - 8))"
    if "n < 32" for b bs n
    using that bit_crc_byte [of b n] by (auto simp: bit_xor_iff bit_push_bit_iff)
  have "crc_byte x = crc_byte y"
  proof (rule bit_word_eqI)
    fix n assume n: "n < LENGTH(32)"
    with Cons.prems(2) split [of n x xs] split [of n y ys] bit_crc_byte [of x n] bit_crc_byte [of y n]
    show "bit (crc_byte x) n = bit (crc_byte y) n" by (auto split: if_splits)
  qed
  moreover have "crc_word xs = crc_word ys"
  proof (rule bit_word_eqI)
    fix n assume "n < LENGTH(32)"
    show "bit (crc_word xs) n = bit (crc_word ys) n"
    proof (cases "n < 24")
      case True
      with Cons.prems(2) split [of "n + 8" x xs] split [of "n + 8" y ys] show ?thesis by simp
    next
      case False
      with Cons bit_crc_word [of xs n] bit_crc_word [of ys n] show ?thesis by auto
    qed
  qed
  ultimately show ?case using Cons crc_byte_inj by simp
qed simp

lemma crc32c_burst:
  assumes "length xs = length ys" and "length xs \<le> 4"
    and "crc32c (p @ xs @ q) = crc32c (p @ ys @ q)"
  shows "xs = ys"
proof -
  let ?s = "crc_update p crc_new"
  from assms(3) have "crc_update q (crc_update xs ?s) = crc_update q (crc_update ys ?s)"
    by (simp add: crc32c_def crc_finish_def crc_update_append)
  then have "crc_update xs ?s = crc_update ys ?s" by (simp add: crc_update_inj)
  with assms(1,2) have "?s XOR crc_word xs = ?s XOR crc_word ys"
    by (simp add: crc_update_word crc_pow_inj)
  then have "crc_word xs = crc_word ys" by (metis xor.commute xor_right_cancel)
  with assms(1,2) show ?thesis by (rule crc_word_inj)
qed

section \<open>Properties\<close>

text \<open>
  The checksum computed with the compile-time table is the bitwise CRC32C: each byte is folded
  into the register and shifted out bit by bit with the reflected Castagnoli polynomial.
\<close>

theorem crc32c_is_bitwise:
  "crc32c data = NOT (fold (\<lambda>b crc. (crc_bit ^^ 8) (crc XOR crc_byte b)) data 0xFFFFFFFF)"
proof -
  have "crc_step = (\<lambda>b crc. (crc_bit ^^ 8) (crc XOR crc_byte b))"
    by (intro ext) (rule crc_step_bitwise)
  then show ?thesis by (simp add: crc32c_def crc_finish_def crc_update_def crc_new_def)
qed

text \<open>
  A stream may be checksummed in pieces of any sizes: feeding the pieces one after another and
  finishing gives the checksum of all the bytes at once.
\<close>

theorem crc32c_streaming:
  "crc_finish (fold crc_update pieces crc_new) = crc32c (concat pieces)"
proof -
  have "fold crc_update pieces s = crc_update (concat pieces) s" for s
    by (induction pieces arbitrary: s) (simp_all add: crc_update_append)
  then show ?thesis by (simp add: crc32c_def)
qed

text \<open>
  C33. Two byte strings of the same length that differ in at most four consecutive bytes never have
  the same checksum, whatever comes before and after, so damage that small is always noticed.
\<close>

theorem crc32c_detects_burst:
  assumes "length xs = length ys" and "length xs \<le> 4" and "xs \<noteq> ys"
  shows "crc32c (p @ xs @ q) \<noteq> crc32c (p @ ys @ q)"
  using crc32c_burst assms by blast

theorem crc32c_detects_burst_witness:
  "crc32c (''next='' @ ''17'' @ ''64'') \<noteq> crc32c (''next='' @ ''18'' @ ''64'')"
  by (rule crc32c_detects_burst) simp_all

end
