(* ===== verification/Placement.thy ===== *)
theory Placement
  imports Checksum
begin

unbundle bit_operations_syntax

text \<open>
  Where a record of a hashed section lives (\<^verbatim>\<open>db/hashfile.rs\<close>): the FNV-1a hash of its key, the group
  that hash falls into, and how many groups there are. Products of \<open>u64\<close> values are taken modulo
  \<open>2 ^ 64\<close> as the release build computes them, and the doubling loop is a partial function whose
  \<open>None\<close> is a loop that never ends, so that the claims that it ends are real ones.
\<close>

section \<open>Hash and modulus\<close>

definition hash_key :: "str \<Rightarrow> 64 word" where
  "hash_key key = fold (\<lambda>b hash. (hash XOR of_nat (of_char b)) * 0x100000001b3) key 0xcbf29ce484222325"

definition group_of :: "str \<Rightarrow> nat \<Rightarrow> nat" where
  "group_of key modulus = (if modulus = 0 then 0 else unat (hash_key key) mod modulus)"

definition DEFAULT_RECORDS_PER_GROUP :: nat where "DEFAULT_RECORDS_PER_GROUP = 16"

definition MIN_MODULUS :: nat where "MIN_MODULUS = 8"

partial_function (option) target_loop :: "nat \<Rightarrow> nat \<Rightarrow> nat \<Rightarrow> nat option" where
  "target_loop modulus per_group records =
     (if (modulus * per_group) mod 2 ^ 64 < records
      then target_loop ((modulus * 2) mod 2 ^ 64) per_group records
      else Some modulus)"

definition target_modulus :: "nat \<Rightarrow> nat \<Rightarrow> nat option" where
  "target_modulus records per_group = target_loop MIN_MODULUS (max per_group 1) records"

definition plan_modulus :: "nat \<Rightarrow> nat \<Rightarrow> nat \<Rightarrow> nat option" where
  "plan_modulus current records per_group =
     (case target_modulus records per_group of None \<Rightarrow> None
      | Some target \<Rightarrow>
          (if current < MIN_MODULUS then Some target
           else if current < target \<or> (target * 4) mod 2 ^ 64 \<le> current then Some target
           else Some current))"

definition records_until_growth :: "nat \<Rightarrow> nat \<Rightarrow> nat \<Rightarrow> nat" where
  "records_until_growth modulus records per_group =
     (let capacity = saturating_mul modulus (max per_group 1)
      in saturating_sub (saturating_add capacity 1) records)"

definition records_until_shrink :: "nat \<Rightarrow> nat \<Rightarrow> nat \<Rightarrow> nat option option" where
  "records_until_shrink modulus records per_group =
     (case plan_modulus modulus records per_group of None \<Rightarrow> None
      | Some planned \<Rightarrow> Some
          (if planned < modulus then Some 0
           else let quarter = modulus div 4 in
             if quarter < MIN_MODULUS then None
             else let ceiling = saturating_mul quarter (max per_group 1) in
               if ceiling < records then Some (records - ceiling) else None))"

section \<open>Lemmas\<close>

lemma group_of_less [simp]: "0 < modulus \<Longrightarrow> group_of key modulus < modulus"
  by (simp add: group_of_def)

text \<open>The doubling loop, from any modulus whose capacity fits the width.\<close>

lemma target_loop_spec:
  assumes "0 < m" "0 < g" "m * g < 2 ^ 64" "records \<le> 2 ^ 63"
  shows "\<exists>k. target_loop m g records = Some (m * 2 ^ k) \<and> records \<le> m * 2 ^ k * g \<and>
    (\<forall>j < k. m * 2 ^ j * g < records)"
  using assms
proof (induction "records - m * g" arbitrary: m rule: less_induct)
  case less
  show ?case
  proof (cases "m * g < records")
    case False
    then have "target_loop m g records = Some m"
      using less.prems(3) by (subst target_loop.simps) simp
    with False show ?thesis by (intro exI [of _ 0]) simp
  next
    case True
    have "m * g < 2 ^ 63" using True less.prems(4) by (rule less_le_trans)
    then have fits: "m * 2 * g < 2 ^ 64" by (simp add: ac_simps)
    have "m * 2 * 1 \<le> m * 2 * g" using less.prems(2) by (intro mult_le_mono) auto
    then have m64: "m * 2 < 2 ^ 64" using fits by (metis le_less_trans mult_1_right)
    have unfold: "target_loop m g records = target_loop (m * 2) g records"
      using True less.prems(3) m64 by (subst target_loop.simps) simp
    have "m * g < m * 2 * g" using less.prems(1,2) by simp
    with True have "records - m * 2 * g < records - m * g" by (rule diff_less_mono2 [rotated])
    from less.hyps [OF this] less.prems fits obtain k where
      k: "target_loop (m * 2) g records = Some (m * 2 * 2 ^ k)" "records \<le> m * 2 * 2 ^ k * g"
         "\<forall>j < k. m * 2 * 2 ^ j * g < records" by auto
    have "m * 2 ^ j * g < records" if "j < Suc k" for j
      using that k(3) True by (cases j) (simp_all add: ac_simps)
    with k unfold show ?thesis by (intro exI [of _ "Suc k"]) (simp add: ac_simps)
  qed
qed

text \<open>What fits: a record count and a group size far beyond any disk.\<close>

definition sizes_fit :: "nat \<Rightarrow> nat \<Rightarrow> bool" where
  "sizes_fit records per_group \<longleftrightarrow> records \<le> 2 ^ 60 \<and> per_group \<le> 2 ^ 32"

lemma target_modulus_spec:
  assumes "sizes_fit records per_group"
  shows "\<exists>k. target_modulus records per_group = Some (8 * 2 ^ k) \<and>
    (\<forall>j. records \<le> 8 * 2 ^ j * max per_group 1 \<longleftrightarrow> k \<le> j)"
proof -
  let ?g = "max per_group 1"
  have "0 < (8 :: nat)" "0 < ?g" "8 * ?g < 2 ^ 64" "records \<le> 2 ^ 63"
    using assms by (auto simp: sizes_fit_def max_def)
  from target_loop_spec [OF this] obtain k where
    k: "target_loop 8 ?g records = Some (8 * 2 ^ k)" "records \<le> 8 * 2 ^ k * ?g"
       "\<forall>j < k. 8 * 2 ^ j * ?g < records" by blast
  have "records \<le> 8 * 2 ^ j * ?g \<longleftrightarrow> k \<le> j" for j
  proof
    assume "k \<le> j"
    then have "8 * 2 ^ k * ?g \<le> 8 * 2 ^ j * ?g" by (intro mult_le_mono power_increasing) auto
    with k(2) show "records \<le> 8 * 2 ^ j * ?g" by (rule le_trans)
  qed (use k(3) in \<open>meson not_le\<close>)
  with k(1) show ?thesis by (auto simp: target_modulus_def MIN_MODULUS_def)
qed

lemma target_exponent_small:
  assumes "sizes_fit records per_group" and "target_modulus records per_group = Some (8 * 2 ^ k)"
  shows "k \<le> 57"
proof -
  obtain k' where k': "target_modulus records per_group = Some (8 * 2 ^ k')"
    "\<forall>j. records \<le> 8 * 2 ^ j * max per_group 1 \<longleftrightarrow> k' \<le> j"
    using target_modulus_spec [OF assms(1)] by auto
  have "records \<le> 8 * 2 ^ 57 * 1" using assms(1) by (simp add: sizes_fit_def)
  also have "\<dots> \<le> 8 * 2 ^ 57 * max per_group 1" by (intro mult_le_mono) auto
  finally have "k' \<le> 57" using k'(2) by blast
  moreover have "k' = k" using k'(1) assms(2) by simp
  ultimately show ?thesis by simp
qed

text \<open>For a modulus the policy picked itself, the choice in terms of exponents.\<close>

lemma plan_modulus_exponent:
  assumes fit: "sizes_fit records per_group" and k: "target_modulus records per_group = Some (8 * 2 ^ k)"
  shows "plan_modulus (8 * 2 ^ c) records per_group =
    Some (8 * 2 ^ (if c < k \<or> k + 2 \<le> c then k else c))"
proof -
  have k57: "k \<le> 57" by (rule target_exponent_small [OF fit k])
  have "(8 * 2 ^ k * 4 :: nat) < 2 ^ 64"
  proof -
    have "(8 * 2 ^ k * 4 :: nat) = 2 ^ (k + 5)" by (simp add: power_add)
    also have "\<dots> < 2 ^ 64" using k57 by (intro power_strict_increasing) auto
    finally show ?thesis .
  qed
  then have wrap: "(8 * 2 ^ k * 4) mod 2 ^ 64 = (8 * 2 ^ k * 4 :: nat)" by (rule mod_less)
  have lt: "(8 * 2 ^ c :: nat) < 8 * 2 ^ k \<longleftrightarrow> c < k" by simp
  have "8 * 2 ^ k * 4 \<le> (8 * 2 ^ c :: nat) \<longleftrightarrow> (2 :: nat) ^ (k + 2) \<le> 2 ^ c"
    by (simp add: power_add)
  also have "\<dots> \<longleftrightarrow> k + 2 \<le> c" by (rule power_increasing_iff) simp
  finally have le: "8 * 2 ^ k * 4 \<le> (8 * 2 ^ c :: nat) \<longleftrightarrow> k + 2 \<le> c" .
  show ?thesis
    unfolding plan_modulus_def k option.case wrap le lt MIN_MODULUS_def by (cases "c < k \<or> k + 2 \<le> c") auto
qed

section \<open>Properties\<close>

text \<open>
  C36. The loop that picks the number of groups ends, and what it picks is the smallest power of two,
  from eight up, whose groups hold all the records at the configured number per group.
\<close>

theorem target_modulus_least:
  assumes "sizes_fit records per_group"
  shows "\<exists>k. target_modulus records per_group = Some (MIN_MODULUS * 2 ^ k) \<and>
    records \<le> MIN_MODULUS * 2 ^ k * max per_group 1 \<and>
    (\<forall>j < k. MIN_MODULUS * 2 ^ j * max per_group 1 < records)"
proof -
  obtain k where "target_modulus records per_group = Some (8 * 2 ^ k)"
    and le: "\<And>j. records \<le> 8 * 2 ^ j * max per_group 1 \<longleftrightarrow> k \<le> j"
    using target_modulus_spec [OF assms] by auto
  moreover have "8 * 2 ^ j * max per_group 1 < records" if "j < k" for j
    using le [of j] that by simp
  ultimately show ?thesis unfolding MIN_MODULUS_def by blast
qed

theorem target_modulus_least_witness: "target_modulus 200 16 = Some 16"
proof -
  have "sizes_fit 200 16" by (simp add: sizes_fit_def)
  from target_modulus_least [OF this] obtain k where k: "target_modulus 200 16 = Some (8 * 2 ^ k)"
    "(200 :: nat) \<le> 8 * 2 ^ k * max 16 1" "\<forall>j < k. 8 * 2 ^ j * max 16 1 < (200 :: nat)"
    by (auto simp: MIN_MODULUS_def)
  from k(2) have "k \<noteq> 0" by (cases k) auto
  moreover from k(3) have "\<not> 1 < k" by (auto dest: spec [of _ 1])
  ultimately have "k = 1" by simp
  with k(1) show ?thesis by simp
qed

text \<open>
  The modulus a flush plans holds the records, whatever modulus the section had before, and
  planning again with it changes nothing: a section never rehashes twice for the same records.
\<close>

theorem plan_modulus_stable:
  assumes "sizes_fit records per_group" and "current = MIN_MODULUS * 2 ^ c \<or> current < MIN_MODULUS"
  shows "\<exists>m. plan_modulus current records per_group = Some m \<and>
    records \<le> m * max per_group 1 \<and> plan_modulus m records per_group = Some m"
proof -
  obtain k where k: "target_modulus records per_group = Some (8 * 2 ^ k)"
    and le: "\<And>j. records \<le> 8 * 2 ^ j * max per_group 1 \<longleftrightarrow> k \<le> j"
    using target_modulus_spec [OF assms(1)] by auto
  let ?e = "if current < 8 \<or> c < k \<or> k + 2 \<le> c then k else c"
  note plan = plan_modulus_exponent [OF assms(1) k]
  have "plan_modulus current records per_group = Some (8 * 2 ^ ?e)"
  proof (cases "current < 8")
    case True
    then show ?thesis by (simp add: plan_modulus_def k MIN_MODULUS_def)
  next
    case False
    with assms(2) show ?thesis by (simp add: plan MIN_MODULUS_def)
  qed
  moreover have "plan_modulus (8 * 2 ^ ?e) records per_group = Some (8 * 2 ^ ?e)"
    by (simp add: plan)
  moreover have "records \<le> 8 * 2 ^ ?e * max per_group 1" unfolding le by auto
  ultimately show ?thesis by blast
qed

theorem plan_modulus_stable_witness:
  "\<exists>m. plan_modulus 8 200 16 = Some m \<and> 200 \<le> m * max 16 1 \<and> plan_modulus m 200 16 = Some m"
  by (rule plan_modulus_stable [where c = 0]) (simp_all add: sizes_fit_def MIN_MODULUS_def)

text \<open>
  The two forecasts agree with the policy they forecast. Growing by \<open>n\<close> records makes the next
  flush pick a larger modulus exactly from \<open>records_until_growth\<close> on. Losing \<open>n\<close> records makes it
  pick a smaller one exactly from \<open>records_until_shrink\<close> on, and never when there is none.
\<close>

theorem forecasts_exact:
  assumes "sizes_fit (records + n) per_group" and "n' \<le> records"
    and "modulus = MIN_MODULUS * 2 ^ c" and "modulus * max per_group 1 < u64_max"
    and "records \<le> modulus * max per_group 1"
  shows "(\<exists>m. plan_modulus modulus (records + n) per_group = Some m \<and>
      (modulus < m \<longleftrightarrow> records_until_growth modulus records per_group \<le> n)) \<and>
    (\<exists>m f. plan_modulus modulus (records - n') per_group = Some m \<and>
      records_until_shrink modulus records per_group = Some f \<and>
      (m < modulus \<longleftrightarrow> (case f of Some d \<Rightarrow> d \<le> n' | None \<Rightarrow> False)))"
proof
  let ?g = "max per_group 1"
  have fit: "sizes_fit (records - n') per_group" "sizes_fit records per_group"
    using assms(1) by (auto simp: sizes_fit_def)
  have mod: "modulus = 8 * 2 ^ c" using assms(3) by (simp add: MIN_MODULUS_def)
  {
    obtain k where k: "target_modulus (records + n) per_group = Some (8 * 2 ^ k)"
      and le: "\<And>j. records + n \<le> 8 * 2 ^ j * ?g \<longleftrightarrow> k \<le> j"
      using target_modulus_spec [OF assms(1)] by auto
    have "records_until_growth modulus records per_group = modulus * ?g + 1 - records"
      using assms(4) by (simp add: records_until_growth_def saturating)
    moreover have "modulus * ?g + 1 - records \<le> n \<longleftrightarrow> c < k"
      using le [of c] assms(5) unfolding mod by auto
    ultimately show "\<exists>m. plan_modulus modulus (records + n) per_group = Some m \<and>
      (modulus < m \<longleftrightarrow> records_until_growth modulus records per_group \<le> n)"
      using plan_modulus_exponent [OF assms(1) k, of c] unfolding mod by simp
  }
  {
    obtain k where k: "target_modulus (records - n') per_group = Some (8 * 2 ^ k)"
      and le: "\<And>j. records - n' \<le> 8 * 2 ^ j * ?g \<longleftrightarrow> k \<le> j"
      using target_modulus_spec [OF fit(1)] by auto
    obtain k0 where k0: "target_modulus records per_group = Some (8 * 2 ^ k0)"
      and le0: "\<And>j. records \<le> 8 * 2 ^ j * ?g \<longleftrightarrow> k0 \<le> j"
      using target_modulus_spec [OF fit(2)] by auto
    have kc: "k \<le> c" "k0 \<le> c" "k \<le> k0"
      using le [of c] le0 [of c] le [of k0] le0 [of k0] assms(5) unfolding mod by auto
    have shrink: "m < modulus \<longleftrightarrow> k + 2 \<le> c"
      if "plan_modulus modulus (records - n') per_group = Some m" for m
      using that plan_modulus_exponent [OF fit(1) k, of c] kc unfolding mod by (auto split: if_splits)
    have now: "plan_modulus modulus records per_group = Some (8 * 2 ^ (if k0 + 2 \<le> c then k0 else c))"
      using plan_modulus_exponent [OF fit(2) k0, of c] kc unfolding mod by auto
    have "\<exists>f. records_until_shrink modulus records per_group = Some f \<and>
      (k + 2 \<le> c \<longleftrightarrow> (case f of Some d \<Rightarrow> d \<le> n' | None \<Rightarrow> False))"
    proof (cases "k0 + 2 \<le> c")
      case True
      with now kc show ?thesis by (auto simp: records_until_shrink_def mod)
    next
      case late: False
      show ?thesis
      proof (cases "2 \<le> c")
        case False
        then have "c = 0 \<or> c = 1" by auto
        with late now show ?thesis
          by (auto simp: records_until_shrink_def mod Let_def MIN_MODULUS_def)
      next
        case True
        then obtain d where d: "c = d + 2" by (metis add.commute le_iff_add)
        then have quarter: "modulus div 4 = 8 * 2 ^ d" by (simp add: mod power_add)
        have "8 * 2 ^ d * ?g \<le> modulus * ?g" unfolding mod d
          by (intro mult_le_mono power_increasing) auto
        then have "8 * 2 ^ d * ?g \<le> u64_max" using assms(4) by (meson le_trans less_imp_le)
        then have cap: "saturating_mul (8 * 2 ^ d) ?g = 8 * 2 ^ d * ?g"
          unfolding saturating_mul_def by (rule min_absorb2)
        have more: "8 * 2 ^ d * ?g < records" using le0 [of d] late d by auto
        have "records_until_shrink modulus records per_group = Some (Some (records - 8 * 2 ^ d * ?g))"
          using late now more cap by (simp add: records_until_shrink_def mod [symmetric] quarter Let_def MIN_MODULUS_def)
        moreover have "k + 2 \<le> c \<longleftrightarrow> records - 8 * 2 ^ d * ?g \<le> n'"
          using le [of d] assms(2) d by auto
        ultimately show ?thesis by simp
      qed
    qed
    moreover obtain m where "plan_modulus modulus (records - n') per_group = Some m"
      using plan_modulus_exponent [OF fit(1) k, of c] unfolding mod by auto
    ultimately show "\<exists>m f. plan_modulus modulus (records - n') per_group = Some m \<and>
      records_until_shrink modulus records per_group = Some f \<and>
      (m < modulus \<longleftrightarrow> (case f of Some d \<Rightarrow> d \<le> n' | None \<Rightarrow> False))"
      using shrink by metis
  }
qed

theorem forecasts_exact_witness:
  "(\<exists>m. plan_modulus 32 (300 + 213) 16 = Some m \<and>
      (32 < m \<longleftrightarrow> records_until_growth 32 300 16 \<le> 213)) \<and>
   (\<exists>m f. plan_modulus 32 (300 - 172) 16 = Some m \<and> records_until_shrink 32 300 16 = Some f \<and>
      (m < 32 \<longleftrightarrow> (case f of Some d \<Rightarrow> d \<le> 172 | None \<Rightarrow> False)))"
  by (rule forecasts_exact [where c = 2]) (simp_all add: sizes_fit_def MIN_MODULUS_def u64_max_def)

end
