(* ===== verification/Section_Store.thy ===== *)
theory Section_Store
  imports Hashfile
begin

text \<open>
  A hashed section as an implementation of a map from keys to records. The abstraction is
  \<open>represents\<close>: the meta file reads back, and each group file holds, in the written form, exactly the
  entries of the map whose keys hash into it. Loading returns the map; a flush, full or incremental,
  moves the section from one map to the map of its source. The contract of the source is the locale
  \<open>section_source\<close>, interpreted on the table's own record map here and on an index's postings in the
  theory of the index.
\<close>

section \<open>The source of a flush\<close>

locale section_source =
  fixes source :: SectionSource
  assumes keys_dom: "set (source_keys source) = dom (source_record source)"
    and keys_distinct: "distinct (source_keys source)"
    and count: "record_count source = length (source_keys source)"
begin

lemma entries_bounded:
  assumes "distinct (map fst es)" and "\<forall>k \<in> set (map fst es). source_record source k \<noteq> None"
  shows "length es \<le> record_count source"
proof -
  have "length es = card (set (map fst es))" using assms(1) by (simp add: distinct_card del: set_map)
  also have "\<dots> \<le> card (set (source_keys source))"
    using assms(2) by (intro card_mono finite_set) (auto simp: keys_dom)
  finally show ?thesis by (simp add: count distinct_card keys_distinct)
qed

lemma map_fst_select: "map fst (List.map_filter (\<lambda>key. map_option (Pair key) (f key)) ks) = filter (\<lambda>k. f k \<noteq> None) ks"
  by (induction ks) (auto simp: List.map_filter_simps)

lemma bucket_distinct: "distinct (map fst (bucket source modulus g))"
  by (simp add: bucket_def map_fst_select keys_distinct)

lemma bucket_map_of:
  "map_of (bucket source modulus g) = (\<lambda>k. if group_of k modulus = g then source_record source k else None)"
proof
  fix k
  have "set (bucket source modulus g) =
    {(k, r). k \<in> set (source_keys source) \<and> group_of k modulus = g \<and> source_record source k = Some r}"
    by (force simp: bucket_def List.map_filter_def image_iff)
  then have mem: "(k, r) \<in> set (bucket source modulus g) \<longleftrightarrow>
    group_of k modulus = g \<and> source_record source k = Some r" for r
    by (auto simp: keys_dom)
  show "map_of (bucket source modulus g) k =
    (if group_of k modulus = g then source_record source k else None)"
  proof (cases "\<exists>r. group_of k modulus = g \<and> source_record source k = Some r")
    case True
    with mem bucket_distinct show ?thesis by auto
  next
    case False
    with mem have "k \<notin> fst ` set (bucket source modulus g)" by auto
    with False show ?thesis by (auto simp: map_of_eq_None_iff)
  qed
qed

end

text \<open>A table's own record map is such a source.\<close>

lemma section_source_map: "hm_wf m \<Longrightarrow> section_source (source_of_map m)"
  by unfold_locales
    (simp_all add: source_of_map_def hm.keys_get hm.keys_distinct, simp add: hm_keys_def)

interpretation table_source: section_source "source_of_map (hm.insert_all kvs [])" for kvs
  by (rule section_source_map) (rule hm.wf_insert_all, rule hm.wf_empty)

section \<open>File names\<close>

lemma group_path_value: "digits_value 16 0 (drop 1 (group_path g)) = Some g"
  by (simp add: group_path_def digits_value_pad digits_value_show del: show_radix.simps)

lemma group_path_inj [simp]: "group_path g = group_path h \<longleftrightarrow> g = h"
  by (metis group_path_value option.inject)

lemma group_path_no_dot: "CHR ''.'' \<notin> set (group_path g)"
proof -
  have "CHR ''.'' \<notin> set (show_radix 16 g)" by (rule show_radix_avoids) simp_all
  then show ?thesis by (simp add: group_path_def pad_left_def)
qed

lemma group_path_not_tmp [simp]: "group_path g \<noteq> group_path h @ ''.tmp''"
  using group_path_no_dot [of g] by auto

lemma group_path_not_meta [simp]:
  "group_path g \<noteq> meta_path" "meta_path \<noteq> group_path g" "meta_path \<noteq> group_path g @ ''.tmp''"
  "group_path g \<noteq> ''meta.tmp''" "meta_path \<noteq> ''meta.tmp''"
  by (auto simp: group_path_def meta_path_def)

lemma get_write_frames [simp]:
  "hm_get (write_frames d (group_path g) es) (group_path h) =
     (if h = g then (if es = [] then None else Some (group_content (sort_key fst es)))
      else hm_get d (group_path h))"
  "hm_get (write_frames d (group_path g) es) meta_path = hm_get d meta_path"
  by (simp_all add: write_frames_def)

lemma get_write_meta [simp]: "hm_get (write_meta d m) (group_path g) = hm_get d (group_path g)"
  by (simp add: write_meta_def Let_def)

lemma get_remove_groups_beyond:
  "g < modulus \<Longrightarrow> modulus \<le> u64_max \<Longrightarrow>
     hm_get (remove_groups_beyond d modulus) (group_path g) = hm_get d (group_path g)"
  "hm_get (remove_groups_beyond d modulus) meta_path = hm_get d meta_path"
proof -
  assume "g < modulus" "modulus \<le> u64_max"
  then have "from_str_radix u64_max 16 (drop 1 (group_path g)) = Some g"
    by (simp add: group_path_def from_str_radix_pad del: show_radix.simps)
  with \<open>g < modulus\<close>
  show "hm_get (remove_groups_beyond d modulus) (group_path g) = hm_get d (group_path g)"
    by (simp add: remove_groups_beyond_def)
qed (simp add: remove_groups_beyond_def meta_path_def)

section \<open>What a section holds\<close>

text \<open>One group file in written form, holding the part of \<open>m\<close> that hashes to \<open>g\<close>.\<close>

definition group_file_ok :: "bytes option \<Rightarrow> nat \<Rightarrow> nat \<Rightarrow> (str \<Rightarrow> Record option) \<Rightarrow> bool" where
  "group_file_ok file modulus g m \<longleftrightarrow>
     (\<exists>es. file = (if es = [] then None else Some (group_content es)) \<and>
        (\<forall>e \<in> set es. entry_ok e) \<and> length es < 2 ^ 64 \<and> distinct (map fst es) \<and>
        map_of es = (\<lambda>k. if group_of k modulus = g then m k else None))"

definition section_holds :: "directory \<Rightarrow> nat \<Rightarrow> (str \<Rightarrow> Record option) \<Rightarrow> bool" where
  "section_holds d modulus m \<longleftrightarrow> (\<forall>g < modulus. group_file_ok (hm_get d (group_path g)) modulus g m)"

definition represents :: "directory \<Rightarrow> SectionMeta \<Rightarrow> (str \<Rightarrow> Record option) \<Rightarrow> bool" where
  "represents d meta m \<longleftrightarrow> read_meta_checked d = Ok (Some meta) \<and> 0 < meta_modulus meta \<and>
     section_holds d (meta_modulus meta) m"

lemma group_file_ok_cong:
  assumes "\<forall>k. group_of k modulus = g \<longrightarrow> m k = m' k"
  shows "group_file_ok f modulus g m = group_file_ok f modulus g m'"
proof -
  have "(\<lambda>k. if group_of k modulus = g then m k else None) = (\<lambda>k. if group_of k modulus = g then m' k else None)"
    using assms by auto
  then show ?thesis by (simp only: group_file_ok_def)
qed

lemma read_group_ok:
  assumes "group_file_ok (hm_get d (group_path g)) modulus g m"
  shows "\<exists>mp'. read_group mp d (group_path g) rt = Ok mp' \<and>
    hm_get mp' = hm_get mp ++ (\<lambda>k. if group_of k modulus = g then m k else None) \<and> (hm_wf mp \<longrightarrow> hm_wf mp')"
proof -
  from assms obtain es where
    es: "hm_get d (group_path g) = (if es = [] then None else Some (group_content es))"
      "\<forall>e \<in> set es. entry_ok e" "length es < 2 ^ 64" "distinct (map fst es)"
      "map_of es = (\<lambda>k. if group_of k modulus = g then m k else None)"
    unfolding group_file_ok_def by blast
  have "read_group mp d (group_path g) rt = Ok (hm.insert_all es mp)"
  proof (cases "es = []")
    case True
    with es(1) show ?thesis by (simp add: read_group_def hm.insert_all_simps)
  next
    case False
    with es show ?thesis by (intro read_group_written) auto
  qed
  moreover have "hm_get (hm.insert_all es mp) = hm_get mp ++ map_of es"
    by (rule hm.get_insert_all [OF es(4)])
  ultimately show ?thesis using es(5) hm.wf_insert_all by metis
qed

text \<open>An entry list becomes a correct group file when it is sorted and written.\<close>

lemma group_file_ok_written:
  assumes "\<forall>e \<in> set es. entry_ok e" "length es < 2 ^ 64" "distinct (map fst es)"
    and "map_of es = (\<lambda>k. if group_of k modulus = g then m k else None)"
  shows "group_file_ok (if es = [] then None else Some (group_content (sort_key fst es))) modulus g m"
proof -
  let ?s = "sort_key fst es"
  have dist: "distinct (map fst ?s)"
    using assms(3) by (simp add: distinct_map)
  then have "map_of ?s = map_of es" using assms(3) by (simp add: map_of_inject_set)
  moreover have "?s = [] \<longleftrightarrow> es = []" by (metis length_0_conv length_sort)
  ultimately show ?thesis
    unfolding group_file_ok_def using assms dist by (intro exI [of _ ?s]) auto
qed

section \<open>Loading\<close>

lemma load_groups_ok:
  assumes "\<forall>g \<in> set gs. group_file_ok (hm_get d (group_path g)) modulus g m" and "hm_wf mp"
  shows "\<exists>mp'. load_groups d rt gs mp = Ok mp' \<and> hm_wf mp' \<and>
    (\<forall>k. hm_get mp' k = (if group_of k modulus \<in> set gs \<and> m k \<noteq> None then m k else hm_get mp k))"
  using assms
proof (induction gs arbitrary: mp)
  case (Cons g gs)
  then obtain mp1 where mp1: "read_group mp d (group_path g) rt = Ok mp1"
    "hm_get mp1 = hm_get mp ++ (\<lambda>k. if group_of k modulus = g then m k else None)" "hm_wf mp1"
    using read_group_ok [of d g modulus m mp rt] by auto
  from Cons mp1(3) obtain mp' where mp': "load_groups d rt gs mp1 = Ok mp'" "hm_wf mp'"
    "\<forall>k. hm_get mp' k = (if group_of k modulus \<in> set gs \<and> m k \<noteq> None then m k else hm_get mp1 k)"
    by fastforce
  have "hm_get mp' k = (if group_of k modulus \<in> set (g # gs) \<and> m k \<noteq> None then m k else hm_get mp k)" for k
    using mp'(3) by (auto simp: mp1(2) map_add_def split: option.splits)
  with mp1(1) mp'(1,2) show ?case by auto
qed auto

lemma load_represents:
  assumes "represents d meta m"
  shows "\<exists>mp. load d [] = Ok (mp, meta) \<and> hm_wf mp \<and> hm_get mp = m"
proof -
  let ?M = "meta_modulus meta"
  from assms have meta: "read_meta_checked d = Ok (Some meta)" "0 < ?M"
    and gs: "\<forall>g \<in> set [0..<?M]. group_file_ok (hm_get d (group_path g)) ?M g m"
    by (auto simp: represents_def section_holds_def)
  obtain mp where mp: "load_groups d (meta_checksums meta) [0..<?M] [] = Ok mp" "hm_wf mp"
    "\<forall>k. hm_get mp k = (if group_of k ?M \<in> set [0..<?M] \<and> m k \<noteq> None then m k else hm_get [] k)"
    using load_groups_ok [OF gs, of "[]"] by blast
  have "hm_get mp = m" using mp(3) meta(2) by (intro ext) auto
  with meta mp show ?thesis by (auto simp: load_def)
qed

section \<open>Saving\<close>

definition source_ok :: "SectionSource \<Rightarrow> bool" where
  "source_ok source \<longleftrightarrow> record_count source < 2 ^ 64 \<and>
     (\<forall>k r. source_record source k = Some r \<longrightarrow> entry_ok (k, r))"

lemma write_buckets:
  "distinct gs \<Longrightarrow>
   hm_get (fold (\<lambda>g d. write_frames d (group_path g) (b g)) gs d) (group_path h) =
     (if h \<in> set gs then (if b h = [] then None else Some (group_content (sort_key fst (b h))))
      else hm_get d (group_path h)) \<and>
   hm_get (fold (\<lambda>g d. write_frames d (group_path g) (b g)) gs d) meta_path = hm_get d meta_path"
  by (induction gs arbitrary: d) auto

context section_source
begin

lemma bucket_mem:
  "(k, r) \<in> set (bucket source modulus g) \<Longrightarrow> group_of k modulus = g \<and> source_record source k = Some r"
  using bucket_distinct [of modulus g] bucket_map_of [of modulus g]
  by (metis (mono_tags, lifting) map_of_eq_Some_iff option.distinct(1))

lemma bucket_length: "length (bucket source modulus g) \<le> record_count source"
  by (rule entries_bounded [OF bucket_distinct]) (auto dest: bucket_mem)

lemma bucket_file_ok:
  assumes "record_count source < 2 ^ 64"
    and "\<forall>k r. group_of k modulus = g \<and> source_record source k = Some r \<longrightarrow> entry_ok (k, r)"
  shows "group_file_ok (if bucket source modulus g = [] then None
      else Some (group_content (sort_key fst (bucket source modulus g)))) modulus g (source_record source)"
proof (rule group_file_ok_written)
  show "\<forall>e \<in> set (bucket source modulus g). entry_ok e" using assms(2) by (auto dest: bucket_mem)
  show "length (bucket source modulus g) < 2 ^ 64" using assms(1) bucket_length by (rule le_less_trans [rotated])
qed (rule bucket_distinct bucket_map_of)+

lemma save_full_group:
  "g < modulus \<Longrightarrow> modulus \<le> u64_max \<Longrightarrow> hm_get (save_full d source modulus) (group_path g) =
     (if bucket source modulus g = [] then None
      else Some (group_content (sort_key fst (bucket source modulus g))))"
  by (simp add: save_full_def get_remove_groups_beyond write_buckets)

lemma save_full_holds:
  assumes "source_ok source" and "modulus \<le> u64_max"
  shows "section_holds (save_full d source modulus) modulus (source_record source)"
  unfolding section_holds_def
  using assms bucket_file_ok [of modulus] by (simp add: save_full_group source_ok_def)

lemma save_full_meta: "read_meta_checked (save_full d source modulus) = read_meta_checked d"
  by (simp add: save_full_def read_meta_checked_def get_remove_groups_beyond
      write_buckets [where h = 0])

lemma apply_dirty_get:
  "hm_get (apply_dirty source ks c) k = (if k \<in> set ks then source_record source k else hm_get c k)"
  "hm_wf c \<Longrightarrow> hm_wf (apply_dirty source ks c)"
  by (induction ks arbitrary: c) (auto simp: apply_dirty_def split: option.splits)

text \<open>One group of an incremental flush: the file ends up holding the source's part of the group.\<close>

lemma save_group_step:
  assumes ok: "source_ok source"
    and fok: "group_file_ok (hm_get d (group_path g)) modulus g m"
    and clean: "\<forall>k. group_of k modulus = g \<and> k \<notin> set dirty \<longrightarrow> m k = source_record source k"
  shows "\<exists>c. read_group [] d (group_path g) rt = Ok c \<and>
    group_file_ok (hm_get (write_frames d (group_path g)
        (apply_dirty source (filter (\<lambda>k. group_of k modulus = g) dirty) c)) (group_path g))
      modulus g (source_record source)"
proof -
  obtain c where c: "read_group [] d (group_path g) rt = Ok c" "hm_wf c"
    "hm_get c = hm_get [] ++ (\<lambda>k. if group_of k modulus = g then m k else None)"
    using read_group_ok [OF fok, of "[]" rt] by auto
  let ?es = "apply_dirty source (filter (\<lambda>k. group_of k modulus = g) dirty) c"
  have wf: "hm_wf ?es" by (rule apply_dirty_get(2) [OF c(2)])
  then have dist: "distinct (map fst ?es)" by (simp add: hm_wf_def)
  have get: "hm_get ?es = (\<lambda>k. if group_of k modulus = g then source_record source k else None)"
    using clean by (intro ext) (auto simp: apply_dirty_get(1) c(3) map_add_def split: option.splits)
  have mem: "(k, r) \<in> set ?es \<Longrightarrow> source_record source k = Some r" for k r
    using hm_wf_mem [OF wf] get by (auto split: if_splits)
  have "length ?es \<le> record_count source" by (rule entries_bounded [OF dist]) (use mem in auto)
  then have "length ?es < 2 ^ 64" using ok by (simp add: source_ok_def)
  moreover have "\<forall>e \<in> set ?es. entry_ok e" using mem ok by (auto simp: source_ok_def)
  ultimately have "group_file_ok (if ?es = [] then None else Some (group_content (sort_key fst ?es)))
      modulus g (source_record source)"
    using dist get by (intro group_file_ok_written) (simp_all add: hm_get_def [abs_def])
  with c(1) show ?thesis by auto
qed

lemma save_groups_holds:
  assumes "source_ok source" and "distinct gs" and "\<forall>g \<in> set gs. g < modulus"
    and "\<forall>g < modulus. group_file_ok (hm_get d (group_path g)) modulus g (if g \<in> set gs then m else source_record source)"
    and "\<forall>k. k \<notin> set dirty \<longrightarrow> m k = source_record source k"
  shows "\<exists>d'. save_groups d source modulus rt dirty gs = (d', Ok ()) \<and>
    section_holds d' modulus (source_record source)"
  using assms
proof (induction gs arbitrary: d)
  case Nil
  then show ?case by (simp add: section_holds_def)
next
  case (Cons g gs)
  have "group_file_ok (hm_get d (group_path g)) modulus g m" using Cons.prems(3,4) by auto
  from save_group_step [OF Cons.prems(1) this, of dirty rt] Cons.prems(5) obtain c where
    c: "read_group [] d (group_path g) rt = Ok c" and
    fok: "group_file_ok (hm_get (write_frames d (group_path g)
        (apply_dirty source (filter (\<lambda>k. group_of k modulus = g) dirty) c)) (group_path g))
      modulus g (source_record source)" by blast
  let ?d = "write_frames d (group_path g) (apply_dirty source (filter (\<lambda>k. group_of k modulus = g) dirty) c)"
  have "\<forall>h < modulus. group_file_ok (hm_get ?d (group_path h)) modulus h
      (if h \<in> set gs then m else source_record source)"
  proof (intro allI impI)
    fix h assume h: "h < modulus"
    show "group_file_ok (hm_get ?d (group_path h)) modulus h (if h \<in> set gs then m else source_record source)"
    proof (cases "h = g")
      case True
      with Cons.prems(2) fok show ?thesis by simp
    next
      case False
      then have "hm_get ?d (group_path h) = hm_get d (group_path h)" by simp
      with Cons.prems(4) h False show ?thesis by auto
    qed
  qed
  from Cons.IH [OF Cons.prems(1) _ _ this Cons.prems(5)] Cons.prems(2,3) c show ?case by auto
qed

end

lemma save_groups_meta:
  "save_groups d source modulus rt dirty gs = (d', r) \<Longrightarrow> read_meta_checked d' = read_meta_checked d"
proof (induction gs arbitrary: d)
  case (Cons g gs)
  show ?case
  proof (cases "read_group [] d (group_path g) rt")
    case (Inr c)
    with Cons.prems Cons.IH show ?thesis by (fastforce simp: read_meta_checked_def)
  qed (use Cons.prems in simp)
qed simp

lemma represents_write_meta:
  "meta_ok meta \<Longrightarrow> section_holds d (meta_modulus meta) m \<Longrightarrow> represents (write_meta d meta) meta m"
  by (simp add: represents_def read_write_meta section_holds_def meta_ok_def)

text \<open>The state a flush may start from, and what it may be told about the changes.\<close>

definition flush_ready ::
  "directory \<Rightarrow> SectionMeta \<Rightarrow> SectionSource \<Rightarrow> str list option \<Rightarrow> nat \<Rightarrow> bool" where
  "flush_ready d previous source dirty per_group \<longleftrightarrow>
     section_source source \<and> source_ok source \<and> sizes_fit (record_count source) per_group \<and>
     (\<exists>c. meta_modulus previous = MIN_MODULUS * 2 ^ c) \<and> meta_modulus previous \<le> u64_max \<and>
     meta_version previous < u64_max \<and>
     (case dirty of None \<Rightarrow> True
      | Some ks \<Rightarrow> meta_version previous = 0 \<or>
          (\<exists>m. represents d previous m \<and> (\<forall>k. k \<notin> set ks \<longrightarrow> m k = source_record source k)))"

lemma planned_modulus:
  assumes "flush_ready d previous source dirty per_group"
  shows "\<exists>M. plan_modulus (meta_modulus previous) (record_count source) per_group = Some M \<and>
    0 < M \<and> M \<le> u64_max"
proof -
  obtain c where fit: "sizes_fit (record_count source) per_group"
    and c: "meta_modulus previous = 8 * 2 ^ c" "meta_modulus previous \<le> u64_max"
    using assms by (auto simp: flush_ready_def MIN_MODULUS_def)
  obtain k where k: "target_modulus (record_count source) per_group = Some (8 * 2 ^ k)"
    using target_modulus_spec [OF fit] by auto
  have "k \<le> 57" by (rule target_exponent_small [OF fit k])
  then have "(8 * 2 ^ k :: nat) \<le> 8 * 2 ^ 57" by (intro mult_le_mono power_increasing) auto
  then have "8 * 2 ^ k \<le> u64_max" by (rule le_trans) (simp add: u64_max_def)
  with c show ?thesis
    by (simp add: plan_modulus_exponent [OF fit k])
qed

lemma save_incremental:
  assumes src: "section_source source" "source_ok source"
    and rep: "represents d previous m" and m: "\<forall>k. k \<notin> set ks \<longrightarrow> m k = source_record source k"
  shows "\<exists>d'. save_groups d source (meta_modulus previous) rt ks
      (remdups (map (\<lambda>key. group_of key (meta_modulus previous)) ks)) = (d', Ok ()) \<and>
    section_holds d' (meta_modulus previous) (source_record source)"
proof -
  let ?M = "meta_modulus previous" and ?gs = "remdups (map (\<lambda>key. group_of key (meta_modulus previous)) ks)"
  have "group_file_ok (hm_get d (group_path g)) ?M g (if g \<in> set ?gs then m else source_record source)"
    if "g < ?M" for g
  proof (cases "g \<in> set ?gs")
    case True
    with rep that show ?thesis by (simp add: represents_def section_holds_def)
  next
    case False
    then have "\<forall>k. group_of k ?M = g \<longrightarrow> m k = source_record source k" using m by auto
    moreover have "group_file_ok (hm_get d (group_path g)) ?M g m"
      using rep that by (simp add: represents_def section_holds_def)
    ultimately show ?thesis using False group_file_ok_cong [of ?M g m "source_record source"] by simp
  qed
  moreover have "\<forall>g \<in> set ?gs. g < ?M" using rep by (auto simp: represents_def)
  ultimately show ?thesis
    using section_source.save_groups_holds [OF src distinct_remdups _ _ m] by blast
qed

lemma save_represents:
  assumes "flush_ready d previous source dirty per_group"
  shows "\<exists>d' meta'. save_with_fsync d source previous dirty per_group = Some (d', Ok meta') \<and>
    represents d' meta' (source_record source) \<and> meta_version meta' = meta_version previous + 1 \<and>
    meta_records meta' = record_count source"
proof -
  obtain M where M: "plan_modulus (meta_modulus previous) (record_count source) per_group = Some M"
    "0 < M" "M \<le> u64_max" using planned_modulus [OF assms] by blast
  have src: "section_source source" "source_ok source" and v: "meta_version previous < u64_max"
    using assms by (auto simp: flush_ready_def)
  let ?full = "dirty = None \<or> M \<noteq> meta_modulus previous \<or> meta_version previous = 0"
  let ?meta = "\<lparr>meta_version = (meta_version previous + 1) mod 2 ^ 64, meta_modulus = M,
    meta_records = record_count source, meta_checksums = (meta_checksums previous \<or> ?full)\<rparr>"
  have ver: "(meta_version previous + 1) mod 2 ^ 64 = meta_version previous + 1"
    using v by (intro mod_less) (simp add: u64_max_def)
  have ok: "meta_ok ?meta" using M v src(2) ver by (simp add: meta_ok_def source_ok_def u64_max_def)
  have "\<exists>d1. section_holds d1 M (source_record source) \<and>
    save_with_fsync d source previous dirty per_group = Some (write_meta d1 ?meta, Ok ?meta)"
  proof (cases ?full)
    case True
    then show ?thesis
      using section_source.save_full_holds [OF src M(3), of d]
      by (intro exI [of _ "save_full d source M"]) (auto simp: save_with_fsync_def M(1) Let_def)
  next
    case False
    then obtain ks m where ks: "dirty = Some ks" and rep: "represents d previous m"
      and m: "\<forall>k. k \<notin> set ks \<longrightarrow> m k = source_record source k" and M': "meta_modulus previous = M"
      using assms by (auto simp: flush_ready_def)
    then show ?thesis
      using save_incremental [OF src rep m, of "meta_checksums previous"] False M(1)
      by (auto simp: save_with_fsync_def Let_def)
  qed
  then obtain d1 where d1: "section_holds d1 M (source_record source)"
    "save_with_fsync d source previous dirty per_group = Some (write_meta d1 ?meta, Ok ?meta)" by blast
  then have "represents (write_meta d1 ?meta) ?meta (source_record source)"
    using represents_write_meta [OF ok] by simp
  with d1 ver show ?thesis by (intro exI [of _ "write_meta d1 ?meta"] exI [of _ ?meta]) simp
qed

section \<open>Properties\<close>

text \<open>
  C1. A flush implements the map it is given. A full rewrite, or an incremental one told every key
  that changed, ends without error, advances the version by one, and leaves a section that loads,
  with that meta data, as exactly the records of the source.
\<close>

theorem flush_then_load:
  assumes "flush_ready d previous source dirty per_group"
  shows "\<exists>d' meta' mp. save_with_fsync d source previous dirty per_group = Some (d', Ok meta') \<and>
    load d' [] = Ok (mp, meta') \<and> hm_get mp = source_record source \<and>
    meta_version meta' = meta_version previous + 1 \<and> meta_records meta' = record_count source"
  using save_represents [OF assms] load_represents by blast

text \<open>A small section for the witnesses: one record, under the key \<open>k\<close>.\<close>

definition sample_record :: Record where "sample_record = from_bytes ''v''"

lemma sample_entry_ok: "entry_ok (''k'', sample_record)"
  by (simp add: entry_ok_def sample_record_def record_stored_from_bytes utf8_valid_ascii
      MAX_KEY_LEN_def MAX_DATA_LEN_def)

lemma sample_source: "section_source (source_of_map [(''k'', sample_record)])"
  "source_ok (source_of_map [(''k'', sample_record)])"
  by (rule section_source_map, simp add: hm_wf_def)
    (simp add: source_ok_def source_of_map_def hm_get_def sample_entry_ok)

theorem flush_then_load_witness:
  "\<exists>d' meta' mp. save_with_fsync [] (source_of_map [(''k'', sample_record)]) SectionMeta_empty
      (Some [''k'']) 16 = Some (d', Ok meta') \<and>
    load d' [] = Ok (mp, meta') \<and> hm_get mp = source_record (source_of_map [(''k'', sample_record)]) \<and>
    meta_version meta' = meta_version SectionMeta_empty + 1 \<and>
    meta_records meta' = record_count (source_of_map [(''k'', sample_record)])"
proof (rule flush_then_load)
  have "\<exists>c. meta_modulus SectionMeta_empty = MIN_MODULUS * 2 ^ c"
    by (rule exI [of _ 0]) (simp add: SectionMeta_empty_def)
  then show "flush_ready [] SectionMeta_empty (source_of_map [(''k'', sample_record)]) (Some [''k'']) 16"
    using sample_source
    by (simp add: flush_ready_def SectionMeta_empty_def MIN_MODULUS_def u64_max_def sizes_fit_def)
      (simp add: source_of_map_def)
qed



text \<open>
  C39. A flush that changes the modulus rewrites the groups in place before it replaces the meta
  file. A crash in between leaves the old meta file over the new groups, and the next load then
  returns, without any error, only the records that the new modulus puts below the old one. Every
  other record is silently gone from the table.
\<close>

theorem torn_rehash_loses_records:
  assumes "section_source source" and "source_ok source"
    and "read_meta_checked d = Ok (Some previous)" and "meta_modulus previous < modulus"
    and "modulus \<le> u64_max"
  shows "\<exists>mp. load (save_full d source modulus) [] = Ok (mp, previous) \<and>
    (\<forall>k. hm_get mp k = (if group_of k modulus < meta_modulus previous then source_record source k else None))"
proof -
  let ?d = "save_full d source modulus"
  have meta: "read_meta_checked ?d = Ok (Some previous)"
    using section_source.save_full_meta [OF assms(1)] assms(3) by simp
  have "\<forall>g \<in> set [0..<meta_modulus previous]. group_file_ok (hm_get ?d (group_path g)) modulus g (source_record source)"
    using section_source.save_full_holds [OF assms(1,2,5), of d] assms(4) by (auto simp: section_holds_def)
  from load_groups_ok [OF this, of "[]" "meta_checksums previous"] obtain mp where
    mp: "load_groups ?d (meta_checksums previous) [0..<meta_modulus previous] [] = Ok mp"
      "\<forall>k. hm_get mp k = (if group_of k modulus \<in> set [0..<meta_modulus previous] \<and> source_record source k \<noteq> None
         then source_record source k else hm_get [] k)" by auto
  with meta show ?thesis by (auto simp: load_def)
qed

theorem torn_rehash_loses_records_witness:
  "\<exists>mp. load (save_full (write_meta [] \<lparr>meta_version = 1, meta_modulus = 8, meta_records = 0, meta_checksums = True\<rparr>)
       (source_of_map [(''k'', sample_record)]) 16) [] =
     Ok (mp, \<lparr>meta_version = 1, meta_modulus = 8, meta_records = 0, meta_checksums = True\<rparr>) \<and>
    (\<forall>k. hm_get mp k = (if group_of k 16 < meta_modulus \<lparr>meta_version = 1, meta_modulus = 8, meta_records = 0, meta_checksums = True\<rparr>
       then source_record (source_of_map [(''k'', sample_record)]) k else None))"
  by (rule torn_rehash_loses_records [OF sample_source read_write_meta])
    (simp_all add: meta_ok_def u64_max_def)

text \<open>A key longer than the reader accepts stops the frame loop wherever its frame stands.\<close>

lemma read_loop_oversize:
  assumes "\<forall>e \<in> set es. entry_ok e" and "MAX_KEY_LEN < length k" and "length k < 2 ^ 64"
  shows "read_loop name (concat (map frame es) @ frame (k, r) @ rest) = Err (KeyTooLarge (length k) name)"
  using assms(1)
proof (induction es)
  case Nil
  have "le_value (le_bytes 8 (length k)) = length k"
    by (rule le_value_le_bytes_id) (use assms(3) in simp)
  then have "read_frame name (frame (k, r) @ rest) = Err (KeyTooLarge (length k) name)"
    using assms(2) by (simp add: read_frame_def frame_def Let_def)
  then show ?case using length_frame [of "(k, r)"] by (simp add: read_loop_unfold)
next
  case (Cons e es)
  then show ?case using length_frame [of e] by (subst read_loop_unfold) (simp add: read_frame_frame)
qed

lemma load_groups_stops:
  assumes "\<forall>g \<in> set gs. group_file_ok (hm_get d (group_path g)) modulus g m"
    and "\<And>mp. read_group mp d (group_path h) rt = Err e" and "hm_wf mp"
  shows "load_groups d rt (gs @ h # gs') mp = Err e"
  using assms
proof (induction gs arbitrary: mp)
  case (Cons g gs)
  then obtain mp1 where "read_group mp d (group_path g) rt = Ok mp1" "hm_wf mp1"
    using read_group_ok [of d g modulus m mp rt] by auto
  with Cons show ?case by simp
qed simp

text \<open>The one bad entry of a group, after sorting.\<close>

lemma oversize_group_refused:
  assumes src: "section_source source" and count: "record_count source < 2 ^ 64"
    and k: "source_record source k = Some r" "MAX_KEY_LEN < length k" "length k < 2 ^ 64"
    and others: "\<forall>k' r'. k' \<noteq> k \<and> source_record source k' = Some r' \<longrightarrow> entry_ok (k', r')"
    and M: "0 < modulus" "modulus \<le> u64_max"
    and fok: "hm_get d (group_path (group_of k modulus)) = hm_get (save_full d0 source modulus) (group_path (group_of k modulus))"
  shows "read_group mp d (group_path (group_of k modulus)) rt =
    Err (KeyTooLarge (length k) (group_path (group_of k modulus)))"
proof -
  let ?g = "group_of k modulus" and ?b = "bucket source modulus (group_of k modulus)"
  let ?s = "sort_key fst ?b"
  have dist: "distinct (map fst ?s)" using section_source.bucket_distinct [OF src] by (simp add: distinct_map)
  have "map_of ?b k = Some r" using section_source.bucket_map_of [OF src, of modulus ?g] k(1) by simp
  then have "(k, r) \<in> set ?s" by (auto dest: map_of_SomeD)
  then obtain es1 es2 where s: "?s = es1 @ (k, r) # es2" by (meson split_list)
  have "entry_ok e" if "e \<in> set es1" for e
  proof -
    obtain k' r' where e: "e = (k', r')" by (cases e)
    have "k' \<noteq> k" using dist that s e by force
    moreover have "e \<in> set ?b" using that s by (metis Un_iff set_append set_sort)
    ultimately show ?thesis using others e section_source.bucket_mem [OF src] by blast
  qed
  then have "read_loop (group_path ?g) (concat (map frame ?s)) = Err (KeyTooLarge (length k) (group_path ?g))"
    using read_loop_oversize [of es1 k "group_path ?g" r "concat (map frame es2)"] k(2,3) s by simp
  moreover have "hm_get d (group_path ?g) = Some (group_content ?s)"
    using fok section_source.save_full_group [OF src, of ?g modulus d0] M s by auto
  moreover have "length ?s < 2 ^ 64" using section_source.bucket_length [OF src] count by (metis le_less_trans length_sort)
  ultimately show ?thesis
    using read_group_content [of d "group_path ?g" "concat (map frame ?s)" "length ?s" "crc32c (concat (map frame ?s))" mp rt]
    by (simp add: group_content_def Let_def)
qed

text \<open>
  Nothing on the write path checks the length of a key, but the reader refuses a key of more
  than 1024 bytes. A flush with one such record succeeds and reports success; every load after it
  fails with the error naming that key's length, so the whole file, and not only that record, can
  no longer be opened.
\<close>

theorem oversize_key_locks_file:
  assumes "section_source source" and "record_count source < 2 ^ 60" and "per_group \<le> 2 ^ 32"
    and "source_record source k = Some r" and "MAX_KEY_LEN < length k" and "length k < 2 ^ 64"
    and "\<forall>k' r'. k' \<noteq> k \<and> source_record source k' = Some r' \<longrightarrow> entry_ok (k', r')"
    and "meta_modulus previous = MIN_MODULUS" and "meta_version previous < u64_max"
  shows "\<exists>d' meta'. save_with_fsync d source previous None per_group = Some (d', Ok meta') \<and>
    load d' [] = Err (KeyTooLarge (length k) (group_path (group_of k (meta_modulus meta'))))"
proof -
  have fit: "sizes_fit (record_count source) per_group" using assms(2,3) by (simp add: sizes_fit_def)
  obtain e where e: "target_modulus (record_count source) per_group = Some (8 * 2 ^ e)"
    using target_modulus_spec [OF fit] by auto
  have "(8 * 2 ^ e :: nat) \<le> 8 * 2 ^ 57" using target_exponent_small [OF fit e]
    by (intro mult_le_mono power_increasing) auto
  then have e64: "8 * 2 ^ e \<le> u64_max" by (rule le_trans) (simp add: u64_max_def)
  obtain M where plan: "plan_modulus (meta_modulus previous) (record_count source) per_group = Some M"
    and M: "0 < M" "M \<le> u64_max"
    using plan_modulus_exponent [OF fit e, of 0] e64 assms(8) by (auto simp: MIN_MODULUS_def u64_max_def)
  let ?meta = "\<lparr>meta_version = (meta_version previous + 1) mod 2 ^ 64, meta_modulus = M,
    meta_records = record_count source, meta_checksums = True\<rparr>"
  let ?d = "write_meta (save_full d source M) ?meta" and ?g = "group_of k M"
  have "meta_ok ?meta" using M assms(2,9) by (simp add: meta_ok_def u64_max_def)
  then have meta: "read_meta_checked ?d = Ok (Some ?meta)" by (rule read_write_meta)
  have count: "record_count source < 2 ^ 64" using assms(2) by simp
  have "group_file_ok (hm_get ?d (group_path g)) M g (source_record source)" if "g < ?g" for g
  proof -
    have "g < M" using that M(1) group_of_less [of M k] by (meson less_trans)
    moreover have "\<forall>k' r'. group_of k' M = g \<and> source_record source k' = Some r' \<longrightarrow> entry_ok (k', r')"
      using that assms(7) by auto
    ultimately show ?thesis
      using section_source.bucket_file_ok [OF assms(1) count] M(2)
      by (simp add: section_source.save_full_group [OF assms(1)])
  qed
  then have before: "\<forall>g \<in> set [0..<?g]. group_file_ok (hm_get ?d (group_path g)) M g (source_record source)"
    by simp
  have split: "[0..<M] = [0..<?g] @ ?g # [Suc ?g..<M]"
    using M(1) group_of_less [of M k] by (metis upt_add_eq_append upt_conv_Cons le_add_diff_inverse less_imp_le_nat zero_le)
  have "load_groups ?d True [0..<M] [] = Err (KeyTooLarge (length k) (group_path ?g))"
    unfolding split
    by (rule load_groups_stops [OF before])
      (rule oversize_group_refused [OF assms(1) count assms(4-7) M], simp_all)
  with meta plan show ?thesis by (simp add: save_with_fsync_def load_def Let_def)
qed

theorem oversize_key_locks_file_witness:
  "\<exists>d' meta'. save_with_fsync [] (source_of_map [(replicate 1025 (CHR ''k''), sample_record)])
      SectionMeta_empty None 16 = Some (d', Ok meta') \<and>
    load d' [] = Err (KeyTooLarge (length (replicate 1025 (CHR ''k'')))
      (group_path (group_of (replicate 1025 (CHR ''k'')) (meta_modulus meta'))))"
proof (rule oversize_key_locks_file)
  show "section_source (source_of_map [(replicate 1025 (CHR ''k''), sample_record)])"
    by (rule section_source_map) (simp add: hm_wf_def)
qed (auto simp: source_of_map_def hm_get_def MAX_KEY_LEN_def SectionMeta_empty_def u64_max_def)

end
