(* ===== verification/Db_Error.thy ===== *)
theory Db_Error
  imports Rust_Text
begin

text \<open>
  The failures of \<^verbatim>\<open>db/error.rs\<close>: one variant per thing that can go wrong, the \<open>io::ErrorKind\<close>
  each stands for at the boundaries that still speak \<open>io::Result\<close>, its wording, and the conversions
  in both directions. An \<open>io::Error\<close> is its kind and its text; of \<open>io::ErrorKind\<close> the variants the
  database produces are named and the rest are \<open>OtherKind\<close>.
\<close>

datatype ErrorKind = InvalidInput | NotFound | AlreadyExists | PermissionDenied | InvalidData | OtherKind str

record IoError =
  io_kind :: ErrorKind
  io_message :: str

datatype DbError =
    NoAccount
  | AccountNotFound str
  | AccountExists str
  | AccountProtected str
  | FileNotFound (err_account: str) (err_file: str)
  | FileExists (err_account: str) (err_file: str)
  | IndexExists (err_file: str) (err_field: str)
  | IndexNotFound (err_file: str) (err_field: str)
  | InvalidField (err_field: str) (err_reason: str)
  | InvalidRequest str
  | TransactionScope str
  | IncompatibleStorage (err_storage_dir: str) (err_detail: str)
  | PreconditionFailed str
  | Io IoError

type_synonym 'a DbResult = "('a, DbError) result"

fun error_io_kind :: "DbError \<Rightarrow> ErrorKind" where
  "error_io_kind NoAccount = InvalidInput"
| "error_io_kind (InvalidField _ _) = InvalidInput"
| "error_io_kind (InvalidRequest _) = InvalidInput"
| "error_io_kind (TransactionScope _) = InvalidInput"
| "error_io_kind (IncompatibleStorage _ _) = InvalidInput"
| "error_io_kind (PreconditionFailed _) = InvalidInput"
| "error_io_kind (AccountNotFound _) = NotFound"
| "error_io_kind (FileNotFound _ _) = NotFound"
| "error_io_kind (IndexNotFound _ _) = NotFound"
| "error_io_kind (AccountExists _) = AlreadyExists"
| "error_io_kind (FileExists _ _) = AlreadyExists"
| "error_io_kind (IndexExists _ _) = AlreadyExists"
| "error_io_kind (AccountProtected _) = PermissionDenied"
| "error_io_kind (Io e) = io_kind e"

fun error_display :: "DbError \<Rightarrow> str" where
  "error_display NoAccount = ''Not logged into an account''"
| "error_display (AccountNotFound name) = ''Account '' @ [CHR 0x27] @ name @ [CHR 0x27] @ '' not found''"
| "error_display (AccountExists name) = ''Account '' @ [CHR 0x27] @ name @ [CHR 0x27] @ '' already exists''"
| "error_display (AccountProtected name) = ''Cannot delete '' @ name @ '' account''"
| "error_display (FileNotFound account file) =
     ''Table '' @ [CHR 0x27] @ file @ [CHR 0x27] @ '' not found in account '' @ [CHR 0x27] @ account @ [CHR 0x27]"
| "error_display (FileExists account file) =
     ''Table '' @ [CHR 0x27] @ file @ [CHR 0x27] @ '' already exists in account '' @ [CHR 0x27] @ account @ [CHR 0x27]"
| "error_display (IndexExists file field) =
     [CHR 0x27] @ field @ [CHR 0x27] @ '' is already indexed on file '' @ [CHR 0x27] @ file @ [CHR 0x27]"
| "error_display (IndexNotFound file field) =
     [CHR 0x27] @ field @ [CHR 0x27] @ '' is not indexed on file '' @ [CHR 0x27] @ file @ [CHR 0x27]"
| "error_display (InvalidField field reason) = [CHR 0x27] @ field @ [CHR 0x27] @ '' cannot be indexed: '' @ reason"
| "error_display (InvalidRequest detail) = detail"
| "error_display (TransactionScope detail) = detail"
| "error_display (PreconditionFailed detail) = detail"
| "error_display (IncompatibleStorage dir detail) =
     ''Cannot open the storage directory '' @ [CHR 0x27] @ dir @ [CHR 0x27] @ '': '' @ detail"
| "error_display (Io e) = io_message e"

definition error_source :: "DbError \<Rightarrow> IoError option" where
  "error_source e = (case e of Io i \<Rightarrow> Some i | _ \<Rightarrow> None)"

definition db_error_of_io :: "IoError \<Rightarrow> DbError" where
  "db_error_of_io e = Io e"

definition io_of_db_error :: "DbError \<Rightarrow> IoError" where
  "io_of_db_error e =
     (case e of Io inner \<Rightarrow> inner | other \<Rightarrow> \<lparr>io_kind = error_io_kind other, io_message = error_display other\<rparr>)"

text \<open>\<open>Result::map_err\<close> with the conversion, which is what the question mark operator does.\<close>

definition lift_io :: "('a, IoError) result \<Rightarrow> 'a DbResult" where
  "lift_io r = (case r of Inl e \<Rightarrow> Err (db_error_of_io e) | Inr x \<Rightarrow> Ok x)"

lemma io_of_db_error_keeps: "io_kind (io_of_db_error e) = error_io_kind e" "io_message (io_of_db_error e) = error_display e"
  by (cases e; simp add: io_of_db_error_def)+

text \<open>
  Crossing the \<open>io::Result\<close> boundary loses neither the kind nor the wording of any failure, and an
  \<open>io::Error\<close> survives the round trip through \<open>DbError\<close> unchanged, as its cause.
\<close>

theorem error_boundary_lossless:
  "io_kind (io_of_db_error e) = error_io_kind e \<and> io_message (io_of_db_error e) = error_display e \<and>
   io_of_db_error (db_error_of_io i) = i \<and> error_source (db_error_of_io i) = Some i"
  by (simp add: io_of_db_error_keeps) (simp add: io_of_db_error_def db_error_of_io_def error_source_def)

end
