(* ===== verification/Statefile.thy ===== *)
theory Statefile
  imports Hashfile
begin

text \<open>
  The small checksummed text files of \<^verbatim>\<open>db/statefile.rs\<close>: a queue's book, an autokey counter, the
  format stamp. A directory is a map from names to bytes, as for a section; the temporary of a write
  is renamed over the file, so it is gone afterwards. Shown: a body comes back exactly, a damaged file
  is unreadable and never missing, and a field of a body of lines is found.
\<close>

datatype State = Missing | Unreadable | Body str

definition state_body :: "State \<Rightarrow> str option" where
  "state_body s = (case s of Body b \<Rightarrow> Some b | _ \<Rightarrow> None)"

definition state_read :: "directory \<Rightarrow> str \<Rightarrow> State" where
  "state_read d path =
     (case hm_get d path of None \<Rightarrow> Missing
      | Some content \<Rightarrow>
        if \<not> utf8_valid content then Unreadable
        else (case split_once newline content of None \<Rightarrow> Unreadable
          | Some (checksum_line, body) \<Rightarrow>
            (case strip_prefix ''checksum='' checksum_line of None \<Rightarrow> Unreadable
             | Some recorded \<Rightarrow>
               (case parse_hex32 (trim recorded) of
                  Some w \<Rightarrow> (if w = crc32c body then Body body else Unreadable)
                | None \<Rightarrow> Unreadable))))"

definition state_write :: "directory \<Rightarrow> str \<Rightarrow> str \<Rightarrow> directory" where
  "state_write d path body =
     hm_insert path (''checksum='' @ hex8 (crc32c body) @ [newline] @ body) (hm_remove (path @ ''.tmp'') d)"

definition remove_if_present :: "directory \<Rightarrow> str \<Rightarrow> directory" where
  "remove_if_present d path = hm_remove path d"

definition state_field :: "str \<Rightarrow> str \<Rightarrow> str option" where
  "state_field body key =
     map_option trim
       (find_map (\<lambda>line. case strip_prefix key line of None \<Rightarrow> None | Some r \<Rightarrow> strip_prefix ''='' r) (lines body))"

section \<open>Lemmas\<close>

lemma utf8_valid_ascii_append: "is_ascii a \<Longrightarrow> utf8_valid (a @ s) = utf8_valid s"
  by (induction a) (simp_all add: utf8_valid_ascii_Cons)

lemma hex8_no_newline: "newline \<notin> set (hex8 w)"
  using visible_hex8 [of w] by (auto simp: visible_text_def visible_def)

text \<open>A file whose header carries \<open>w\<close> reads as its body exactly when \<open>w\<close> is the body's checksum.\<close>

lemma state_read_header:
  assumes "hm_get d path = Some (''checksum='' @ hex8 w @ [newline] @ body)" and "utf8_valid body"
  shows "state_read d path = (if w = crc32c body then Body body else Unreadable)"
proof -
  have "is_ascii (''checksum='' @ hex8 w @ [newline])"
    using visible_text_ascii [OF visible_hex8 [of w]] by simp
  then have "utf8_valid (''checksum='' @ hex8 w @ [newline] @ body)"
    using utf8_valid_ascii_append [of "''checksum='' @ hex8 w @ [newline]" body] assms(2) by simp
  moreover have "split_once newline ((''checksum='' @ hex8 w) @ newline # body) = Some (''checksum='' @ hex8 w, body)"
    by (rule split_once_append) (simp add: hex8_no_newline)
  moreover have "strip_prefix ''checksum='' (''checksum='' @ hex8 w) = Some (hex8 w)"
    by (rule strip_prefix_append)
  ultimately show ?thesis
    using assms(1) by (simp add: state_read_def hex8_parse trim_visible_text)
qed

lemma state_read_write: "utf8_valid body \<Longrightarrow> state_read (state_write d path body) path = Body body"
  using state_read_header [of "state_write d path body" path "crc32c body" body]
  by (simp add: state_write_def)

lemma state_read_write_other:
  "path' \<noteq> path \<Longrightarrow> path' \<noteq> path @ ''.tmp'' \<Longrightarrow> state_read (state_write d path body) path' = state_read d path'"
  by (simp add: state_read_def state_write_def)

lemma state_field_line:
  assumes "plain_line (key_value k v)" "visible_text v"
  shows "state_field (unlines [key_value k v]) k = Some v"
proof -
  have "lines (unlines [key_value k v]) = [key_value k v]" by (rule lines_unlines) (use assms(1) in simp)
  then show ?thesis
    using assms(2) by (simp add: state_field_def key_value_def strip_prefix_def trim_visible_text del: unlines_simps)
qed

section \<open>Properties\<close>

text \<open>
  What was written to a state file is what is read from it, whatever text the body is.
\<close>

theorem state_round_trip:
  assumes "utf8_valid body"
  shows "state_read (state_write d path body) path = Body body"
  using assms by (rule state_read_write)

theorem state_round_trip_witness: "state_read (state_write [] ''queue'' ''next=7'') ''queue'' = Body ''next=7''"
  by (rule state_round_trip) (rule utf8_valid_ascii, simp)

text \<open>
  A state file damaged in up to four consecutive bytes of its body, still text, is unreadable: it
  is never taken for a missing file and never for a file that says something else, which is what the
  format stamp depends on.
\<close>

theorem state_damage_unreadable:
  assumes "hm_get d path = Some (''checksum='' @ hex8 (crc32c (p @ xs @ q)) @ [newline] @ (p @ ys @ q))"
    and "utf8_valid (p @ ys @ q)" and "length ys = length xs" and "length xs \<le> 4" and "ys \<noteq> xs"
  shows "state_read d path = Unreadable"
proof -
  have "crc32c (p @ xs @ q) \<noteq> crc32c (p @ ys @ q)" using crc32c_burst assms(3-5) by metis
  then show ?thesis using state_read_header [OF assms(1,2)] by simp
qed

theorem state_damage_unreadable_witness:
  "state_read [(''.format'', ''checksum='' @ hex8 (crc32c (''version='' @ ''3'' @ [])) @ [newline] @ (''version='' @ ''4'' @ []))]
     ''.format'' = Unreadable"
  by (rule state_damage_unreadable [where p = "''version=''" and xs = "''3''" and ys = "''4''" and q = "[]"])
    (simp_all add: hm_get_def utf8_valid_ascii)

end
