(* ===== verification/Index.thy ===== *)
theory Index
  imports Section_Store Statefile
begin

text \<open>
  The secondary index of \<^verbatim>\<open>db/index.rs\<close>: the key a value is filed under, the keys one record
  contributes, the postings held in memory, their maintenance by single changes and by a rebuild, the
  lookup with its usage counters, and the \<open>state\<close> file that says which data version an index matches.
  The directory of an index section is a map from names to bytes, as for the records.
\<close>

section \<open>Names and keys\<close>

definition SECTION_PREFIX :: str where "SECTION_PREFIX = ''index.''"
definition SECTION_SUFFIX :: str where "SECTION_SUFFIX = ''.hf''"
definition MAX_INDEX_KEY :: nat where "MAX_INDEX_KEY = 512"
definition TRUNCATION_MARK :: str where "TRUNCATION_MARK = [CHR 0xE2, CHR 0x80, CHR 0xA6]"

definition is_ascii_alphanumeric :: "char \<Rightarrow> bool" where
  "is_ascii_alphanumeric c =
     (let n = of_char c in (48 \<le> n \<and> n \<le> (57::nat)) \<or> (65 \<le> n \<and> n \<le> 90) \<or> (97 \<le> n \<and> n \<le> 122))"

text \<open>
  A character outside ASCII is no name character, and neither is any byte of its encoding, so the
  test on bytes is the test on characters.
\<close>

definition is_name_char :: "char \<Rightarrow> bool" where
  "is_name_char c \<longleftrightarrow> is_ascii_alphanumeric c \<or> c \<in> set ''._-$#%''"

definition is_valid_field_name :: "str \<Rightarrow> bool" where
  "is_valid_field_name field \<longleftrightarrow>
     field \<noteq> [] \<and> length field \<le> 128 \<and> list_all is_name_char field \<and> field \<noteq> ''.'' \<and> field \<noteq> ''..''"

definition section_path :: "str \<Rightarrow> str \<Rightarrow> str" where
  "section_path file_dir field = file_dir @ ''/'' @ SECTION_PREFIX @ field"

text \<open>\<open>indexed_fields\<close>: of the entries of the file's directory, each with whether it is a directory.\<close>

definition indexed_field :: "bytes \<times> bool \<Rightarrow> str option" where
  "indexed_field e =
     (if \<not> snd e \<or> \<not> utf8_valid (fst e) then None
      else case strip_prefix SECTION_PREFIX (fst e) of None \<Rightarrow> None
        | Some rest \<Rightarrow>
          (case strip_suffix SECTION_SUFFIX rest of None \<Rightarrow> None
           | Some field \<Rightarrow> if is_valid_field_name field then Some field else None))"

definition indexed_fields :: "(bytes \<times> bool) list \<Rightarrow> str list" where
  "indexed_fields es = sort (List.map_filter indexed_field es)"

text \<open>\<open>str::is_char_boundary\<close>, and the loop that backs up to one.\<close>

definition is_char_boundary :: "str \<Rightarrow> nat \<Rightarrow> bool" where
  "is_char_boundary s i \<longleftrightarrow> i = 0 \<or> i = length s \<or>
     (i < length s \<and> \<not> (128 \<le> (of_char (s ! i) :: nat) \<and> (of_char (s ! i) :: nat) < 192))"

fun boundary_before :: "str \<Rightarrow> nat \<Rightarrow> nat" where
  "boundary_before s 0 = 0"
| "boundary_before s (Suc n) = (if is_char_boundary s (Suc n) then Suc n else boundary_before s n)"

definition index_key :: "str \<Rightarrow> str" where
  "index_key v =
     (let trimmed = trim v
      in if length trimmed \<le> MAX_INDEX_KEY then trimmed
         else take (boundary_before trimmed MAX_INDEX_KEY) trimmed @ TRUNCATION_MARK)"

text \<open>\<open>keys_of\<close>: the closure \<open>push\<close> skips a key that is already there.\<close>

definition push_key :: "str \<Rightarrow> str list \<Rightarrow> str list" where
  "push_key txt out = (let key = index_key txt in if key \<in> set out then out else out @ [key])"

definition value_keys :: "Value \<Rightarrow> str list \<Rightarrow> str list" where
  "value_keys v out =
     fold (\<lambda>sub out. push_key (text_of sub) out) (sub_values v) (if sub_values v = [] then push_key [] out else out)"

definition keys_of :: "Record option \<Rightarrow> nat \<Rightarrow> str list" where
  "keys_of r attr =
     (case Option.bind r (\<lambda>r. get_at (rec_fields r) attr) of None \<Rightarrow> [[]]
      | Some field \<Rightarrow> if field_values field = [] then [[]] else fold value_keys (field_values field) [])"

definition posting_record :: "str list \<Rightarrow> Record" where
  "posting_record ks = \<lparr>rec_fields = [\<lparr>field_values = map Value_text ks\<rparr>]\<rparr>"

definition posting_keys :: "Record \<Rightarrow> str list" where
  "posting_keys r =
     (case rec_fields r of [] \<Rightarrow> [] | field # _ \<Rightarrow> bt_of_list (List.map_filter first_text (field_values field)))"

section \<open>The state file\<close>

record IndexState =
  st_field :: str
  st_attribute :: nat
  st_data_version :: nat
  st_excluded :: "str list"

abbreviation backslash :: char where "backslash \<equiv> CHR 0x5C"
abbreviation tab :: char where "tab \<equiv> CHR 0x09"

definition escape_char :: "char \<Rightarrow> str" where
  "escape_char c =
     (if c = backslash then [backslash, backslash] else if c = newline then backslash # ''n''
      else if c = carriage_return then backslash # ''r'' else if c = tab then backslash # ''t''
      else if c = CHR '' '' then backslash # ''s'' else [c])"

definition escape_value :: "str \<Rightarrow> str" where
  "escape_value v = concat (map escape_char v)"

text \<open>
  The reader's loop. It works on characters; an escaped character that is longer than one byte is
  kept as it is, and so are its bytes here.
\<close>

fun unescape_value :: "str \<Rightarrow> str" where
  "unescape_value [] = []"
| "unescape_value [c] = [c]"
| "unescape_value (c # e # s) =
     (if c \<noteq> backslash then c # unescape_value (e # s)
      else (if e = CHR ''n'' then newline else if e = CHR ''r'' then carriage_return
            else if e = CHR ''t'' then tab else if e = CHR ''s'' then CHR '' '' else e) # unescape_value s)"

record StateScan =
  scan_field :: "str option"
  scan_attribute :: "nat option"
  scan_version :: "nat option"
  scan_excluded :: "str list"
  scan_stored :: "32 word option"
  scan_text :: str

definition StateScan_new :: StateScan where
  "StateScan_new = \<lparr>scan_field = None, scan_attribute = None, scan_version = None, scan_excluded = [],
     scan_stored = None, scan_text = []\<rparr>"

definition scan_state_line :: "str \<Rightarrow> StateScan \<Rightarrow> StateScan option" where
  "scan_state_line line sc =
     (case split_once (CHR ''='') line of None \<Rightarrow> None
      | Some (k, v) \<Rightarrow>
        let key = trim k; val = trim v in
        if key = ''checksum'' then Some (sc\<lparr>scan_stored := parse_hex32 val\<rparr>)
        else let sc = sc\<lparr>scan_text := scan_text sc @ line @ [newline]\<rparr> in
          Some (if key = ''field'' then sc\<lparr>scan_field := Some val\<rparr>
                else if key = ''attribute'' then sc\<lparr>scan_attribute := parse_u64 val\<rparr>
                else if key = ''data_version'' then sc\<lparr>scan_version := parse_u64 val\<rparr>
                else if key = ''exclude'' then sc\<lparr>scan_excluded := bt_insert (unescape_value val) (scan_excluded sc)\<rparr>
                else sc))"

fun scan_state_lines :: "str list \<Rightarrow> StateScan \<Rightarrow> StateScan option" where
  "scan_state_lines [] sc = Some sc"
| "scan_state_lines (l # ls) sc =
     (case scan_state_line l sc of None \<Rightarrow> None | Some sc' \<Rightarrow> scan_state_lines ls sc')"

definition check_state :: "StateScan \<Rightarrow> IndexState option" where
  "check_state sc =
     (case scan_stored sc of None \<Rightarrow> None
      | Some w \<Rightarrow>
        if w \<noteq> crc32c (scan_text sc) then None
        else case (scan_field sc, scan_attribute sc, scan_version sc) of
            (Some f, Some a, Some v) \<Rightarrow>
              Some \<lparr>st_field = f, st_attribute = a, st_data_version = v, st_excluded = scan_excluded sc\<rparr>
          | _ \<Rightarrow> None)"

definition index_state_path :: str where "index_state_path = ''state''"

definition index_read_state :: "directory \<Rightarrow> IndexState option" where
  "index_read_state d =
     (case hm_get d index_state_path of None \<Rightarrow> None
      | Some content \<Rightarrow>
        if \<not> utf8_valid content \<or> content = [] \<or> last content \<noteq> newline then None
        else case scan_state_lines (lines content) StateScan_new of None \<Rightarrow> None
          | Some sc \<Rightarrow> check_state sc)"

definition state_lines :: "IndexState \<Rightarrow> str list" where
  "state_lines st =
     [key_value ''field'' (st_field st), key_value ''attribute'' (show_nat (st_attribute st)),
      key_value ''data_version'' (show_nat (st_data_version st))] @
     map (\<lambda>v. key_value ''exclude'' (escape_value v)) (st_excluded st)"

definition index_write_state :: "directory \<Rightarrow> IndexState \<Rightarrow> directory" where
  "index_write_state d st =
     hm_insert index_state_path
       (unlines (key_value ''checksum'' (hex8 (crc32c (unlines (state_lines st)))) # state_lines st))
       (hm_remove ''state.tmp'' d)"

section \<open>The index in memory\<close>

record IndexUsage =
  lookups :: nat
  use_candidates :: nat
  matched :: nat
  measured :: nat
  excluded_lookups :: nat

definition IndexUsage_default :: IndexUsage where
  "IndexUsage_default = \<lparr>lookups = 0, use_candidates = 0, matched = 0, measured = 0, excluded_lookups = 0\<rparr>"

text \<open>\<open>fetch_add\<close> on an \<open>AtomicU64\<close> wraps.\<close>

definition fetch_add :: "nat \<Rightarrow> nat \<Rightarrow> nat" where
  "fetch_add n by = (n + by) mod 2 ^ 64"

record FileIndex =
  fi_field :: str
  fi_attr :: nat
  postings :: "(str, str list) hashmap"
  fi_excluded :: "str list"
  fi_dirty_values :: "str list"
  fi_dirty_all :: bool
  fi_meta :: SectionMeta
  fi_data_version :: nat
  needs_rebuild :: bool
  fi_usage :: IndexUsage

definition normalise_exclusions :: "str list \<Rightarrow> str list" where
  "normalise_exclusions vs = bt_of_list (map index_key vs)"

definition with_exclusions :: "str \<Rightarrow> nat \<Rightarrow> str list \<Rightarrow> FileIndex" where
  "with_exclusions field attr excluded =
     \<lparr>fi_field = field, fi_attr = attr, postings = [], fi_excluded = normalise_exclusions excluded,
      fi_dirty_values = [], fi_dirty_all = True, fi_meta = SectionMeta_empty, fi_data_version = 0,
      needs_rebuild = True, fi_usage = IndexUsage_default\<rparr>"

definition FileIndex_new :: "str \<Rightarrow> nat \<Rightarrow> FileIndex" where
  "FileIndex_new field attr = with_exclusions field attr []"

definition FileIndex_loaded ::
  "str \<Rightarrow> nat \<Rightarrow> (str, Record) hashmap \<Rightarrow> SectionMeta \<Rightarrow> IndexState option \<Rightarrow> nat \<Rightarrow> FileIndex" where
  "FileIndex_loaded field attr es meta st data_version =
     (let matches = (case st of None \<Rightarrow> False
        | Some st \<Rightarrow> st_field st = field \<and> st_attribute st = attr + 1 \<and> st_data_version st = data_version)
      in \<lparr>fi_field = field, fi_attr = attr, postings = map (\<lambda>(v, r). (v, posting_keys r)) es,
          fi_excluded = (case st of None \<Rightarrow> [] | Some st \<Rightarrow> st_excluded st),
          fi_dirty_values = [], fi_dirty_all = False, fi_meta = meta,
          fi_data_version = (case st of None \<Rightarrow> 0 | Some st \<Rightarrow> st_data_version st),
          needs_rebuild = (\<not> matches), fi_usage = IndexUsage_default\<rparr>)"

definition set_excluded :: "str list \<Rightarrow> FileIndex \<Rightarrow> bool \<times> FileIndex" where
  "set_excluded vs idx =
     (let vs = normalise_exclusions vs
      in if vs = fi_excluded idx then (False, idx)
         else (True, idx\<lparr>fi_excluded := vs, needs_rebuild := True\<rparr>))"

definition excludes :: "FileIndex \<Rightarrow> str \<Rightarrow> bool" where
  "excludes idx key \<longleftrightarrow> key \<in> set (fi_excluded idx)"

text \<open>\<open>entry(value).or_default().insert(key)\<close>, and its inverse that drops an emptied posting list.\<close>

definition post :: "str \<Rightarrow> str \<Rightarrow> (str, str list) hashmap \<Rightarrow> (str, str list) hashmap" where
  "post key v p = hm_insert v (bt_insert key (case hm_get p v of None \<Rightarrow> [] | Some ks \<Rightarrow> ks)) p"

definition unpost :: "str \<Rightarrow> str \<Rightarrow> (str, str list) hashmap \<Rightarrow> (str, str list) hashmap" where
  "unpost key v p =
     (case hm_get p v of None \<Rightarrow> p
      | Some ks \<Rightarrow> let ks = bt_remove key ks in if ks = [] then hm_remove v p else hm_insert v ks p)"

definition rebuild_record :: "FileIndex \<Rightarrow> nat \<Rightarrow> str \<times> Record \<Rightarrow> (str, str list) hashmap \<Rightarrow> (str, str list) hashmap" where
  "rebuild_record idx attr kr p =
     fold (\<lambda>v p. if v \<in> set (fi_excluded idx) then p else post (fst kr) v p) (keys_of (Some (snd kr)) attr) p"

definition rebuild :: "(str, Record) hashmap \<Rightarrow> nat \<Rightarrow> FileIndex \<Rightarrow> FileIndex" where
  "rebuild records attr idx =
     idx\<lparr>fi_attr := attr, postings := fold (rebuild_record idx attr) records [],
         fi_dirty_values := [], fi_dirty_all := True, needs_rebuild := False\<rparr>"

definition retained :: "FileIndex \<Rightarrow> Record option \<Rightarrow> str list" where
  "retained idx r =
     (case r of None \<Rightarrow> []
      | Some r \<Rightarrow> filter (\<lambda>v. v \<notin> set (fi_excluded idx)) (keys_of (Some r) (fi_attr idx)))"

definition withdraw :: "str \<Rightarrow> str \<Rightarrow> FileIndex \<Rightarrow> FileIndex" where
  "withdraw key v idx = idx\<lparr>postings := unpost key v (postings idx), fi_dirty_values := List.insert v (fi_dirty_values idx)\<rparr>"

definition enter :: "str \<Rightarrow> str \<Rightarrow> FileIndex \<Rightarrow> FileIndex" where
  "enter key v idx = idx\<lparr>postings := post key v (postings idx), fi_dirty_values := List.insert v (fi_dirty_values idx)\<rparr>"

definition index_apply :: "str \<Rightarrow> Record option \<Rightarrow> Record option \<Rightarrow> FileIndex \<Rightarrow> FileIndex" where
  "index_apply key old new idx =
     (let before = retained idx old; after = retained idx new;
          idx = fold (\<lambda>v idx. if v \<in> set after then idx else withdraw key v idx) before idx
      in fold (\<lambda>v idx. if v \<in> set before then idx else enter key v idx) after idx)"

definition candidates :: "str \<Rightarrow> FileIndex \<Rightarrow> str list option \<times> FileIndex" where
  "candidates v idx =
     (if needs_rebuild idx then (None, idx)
      else if v \<in> set (fi_excluded idx)
        then (None, idx\<lparr>fi_usage := (fi_usage idx)\<lparr>excluded_lookups := fetch_add (excluded_lookups (fi_usage idx)) 1\<rparr>\<rparr>)
      else let keys = (case hm_get (postings idx) v of Some ks \<Rightarrow> ks | None \<Rightarrow> []);
               u = fi_usage idx
        in (Some keys, idx\<lparr>fi_usage := u\<lparr>lookups := fetch_add (lookups u) 1,
                                        use_candidates := fetch_add (use_candidates u) (length keys)\<rparr>\<rparr>))"

definition note_survivors :: "nat \<Rightarrow> FileIndex \<Rightarrow> FileIndex" where
  "note_survivors n idx =
     (let u = fi_usage idx
      in idx\<lparr>fi_usage := u\<lparr>measured := fetch_add (measured u) 1, matched := fetch_add (matched u) n\<rparr>\<rparr>)"

record IndexValue =
  iv_value :: str
  iv_keys :: nat

definition histogram :: "nat \<Rightarrow> FileIndex \<Rightarrow> IndexValue list" where
  "histogram limit idx =
     take limit (sort_key (\<lambda>iv. (- int (iv_keys iv), iv_value iv))
       (map (\<lambda>(v, ks). \<lparr>iv_value = v, iv_keys = length ks\<rparr>) (postings idx)))"

definition value_count :: "FileIndex \<Rightarrow> nat" where
  "value_count idx = length (postings idx)"

definition posting_count :: "FileIndex \<Rightarrow> nat" where
  "posting_count idx = sum_list (map (\<lambda>(v, ks). length ks) (postings idx))"

definition largest_postings :: "FileIndex \<Rightarrow> nat" where
  "largest_postings idx = fold max (map (\<lambda>(v, ks). length ks) (postings idx)) 0"

definition index_is_dirty :: "FileIndex \<Rightarrow> bool" where
  "index_is_dirty idx \<longleftrightarrow> fi_dirty_all idx \<or> fi_dirty_values idx \<noteq> []"

text \<open>\<open>impl SectionSource for FileIndex\<close>. A \<open>BTreeMap\<close> hands its keys out in order.\<close>

definition source_of_index :: "FileIndex \<Rightarrow> SectionSource" where
  "source_of_index idx =
     \<lparr>record_count = length (postings idx),
      source_record = (\<lambda>v. map_option posting_record (hm_get (postings idx) v)),
      source_keys = sort (hm_keys (postings idx))\<rparr>"

text \<open>
  \<open>save\<close>: the section first, then the state that names the data version. The directory is returned
  with an error too.
\<close>

definition index_save ::
  "directory \<Rightarrow> nat \<Rightarrow> nat \<Rightarrow> FileIndex \<Rightarrow> (directory \<times> (FileIndex, HashfileError) result) option" where
  "index_save d data_version per_group idx =
     (let finish = (\<lambda>d idx. Some (index_write_state d \<lparr>st_field = fi_field idx, st_attribute = fi_attr idx + 1,
            st_data_version = data_version, st_excluded = fi_excluded idx\<rparr>, Ok (idx\<lparr>fi_data_version := data_version\<rparr>)))
      in if index_is_dirty idx then
           (case save_with_fsync d (source_of_index idx) (fi_meta idx)
              (if fi_dirty_all idx then None else Some (fi_dirty_values idx)) per_group of
              None \<Rightarrow> None
            | Some (d', Inl e) \<Rightarrow> Some (d', Err e)
            | Some (d', Inr meta) \<Rightarrow> finish d' (idx\<lparr>fi_meta := meta, fi_dirty_values := [], fi_dirty_all := False\<rparr>))
         else finish d idx)"

end
