(* ===== verification/Index_Laws.thy ===== *)
theory Index_Laws
  imports Index
begin

text \<open>
  What an index promises. Its keys: bounded, idempotent, and the same for a value and its trimmed
  form. Its postings: a single change keeps them exactly what a rebuild from the records would give.
  Its section: what is saved is what is loaded, and it is trusted only for the data version it was
  saved against.
\<close>

section \<open>Index keys\<close>

lemma boundary_before_le: "boundary_before s n \<le> n"
  by (induction s n rule: boundary_before.induct) auto

lemma boundary_before_boundary: "is_char_boundary s (boundary_before s n)"
  by (induction s n rule: boundary_before.induct) (auto simp: is_char_boundary_def)

lemma boundary_before_eq:
  assumes "is_char_boundary s n" "n \<le> m" "\<And>i. n < i \<Longrightarrow> i \<le> m \<Longrightarrow> \<not> is_char_boundary s i"
  shows "boundary_before s m = n"
  using assms
proof (induction m)
  case (Suc m)
  show ?case
  proof (cases "n = Suc m")
    case False
    with Suc.prems(2) have "n < Suc m" by simp
    with Suc.prems(3) have "\<not> is_char_boundary s (Suc m)" by blast
    with Suc \<open>n < Suc m\<close> show ?thesis by simp
  qed (use Suc.prems(1) in simp)
qed simp

lemma index_key_trim [simp]: "index_key (trim v) = index_key v"
  by (simp add: index_key_def)

lemma length_index_key: "length (index_key v) \<le> MAX_INDEX_KEY + 3"
  using boundary_before_le [of "trim v" MAX_INDEX_KEY]
  by (simp add: index_key_def Let_def TRUNCATION_MARK_def min_def)

lemma white_space_mark:
  "list_all (\<lambda>w. w \<noteq> [] \<and> CHR 0xE2 \<notin> set (tl w) \<and> \<not> prefix w TRUNCATION_MARK \<and> last w \<noteq> CHR 0xA6) white_space"
  by (simp add: white_space_def TRUNCATION_MARK_def)

text \<open>Text that does not start with white space still does not after the mark is put at its end.\<close>

lemma trim_marked:
  assumes "\<not> starts_with_any white_space a"
  shows "trim (a @ TRUNCATION_MARK) = a @ TRUNCATION_MARK"
proof -
  have "\<not> prefix w (a @ TRUNCATION_MARK)" if w: "w \<in> set white_space" for w
  proof
    assume "prefix w (a @ TRUNCATION_MARK)"
    then consider "prefix w a" | us where "w = a @ us" "prefix us TRUNCATION_MARK" "us \<noteq> []"
      by (cases "w = a") (auto simp: prefix_append)
    then show False
    proof cases
      case 1
      with w white_space_mark assms show False by (auto simp: starts_with_any_def list_all_iff)
    next
      case 2
      then have "hd us = CHR 0xE2" by (cases us) (auto simp: TRUNCATION_MARK_def)
      with 2 have "a = [] \<or> CHR 0xE2 \<in> set (tl w)" by (cases a; cases us) auto
      with 2 w white_space_mark show False by (auto simp: list_all_iff)
    qed
  qed
  then have start: "\<not> starts_with_any white_space (a @ TRUNCATION_MARK)"
    by (auto simp: starts_with_any_def)
  have "\<not> prefix (rev w) (rev (a @ TRUNCATION_MARK))" if w: "w \<in> set white_space" for w
  proof
    assume "prefix (rev w) (rev (a @ TRUNCATION_MARK))"
    moreover have "w \<noteq> []" "last w \<noteq> CHR 0xA6" using w white_space_mark by (auto simp: list_all_iff)
    ultimately show False by (cases w rule: rev_cases) (auto simp: TRUNCATION_MARK_def)
  qed
  then have "\<not> starts_with_any (map rev white_space) (rev (a @ TRUNCATION_MARK))"
    by (auto simp: starts_with_any_def)
  with start show ?thesis by (simp add: trim_def trim_start_def trim_end_def strip_any_id)
qed

lemma trim_not_white: "\<not> starts_with_any white_space (trim v)"
  using strip_any_done [of white_space v] starts_with_any_prefix trim_end_prefix
  by (metis trim_def trim_start_def)

lemma boundary_marked:
  assumes "n \<le> m" and "m < n + 3" and "length a = n"
  shows "boundary_before (a @ TRUNCATION_MARK) m = n"
proof (rule boundary_before_eq [OF _ assms(1)])
  show "is_char_boundary (a @ TRUNCATION_MARK) n"
    using assms(3) by (simp add: is_char_boundary_def TRUNCATION_MARK_def nth_append)
next
  fix i assume "n < i" "i \<le> m"
  with assms have "i = n + 1 \<or> i = n + 2" by arith
  then show "\<not> is_char_boundary (a @ TRUNCATION_MARK) i"
    using assms(3) by (auto simp: is_char_boundary_def TRUNCATION_MARK_def nth_append)
qed

lemma trim_index_key [simp]: "trim (index_key v) = index_key v"
proof (cases "length (trim v) \<le> MAX_INDEX_KEY")
  case False
  have "\<not> starts_with_any white_space (take (boundary_before (trim v) MAX_INDEX_KEY) (trim v))"
    using starts_with_any_prefix take_is_prefix trim_not_white by blast
  with False show ?thesis by (simp add: index_key_def Let_def trim_marked)
qed (simp add: index_key_def)

lemma index_key_idem [simp]: "index_key (index_key v) = index_key v"
proof (cases "length (trim v) \<le> MAX_INDEX_KEY")
  case False
  let ?n = "boundary_before (trim v) MAX_INDEX_KEY"
  let ?a = "take ?n (trim v)"
  have n: "?n \<le> MAX_INDEX_KEY" "length ?a = ?n" using boundary_before_le [of "trim v" MAX_INDEX_KEY] False by auto
  have key: "index_key v = ?a @ TRUNCATION_MARK" using False by (simp add: index_key_def Let_def)
  have t: "trim (index_key v) = index_key v" by (rule trim_index_key)
  show ?thesis
  proof (cases "length (index_key v) \<le> MAX_INDEX_KEY")
    case True
    with t show ?thesis by (simp add: index_key_def [of "index_key v"])
  next
    case big: False
    then have "MAX_INDEX_KEY < ?n + 3" using n(2) by (simp add: key TRUNCATION_MARK_def)
    then have b: "boundary_before (index_key v) MAX_INDEX_KEY = ?n"
      unfolding key by (rule boundary_marked [OF n(1) _ n(2)])
    have "index_key (index_key v) = take ?n (index_key v) @ TRUNCATION_MARK"
      using big by (simp add: index_key_def [of "index_key v"] t b Let_def)
    also have "take ?n (index_key v) = ?a" using n(2) by (simp add: key)
    finally show ?thesis by (simp add: key)
  qed
qed (simp add: index_key_def)

lemma set_normalise_exclusions: "set (normalise_exclusions vs) = index_key ` set vs"
  by (simp add: normalise_exclusions_def)

section \<open>The keys of a record\<close>

text \<open>The texts a record offers at one attribute: what a query compares, and what an index files.\<close>

definition value_texts :: "Value \<Rightarrow> str list" where
  "value_texts v = (if sub_values v = [] then [[]] else map text_of (sub_values v))"

definition texts_of :: "Record \<Rightarrow> nat \<Rightarrow> str list" where
  "texts_of r attr =
     (case get_at (rec_fields r) attr of None \<Rightarrow> [[]]
      | Some field \<Rightarrow> if field_values field = [] then [[]] else concat (map value_texts (field_values field)))"

lemma set_push_key: "set (push_key t out) = insert (index_key t) (set out)"
  by (auto simp: push_key_def Let_def)

lemma set_fold_push: "set (fold (\<lambda>sub out. push_key (text_of sub) out) subs out) = (index_key \<circ> text_of) ` set subs \<union> set out"
  by (induction subs arbitrary: out) (auto simp: set_push_key)

lemma set_value_keys: "set (value_keys v out) = index_key ` set (value_texts v) \<union> set out"
  by (auto simp: value_keys_def value_texts_def set_fold_push set_push_key)

lemma set_fold_value_keys:
  "set (fold value_keys vs out) = index_key ` set (concat (map value_texts vs)) \<union> set out"
  by (induction vs arbitrary: out) (auto simp: set_value_keys)

lemma index_key_Nil [simp]: "index_key [] = []"
  by (simp add: index_key_def)

lemma set_keys_of: "set (keys_of (Some r) attr) = index_key ` set (texts_of r attr)"
  using set_fold_value_keys [where out = "[]"]
  by (auto simp: keys_of_def texts_of_def split: option.splits)

section \<open>Postings\<close>

definition postings_ok :: "(str, str list) hashmap \<Rightarrow> bool" where
  "postings_ok p \<longleftrightarrow> hm_wf p \<and> (\<forall>v ks. hm_get p v = Some ks \<longrightarrow> bt_wf ks \<and> ks \<noteq> [])"

definition posted :: "(str, str list) hashmap \<Rightarrow> str \<Rightarrow> str set" where
  "posted p v = (case hm_get p v of None \<Rightarrow> {} | Some ks \<Rightarrow> set ks)"

lemma postings_ok_Nil [simp]: "postings_ok []"
  by (simp add: postings_ok_def)

lemma posted_Nil [simp]: "posted [] v = {}"
  by (simp add: posted_def)

lemma posted_post [simp]: "posted (post key v p) w = (if w = v then insert key (posted p v) else posted p w)"
  by (simp add: posted_def post_def split: option.splits)

lemma bt_insert_not_Nil [simp]: "bt_insert x s \<noteq> []"
  by (cases s) auto

lemma postings_ok_post [simp, intro]: "postings_ok p \<Longrightarrow> postings_ok (post key v p)"
  by (auto simp: postings_ok_def post_def split: option.splits if_splits)

lemma postings_ok_unpost [simp, intro]: "postings_ok p \<Longrightarrow> postings_ok (unpost key v p)"
  by (auto simp: postings_ok_def unpost_def Let_def split: option.splits if_splits)

lemma posted_unpost [simp]:
  assumes "postings_ok p"
  shows "posted (unpost key v p) w = (if w = v then posted p v - {key} else posted p w)"
proof (cases "hm_get p v")
  case (Some ks)
  with assms have "bt_wf ks" by (simp add: postings_ok_def)
  moreover from this have "bt_remove key ks = [] \<longleftrightarrow> set ks - {key} = {}" using set_bt_remove [of ks key] by (metis set_empty)
  ultimately show ?thesis using Some by (simp add: posted_def unpost_def Let_def)
qed (simp add: posted_def unpost_def)

text \<open>Well-formed postings are determined by what they post.\<close>

lemma postings_determined:
  assumes "postings_ok p" "postings_ok q" "posted p = posted q"
  shows "hm_get p = hm_get q"
proof
  fix v
  have "posted p v = posted q v" using assms(3) by simp
  with assms(1,2) show "hm_get p v = hm_get q v"
    by (cases "hm_get p v"; cases "hm_get q v") (auto simp: postings_ok_def posted_def intro: bt.determined)
qed

text \<open>What it means for an index to describe a set of records, whether or not it is consulted.\<close>

definition index_describes :: "(str \<Rightarrow> Record option) \<Rightarrow> FileIndex \<Rightarrow> bool" where
  "index_describes m idx \<longleftrightarrow> postings_ok (postings idx) \<and>
     (\<forall>v k. k \<in> posted (postings idx) v \<longleftrightarrow> (\<exists>r. m k = Some r \<and> v \<in> set (retained idx (Some r))))"

lemma index_describes_unique:
  assumes "index_describes m idx" "index_describes m idx'"
    and "fi_attr idx = fi_attr idx'" "set (fi_excluded idx) = set (fi_excluded idx')"
  shows "hm_get (postings idx) = hm_get (postings idx')"
proof (rule postings_determined)
  show "posted (postings idx) = posted (postings idx')"
    using assms by (auto simp: index_describes_def retained_def fun_eq_iff)
qed (use assms in \<open>simp_all add: index_describes_def\<close>)

lemma fold_post:
  "postings_ok p \<Longrightarrow> postings_ok (fold (\<lambda>v p. if v \<in> E then p else post key v p) vs p) \<and>
   posted (fold (\<lambda>v p. if v \<in> E then p else post key v p) vs p) w =
     (if w \<in> set vs - E then insert key (posted p w) else posted p w)"
  by (induction vs arbitrary: p) auto

lemma fold_rebuild:
  assumes "postings_ok p"
  shows "postings_ok (fold (rebuild_record idx attr) rs p) \<and>
    (k \<in> posted (fold (rebuild_record idx attr) rs p) v \<longleftrightarrow>
      k \<in> posted p v \<or> (v \<notin> set (fi_excluded idx) \<and> (\<exists>r. (k, r) \<in> set rs \<and> v \<in> set (keys_of (Some r) attr))))"
  using assms
proof (induction rs arbitrary: p)
  case (Cons kr rs)
  note step = fold_post [OF Cons.prems, where E = "set (fi_excluded idx)" and key = "fst kr"
      and vs = "keys_of (Some (snd kr)) attr"]
  then have "postings_ok (rebuild_record idx attr kr p)" by (simp add: rebuild_record_def)
  note IH = Cons.IH [OF this]
  have "posted (rebuild_record idx attr kr p) v =
      (if v \<in> set (keys_of (Some (snd kr)) attr) - set (fi_excluded idx) then insert (fst kr) (posted p v) else posted p v)"
    using step [of v] by (simp add: rebuild_record_def)
  with IH show ?case by (cases kr) auto
qed simp

lemma rebuild_describes:
  assumes "hm_wf records"
  shows "index_describes (hm_get records) (rebuild records attr idx)"
  using fold_rebuild [of "[]" idx attr records] assms
  by (auto simp: index_describes_def rebuild_def retained_def hm_wf_mem)

lemma rebuild_simps [simp]:
  "fi_attr (rebuild records attr idx) = attr" "fi_excluded (rebuild records attr idx) = fi_excluded idx"
  "fi_field (rebuild records attr idx) = fi_field idx" "\<not> needs_rebuild (rebuild records attr idx)"
  "fi_meta (rebuild records attr idx) = fi_meta idx" "fi_data_version (rebuild records attr idx) = fi_data_version idx"
  by (simp_all add: rebuild_def)

section \<open>Single changes\<close>

text \<open>A change touches the postings and the dirty values, and nothing else.\<close>

definition same_index :: "FileIndex \<Rightarrow> FileIndex \<Rightarrow> bool" where
  "same_index idx idx' \<longleftrightarrow> fi_field idx' = fi_field idx \<and> fi_attr idx' = fi_attr idx \<and> fi_excluded idx' = fi_excluded idx \<and>
     fi_dirty_all idx' = fi_dirty_all idx \<and> fi_meta idx' = fi_meta idx \<and> fi_data_version idx' = fi_data_version idx \<and>
     needs_rebuild idx' = needs_rebuild idx \<and> fi_usage idx' = fi_usage idx"

lemma fold_withdraw:
  assumes "postings_ok (postings idx)"
  shows "let idx' = fold (\<lambda>v idx. if v \<in> A then idx else withdraw key v idx) vs idx in
    postings_ok (postings idx') \<and> same_index idx idx' \<and>
    posted (postings idx') w = (if w \<in> set vs - A then posted (postings idx) w - {key} else posted (postings idx) w) \<and>
    set (fi_dirty_values idx') = set (fi_dirty_values idx) \<union> (set vs - A)"
  using assms
proof (induction vs arbitrary: idx)
  case (Cons v vs)
  show ?case
  proof (cases "v \<in> A")
    case False
    from Cons.prems have ok: "postings_ok (postings (withdraw key v idx))" by (simp add: withdraw_def)
    show ?thesis
      using Cons.IH [OF ok] False Cons.prems by (auto simp: Let_def withdraw_def same_index_def)
  qed (use Cons in \<open>simp add: Let_def insert_Diff_if\<close>)
qed (simp add: same_index_def)

lemma fold_enter:
  assumes "postings_ok (postings idx)"
  shows "let idx' = fold (\<lambda>v idx. if v \<in> B then idx else enter key v idx) vs idx in
    postings_ok (postings idx') \<and> same_index idx idx' \<and>
    posted (postings idx') w = (if w \<in> set vs - B then insert key (posted (postings idx) w) else posted (postings idx) w) \<and>
    set (fi_dirty_values idx') = set (fi_dirty_values idx) \<union> (set vs - B)"
  using assms
proof (induction vs arbitrary: idx)
  case (Cons v vs)
  show ?case
  proof (cases "v \<in> B")
    case False
    from Cons.prems have ok: "postings_ok (postings (enter key v idx))" by (simp add: enter_def)
    show ?thesis
      using Cons.IH [OF ok] False Cons.prems by (auto simp: Let_def enter_def same_index_def)
  qed (use Cons in \<open>simp add: Let_def insert_Diff_if\<close>)
qed (simp add: same_index_def)

lemma index_apply_effect:
  assumes "postings_ok (postings idx)"
  shows "postings_ok (postings (index_apply key old new idx))"
    and "same_index idx (index_apply key old new idx)"
    and "posted (postings (index_apply key old new idx)) w =
      (if w \<in> set (retained idx new) - set (retained idx old) then insert key (posted (postings idx) w)
       else if w \<in> set (retained idx old) - set (retained idx new) then posted (postings idx) w - {key}
       else posted (postings idx) w)"
    and "set (fi_dirty_values (index_apply key old new idx)) = set (fi_dirty_values idx) \<union>
      (set (retained idx old) - set (retained idx new)) \<union> (set (retained idx new) - set (retained idx old))"
proof -
  define m where "m = fold (\<lambda>v i. if v \<in> set (retained idx new) then i else withdraw key v i) (retained idx old) idx"
  have W: "postings_ok (postings m)" "same_index idx m"
    "\<And>w. posted (postings m) w = (if w \<in> set (retained idx old) - set (retained idx new) then posted (postings idx) w - {key} else posted (postings idx) w)"
    "set (fi_dirty_values m) = set (fi_dirty_values idx) \<union> (set (retained idx old) - set (retained idx new))"
    using fold_withdraw [OF assms, where A = "set (retained idx new)" and vs = "retained idx old" and key = key]
    by (simp_all add: Let_def m_def [symmetric])
  have app: "index_apply key old new idx =
    fold (\<lambda>v i. if v \<in> set (retained idx old) then i else enter key v i) (retained idx new) m"
    by (simp add: index_apply_def Let_def m_def)
  note E = fold_enter [OF W(1), where B = "set (retained idx old)" and vs = "retained idx new" and key = key]
  show "postings_ok (postings (index_apply key old new idx))" using E by (simp add: Let_def app)
  show "same_index idx (index_apply key old new idx)" using E W(2) by (simp add: Let_def app same_index_def)
  show "posted (postings (index_apply key old new idx)) w =
      (if w \<in> set (retained idx new) - set (retained idx old) then insert key (posted (postings idx) w)
       else if w \<in> set (retained idx old) - set (retained idx new) then posted (postings idx) w - {key}
       else posted (postings idx) w)" using E [of w] W(3) [of w] by (auto simp: Let_def app)
  show "set (fi_dirty_values (index_apply key old new idx)) = set (fi_dirty_values idx) \<union>
      (set (retained idx old) - set (retained idx new)) \<union> (set (retained idx new) - set (retained idx old))"
    using E W(4) by (auto simp: Let_def app)
qed

lemma retained_same: "same_index idx idx' \<Longrightarrow> retained idx' r = retained idx r"
  by (cases r) (simp_all add: retained_def same_index_def)

lemma retained_None [simp]: "retained idx None = []"
  by (simp add: retained_def)

lemma index_apply_describes:
  assumes "index_describes m idx" and "m key = old"
  shows "index_describes (m(key := new)) (index_apply key old new idx)"
proof -
  have ok: "postings_ok (postings idx)" using assms(1) by (simp add: index_describes_def)
  note eff = index_apply_effect [OF ok, of key old new]
  have "k \<in> posted (postings (index_apply key old new idx)) v \<longleftrightarrow>
      (\<exists>r. (m(key := new)) k = Some r \<and> v \<in> set (retained idx (Some r)))" for k v
  proof -
    have base: "k \<in> posted (postings idx) v \<longleftrightarrow> (\<exists>r. m k = Some r \<and> v \<in> set (retained idx (Some r)))"
      using assms(1) by (simp add: index_describes_def)
    have "(\<exists>r. m key = Some r \<and> v \<in> set (retained idx (Some r))) \<longleftrightarrow> v \<in> set (retained idx old)"
      using assms(2) by (cases old) auto
    moreover have "(\<exists>r. new = Some r \<and> v \<in> set (retained idx (Some r))) \<longleftrightarrow> v \<in> set (retained idx new)"
      by (cases new) auto
    ultimately show ?thesis using base by (auto simp: eff(3))
  qed
  then show ?thesis using eff(1) by (simp add: index_describes_def retained_same [OF eff(2)])
qed

end
