(* ===== verification/Index_Store.thy ===== *)
theory Index_Store
  imports Index_Laws
begin

text \<open>
  An index on disk: the \<open>state\<close> file reads back as what was written, the section reads back as the
  postings, and an index read back is trusted exactly when the data version, the field and the
  attribute it was saved for are those it is opened for.
\<close>

section \<open>Excluded values as text\<close>

definition escapable :: "char \<Rightarrow> bool" where
  "escapable c \<longleftrightarrow> c \<in> {backslash, newline, carriage_return, tab, CHR '' ''}"

lemma escape_value_simps [simp]:
  "escape_value [] = []" "escape_value (c # s) = escape_char c @ escape_value s"
  "escape_value (s @ t) = escape_value s @ escape_value t"
  by (simp_all add: escape_value_def)

lemma escape_char_cases: "if escapable c then \<exists>e. escape_char c = [backslash, e] \<and> visible e else escape_char c = [c]"
  by (simp add: escapable_def escape_char_def visible_def)

lemma unescape_plain: "c \<noteq> backslash \<Longrightarrow> unescape_value (c # s) = c # unescape_value s"
  by (cases s) auto

lemma unescape_escape [simp]: "unescape_value (escape_value v) = v"
  by (induction v) (auto simp: escape_char_def unescape_plain)

lemma escape_value_clean: "c \<in> set (escape_value v) \<Longrightarrow> c \<notin> {newline, carriage_return, tab, CHR '' ''}"
  by (induction v) (auto simp: escape_char_def split: if_splits)

text \<open>White space that escaping leaves alone is white space of the value itself.\<close>

lemma prefix_escape: "prefix w (escape_value v) \<Longrightarrow> \<forall>c \<in> set w. \<not> escapable c \<Longrightarrow> prefix w v"
proof (induction w arbitrary: v)
  case (Cons c w)
  then obtain a v' where v: "v = a # v'" by (cases v) auto
  have "escapable backslash" by (simp add: escapable_def)
  moreover have "hd (escape_char a @ escape_value v') = c"
    using Cons.prems(1) v by (auto simp: prefix_def)
  ultimately have "escape_char a = [a]"
    using Cons.prems(2) escape_char_cases [of a] by (cases "escapable a") auto
  with v Cons show ?case by simp
qed simp

lemma suffix_escape:
  "suffix w (escape_value v) \<Longrightarrow> \<forall>c \<in> set w. \<not> escapable c \<and> \<not> visible c \<Longrightarrow> suffix w v"
proof (induction w arbitrary: v rule: rev_induct)
  case (snoc c w)
  show ?case
  proof (cases v rule: rev_cases)
    case Nil
    with snoc.prems(1) show ?thesis by simp
  next
    case v: (snoc v' a)
    have "\<not> escapable a"
    proof
      assume "escapable a"
      then obtain e where "escape_char a = [backslash, e]" "visible e" using escape_char_cases [of a] by auto
      with snoc.prems v show False by (auto simp: suffix_def)
    qed
    then have "escape_char a = [a]" using escape_char_cases [of a] by simp
    with snoc v show ?thesis by simp
  qed
qed simp

lemma white_space_kinds:
  "list_all (\<lambda>w. w \<noteq> [] \<and> (w \<in> {[tab], [newline], [carriage_return], '' ''} \<or> list_all (\<lambda>c. \<not> escapable c \<and> \<not> visible c) w)) white_space"
  by (simp add: white_space_def escapable_def visible_def)

lemma trim_escape: "trim v = v \<Longrightarrow> trim (escape_value v) = escape_value v"
proof -
  assume v: "trim v = v"
  have no_start: "\<not> starts_with_any white_space v" using trim_not_white [of v] v by simp
  have no_end: "\<not> starts_with_any (map rev white_space) (rev v)"
  proof -
    have "rev v = strip_any (map rev white_space) (rev (trim_start v))"
      using v by (metis rev_rev_ident trim_def trim_end_def)
    then show ?thesis using strip_any_done by metis
  qed
  have "\<not> prefix w (escape_value v)" "\<not> suffix w (escape_value v)" if w: "w \<in> set white_space" for w
  proof -
    have kinds: "w \<noteq> []" "w \<in> {[tab], [newline], [carriage_return], '' ''} \<or> (\<forall>c \<in> set w. \<not> escapable c \<and> \<not> visible c)"
      using w white_space_kinds by (auto simp: list_all_iff)
    have "\<not> prefix w v" "\<not> suffix w v"
      using no_start no_end w kinds(1) by (auto simp: starts_with_any_def suffix_to_prefix)
    moreover have "\<not> set w \<subseteq> set (escape_value v)" if "w \<in> {[tab], [newline], [carriage_return], '' ''}"
      using that by (auto dest: escape_value_clean)
    ultimately show "\<not> prefix w (escape_value v)" "\<not> suffix w (escape_value v)"
      using kinds(2) prefix_escape [of w v] suffix_escape [of w v] set_mono_prefix set_mono_suffix by blast+
  qed
  then have "\<not> starts_with_any white_space (escape_value v)"
    "\<not> starts_with_any (map rev white_space) (rev (escape_value v))"
    by (auto simp: starts_with_any_def suffix_to_prefix)
  then show ?thesis by (simp add: trim_def trim_start_def trim_end_def strip_any_id)
qed

lemma plain_escape: "plain_line (key_value ''exclude'' (escape_value v))"
  by (auto simp: plain_line_def key_value_def dest: escape_value_clean last_in_set)

lemma utf8_escape: "utf8_valid v \<Longrightarrow> utf8_valid (escape_value v)"
  unfolding escape_value_def by (rule utf8_valid_rewrite) (auto simp: escape_char_def)

section \<open>The state file round trip\<close>

definition index_state_ok :: "IndexState \<Rightarrow> bool" where
  "index_state_ok st \<longleftrightarrow> visible_text (st_field st) \<and> st_attribute st \<le> u64_max \<and> st_data_version st \<le> u64_max \<and>
     bt_wf (st_excluded st) \<and> (\<forall>v \<in> set (st_excluded st). utf8_valid v \<and> trim v = v)"

lemma scan_exclude:
  assumes "trim v = v"
  shows "scan_state_line (key_value ''exclude'' (escape_value v)) sc =
    Some (sc\<lparr>scan_text := scan_text sc @ key_value ''exclude'' (escape_value v) @ [newline],
      scan_excluded := bt_insert v (scan_excluded sc)\<rparr>)"
  by (simp add: scan_state_line_def split_once_key_value trim_visible_text visible_def Let_def trim_escape [OF assms])

lemma scan_excludes:
  "\<forall>v \<in> set vs. trim v = v \<Longrightarrow>
   scan_state_lines (map (\<lambda>v. key_value ''exclude'' (escape_value v)) vs) sc =
     Some (sc\<lparr>scan_text := scan_text sc @ unlines (map (\<lambda>v. key_value ''exclude'' (escape_value v)) vs),
       scan_excluded := fold bt_insert vs (scan_excluded sc)\<rparr>)"
  by (induction vs arbitrary: sc) (simp_all add: scan_exclude)

lemma scan_header:
  assumes "visible_text (st_field st)" "st_attribute st \<le> u64_max" "st_data_version st \<le> u64_max"
  shows "scan_state_lines (key_value ''checksum'' (hex8 w) # state_lines st) StateScan_new =
    scan_state_lines (map (\<lambda>v. key_value ''exclude'' (escape_value v)) (st_excluded st))
      \<lparr>scan_field = Some (st_field st), scan_attribute = Some (st_attribute st),
       scan_version = Some (st_data_version st), scan_excluded = [], scan_stored = Some w,
       scan_text = unlines (take 3 (state_lines st))\<rparr>"
  using assms
  by (simp add: state_lines_def scan_state_line_def split_once_key_value trim_visible_text visible_def Let_def
      StateScan_new_def from_str_radix_show hex8_parse del: show_radix.simps)

lemma index_read_write_state:
  assumes "index_state_ok st"
  shows "index_read_state (index_write_state d st) = Some st"
proof -
  let ?w = "crc32c (unlines (state_lines st))"
  let ?ls = "key_value ''checksum'' (hex8 ?w) # state_lines st"
  have ok: "visible_text (st_field st)" "st_attribute st \<le> u64_max" "st_data_version st \<le> u64_max"
    "bt_wf (st_excluded st)" "\<forall>v \<in> set (st_excluded st). utf8_valid v \<and> trim v = v"
    using assms by (simp_all add: index_state_ok_def)
  have line: "plain_line l \<and> utf8_valid l" if "l \<in> set ?ls" for l
  proof -
    have "visible_text l \<or> (\<exists>v \<in> set (st_excluded st). l = key_value ''exclude'' (escape_value v))"
      using that ok(1) by (auto simp: state_lines_def visible_def simp del: show_radix.simps)
    then show ?thesis
    proof
      assume "\<exists>v \<in> set (st_excluded st). l = key_value ''exclude'' (escape_value v)"
      then obtain v where "v \<in> set (st_excluded st)" "l = key_value ''exclude'' (escape_value v)" by blast
      with ok(5) show ?thesis
        by (simp add: plain_escape utf8_escape key_value_def utf8_valid_ascii_Cons plain_escape [unfolded key_value_def, simplified])
    qed (simp add: plain_visible_text utf8_valid_ascii visible_text_ascii)
  qed
  have "utf8_valid (unlines ls)" if "\<forall>l \<in> set ls. utf8_valid l" for ls
    using that by (induction ls) (simp_all add: utf8_valid_append utf8_valid_ascii_Cons)
  with line have utf: "utf8_valid (unlines ?ls)" by blast
  have lines: "lines (unlines ?ls) = ?ls" using line by (blast intro: lines_unlines)
  have nl: "unlines ?ls \<noteq> []" "last (unlines ?ls) = newline" using last_unlines [of ?ls] by simp_all
  have body: "unlines (state_lines st) =
    unlines (take 3 (state_lines st)) @ unlines (map (\<lambda>v. key_value ''exclude'' (escape_value v)) (st_excluded st))"
    by (simp add: state_lines_def)
  have "fold bt_insert (st_excluded st) [] = st_excluded st"
    using bt_of_list_id [OF ok(4)] by (simp add: bt_of_list_def)
  moreover have "\<forall>v \<in> set (st_excluded st). trim v = v" using ok(5) by blast
  ultimately have scan: "scan_state_lines ?ls StateScan_new =
      Some \<lparr>scan_field = Some (st_field st), scan_attribute = Some (st_attribute st),
       scan_version = Some (st_data_version st), scan_excluded = st_excluded st, scan_stored = Some ?w,
       scan_text = unlines (state_lines st)\<rparr>"
    by (simp only: scan_header [OF ok(1-3)] scan_excludes) (simp add: body)
  show ?thesis
    using utf nl by (simp add: index_read_state_def index_write_state_def lines scan check_state_def
        del: unlines_simps scan_state_lines.simps)
qed

section \<open>The section round trip\<close>

lemma text_of_valid: "utf8_valid s \<Longrightarrow> text_of s = s"
  by (simp add: text_of_def from_utf8_lossy_valid)

lemma posting_round_trip:
  assumes "bt_wf ks" and "\<forall>k \<in> set ks. utf8_valid k"
  shows "posting_keys (posting_record ks) = ks"
proof -
  have "List.map_filter first_text (map Value_text ks) = ks"
    using assms(2) by (induction ks) (simp_all add: first_text_def Value_text_def text_of_valid List.map_filter_simps)
  then show ?thesis using assms(1) by (simp add: posting_keys_def posting_record_def bt_of_list_id)
qed

text \<open>An index is a source of a flush, like a table's records.\<close>

lemma section_source_index:
  assumes "postings_ok (postings idx)"
  shows "section_source (source_of_index idx)"
proof
  have wf: "hm_wf (postings idx)" using assms by (simp add: postings_ok_def)
  show "set (source_keys (source_of_index idx)) = dom (source_record (source_of_index idx))"
    by (auto simp: source_of_index_def hm.keys_get)
  show "distinct (source_keys (source_of_index idx))" using wf by (simp add: source_of_index_def hm.keys_distinct)
  show "record_count (source_of_index idx) = length (source_keys (source_of_index idx))"
    by (simp add: source_of_index_def hm_keys_def)
qed

interpretation index_source: section_source "source_of_index (rebuild (hm.insert_all kvs []) attr idx)" for kvs attr idx
proof (rule section_source_index)
  have "index_describes (hm_get (hm.insert_all kvs [])) (rebuild (hm.insert_all kvs []) attr idx)"
    by (rule rebuild_describes) (rule hm.wf_insert_all, rule hm.wf_empty)
  then show "postings_ok (postings (rebuild (hm.insert_all kvs []) attr idx))" by (simp add: index_describes_def)
qed

lemma group_path_not_state [simp]: "group_path g \<noteq> index_state_path" "group_path g \<noteq> ''state.tmp''"
  by (simp_all add: group_path_def index_state_path_def)

lemma represents_write_state [simp]: "represents (index_write_state d st) meta m = represents d meta m"
  by (simp add: represents_def section_holds_def read_meta_checked_def index_write_state_def meta_path_def index_state_path_def
      group_path_not_state [unfolded index_state_path_def])

definition index_state_of :: "nat \<Rightarrow> FileIndex \<Rightarrow> IndexState" where
  "index_state_of data_version idx =
     \<lparr>st_field = fi_field idx, st_attribute = fi_attr idx + 1, st_data_version = data_version, st_excluded = fi_excluded idx\<rparr>"

text \<open>The state an index may be saved from: what it has not marked as changed is already on disk.\<close>

definition index_ready :: "directory \<Rightarrow> FileIndex \<Rightarrow> nat \<Rightarrow> bool" where
  "index_ready d idx per_group \<longleftrightarrow>
     postings_ok (postings idx) \<and> (\<forall>v. \<forall>k \<in> posted (postings idx) v. utf8_valid k) \<and>
     (if index_is_dirty idx
      then flush_ready d (fi_meta idx) (source_of_index idx) (if fi_dirty_all idx then None else Some (fi_dirty_values idx)) per_group
      else represents d (fi_meta idx) (source_record (source_of_index idx)))"

lemma index_save_ok:
  assumes "index_ready d idx per_group" and "index_state_ok (index_state_of data_version idx)"
  shows "\<exists>d' idx'. index_save d data_version per_group idx = Some (d', Ok idx') \<and>
    represents d' (fi_meta idx') (source_record (source_of_index idx)) \<and>
    index_read_state d' = Some (index_state_of data_version idx) \<and>
    postings idx' = postings idx \<and> fi_excluded idx' = fi_excluded idx \<and> fi_attr idx' = fi_attr idx \<and>
    fi_field idx' = fi_field idx \<and> \<not> index_is_dirty idx' \<and> fi_data_version idx' = data_version"
proof (cases "index_is_dirty idx")
  case True
  then have "flush_ready d (fi_meta idx) (source_of_index idx) (if fi_dirty_all idx then None else Some (fi_dirty_values idx)) per_group"
    using assms(1) by (simp add: index_ready_def)
  from save_represents [OF this] obtain d1 meta where
    "save_with_fsync d (source_of_index idx) (fi_meta idx) (if fi_dirty_all idx then None else Some (fi_dirty_values idx)) per_group
       = Some (d1, Ok meta)" "represents d1 meta (source_record (source_of_index idx))" by blast
  with True show ?thesis
    using index_read_write_state [OF assms(2), of d1]
    by (simp add: index_save_def index_state_of_def Let_def index_is_dirty_def)
next
  case False
  with assms show ?thesis
    using index_read_write_state [OF assms(2), of d]
    by (simp add: index_save_def index_state_of_def Let_def index_is_dirty_def index_ready_def)
qed

lemma hm_get_map: "hm_get (map (\<lambda>(k, x). (k, f x)) m) k = map_option f (hm_get m k)"
  by (induction m) (auto simp: hm_get_def)

lemma loaded_postings:
  assumes "postings_ok (postings idx)" "\<forall>v. \<forall>k \<in> posted (postings idx) v. utf8_valid k"
    and "hm_get mp = source_record (source_of_index idx)"
  shows "hm_get (postings (FileIndex_loaded f a mp meta st dv)) = hm_get (postings idx)"
proof
  fix v
  have "posting_keys (posting_record ks) = ks" if "hm_get (postings idx) v = Some ks" for ks
    using assms(1,2) that by (intro posting_round_trip) (auto simp: postings_ok_def posted_def dest: spec [of _ v])
  then show "hm_get (postings (FileIndex_loaded f a mp meta st dv)) v = hm_get (postings idx) v"
    by (cases "hm_get (postings idx) v") (simp_all add: FileIndex_loaded_def Let_def hm_get_map assms(3) source_of_index_def)
qed

section \<open>Properties\<close>

text \<open>
  The key a value is filed under never exceeds what a group file accepts, is its own key (so an
  exclusion and a lookup compare like with like), and does not depend on white space around the value.
\<close>

theorem index_key_laws:
  "length (index_key v) \<le> MAX_KEY_LEN \<and> index_key (index_key v) = index_key v \<and> index_key (trim v) = index_key v \<and>
   trim (index_key v) = index_key v"
  using length_index_key [of v] by (simp add: MAX_KEY_LEN_def MAX_INDEX_KEY_def)

text \<open>
  The \<open>state\<close> file of an index reads back as what was written, with every excluded value intact
  whatever characters it holds.
\<close>

theorem index_state_round_trip:
  assumes "visible_text field" "attribute \<le> u64_max" "ver \<le> u64_max" "\<forall>v \<in> set excluded. utf8_valid (index_key v)"
  shows "index_read_state (index_write_state d \<lparr>st_field = field, st_attribute = attribute, st_data_version = ver,
      st_excluded = normalise_exclusions excluded\<rparr>) =
    Some \<lparr>st_field = field, st_attribute = attribute, st_data_version = ver, st_excluded = normalise_exclusions excluded\<rparr>"
  by (rule index_read_write_state)
    (use assms in \<open>auto simp: index_state_ok_def set_normalise_exclusions, simp add: normalise_exclusions_def\<close>)

theorem index_state_round_trip_witness:
  "index_read_state (index_write_state [] \<lparr>st_field = ''CITY'', st_attribute = 2, st_data_version = 7,
      st_excluded = normalise_exclusions [[], ''a b'' @ [newline] @ ''c'']\<rparr>) =
    Some \<lparr>st_field = ''CITY'', st_attribute = 2, st_data_version = 7, st_excluded = [[], ''a b'' @ [newline] @ ''c'']\<rparr>"
proof -
  have t: "trim (''a b'' @ [newline] @ ''c'') = ''a b'' @ [newline] @ ''c''" by (rule trim_visible) (simp add: visible_def)
  have k: "index_key (''a b'' @ [newline] @ ''c'') = ''a b'' @ [newline] @ ''c''"
    using t by (simp add: index_key_def MAX_INDEX_KEY_def)
  then have n: "normalise_exclusions [[], ''a b'' @ [newline] @ ''c''] = [[], ''a b'' @ [newline] @ ''c'']"
    by (simp add: normalise_exclusions_def bt_of_list_def)
  have "\<forall>v \<in> set [[], ''a b'' @ [newline] @ ''c'']. utf8_valid (index_key v)"
    using k by (simp add: utf8_valid_ascii)
  from index_state_round_trip [where field = "''CITY''" and attribute = 2 and ver = 7 and d = "[]", OF _ _ _ this]
  show ?thesis unfolding n by (simp add: visible_def u64_max_def)
qed

text \<open>
  An index that is saved loads with the same postings and exclusions, and the loaded index is
  trusted exactly when the data version and the attribute it is opened for are those it was saved
  against: an index written before the records it should describe, or for a field the dictionary has
  moved since, is rebuilt and never consulted.
\<close>

theorem index_save_then_load:
  assumes "index_ready d idx per_group" and "index_state_ok (index_state_of data_version idx)"
  shows "\<exists>d' idx' mp meta. index_save d data_version per_group idx = Some (d', Ok idx') \<and> load d' [] = Ok (mp, meta) \<and>
    (let l = FileIndex_loaded (fi_field idx) attr mp meta (index_read_state d') opened in
     hm_get (postings l) = hm_get (postings idx) \<and> fi_excluded l = fi_excluded idx \<and>
     needs_rebuild l = (opened \<noteq> data_version \<or> attr \<noteq> fi_attr idx))"
proof -
  obtain d' idx' where s: "index_save d data_version per_group idx = Some (d', Ok idx')"
    "represents d' (fi_meta idx') (source_record (source_of_index idx))"
    "index_read_state d' = Some (index_state_of data_version idx)"
    using index_save_ok [OF assms] by blast
  obtain mp where mp: "load d' [] = Ok (mp, fi_meta idx')" "hm_get mp = source_record (source_of_index idx)"
    using load_represents [OF s(2)] by blast
  have "hm_get (postings (FileIndex_loaded (fi_field idx) attr mp (fi_meta idx') (index_read_state d') opened)) =
      hm_get (postings idx)"
    using assms(1) mp(2) by (intro loaded_postings) (simp_all add: index_ready_def)
  with s mp(1) show ?thesis
    by (intro exI [of _ d'] exI [of _ idx'] exI [of _ mp] exI [of _ "fi_meta idx'"])
      (auto simp: FileIndex_loaded_def Let_def index_state_of_def)
qed

text \<open>A small index for the witnesses: one record, filed under its one value.\<close>

definition sample_index :: FileIndex where
  "sample_index = rebuild [(''k'', sample_record)] 0 (FileIndex_new ''CITY'' 0)"

lemma sample_keys_of: "keys_of (Some sample_record) 0 = [''v'']"
proof -
  have "index_key ''v'' = ''v''" by (simp add: index_key_def MAX_INDEX_KEY_def trim_visible_text visible_def)
  moreover have "text_of ''v'' = ''v''" by (rule text_of_valid) (simp add: utf8_valid_ascii)
  ultimately show ?thesis
    by (simp add: keys_of_def sample_record_def from_bytes_def field_of_bytes_def value_of_bytes_def get_at_def
        value_keys_def push_key_def FM_def VM_def SVM_def)
qed

lemma sample_postings: "postings sample_index = [(''v'', [''k''])]"
  by (simp add: sample_index_def rebuild_def rebuild_record_def sample_keys_of FileIndex_new_def with_exclusions_def
      normalise_exclusions_def bt_of_list_def post_def hm_insert_def)

lemma sample_index_source_ok: "source_ok (source_of_index sample_index)"
  by (simp add: source_ok_def source_of_index_def sample_postings hm_get_def entry_ok_def posting_record_def Value_text_def
      record_stored_def field_stored_def value_stored_def to_bytes_def field_to_bytes_def value_to_bytes_def
      FM_def VM_def SVM_def utf8_valid_ascii MAX_KEY_LEN_def MAX_DATA_LEN_def)

lemma sample_index_ready: "index_ready [] sample_index 16"
proof -
  have "index_describes (hm_get [(''k'', sample_record)]) sample_index"
    unfolding sample_index_def by (rule rebuild_describes) (simp add: hm_wf_def)
  then have ok: "postings_ok (postings sample_index)" by (simp add: index_describes_def)
  have "\<forall>v. \<forall>k \<in> posted (postings sample_index) v. utf8_valid k"
    by (simp add: sample_postings posted_def hm_get_def utf8_valid_ascii)
  moreover have d: "fi_dirty_all sample_index" "fi_meta sample_index = SectionMeta_empty"
    by (simp_all add: sample_index_def rebuild_def FileIndex_new_def with_exclusions_def)
  moreover have "flush_ready [] SectionMeta_empty (source_of_index sample_index) None 16"
    using section_source_index [OF ok] sample_index_source_ok
    by (simp add: flush_ready_def SectionMeta_empty_def MIN_MODULUS_def u64_max_def sizes_fit_def)
      (simp add: source_of_index_def sample_postings exI [of _ 0])
  ultimately show ?thesis using ok by (simp add: index_ready_def index_is_dirty_def)
qed

theorem index_save_then_load_witness:
  "\<exists>d' idx' mp meta. index_save [] 4 16 sample_index = Some (d', Ok idx') \<and> load d' [] = Ok (mp, meta) \<and>
    (let l = FileIndex_loaded (fi_field sample_index) 0 mp meta (index_read_state d') 5 in
     hm_get (postings l) = hm_get (postings sample_index) \<and> fi_excluded l = fi_excluded sample_index \<and> needs_rebuild l)"
proof -
  have "index_state_ok (index_state_of 4 sample_index)"
    by (simp add: index_state_ok_def index_state_of_def sample_index_def FileIndex_new_def with_exclusions_def
        normalise_exclusions_def bt_of_list_def rebuild_def visible_def u64_max_def)
  from index_save_then_load [OF sample_index_ready this, where attr = 0 and opened = 5] show ?thesis by simp
qed

end
