(* ===== verification/Sequence.thy ===== *)
theory Sequence
  imports Statefile
begin

text \<open>
  Minted keys (\<^verbatim>\<open>db/sequence.rs\<close>): twenty decimal digits of a number that carries the millisecond it
  was minted in, the counter they come from, and the \<open>autokey\<close> file the counter survives in. The
  clock is an argument of every operation. Shown: text order of keys is numeric order, keys are
  minted in strictly ascending order whatever the clock does, a counter pulled past the keys of a
  file never mints one of them, both up to the largest number, and what happens at it.
\<close>

definition KEY_DIGITS :: nat where "KEY_DIGITS = 20"
definition SUB_MILLISECOND :: nat where "SUB_MILLISECOND = 1000000"

definition format_key :: "nat \<Rightarrow> str" where
  "format_key sequence = pad_left KEY_DIGITS (show_nat sequence)"

definition is_ascii_digit :: "char \<Rightarrow> bool" where
  "is_ascii_digit c \<longleftrightarrow> 48 \<le> (of_char c :: nat) \<and> (of_char c :: nat) \<le> 57"

definition key_sequence :: "str \<Rightarrow> nat option" where
  "key_sequence key =
     (if length key \<noteq> KEY_DIGITS \<or> \<not> list_all is_ascii_digit key then None else parse_u64 key)"

definition key_millis :: "str \<Rightarrow> nat option" where
  "key_millis key = map_option (\<lambda>sequence. sequence div SUB_MILLISECOND) (key_sequence key)"

record Sequence =
  seq_next :: nat
  seq_dirty :: bool

definition Sequence_new :: Sequence where "Sequence_new = \<lparr>seq_next = 0, seq_dirty = False\<rparr>"

definition restored :: "nat \<Rightarrow> Sequence" where
  "restored n = \<lparr>seq_next = n, seq_dirty = False\<rparr>"

definition mint :: "nat \<Rightarrow> Sequence \<Rightarrow> nat \<times> Sequence" where
  "mint now_millis s =
     (let sequence = max (seq_next s) (saturating_mul now_millis SUB_MILLISECOND)
      in (sequence, s\<lparr>seq_next := saturating_add sequence 1, seq_dirty := True\<rparr>))"

definition raise_past :: "str \<Rightarrow> Sequence \<Rightarrow> Sequence" where
  "raise_past key s =
     (case key_sequence key of
        Some sequence \<Rightarrow> s\<lparr>seq_next := max (seq_next s) (saturating_add sequence 1)\<rparr>
      | None \<Rightarrow> s)"

definition seq_peek :: "Sequence \<Rightarrow> nat" where "seq_peek s = seq_next s"

definition seq_clear_dirty :: "Sequence \<Rightarrow> Sequence" where "seq_clear_dirty s = s\<lparr>seq_dirty := False\<rparr>"

definition autokey_path :: str where "autokey_path = ''autokey''"

definition read_autokey :: "directory \<Rightarrow> nat option" where
  "read_autokey d =
     (case state_body (state_read d autokey_path) of None \<Rightarrow> None
      | Some body \<Rightarrow> (case state_field body ''next'' of None \<Rightarrow> None | Some v \<Rightarrow> parse_u64 v))"

definition write_autokey :: "directory \<Rightarrow> nat \<Rightarrow> directory" where
  "write_autokey d n = state_write d autokey_path (unlines [key_value ''next'' (show_nat n)])"

definition remove_autokey :: "directory \<Rightarrow> directory" where
  "remove_autokey d = remove_if_present d autokey_path"

section \<open>Keys\<close>

lemma length_format_key: "n \<le> u64_max \<Longrightarrow> length (format_key n) = KEY_DIGITS"
proof -
  assume "n \<le> u64_max"
  then have "n < 10 ^ Suc 19" by (simp add: u64_max_def)
  then have "length (show_nat n) \<le> Suc 19" by (rule length_show_radix [rotated]) simp
  then show ?thesis by (simp add: format_key_def pad_left_def KEY_DIGITS_def del: show_radix.simps)
qed

lemma format_key_digits: "list_all is_ascii_digit (format_key n)"
proof -
  have "is_ascii_digit c" if "c \<in> set (show_nat n)" for c
    using show_radix_chars [OF _ that] by (auto simp: is_ascii_digit_def digit_char_def)
  then show ?thesis
    by (auto simp: list_all_iff format_key_def pad_left_def is_ascii_digit_def simp del: show_radix.simps)
qed

lemma key_sequence_format [simp]: "n \<le> u64_max \<Longrightarrow> key_sequence (format_key n) = Some n"
  using format_key_digits [of n]
  by (simp add: key_sequence_def length_format_key) (simp add: format_key_def from_str_radix_pad del: show_radix.simps)

lemma key_sequence_le: "key_sequence k = Some n \<Longrightarrow> n \<le> u64_max"
  by (auto simp: key_sequence_def from_str_radix_def Let_def split: if_splits option.splits)

lemma key_sequence_digits:
  assumes "key_sequence k = Some n"
  shows "length k = KEY_DIGITS \<and> digits_value 10 0 k = Some n"
proof -
  from assms have len: "length k = KEY_DIGITS" and dig: "list_all is_ascii_digit k"
    and p: "parse_u64 k = Some n" by (auto simp: key_sequence_def split: if_splits)
  have ne: "k \<noteq> []" using len by (auto simp: KEY_DIGITS_def)
  then have "is_ascii_digit (hd k)" using dig by (simp add: list_all_iff)
  then have "hd k \<noteq> CHR ''+''" by (auto simp: is_ascii_digit_def)
  with p ne len show ?thesis
    by (auto simp: from_str_radix_def Let_def split: if_splits option.splits)
qed

lemma key_sequence_less_iff:
  assumes "key_sequence a = Some m" "key_sequence b = Some n"
  shows "a < b \<longleftrightarrow> m < n" "a = b \<longleftrightarrow> m = n"
proof -
  note d = key_sequence_digits [OF assms(1)] key_sequence_digits [OF assms(2)]
  show less: "a < b \<longleftrightarrow> m < n" by (rule digits_value_less_iff) (use d in auto)
  have "b < a \<longleftrightarrow> n < m" by (rule digits_value_less_iff) (use d in auto)
  with less show "a = b \<longleftrightarrow> m = n" by auto
qed

section \<open>Minting\<close>

text \<open>A run of the counter over successive readings of the clock.\<close>

fun mint_all :: "nat list \<Rightarrow> Sequence \<Rightarrow> nat list" where
  "mint_all [] s = []"
| "mint_all (t # ts) s = (let (n, s') = mint t s in n # mint_all ts s')"

definition seq_ok :: "Sequence \<Rightarrow> bool" where "seq_ok s \<longleftrightarrow> seq_next s \<le> u64_max"

lemma mint_spec:
  assumes "seq_ok s" and "mint t s = (n, s')"
  shows "seq_next s \<le> n" "n \<le> u64_max" "seq_ok s'" "seq_next s \<le> seq_next s'"
    "n < u64_max \<Longrightarrow> seq_next s' = n + 1"
  using assms by (auto simp: mint_def Let_def seq_ok_def saturating_add_def)

lemma raise_past_ok [simp]: "seq_ok s \<Longrightarrow> seq_ok (raise_past k s)"
  by (auto simp: raise_past_def seq_ok_def split: option.splits)

lemma raise_past_mono: "seq_next s \<le> seq_next (raise_past k s)"
  by (auto simp: raise_past_def split: option.splits)

lemma raise_past_above:
  "key_sequence k = Some n \<Longrightarrow> n < u64_max \<Longrightarrow> n < seq_next (raise_past k s)"
  by (auto simp: raise_past_def saturating_add_def less_max_iff_disj)

lemma fold_raise_past:
  "seq_ok s \<Longrightarrow> seq_ok (fold raise_past ks s) \<and> seq_next s \<le> seq_next (fold raise_past ks s) \<and>
    (\<forall>k n. k \<in> set ks \<longrightarrow> key_sequence k = Some n \<longrightarrow> n < u64_max \<longrightarrow> n < seq_next (fold raise_past ks s))"
proof (induction ks arbitrary: s)
  case (Cons k ks)
  then have IH: "seq_ok (fold raise_past ks (raise_past k s))"
    "seq_next (raise_past k s) \<le> seq_next (fold raise_past ks (raise_past k s))"
    "\<forall>k' n. k' \<in> set ks \<longrightarrow> key_sequence k' = Some n \<longrightarrow> n < u64_max \<longrightarrow> n < seq_next (fold raise_past ks (raise_past k s))"
    by (simp_all add: Cons.IH)
  moreover have "n < seq_next (fold raise_past ks (raise_past k s))" if "key_sequence k = Some n" "n < u64_max" for n
    using raise_past_above [OF that, of s] IH(2) by (rule less_le_trans)
  ultimately show ?case using raise_past_mono [of s k] by (auto intro: le_trans)
qed simp

lemma mint_all_ge: "seq_ok s \<Longrightarrow> n \<in> set (mint_all ts s) \<Longrightarrow> seq_next s \<le> n \<and> n \<le> u64_max"
proof (induction ts arbitrary: s)
  case (Cons t ts)
  obtain m s' where m: "mint t s = (m, s')" by (cases "mint t s")
  note spec = mint_spec [OF Cons.prems(1) m]
  from Cons.prems(2) m have "n = m \<or> n \<in> set (mint_all ts s')" by auto
  with spec Cons.IH [OF spec(3)] show ?case by (auto intro: le_trans)
qed simp

lemma mint_all_ascending:
  "seq_ok s \<Longrightarrow> \<forall>n \<in> set (mint_all ts s). n < u64_max \<Longrightarrow> sorted_wrt (<) (mint_all ts s)"
proof (induction ts arbitrary: s)
  case (Cons t ts)
  obtain m s' where m: "mint t s = (m, s')" by (cases "mint t s")
  note spec = mint_spec [OF Cons.prems(1) m]
  have "seq_next s' = m + 1" using spec(5) Cons.prems(2) m by simp
  then have "\<forall>n \<in> set (mint_all ts s'). m < n" using mint_all_ge [OF spec(3)] by fastforce
  with Cons.IH [OF spec(3)] Cons.prems(2) m show ?case by simp
qed simp

lemma sorted_format_keys:
  "sorted_wrt (<) ns \<Longrightarrow> \<forall>n \<in> set ns. n \<le> u64_max \<Longrightarrow> sorted_wrt (<) (map format_key ns)"
  by (induction ns) (auto simp: key_sequence_less_iff(1) [OF key_sequence_format key_sequence_format])

section \<open>Properties\<close>

text \<open>
  A minted key reads back as its sequence number, all of them are twenty characters wide, and
  they sort as text exactly as their numbers do, so a range of keys is a range of arrivals.
\<close>

theorem key_order:
  assumes "m \<le> u64_max" and "n \<le> u64_max"
  shows "key_sequence (format_key m) = Some m \<and> length (format_key m) = KEY_DIGITS \<and>
    (format_key m < format_key n \<longleftrightarrow> m < n) \<and> key_millis (format_key m) = Some (m div SUB_MILLISECOND)"
  using assms by (simp add: length_format_key key_sequence_less_iff(1) [OF key_sequence_format key_sequence_format] key_millis_def)

theorem key_order_witness:
  "key_sequence (format_key 7) = Some 7 \<and> length (format_key 7) = KEY_DIGITS \<and>
    (format_key 7 < format_key 10 \<longleftrightarrow> (7 :: nat) < 10) \<and> key_millis (format_key 7) = Some (7 div SUB_MILLISECOND)"
  by (rule key_order) (simp_all add: u64_max_def)

text \<open>
  Keys are minted in strictly ascending text order however the clock jumps between them, and so
  never twice, as long as the largest number has not been reached.
\<close>

theorem minted_keys_ascend:
  assumes "seq_ok s" and "\<forall>n \<in> set (mint_all clock s). n < u64_max"
  shows "sorted_wrt (<) (map format_key (mint_all clock s)) \<and> distinct (map format_key (mint_all clock s))"
proof -
  have "sorted_wrt (<) (map format_key (mint_all clock s))"
    using mint_all_ascending [OF assms] assms(2) by (intro sorted_format_keys) auto
  then show ?thesis by (simp add: strict_sorted_iff)
qed

theorem minted_keys_ascend_witness:
  "sorted_wrt (<) (map format_key (mint_all [5, 3, 9] Sequence_new)) \<and>
   distinct (map format_key (mint_all [5, 3, 9] Sequence_new))"
  by (rule minted_keys_ascend)
    (simp_all add: seq_ok_def Sequence_new_def mint_def Let_def saturating u64_max_def SUB_MILLISECOND_def)

text \<open>
  C35. A counter that was pulled past every key of a file mints none of those keys, even when its
  state file was lost and it starts from nothing, as long as none of them is the largest number.
\<close>

theorem minted_key_is_fresh:
  assumes "seq_ok s" and "format_key u64_max \<notin> set ks" and "mint now (fold raise_past ks s) = (n, s')"
  shows "format_key n \<notin> set ks"
proof
  assume mem: "format_key n \<in> set ks"
  note f = fold_raise_past [OF assms(1), of ks]
  have n: "seq_next (fold raise_past ks s) \<le> n" "n \<le> u64_max" using mint_spec [OF _ assms(3)] f by auto
  have "n \<noteq> u64_max" using mem assms(2) by auto
  with n have "n < seq_next (fold raise_past ks s)" using f mem by simp
  with n show False by simp
qed

theorem minted_key_is_fresh_witness: "format_key 5000000 \<notin> set [format_key 12]"
proof (rule minted_key_is_fresh [where s = Sequence_new and now = 5])
  have "format_key u64_max \<noteq> format_key 12"
    using key_sequence_less_iff(2) [OF key_sequence_format key_sequence_format, of u64_max 12]
    by (simp add: u64_max_def)
  then show "format_key u64_max \<notin> set [format_key 12]" by simp
qed (simp_all add: seq_ok_def Sequence_new_def mint_def raise_past_def u64_max_def Let_def saturating SUB_MILLISECOND_def)

text \<open>
  A record written by hand under the key \<open>18446744073709551615\<close> exhausts the counter: from then
  on every minted key is that same key, so each keyless write replaces the record the one before it
  stored, and the key minted first is already taken.
\<close>

theorem exhausted_counter_repeats:
  assumes "seq_ok s"
  shows "mint_all clock (raise_past (format_key u64_max) s) = replicate (length clock) u64_max"
proof -
  have "mint_all clock s' = replicate (length clock) u64_max" if "seq_next s' = u64_max" for s'
    using that by (induction clock arbitrary: s') (simp_all add: mint_def Let_def saturating)
  moreover have "seq_next (raise_past (format_key u64_max) s) = u64_max"
    using assms by (simp add: raise_past_def seq_ok_def saturating_add_def)
  ultimately show ?thesis by blast
qed

theorem exhausted_counter_repeats_witness:
  "mint_all [1000, 2000] (raise_past (format_key u64_max) Sequence_new) = replicate (length [1000, 2000 :: nat]) u64_max"
  by (rule exhausted_counter_repeats) (simp add: seq_ok_def Sequence_new_def)

text \<open>The counter of an autokey file survives a restart: what was written is what is read.\<close>

theorem autokey_round_trip:
  assumes "n \<le> u64_max"
  shows "read_autokey (write_autokey d n) = Some n"
proof -
  let ?l = "key_value ''next'' (show_nat n)"
  have vis: "visible_text ?l" by (simp add: visible_def del: show_radix.simps)
  then have "utf8_valid (unlines [?l])"
    by (intro utf8_valid_ascii is_ascii_unlines) (simp add: visible_text_ascii)
  moreover have "state_field (unlines [?l]) ''next'' = Some (show_nat n)"
    by (rule state_field_line) (simp_all add: plain_visible_text [OF vis] del: show_radix.simps)
  ultimately show ?thesis
    using assms by (simp add: read_autokey_def write_autokey_def state_read_write state_body_def
        from_str_radix_show del: show_radix.simps unlines_simps)
qed

theorem autokey_round_trip_witness: "read_autokey (write_autokey [] 42) = Some 42"
  by (rule autokey_round_trip) (simp add: u64_max_def)

end
