(* ===== verification/Queue.thy ===== *)
theory Queue
  imports Sequence
begin

text \<open>
  The state of one queue file (\<^verbatim>\<open>db/queue.rs\<close>): the keys nobody holds in arrival order, the claims,
  the delivery counts, the records held back until a due time, and the \<open>queue\<close> file that outlives the
  process. The clock is an argument. The records of the file are an association list whose values are
  never looked at, as in the code, which is generic in them.

  The abstract view of a queue is the status of each key: absent, waiting, in flight or held. The
  invariant is that the three containers agree on it. Shown: every operation keeps the invariant and
  moves exactly the keys it should; the sweep, the claim and the age report do what a reference
  definition says; what is persisted comes back.
\<close>

section \<open>Policy and claims\<close>

text \<open>A \<open>Duration\<close> is its number of milliseconds.\<close>

type_synonym duration = nat

definition from_secs :: "nat \<Rightarrow> duration" where "from_secs s = 1000 * s"

definition DEAD_LETTER_SUFFIX :: str where "DEAD_LETTER_SUFFIX = ''.DEAD''"
definition DEFAULT_VISIBILITY :: duration where "DEFAULT_VISIBILITY = from_secs 60"
definition DEFAULT_MAX_DELIVERIES :: nat where "DEFAULT_MAX_DELIVERIES = 5"
definition MAX_VISIBILITY_SECONDS :: nat where "MAX_VISIBILITY_SECONDS = 86400"
definition MAX_DELIVERY_LIMIT :: nat where "MAX_DELIVERY_LIMIT = 1000"
definition MAX_WAIT_SECONDS :: nat where "MAX_WAIT_SECONDS = 60"
definition MAX_DELAY_SECONDS :: nat where "MAX_DELAY_SECONDS = 30 * 86400"

definition dead_letter_name :: "str \<Rightarrow> str" where
  "dead_letter_name queue = queue @ DEAD_LETTER_SUFFIX"

definition is_dead_letter_name :: "str \<Rightarrow> bool" where
  "is_dead_letter_name name = suffix DEAD_LETTER_SUFFIX name"

definition key_enqueued_millis :: "str \<Rightarrow> nat option" where
  "key_enqueued_millis key = key_millis key"

record QueuePolicy =
  visibility :: duration
  max_deliveries :: nat

definition QueuePolicy_default :: QueuePolicy where
  "QueuePolicy_default = \<lparr>visibility = DEFAULT_VISIBILITY, max_deliveries = DEFAULT_MAX_DELIVERIES\<rparr>"

definition policy_from_attributes :: "str \<Rightarrow> str \<Rightarrow> QueuePolicy" where
  "policy_from_attributes timeout deliveries =
     \<lparr>visibility =
        (case parse_u64 (trim timeout) of
           Some seconds \<Rightarrow> (if 0 < seconds then from_secs (min seconds MAX_VISIBILITY_SECONDS) else DEFAULT_VISIBILITY)
         | None \<Rightarrow> DEFAULT_VISIBILITY),
      max_deliveries =
        (case parse_u32 (trim deliveries) of
           Some count \<Rightarrow> (if 0 < count then min count MAX_DELIVERY_LIMIT else DEFAULT_MAX_DELIVERIES)
         | None \<Rightarrow> DEFAULT_MAX_DELIVERIES)\<rparr>"

definition visibility_seconds :: "QueuePolicy \<Rightarrow> nat" where
  "visibility_seconds p = visibility p div 1000"

record Claim =
  claim_owner :: str
  expires_millis :: nat

definition has_lapsed :: "Claim \<Rightarrow> nat \<Rightarrow> bool" where
  "has_lapsed c now_millis = (expires_millis c \<le> now_millis)"

record Expired =
  returned :: "str list"
  dead :: "str list"

definition Expired_is_empty :: "Expired \<Rightarrow> bool" where
  "Expired_is_empty e = (returned e = [] \<and> dead e = [])"

datatype ClaimError = ClaimNotFound | NotClaimed | HeldBy str

section \<open>State and operations\<close>

record QueueState =
  q_sequence :: Sequence
  available :: "str list"
  claims :: "(str, Claim) hashmap"
  deliveries :: "(str, nat) hashmap"
  due :: "(str, nat) hashmap"
  held :: "(nat \<times> str) list"
  q_dirty :: bool

record PersistedQueue =
  next_sequence :: nat
  p_deliveries :: "(str \<times> nat) list"
  p_due :: "(str \<times> nat) list"

definition PersistedQueue_default :: PersistedQueue where
  "PersistedQueue_default = \<lparr>next_sequence = 0, p_deliveries = [], p_due = []\<rparr>"

text \<open>\<open>collect()\<close> of pairs into a \<open>HashMap\<close>: a later pair of a key replaces an earlier one.\<close>

definition collect_map :: "('k \<times> 'v) list \<Rightarrow> ('k, 'v) hashmap" where
  "collect_map kvs = hm.insert_all kvs []"

definition attach_key :: "(str, nat) hashmap \<Rightarrow> str \<Rightarrow> QueueState \<Rightarrow> QueueState" where
  "attach_key due_map key q =
     (let q = q\<lparr>q_sequence := raise_past key (q_sequence q)\<rparr> in
      case hm_get due_map key of
        Some millis \<Rightarrow> q\<lparr>held := bt_insert (millis, key) (held q)\<rparr>
      | None \<Rightarrow> q\<lparr>available := bt_insert key (available q)\<rparr>)"

definition attach :: "(str, 'r) hashmap \<Rightarrow> PersistedQueue \<Rightarrow> QueueState" where
  "attach records persisted =
     (let due_map = collect_map (filter (\<lambda>(key, _). hm_contains records key) (p_due persisted));
          dels = collect_map (filter (\<lambda>(key, _). hm_contains records key) (p_deliveries persisted));
          q = \<lparr>q_sequence = restored (next_sequence persisted), available = [], claims = [],
               deliveries = dels, due = due_map, held = [], q_dirty = False\<rparr>
      in fold (attach_key due_map) (hm_keys records) q)"

definition queue_is_dirty :: "QueueState \<Rightarrow> bool" where
  "queue_is_dirty q = (q_dirty q \<or> seq_dirty (q_sequence q))"

definition queue_clear_dirty :: "QueueState \<Rightarrow> QueueState" where
  "queue_clear_dirty q = q\<lparr>q_dirty := False, q_sequence := seq_clear_dirty (q_sequence q)\<rparr>"

definition queue_mint :: "nat \<Rightarrow> QueueState \<Rightarrow> nat \<times> QueueState" where
  "queue_mint now_millis q =
     (let (n, s) = mint now_millis (q_sequence q) in (n, q\<lparr>q_sequence := s\<rparr>))"

definition unhold :: "str \<Rightarrow> QueueState \<Rightarrow> QueueState" where
  "unhold key q =
     (case hm_get (due q) key of
        Some millis \<Rightarrow>
          (if (millis, key) \<in> set (held q)
           then q\<lparr>held := bt_remove (millis, key) (held q), q_dirty := True\<rparr> else q)
      | None \<Rightarrow> q)"

definition hold :: "str \<Rightarrow> nat \<Rightarrow> QueueState \<Rightarrow> QueueState" where
  "hold key due_millis q =
     (let q = unhold key q
      in q\<lparr>due := hm_insert key due_millis (due q), held := bt_insert (due_millis, key) (held q), q_dirty := True\<rparr>)"

definition enqueue :: "str \<Rightarrow> QueueState \<Rightarrow> QueueState" where
  "enqueue key q =
     (let q = unhold key (q\<lparr>claims := hm_remove key (claims q)\<rparr>)
      in q\<lparr>available := bt_insert key (available q), q_dirty := True\<rparr>)"

definition enqueue_held :: "str \<Rightarrow> nat \<Rightarrow> QueueState \<Rightarrow> QueueState" where
  "enqueue_held key due_millis q =
     hold key due_millis
       (q\<lparr>claims := hm_remove key (claims q), available := bt_remove key (available q)\<rparr>)"

definition forget :: "str \<Rightarrow> QueueState \<Rightarrow> QueueState" where
  "forget key q =
     (let q = unhold key
            (q\<lparr>available := bt_remove key (available q), claims := hm_remove key (claims q),
               deliveries := hm_remove key (deliveries q)\<rparr>)
      in q\<lparr>due := hm_remove key (due q), q_dirty := True\<rparr>)"

text \<open>The loop of \<open>release_due\<close> takes due records off the front of the ordered set.\<close>

fun release_loop :: "nat \<Rightarrow> (nat \<times> str) list \<Rightarrow> str list \<Rightarrow> (nat \<times> str) list \<times> str list \<times> nat" where
  "release_loop now [] av = ([], av, 0)"
| "release_loop now ((millis, key) # hs) av =
     (if millis \<le> now
      then (let (hs', av', n) = release_loop now hs (bt_insert key av) in (hs', av', n + 1))
      else ((millis, key) # hs, av, 0))"

definition release_due :: "nat \<Rightarrow> QueueState \<Rightarrow> QueueState \<times> nat" where
  "release_due now q =
     (let (hs, av, released) = release_loop now (held q) (available q)
      in (q\<lparr>held := hs, available := av, q_dirty := (q_dirty q \<or> 0 < released)\<rparr>, released))"

definition has_due_record :: "nat \<Rightarrow> QueueState \<Rightarrow> bool" where
  "has_due_record now q = (case held q of [] \<Rightarrow> False | (millis, _) # _ \<Rightarrow> millis \<le> now)"

definition next_due :: "QueueState \<Rightarrow> nat option" where
  "next_due q = (case held q of [] \<Rightarrow> None | (millis, _) # _ \<Rightarrow> Some millis)"

definition held_until :: "str \<Rightarrow> QueueState \<Rightarrow> nat option" where
  "held_until key q =
     (case hm_get (due q) key of
        Some millis \<Rightarrow> (if (millis, key) \<in> set (held q) then Some millis else None) | None \<Rightarrow> None)"

definition delivery_count :: "str \<Rightarrow> QueueState \<Rightarrow> nat" where
  "delivery_count key q = (case hm_get (deliveries q) key of Some n \<Rightarrow> n | None \<Rightarrow> 0)"

definition expire_key :: "QueuePolicy \<Rightarrow> str \<Rightarrow> QueueState \<times> Expired \<Rightarrow> QueueState \<times> Expired" where
  "expire_key policy key st =
     (let (q, outcome) = st;
          q = q\<lparr>claims := hm_remove key (claims q), q_dirty := True\<rparr>
      in if max_deliveries policy \<le> delivery_count key q
         then (q, outcome\<lparr>dead := dead outcome @ [key]\<rparr>)
         else (q\<lparr>available := bt_insert key (available q)\<rparr>, outcome\<lparr>returned := returned outcome @ [key]\<rparr>))"

definition expire :: "nat \<Rightarrow> QueuePolicy \<Rightarrow> QueueState \<Rightarrow> QueueState \<times> Expired" where
  "expire now policy q =
     (let q = fst (release_due now q);
          lapsed = map fst (filter (\<lambda>(_, c). has_lapsed c now) (claims q));
          (q, outcome) = fold (expire_key policy) lapsed (q, \<lparr>returned = [], dead = []\<rparr>)
      in (q, \<lparr>returned = sort (returned outcome), dead = sort (dead outcome)\<rparr>))"

definition claim :: "str \<Rightarrow> nat \<Rightarrow> QueuePolicy \<Rightarrow> QueueState \<Rightarrow> (str \<times> nat) option \<times> QueueState" where
  "claim owner now policy q =
     (case available q of [] \<Rightarrow> (None, q)
      | key # _ \<Rightarrow>
        let count = (delivery_count key q + 1) mod 2 ^ 32
        in (Some (key, count),
            q\<lparr>available := bt_remove key (available q),
              deliveries := hm_insert key count (deliveries q),
              claims := hm_insert key \<lparr>claim_owner = owner,
                  expires_millis = saturating_add now (visibility policy mod 2 ^ 64)\<rparr> (claims q),
              q_dirty := True\<rparr>))"

definition has_lapsed_claim :: "nat \<Rightarrow> QueueState \<Rightarrow> bool" where
  "has_lapsed_claim now q = list_ex (\<lambda>(_, c). has_lapsed c now) (claims q)"

definition queue_head :: "QueueState \<Rightarrow> str option" where
  "queue_head q = (case available q of [] \<Rightarrow> None | k # _ \<Rightarrow> Some k)"

definition claim_on :: "str \<Rightarrow> QueueState \<Rightarrow> Claim option" where
  "claim_on key q = hm_get (claims q) key"

definition adopt :: "str \<Rightarrow> nat \<Rightarrow> QueueState \<Rightarrow> QueueState" where
  "adopt key n q =
     q\<lparr>available := bt_insert key (available q),
       deliveries := (if 0 < n then hm_insert key n (deliveries q) else deliveries q), q_dirty := True\<rparr>"

definition verify :: "str \<Rightarrow> str \<Rightarrow> bool \<Rightarrow> QueueState \<Rightarrow> (unit, ClaimError) result" where
  "verify key owner present q =
     (if \<not> present then Err ClaimNotFound
      else case hm_get (claims q) key of
        None \<Rightarrow> Err NotClaimed
      | Some c \<Rightarrow> (if claim_owner c \<noteq> owner then Err (HeldBy (claim_owner c)) else Ok ()))"

definition release_until :: "str \<Rightarrow> QueuePolicy \<Rightarrow> nat option \<Rightarrow> QueueState \<Rightarrow> bool \<times> QueueState" where
  "release_until key policy due_millis q =
     (let q = q\<lparr>claims := hm_remove key (claims q), q_dirty := True\<rparr>
      in if max_deliveries policy \<le> delivery_count key q then (True, q)
         else (False, case due_millis of
             Some millis \<Rightarrow> hold key millis q
           | None \<Rightarrow> q\<lparr>available := bt_insert key (available q)\<rparr>))"

definition release :: "str \<Rightarrow> QueuePolicy \<Rightarrow> QueueState \<Rightarrow> bool \<times> QueueState" where
  "release key policy q = release_until key policy None q"

definition reconcile_key :: "str list \<Rightarrow> str \<Rightarrow> QueueState \<Rightarrow> QueueState" where
  "reconcile_key held_keys key q =
     (let q = (if \<not> hm_contains (claims q) key \<and> key \<notin> set held_keys
               then q\<lparr>available := bt_insert key (available q)\<rparr> else q)
      in q\<lparr>q_sequence := raise_past key (q_sequence q)\<rparr>)"

definition reconcile :: "(str, 'r) hashmap \<Rightarrow> QueueState \<Rightarrow> QueueState" where
  "reconcile records q =
     (let q = q\<lparr>held := filter (\<lambda>(_, key). hm_contains records key) (held q),
                due := hm_retain (hm_contains records) (due q)\<rparr>;
          held_keys = map snd (held q);
          q = q\<lparr>available := filter (\<lambda>key. hm_contains records key \<and>
                  \<not> hm_contains (claims q) key \<and> key \<notin> set held_keys) (available q)\<rparr>;
          q = fold (reconcile_key held_keys) (hm_keys records) q
      in q\<lparr>claims := hm_retain (hm_contains records) (claims q),
           deliveries := hm_retain (hm_contains records) (deliveries q), q_dirty := True\<rparr>)"

definition tracked :: "QueueState \<Rightarrow> nat" where
  "tracked q = length (available q) + length (claims q) + length (held q)"

definition queue_depth :: "QueueState \<Rightarrow> nat" where "queue_depth q = length (available q)"
definition in_flight :: "QueueState \<Rightarrow> nat" where "in_flight q = length (claims q)"
definition held_count :: "QueueState \<Rightarrow> nat" where "held_count q = length (held q)"

definition list_min :: "nat list \<Rightarrow> nat option" where
  "list_min xs = (if xs = [] then None else Some (Min (set xs)))"

definition oldest_unacknowledged_seconds :: "nat \<Rightarrow> QueueState \<Rightarrow> nat option" where
  "oldest_unacknowledged_seconds now q =
     (let oldest_waiting =
            find_map key_enqueued_millis (filter (\<lambda>key. \<not> hm_contains (due q) key) (available q));
          oldest_released =
            list_min (map snd (filter (\<lambda>(key, _). key \<in> set (available q) \<or> hm_contains (claims q) key) (due q)));
          oldest_claimed =
            list_min (List.map_filter key_enqueued_millis
              (filter (\<lambda>key. \<not> hm_contains (due q) key) (hm_keys (claims q))))
      in case list_min (List.map_filter (\<lambda>x. x) [oldest_waiting, oldest_released, oldest_claimed]) of
           None \<Rightarrow> None
         | Some oldest \<Rightarrow> Some (saturating_sub now oldest div 1000))"

definition to_persisted :: "QueueState \<Rightarrow> PersistedQueue" where
  "to_persisted q = \<lparr>next_sequence = seq_peek (q_sequence q), p_deliveries = deliveries q, p_due = due q\<rparr>"

section \<open>The queue file\<close>

definition state_path :: str where "state_path = ''queue''"

text \<open>\<open>rsplit_once(':')\<close> and a number after it, as both kinds of entry line have them.\<close>

definition parse_entry :: "(str \<Rightarrow> nat option) \<Rightarrow> str \<Rightarrow> (str \<times> nat) option" where
  "parse_entry parse entry =
     (case rsplit_once (CHR '':'') entry of None \<Rightarrow> None
      | Some (key, n) \<Rightarrow> (case parse (trim n) of None \<Rightarrow> None | Some v \<Rightarrow> Some (key, v)))"

definition read_state_line :: "str \<Rightarrow> PersistedQueue \<Rightarrow> PersistedQueue" where
  "read_state_line line st =
     (case strip_prefix ''next='' line of
        Some n \<Rightarrow> st\<lparr>next_sequence := (case parse_u64 (trim n) of Some v \<Rightarrow> v | None \<Rightarrow> 0)\<rparr>
      | None \<Rightarrow>
        (case Option.bind (strip_prefix ''deliveries='' line) (parse_entry parse_u32) of
           Some e \<Rightarrow> st\<lparr>p_deliveries := p_deliveries st @ [e]\<rparr>
         | None \<Rightarrow>
           (case Option.bind (strip_prefix ''due='' line) (parse_entry parse_u64) of
              Some e \<Rightarrow> st\<lparr>p_due := p_due st @ [e]\<rparr>
            | None \<Rightarrow> st)))"

definition queue_read_state :: "directory \<Rightarrow> PersistedQueue option" where
  "queue_read_state d =
     map_option (\<lambda>body. fold read_state_line (lines body) PersistedQueue_default)
       (state_body (state_read d state_path))"

definition entry_line :: "str \<Rightarrow> str \<times> nat \<Rightarrow> str" where
  "entry_line name e = key_value name (fst e @ CHR '':'' # show_nat (snd e))"

definition queue_write_state :: "directory \<Rightarrow> PersistedQueue \<Rightarrow> directory" where
  "queue_write_state d st =
     state_write d state_path
       (unlines (key_value ''next'' (show_nat (next_sequence st)) #
          map (entry_line ''deliveries'') (sort (p_deliveries st)) @ map (entry_line ''due'') (sort (p_due st))))"

definition queue_remove_state :: "directory \<Rightarrow> directory" where
  "queue_remove_state d = remove_if_present d state_path"

end
