(* ===== verification/Table.thy ===== *)
theory Table
  imports Db_Error Index_Store Queue
begin

text \<open>
  The table of \<^verbatim>\<open>db/models.rs\<close>: a file's records and dictionary in memory, what has changed since
  the last flush, and the indexes, queue order and key counter attached to it; with the part of
  \<^verbatim>\<open>db/engine/dictionary.rs\<close> that resolves a field name. The invariant \<open>table_ok\<close> says that every
  index is filed under its own field and describes the records exactly unless it is marked for a
  rebuild; every operation keeps it.
\<close>

section \<open>The table and its dictionary\<close>

record TableStamp =
  data_modified :: "nat option"
  data_len :: nat
  dict_modified :: "nat option"
  dict_len :: nat

record Table =
  tbl_records :: "(str, Record) hashmap"
  tbl_dictionary :: "(str, Record) hashmap"
  tbl_stamp :: "TableStamp option"
  data_meta :: SectionMeta
  legacy_data :: bool
  dirty_keys :: "str list"
  dirty_all :: bool
  dict_dirty :: bool
  tbl_indexes :: "(str, FileIndex) hashmap"
  tbl_queue :: "QueueState option"
  tmp_swept :: bool
  tbl_autokey :: "Sequence option"

definition Table_new :: Table where
  "Table_new = \<lparr>tbl_records = [], tbl_dictionary = [], tbl_stamp = None, data_meta = SectionMeta_empty,
     legacy_data = False, dirty_keys = [], dirty_all = False, dict_dirty = False, tbl_indexes = [],
     tbl_queue = None, tmp_swept = False, tbl_autokey = None\<rparr>"

definition DICT_FIELD_IDX :: nat where "DICT_FIELD_IDX = 0"

text \<open>\<open>rec.fields.get(idx)?.values.first()?.first_text()?\<close>\<close>

definition dict_text :: "Record \<Rightarrow> nat \<Rightarrow> str option" where
  "dict_text r idx =
     (case get_at (rec_fields r) idx of None \<Rightarrow> None
      | Some f \<Rightarrow> (case field_values f of [] \<Rightarrow> None | v # _ \<Rightarrow> first_text v))"

text \<open>Attribute numbers start at 1 in a dictionary and at 0 in a record.\<close>

definition attribute_index :: "Record \<Rightarrow> nat option" where
  "attribute_index r =
     (case dict_text r DICT_FIELD_IDX of None \<Rightarrow> None
      | Some s \<Rightarrow> (case parse_u64 s of Some idx \<Rightarrow> if 0 < idx then Some (idx - 1) else None | None \<Rightarrow> None))"

definition field_index :: "Table \<Rightarrow> str \<Rightarrow> nat option" where
  "field_index t field_name =
     (if field_name = ''ID'' then Some 0
      else case hm_get (tbl_dictionary t) field_name of None \<Rightarrow> None | Some r \<Rightarrow> attribute_index r)"

section \<open>What has changed\<close>

definition autokey_dirty :: "Table \<Rightarrow> bool" where
  "autokey_dirty t = (case tbl_autokey t of None \<Rightarrow> False | Some c \<Rightarrow> seq_dirty c)"

definition queue_dirty :: "Table \<Rightarrow> bool" where
  "queue_dirty t = (case tbl_queue t of None \<Rightarrow> False | Some q \<Rightarrow> queue_is_dirty q)"

definition indexes_dirty :: "Table \<Rightarrow> bool" where
  "indexes_dirty t = list_ex (\<lambda>(f, idx). index_is_dirty idx \<or> needs_rebuild idx) (tbl_indexes t)"

definition records_dirty :: "Table \<Rightarrow> bool" where
  "records_dirty t \<longleftrightarrow> dirty_all t \<or> dirty_keys t \<noteq> []"

definition table_is_dirty :: "Table \<Rightarrow> bool" where
  "table_is_dirty t \<longleftrightarrow> dirty_all t \<or> dict_dirty t \<or> dirty_keys t \<noteq> [] \<or> indexes_dirty t \<or> queue_dirty t \<or> autokey_dirty t"

definition reconcile_queue :: "Table \<Rightarrow> Table" where
  "reconcile_queue t = (case tbl_queue t of None \<Rightarrow> t | Some q \<Rightarrow> t\<lparr>tbl_queue := Some (reconcile (tbl_records t) q)\<rparr>)"

definition mark_dirty :: "str \<Rightarrow> Table \<Rightarrow> Table" where
  "mark_dirty key t = t\<lparr>dirty_keys := List.insert key (dirty_keys t)\<rparr>"

text \<open>\<open>for index in self.indexes.values_mut()\<close>\<close>

definition each_index :: "(FileIndex \<Rightarrow> FileIndex) \<Rightarrow> (str, FileIndex) hashmap \<Rightarrow> (str, FileIndex) hashmap" where
  "each_index g m = map (\<lambda>(f, idx). (f, g idx)) m"

definition touch_all :: "Table \<Rightarrow> Table" where
  "touch_all t = t\<lparr>dirty_all := True, dict_dirty := True,
     tbl_indexes := each_index (\<lambda>idx. idx\<lparr>needs_rebuild := True\<rparr>) (tbl_indexes t)\<rparr>"

definition moved_fields :: "Table \<Rightarrow> str list" where
  "moved_fields t = map (\<lambda>(f, idx). fi_field idx) (filter (\<lambda>(f, idx). field_index t (fi_field idx) \<noteq> Some (fi_attr idx)) (tbl_indexes t))"

definition mark_stale :: "str \<Rightarrow> (str, FileIndex) hashmap \<Rightarrow> (str, FileIndex) hashmap" where
  "mark_stale field m =
     (case hm_get m field of None \<Rightarrow> m | Some idx \<Rightarrow> hm_insert field (idx\<lparr>needs_rebuild := True\<rparr>) m)"

definition recheck_index_attributes :: "Table \<Rightarrow> Table" where
  "recheck_index_attributes t =
     (if tbl_indexes t = [] then t else t\<lparr>tbl_indexes := fold mark_stale (moved_fields t) (tbl_indexes t)\<rparr>)"

definition mark_dict_dirty :: "Table \<Rightarrow> Table" where
  "mark_dict_dirty t = recheck_index_attributes (t\<lparr>dict_dirty := True\<rparr>)"

definition clear_dirty :: "Table \<Rightarrow> Table" where
  "clear_dirty t = t\<lparr>dirty_keys := [], dirty_all := False, dict_dirty := False\<rparr>"

section \<open>Records\<close>

definition insert_record :: "str \<Rightarrow> Record \<Rightarrow> Table \<Rightarrow> Table" where
  "insert_record key r t =
     mark_dirty key
       (t\<lparr>tbl_indexes := (if tbl_indexes t = [] then tbl_indexes t
            else each_index (index_apply key (hm_get (tbl_records t) key) (Some r)) (tbl_indexes t)),
         tbl_records := hm_insert key r (tbl_records t)\<rparr>)"

definition remove_record :: "str \<Rightarrow> Table \<Rightarrow> Record option \<times> Table" where
  "remove_record key t =
     (let previous = hm_get (tbl_records t) key
      in (previous, mark_dirty key
           (t\<lparr>tbl_records := hm_remove key (tbl_records t),
             tbl_indexes := each_index (index_apply key previous None) (tbl_indexes t)\<rparr>)))"

section \<open>Indexes\<close>

definition index_fields :: "Table \<Rightarrow> str list" where
  "index_fields t = sort (hm_keys (tbl_indexes t))"

definition has_index :: "Table \<Rightarrow> str \<Rightarrow> bool" where
  "has_index t field = hm_contains (tbl_indexes t) field"

definition create_index_excluding :: "str \<Rightarrow> str list \<Rightarrow> Table \<Rightarrow> Table DbResult" where
  "create_index_excluding fld excluded t =
     (let field = trim fld in
      if field = ''ID'' then Err (InvalidField field ''it is the record key, already found without a scan'')
      else if \<not> is_valid_field_name field
        then Err (InvalidField field ''an index name may hold only letters, digits and . _ - $ # %'')
      else case field_index t field of
          None \<Rightarrow> Err (InvalidField field ''it is not a dictionary field of this file'')
        | Some attr \<Rightarrow>
            Ok (t\<lparr>tbl_indexes := hm_insert field (rebuild (tbl_records t) attr (with_exclusions field attr excluded)) (tbl_indexes t)\<rparr>))"

definition create_index :: "str \<Rightarrow> Table \<Rightarrow> Table DbResult" where
  "create_index field t = create_index_excluding field [] t"

definition drop_index :: "str \<Rightarrow> Table \<Rightarrow> bool \<times> Table" where
  "drop_index field t =
     (hm_contains (tbl_indexes t) (trim field), t\<lparr>tbl_indexes := hm_remove (trim field) (tbl_indexes t)\<rparr>)"

definition rebuild_index :: "str \<Rightarrow> Table \<Rightarrow> Table DbResult" where
  "rebuild_index fld t =
     (let field = trim fld in
      case hm_get (tbl_indexes t) field of
        None \<Rightarrow> Err (InvalidField field ''it is not indexed on this file'')
      | Some idx \<Rightarrow>
        (case field_index t field of
           None \<Rightarrow> Err (InvalidField field ''it is not a dictionary field of this file'')
         | Some attr \<Rightarrow> Ok (t\<lparr>tbl_indexes := hm_insert field (rebuild (tbl_records t) attr idx) (tbl_indexes t)\<rparr>)))"

definition refresh_index :: "Table \<Rightarrow> str \<Rightarrow> FileIndex \<Rightarrow> FileIndex" where
  "refresh_index t field idx =
     (if \<not> needs_rebuild idx then idx
      else case field_index t field of Some attr \<Rightarrow> rebuild (tbl_records t) attr idx | None \<Rightarrow> idx\<lparr>needs_rebuild := True\<rparr>)"

definition rebuild_stale_indexes :: "Table \<Rightarrow> Table" where
  "rebuild_stale_indexes t =
     (if \<not> list_ex (\<lambda>(f, idx). needs_rebuild idx) (tbl_indexes t) then t
      else t\<lparr>tbl_indexes := map (\<lambda>(f, idx). (f, refresh_index t f idx)) (tbl_indexes t)\<rparr>)"

text \<open>
  \<open>index_candidates\<close>: the lookup counts itself on the index it asked, so the table comes back with it.
\<close>

definition index_candidates :: "str \<Rightarrow> str \<Rightarrow> Table \<Rightarrow> str list option \<times> Table" where
  "index_candidates field v t =
     (case hm_get (tbl_indexes t) field of None \<Rightarrow> (None, t)
      | Some idx \<Rightarrow>
        if field_index t field \<noteq> Some (fi_attr idx) then (None, t)
        else (case candidates (index_key v) idx of
                (r, idx') \<Rightarrow> (r, t\<lparr>tbl_indexes := hm_insert field idx' (tbl_indexes t)\<rparr>)))"

section \<open>The invariant\<close>

definition index_ok :: "(str \<Rightarrow> Record option) \<Rightarrow> str \<Rightarrow> FileIndex \<Rightarrow> bool" where
  "index_ok m f idx \<longleftrightarrow> fi_field idx = f \<and> postings_ok (postings idx) \<and> (\<not> needs_rebuild idx \<longrightarrow> index_describes m idx)"

definition table_ok :: "Table \<Rightarrow> bool" where
  "table_ok t \<longleftrightarrow> hm_wf (tbl_records t) \<and> hm_wf (tbl_indexes t) \<and>
     (\<forall>f idx. hm_get (tbl_indexes t) f = Some idx \<longrightarrow> index_ok (hm_get (tbl_records t)) f idx)"

lemma table_okI:
  assumes "hm_wf (tbl_records t)" "hm_wf (tbl_indexes t)"
    and "\<And>f idx. hm_get (tbl_indexes t) f = Some idx \<Longrightarrow> index_ok (hm_get (tbl_records t)) f idx"
  shows "table_ok t"
  using assms by (simp add: table_ok_def)

lemma table_okD:
  assumes "table_ok t"
  shows "hm_wf (tbl_records t)" "hm_wf (tbl_indexes t)"
    "hm_get (tbl_indexes t) f = Some idx \<Longrightarrow> index_ok (hm_get (tbl_records t)) f idx"
  using assms by (simp_all add: table_ok_def)

lemma hm_get_map_keyed: "hm_get (map (\<lambda>(f, x). (f, g f x)) m) k = map_option (g k) (hm_get m k)"
  by (induction m) (auto simp: hm_get_def)

lemma hm_wf_map_keyed: "hm_wf (map (\<lambda>(f, x). (f, g f x)) m) = hm_wf m"
  by (simp add: hm_wf_def comp_def case_prod_beta)

lemma each_index_simps [simp]:
  "hm_get (each_index g m) f = map_option g (hm_get m f)" "hm_wf (each_index g m) = hm_wf m"
  by (simp_all add: each_index_def hm_get_map_keyed [where g = "\<lambda>_. g"] hm_wf_map_keyed [where g = "\<lambda>_. g"])

lemma mark_dirty_simps [simp]:
  "tbl_records (mark_dirty k t) = tbl_records t" "tbl_indexes (mark_dirty k t) = tbl_indexes t"
  "tbl_dictionary (mark_dirty k t) = tbl_dictionary t" "set (dirty_keys (mark_dirty k t)) = insert k (set (dirty_keys t))"
  by (simp_all add: mark_dirty_def)

lemma table_ok_new [simp]: "table_ok Table_new"
  by (simp add: table_ok_def Table_new_def)

text \<open>One change of one record, seen by every index.\<close>

lemma index_ok_apply:
  assumes "index_ok m f idx" and "m key = old"
  shows "index_ok (m(key := new)) f (index_apply key old new idx)"
  using assms index_apply_effect(1,2) [of idx key old new] index_apply_describes [of m idx key old new]
  by (auto simp: index_ok_def same_index_def)

lemma insert_record_indexes:
  "hm_get (tbl_indexes (insert_record key r t)) f =
     map_option (index_apply key (hm_get (tbl_records t) key) (Some r)) (hm_get (tbl_indexes t) f)"
  by (simp add: insert_record_def)

lemma insert_record_ok: "table_ok t \<Longrightarrow> table_ok (insert_record key r t)"
proof (rule table_okI)
  assume ok: "table_ok t"
  show "hm_wf (tbl_records (insert_record key r t))" "hm_wf (tbl_indexes (insert_record key r t))"
    using table_okD(1,2) [OF ok] by (simp_all add: insert_record_def)
  have recs: "hm_get (tbl_records (insert_record key r t)) = (hm_get (tbl_records t))(key := Some r)"
    by (simp add: insert_record_def hm.get_insert)
  fix f idx' assume "hm_get (tbl_indexes (insert_record key r t)) f = Some idx'"
  then obtain idx where "hm_get (tbl_indexes t) f = Some idx"
    "idx' = index_apply key (hm_get (tbl_records t) key) (Some r) idx" by (auto simp: insert_record_indexes)
  then show "index_ok (hm_get (tbl_records (insert_record key r t))) f idx'"
    unfolding recs using index_ok_apply [OF table_okD(3) [OF ok] refl] by simp
qed

lemma remove_record_ok: "table_ok t \<Longrightarrow> table_ok (snd (remove_record key t))"
proof (rule table_okI)
  assume ok: "table_ok t"
  show "hm_wf (tbl_records (snd (remove_record key t)))" "hm_wf (tbl_indexes (snd (remove_record key t)))"
    using table_okD(1,2) [OF ok] by (simp_all add: remove_record_def Let_def)
  have recs: "hm_get (tbl_records (snd (remove_record key t))) = (hm_get (tbl_records t))(key := None)"
    by (simp add: remove_record_def Let_def hm.get_remove)
  fix f idx' assume "hm_get (tbl_indexes (snd (remove_record key t))) f = Some idx'"
  then obtain idx where "hm_get (tbl_indexes t) f = Some idx"
    "idx' = index_apply key (hm_get (tbl_records t) key) None idx" by (auto simp: remove_record_def Let_def)
  then show "index_ok (hm_get (tbl_records (snd (remove_record key t)))) f idx'"
    unfolding recs using index_ok_apply [OF table_okD(3) [OF ok] refl] by simp
qed

text \<open>Operations on the indexes alone.\<close>

lemma table_ok_update_indexes:
  assumes "table_ok t" "tbl_records t' = tbl_records t" "hm_wf (tbl_indexes t')"
    and "\<And>f idx'. hm_get (tbl_indexes t') f = Some idx' \<Longrightarrow>
      hm_get (tbl_indexes t) f = Some idx' \<or> index_ok (hm_get (tbl_records t)) f idx'"
  shows "table_ok t'"
  using assms table_okD [OF assms(1)] by (intro table_okI) auto

lemma index_ok_rebuild:
  "hm_wf records \<Longrightarrow> fi_field idx = f \<Longrightarrow> index_ok (hm_get records) f (rebuild records attr idx)"
  using rebuild_describes [of records attr idx] by (simp add: index_ok_def index_describes_def)

lemma index_ok_stale: "index_ok m f idx \<Longrightarrow> index_ok m' f (idx\<lparr>needs_rebuild := True\<rparr>)"
  by (simp add: index_ok_def)

lemma touch_all_ok: "table_ok t \<Longrightarrow> table_ok (touch_all t)"
  by (rule table_okI) (auto simp: touch_all_def dest: table_okD index_ok_stale)

lemma mark_stale_ok:
  assumes "hm_wf m" "\<forall>f idx. hm_get m f = Some idx \<longrightarrow> index_ok rs f idx"
  shows "hm_wf (mark_stale field m) \<and> (\<forall>f idx. hm_get (mark_stale field m) f = Some idx \<longrightarrow> index_ok rs f idx)"
  using assms by (auto simp: mark_stale_def split: option.splits intro: index_ok_stale)

lemma fold_mark_stale_ok:
  assumes "hm_wf m" "\<forall>f idx. hm_get m f = Some idx \<longrightarrow> index_ok rs f idx"
  shows "hm_wf (fold mark_stale fs m) \<and> (\<forall>f idx. hm_get (fold mark_stale fs m) f = Some idx \<longrightarrow> index_ok rs f idx)"
  using assms
proof (induction fs arbitrary: m)
  case (Cons a fs)
  from mark_stale_ok [OF Cons.prems, of a] Cons.IH [of "mark_stale a m"] show ?case by simp
qed simp

lemma mark_dict_dirty_ok: "table_ok t \<Longrightarrow> table_ok (mark_dict_dirty t)"
  using fold_mark_stale_ok [of "tbl_indexes t" "hm_get (tbl_records t)" "moved_fields (t\<lparr>dict_dirty := True\<rparr>)"]
  by (simp add: mark_dict_dirty_def recheck_index_attributes_def table_ok_def)

lemma put_rebuilt_ok:
  assumes "table_ok t" "fi_field idx = field"
  shows "table_ok (t\<lparr>tbl_indexes := hm_insert field (rebuild (tbl_records t) attr idx) (tbl_indexes t)\<rparr>)"
  using assms by (intro table_okI) (auto simp: table_okD split: if_splits intro: index_ok_rebuild)

lemma create_index_ok: "table_ok t \<Longrightarrow> create_index_excluding fld excluded t = Ok t' \<Longrightarrow> table_ok t'"
  by (auto simp: create_index_excluding_def Let_def split: if_splits option.splits intro!: put_rebuilt_ok)
    (simp add: with_exclusions_def)

lemma drop_index_ok: "table_ok t \<Longrightarrow> table_ok (snd (drop_index field t))"
  by (rule table_ok_update_indexes) (auto simp: drop_index_def table_okD split: if_splits)

lemma rebuild_index_ok: "table_ok t \<Longrightarrow> rebuild_index fld t = Ok t' \<Longrightarrow> table_ok t'"
  by (auto simp: rebuild_index_def Let_def split: option.splits intro!: put_rebuilt_ok)
    (auto dest: table_okD(3) simp: index_ok_def)

lemma rebuild_stale_indexes_simps [simp]:
  "tbl_records (rebuild_stale_indexes t) = tbl_records t" "tbl_dictionary (rebuild_stale_indexes t) = tbl_dictionary t"
  "data_meta (rebuild_stale_indexes t) = data_meta t" "dirty_keys (rebuild_stale_indexes t) = dirty_keys t"
  "dirty_all (rebuild_stale_indexes t) = dirty_all t" "dict_dirty (rebuild_stale_indexes t) = dict_dirty t"
  "tbl_queue (rebuild_stale_indexes t) = tbl_queue t" "tbl_autokey (rebuild_stale_indexes t) = tbl_autokey t"
  "legacy_data (rebuild_stale_indexes t) = legacy_data t"
  by (simp_all add: rebuild_stale_indexes_def)

lemma rebuild_stale_indexes_get:
  "hm_get (tbl_indexes (rebuild_stale_indexes t)) f = map_option (refresh_index t f) (hm_get (tbl_indexes t) f)"
proof (cases "list_ex (\<lambda>(f, idx). needs_rebuild idx) (tbl_indexes t)")
  case True
  then show ?thesis by (simp add: rebuild_stale_indexes_def hm_get_map_keyed)
next
  case False
  then have "needs_rebuild idx \<longrightarrow> hm_get (tbl_indexes t) f \<noteq> Some idx" for idx
    by (auto simp: list_ex_iff hm_get_def dest: map_of_SomeD)
  with False show ?thesis by (cases "hm_get (tbl_indexes t) f") (auto simp: rebuild_stale_indexes_def refresh_index_def)
qed

lemma rebuild_stale_indexes_wf [simp]: "hm_wf (tbl_indexes (rebuild_stale_indexes t)) = hm_wf (tbl_indexes t)"
  by (simp add: rebuild_stale_indexes_def hm_wf_map_keyed)

lemma refresh_index_ok:
  "hm_wf (tbl_records t) \<Longrightarrow> index_ok m f idx \<Longrightarrow> m = hm_get (tbl_records t) \<Longrightarrow>
   index_ok (hm_get (tbl_records t)) f (refresh_index t f idx)"
  by (auto simp: refresh_index_def index_ok_def rebuild_describes [unfolded index_describes_def] split: option.splits
      intro: rebuild_describes)

lemma rebuild_stale_indexes_ok: "table_ok t \<Longrightarrow> table_ok (rebuild_stale_indexes t)"
  by (rule table_okI) (auto simp: rebuild_stale_indexes_get table_okD intro!: refresh_index_ok)

end
