(* ===== verification/Table_Props.thy ===== *)
theory Table_Props
  imports Table
begin

text \<open>
  The life of a loaded table as a step relation, its invariant, and what an index lookup promises to
  the queries: the contract \<open>index_lookup\<close>, interpreted on the table's own \<open>index_candidates\<close>.
\<close>

section \<open>Every operation on a table\<close>

text \<open>
  The body of \<open>set_index_exclusions\<close> in \<^verbatim>\<open>db/engine/mod.rs\<close> that runs under the table's lock: a
  changed set of exclusions rebuilds the index at once.
\<close>

definition exclude_values :: "str \<Rightarrow> str list \<Rightarrow> str \<Rightarrow> Table \<Rightarrow> Table DbResult" where
  "exclude_values field excluded file t =
     (case hm_get (tbl_indexes t) field of None \<Rightarrow> Err (IndexNotFound file field)
      | Some idx \<Rightarrow>
        (case set_excluded (bt_of_list excluded) idx of
           (False, _) \<Rightarrow> Ok t
         | (True, idx') \<Rightarrow>
             let attr = (case field_index t field of Some a \<Rightarrow> a | None \<Rightarrow> fi_attr idx')
             in Ok (t\<lparr>tbl_indexes := hm_insert field (rebuild (tbl_records t) attr idx') (tbl_indexes t)\<rparr>)))"

inductive table_step :: "Table \<Rightarrow> Table \<Rightarrow> bool" where
  Insert: "table_step t (insert_record key r t)"
| Remove: "table_step t (snd (remove_record key t))"
| DictWrite: "table_step t (mark_dict_dirty (t\<lparr>tbl_dictionary := hm_insert key r (tbl_dictionary t)\<rparr>))"
| DictRemove: "table_step t (mark_dict_dirty (t\<lparr>tbl_dictionary := hm_remove key (tbl_dictionary t)\<rparr>))"
| Touch: "hm_wf records \<Longrightarrow> table_step t (touch_all (t\<lparr>tbl_records := records\<rparr>))"
| Create: "create_index_excluding field excluded t = Ok t' \<Longrightarrow> table_step t t'"
| Drop: "table_step t (snd (drop_index field t))"
| Rebuild: "rebuild_index field t = Ok t' \<Longrightarrow> table_step t t'"
| RebuildStale: "table_step t (rebuild_stale_indexes t)"
| Exclude: "exclude_values field excluded file t = Ok t' \<Longrightarrow> table_step t t'"
| Lookup: "table_step t (snd (index_candidates field v t))"
| ClearDirty: "table_step t (clear_dirty t)"

lemma set_excluded_simps:
  "set_excluded vs idx = (b, idx') \<Longrightarrow> fi_field idx' = fi_field idx \<and> postings idx' = postings idx"
  by (auto simp: set_excluded_def Let_def split: if_splits)

lemma exclude_values_ok: "table_ok t \<Longrightarrow> exclude_values field excluded file t = Ok t' \<Longrightarrow> table_ok t'"
proof -
  assume ok: "table_ok t" and e: "exclude_values field excluded file t = Ok t'"
  then obtain idx b idx' where idx: "hm_get (tbl_indexes t) field = Some idx"
    and s: "set_excluded (bt_of_list excluded) idx = (b, idx')"
    by (cases "hm_get (tbl_indexes t) field") (auto simp: exclude_values_def intro: that prod.exhaust)
  have "fi_field idx' = field"
    using set_excluded_simps [OF s] table_okD(3) [OF ok idx] by (simp add: index_ok_def)
  then have put: "table_ok (t\<lparr>tbl_indexes := hm_insert field (rebuild (tbl_records t) a idx') (tbl_indexes t)\<rparr>)" for a
    using ok by (simp add: put_rebuilt_ok)
  show ?thesis using e ok put by (cases b) (auto simp: exclude_values_def idx s Let_def)
qed

lemma candidates_index:
  "postings (snd (candidates v idx)) = postings idx" "fi_attr (snd (candidates v idx)) = fi_attr idx"
  "fi_excluded (snd (candidates v idx)) = fi_excluded idx" "fi_field (snd (candidates v idx)) = fi_field idx"
  "needs_rebuild (snd (candidates v idx)) = needs_rebuild idx"
  by (simp_all add: candidates_def Let_def)

lemma index_ok_candidates: "index_ok m f idx \<Longrightarrow> index_ok m f (snd (candidates v idx))"
  by (simp add: index_ok_def index_describes_def retained_def candidates_index)

lemma index_candidates_ok: "table_ok t \<Longrightarrow> table_ok (snd (index_candidates field v t))"
  using index_ok_candidates [of "hm_get (tbl_records t)" field _ "index_key v"]
  by (auto simp: index_candidates_def table_ok_def case_prod_beta split: option.splits)

lemma touch_all_replaced_ok: "table_ok t \<Longrightarrow> hm_wf records \<Longrightarrow> table_ok (touch_all (t\<lparr>tbl_records := records\<rparr>))"
  by (rule table_okI) (auto simp: touch_all_def table_okD dest: table_okD(3) intro: index_ok_stale)

lemma mark_dict_dirty_dict_ok: "table_ok t \<Longrightarrow> table_ok (mark_dict_dirty (t\<lparr>tbl_dictionary := dict\<rparr>))"
  by (rule mark_dict_dirty_ok) (simp add: table_ok_def)

lemmas table_ops_ok = insert_record_ok remove_record_ok mark_dict_dirty_dict_ok touch_all_replaced_ok create_index_ok
  drop_index_ok rebuild_index_ok rebuild_stale_indexes_ok exclude_values_ok index_candidates_ok

lemma table_step_ok: "table_step t t' \<Longrightarrow> table_ok t \<Longrightarrow> table_ok t'"
proof (induction rule: table_step.induct)
  case (ClearDirty t)
  then show ?case by (simp add: table_ok_def clear_dirty_def)
qed (blast intro: table_ops_ok)+

lemma table_steps_ok: "table_step\<^sup>*\<^sup>* t t' \<Longrightarrow> table_ok t \<Longrightarrow> table_ok t'"
  by (induction rule: rtranclp_induct) (auto intro: table_step_ok)

lemma index_ok_exact:
  assumes "index_ok (hm_get records) f idx" "\<not> needs_rebuild idx" "hm_wf records"
  shows "hm_get (postings idx) = hm_get (postings (rebuild records (fi_attr idx) idx))"
  using assms rebuild_describes [OF assms(3), of "fi_attr idx" idx]
  by (intro index_describes_unique) (auto simp: index_ok_def)

section \<open>The contract of a lookup\<close>

text \<open>
  What a query relies on. A lookup that answers names, in key order, at least every record that
  carries the value; one that does not answer says nothing.
\<close>

locale index_lookup =
  fixes valid :: "'t \<Rightarrow> bool"
    and lookup :: "'t \<Rightarrow> str \<Rightarrow> str \<Rightarrow> str list option"
    and carries :: "'t \<Rightarrow> str \<Rightarrow> str \<Rightarrow> str \<Rightarrow> bool"
  assumes complete: "valid t \<Longrightarrow> lookup t f v = Some ks \<Longrightarrow> carries t f v k \<Longrightarrow> k \<in> set ks"
    and ordered: "valid t \<Longrightarrow> lookup t f v = Some ks \<Longrightarrow> bt_wf ks"
begin

text \<open>Walking the candidates and walking the keys in order find the same records.\<close>

lemma narrowed_walk:
  assumes "valid t" "lookup t f v = Some ks" "\<And>k. P k \<Longrightarrow> k \<in> K \<and> carries t f v k"
    and "sorted_wrt (<) all" "set all = K"
  shows "filter P (filter (\<lambda>k. k \<in> K) ks) = filter P all"
proof (rule strict_sorted_equal)
  show "sorted_wrt (<) (filter P (filter (\<lambda>k. k \<in> K) ks))"
    using ordered [OF assms(1,2)] by (simp add: bt_wf_def sorted_wrt_filter)
  show "sorted_wrt (<) (filter P all)" using assms(4) by (rule sorted_wrt_filter)
  show "set (filter P (filter (\<lambda>k. k \<in> K) ks)) = set (filter P all)"
    using assms(3,5) complete [OF assms(1,2)] by auto
qed

end

definition table_lookup :: "Table \<Rightarrow> str \<Rightarrow> str \<Rightarrow> str list option" where
  "table_lookup t f v = fst (index_candidates f v t)"

definition record_carries :: "Table \<Rightarrow> str \<Rightarrow> str \<Rightarrow> str \<Rightarrow> bool" where
  "record_carries t f v k \<longleftrightarrow>
     (\<exists>r attr. hm_get (tbl_records t) k = Some r \<and> field_index t f = Some attr \<and> index_key v \<in> set (keys_of (Some r) attr))"

lemma table_lookup_exact:
  assumes "table_ok t" "table_lookup t f v = Some ks"
  shows "bt_wf ks \<and> set ks = {k. record_carries t f v k}"
proof -
  obtain idx where idx: "hm_get (tbl_indexes t) f = Some idx" "field_index t f = Some (fi_attr idx)"
    and c: "fst (candidates (index_key v) idx) = Some ks"
    using assms(2) by (auto simp: table_lookup_def index_candidates_def case_prod_beta split: option.splits if_splits)
  then have nr: "\<not> needs_rebuild idx" "index_key v \<notin> set (fi_excluded idx)"
    and ks: "ks = (case hm_get (postings idx) (index_key v) of Some ks \<Rightarrow> ks | None \<Rightarrow> [])"
    by (auto simp: candidates_def Let_def split: if_splits)
  have d: "index_describes (hm_get (tbl_records t)) idx"
    using table_okD(3) [OF assms(1) idx(1)] nr(1) by (simp add: index_ok_def)
  then have "postings_ok (postings idx)" by (simp add: index_describes_def)
  then have "bt_wf ks" by (auto simp: ks postings_ok_def split: option.splits)
  moreover have "set ks = posted (postings idx) (index_key v)" by (simp add: ks posted_def split: option.splits)
  ultimately show ?thesis
    using d nr(2) idx(2) by (auto simp: index_describes_def record_carries_def retained_def)
qed

interpretation tl: index_lookup table_ok table_lookup record_carries
  by unfold_locales (auto dest: table_lookup_exact)

section \<open>Properties\<close>

text \<open>
  C8. Whatever sequence of inserts, removals, dictionary edits, bulk replacements, index creations,
  drops, rebuilds, exclusion changes and lookups a table goes through, every index it holds is filed
  under its own field, and one that is not marked for a rebuild holds exactly the postings a rebuild
  from the records would give.
\<close>

theorem indexes_stay_exact:
  assumes "table_step\<^sup>*\<^sup>* Table_new t" "hm_get (tbl_indexes t) f = Some idx"
  shows "fi_field idx = f \<and> (needs_rebuild idx \<or>
    hm_get (postings idx) = hm_get (postings (rebuild (tbl_records t) (fi_attr idx) idx)))"
proof -
  have "table_ok t" using table_steps_ok [OF assms(1)] by simp
  from table_okD(3) [OF this assms(2)] index_ok_exact [of "tbl_records t" f idx] table_okD(1) [OF this]
  show ?thesis by (auto simp: index_ok_def)
qed

definition city_entry :: Record where "city_entry = from_attributes [''1'']"

lemma city_index: "attribute_index city_entry = Some 0"
proof -
  have "text_of ''1'' = ''1''" by (rule text_of_valid) (simp add: utf8_valid_ascii)
  then show ?thesis
    by (simp add: attribute_index_def city_entry_def dict_text_def from_attributes_def Value_text_def first_text_def get_at_def
        DICT_FIELD_IDX_def from_str_radix_def to_digit_def u64_max_def Let_def)
qed

definition city_table :: Table where
  "city_table = mark_dict_dirty (Table_new\<lparr>tbl_dictionary := hm_insert ''CITY'' city_entry (tbl_dictionary Table_new)\<rparr>)"

definition indexed_city_table :: Table where
  "indexed_city_table = city_table\<lparr>tbl_indexes :=
     hm_insert ''CITY'' (rebuild (tbl_records city_table) 0 (with_exclusions ''CITY'' 0 [])) (tbl_indexes city_table)\<rparr>"

lemma city_table_indexed: "create_index_excluding ''CITY'' [] city_table = Ok indexed_city_table"
proof -
  have "field_index city_table ''CITY'' = Some 0"
    by (simp add: field_index_def city_table_def mark_dict_dirty_def recheck_index_attributes_def Table_new_def hm_insert_def
        hm_get_def city_index)
  moreover have "trim ''CITY'' = ''CITY''" by (simp add: trim_visible_text visible_def)
  moreover have "is_valid_field_name ''CITY''"
    by (simp add: is_valid_field_name_def is_name_char_def is_ascii_alphanumeric_def)
  ultimately show ?thesis by (simp add: create_index_excluding_def indexed_city_table_def Let_def)
qed

lemma city_steps: "table_step\<^sup>*\<^sup>* Table_new indexed_city_table"
proof -
  have "table_step Table_new city_table" unfolding city_table_def by (rule table_step.DictWrite)
  moreover have "table_step city_table indexed_city_table" by (rule table_step.Create [OF city_table_indexed])
  ultimately show ?thesis by (meson converse_rtranclp_into_rtranclp rtranclp.rtrancl_refl)
qed

theorem indexes_stay_exact_witness:
  "\<exists>idx. hm_get (tbl_indexes (insert_record ''k'' sample_record indexed_city_table)) ''CITY'' = Some idx \<and>
     fi_field idx = ''CITY'' \<and> \<not> needs_rebuild idx \<and>
     hm_get (postings idx) = hm_get (postings (rebuild (tbl_records (insert_record ''k'' sample_record indexed_city_table)) (fi_attr idx) idx))"
proof -
  let ?t = "insert_record ''k'' sample_record indexed_city_table"
  obtain idx where idx: "hm_get (tbl_indexes ?t) ''CITY'' = Some idx"
    by (simp add: insert_record_indexes indexed_city_table_def)
  have steps: "table_step\<^sup>*\<^sup>* Table_new ?t"
    using city_steps table_step.Insert by (rule rtranclp.rtrancl_into_rtrancl)
  have "\<not> needs_rebuild idx"
    using idx index_apply_effect(2) [of "rebuild (tbl_records city_table) 0 (with_exclusions ''CITY'' 0 [])"]
      rebuild_describes [of "tbl_records city_table" 0 "with_exclusions ''CITY'' 0 []"]
    by (auto simp: insert_record_indexes indexed_city_table_def index_describes_def same_index_def city_table_def
        mark_dict_dirty_def recheck_index_attributes_def Table_new_def)
  with indexes_stay_exact [OF steps idx] idx show ?thesis by blast
qed

text \<open>
  A lookup on an indexed field that answers names exactly the records that carry the value, in key
  order: nothing that should be found is left out, and nothing that is named lacks it.
\<close>

theorem lookup_exact:
  assumes "table_ok t" and "fst (index_candidates field v t) = Some ks" and "field_index t field = Some attr"
  shows "sorted_wrt (<) ks \<and>
    set ks = {k. \<exists>r. hm_get (tbl_records t) k = Some r \<and> index_key v \<in> set (keys_of (Some r) attr)}"
  using table_lookup_exact [of t field v ks] assms by (auto simp: table_lookup_def record_carries_def bt_wf_def)

theorem lookup_exact_witness:
  "\<exists>ks. fst (index_candidates ''CITY'' ''v'' indexed_city_table) = Some ks \<and> sorted_wrt (<) ks \<and>
    set ks = {k. \<exists>r. hm_get (tbl_records indexed_city_table) k = Some r \<and> index_key ''v'' \<in> set (keys_of (Some r) 0)}"
proof -
  have ok: "table_ok indexed_city_table" using table_steps_ok [OF city_steps] by simp
  have f: "field_index indexed_city_table ''CITY'' = Some 0"
    by (simp add: field_index_def indexed_city_table_def city_table_def mark_dict_dirty_def recheck_index_attributes_def
        Table_new_def hm_insert_def hm_get_def city_index)
  obtain ks where ks: "fst (index_candidates ''CITY'' ''v'' indexed_city_table) = Some ks"
    using f by (simp add: index_candidates_def indexed_city_table_def candidates_def Let_def case_prod_beta with_exclusions_def
        normalise_exclusions_def bt_of_list_def)
  from lookup_exact [OF ok ks f] ks show ?thesis by blast
qed

end
