(* ===== verification/Dictionary.thy ===== *)
theory Dictionary
  imports Table_Props
begin

text \<open>
  What a dictionary entry says about a field (\<^verbatim>\<open>db/engine/dictionary.rs\<close>): its attribute, conversion
  code, heading, width and justification, the conversions between stored and shown text, and the
  association group a field belongs to (\<open>impl Table\<close> in \<^verbatim>\<open>db/engine/mod.rs\<close>). The steps of an
  \<open>MDn\<close> conversion are \<open>md_out\<close> and \<open>md_in\<close> over the operations of a 64-bit float, which are a
  parameter; every theorem that involves a conversion holds for any pair of scaling functions.
\<close>

section \<open>Entries\<close>

definition DICT_NAME_IDX :: nat where "DICT_NAME_IDX = 1"
definition DICT_JUSTIFY_IDX :: nat where "DICT_JUSTIFY_IDX = 2"
definition DICT_WIDTH_IDX :: nat where "DICT_WIDTH_IDX = 3"
definition DICT_ASSOC_IDX :: nat where "DICT_ASSOC_IDX = 4"
definition DICT_ASSOC_DEPTH_IDX :: nat where "DICT_ASSOC_DEPTH_IDX = 5"
definition DICT_CONV_IDX :: nat where "DICT_CONV_IDX = 7"
definition DEFAULT_FIELD_WIDTH :: nat where "DEFAULT_FIELD_WIDTH = 10"

definition conversion_code_from_dict_record :: "Record \<Rightarrow> str option" where
  "conversion_code_from_dict_record r =
     (case get_at (rec_fields r) DICT_CONV_IDX of None \<Rightarrow> None
      | Some f \<Rightarrow>
        (case field_values f of [] \<Rightarrow> None
         | v # _ \<Rightarrow>
           (case sub_values v of [] \<Rightarrow> None
            | code # _ \<Rightarrow> if utf8_valid code \<and> code \<noteq> [] then Some code else None)))"

definition conversion_code :: "Table \<Rightarrow> str \<Rightarrow> str option" where
  "conversion_code t field_name =
     (case hm_get (tbl_dictionary t) field_name of None \<Rightarrow> None | Some r \<Rightarrow> conversion_code_from_dict_record r)"

definition field_index_and_conversion :: "Table \<Rightarrow> str \<Rightarrow> (nat \<times> str option) option" where
  "field_index_and_conversion t field_name =
     (if field_name = ''ID'' then Some (0, None)
      else case hm_get (tbl_dictionary t) field_name of None \<Rightarrow> None
        | Some r \<Rightarrow> (case attribute_index r of None \<Rightarrow> None | Some idx \<Rightarrow> Some (idx, conversion_code_from_dict_record r)))"

definition field_header_in :: "Table \<Rightarrow> str \<Rightarrow> str" where
  "field_header_in t field_name =
     (if field_name = ''ID'' then ''ID''
      else case Option.bind (hm_get (tbl_dictionary t) field_name) (\<lambda>r. dict_text r DICT_NAME_IDX) of
          Some header \<Rightarrow> (if header \<noteq> [] then header else field_name)
        | None \<Rightarrow> field_name)"

definition field_width_in :: "Table \<Rightarrow> str \<Rightarrow> nat" where
  "field_width_in t field_name =
     (if field_name = ''ID'' then DEFAULT_FIELD_WIDTH
      else case Option.bind (hm_get (tbl_dictionary t) field_name) (\<lambda>r. Option.bind (dict_text r DICT_WIDTH_IDX) parse_u64) of
          Some width \<Rightarrow> width
        | None \<Rightarrow> DEFAULT_FIELD_WIDTH)"

definition field_justification_in :: "Table \<Rightarrow> str \<Rightarrow> str" where
  "field_justification_in t field_name =
     (if field_name = ''ID'' then ''L''
      else case Option.bind (hm_get (tbl_dictionary t) field_name) (\<lambda>r. dict_text r DICT_JUSTIFY_IDX) of
          Some just \<Rightarrow> (if just \<noteq> [] then just else ''L'')
        | None \<Rightarrow> ''L'')"

text \<open>
  \<open>all_dict_fields_in\<close>: the first name, in name order, of each attribute number above zero; then the
  names in the order of those numbers.
\<close>

definition pick_field :: "Table \<Rightarrow> str \<Rightarrow> (nat, str) hashmap \<Rightarrow> (nat, str) hashmap" where
  "pick_field t key m =
     (case Option.bind (hm_get (tbl_dictionary t) key) (\<lambda>r. Option.bind (dict_text r DICT_FIELD_IDX) parse_u64) of
        Some idx \<Rightarrow> (if 0 < idx \<and> \<not> hm_contains m idx then hm_insert idx key m else m)
      | None \<Rightarrow> m)"

definition all_dict_fields_in :: "Table \<Rightarrow> str list" where
  "all_dict_fields_in t =
     (let m = fold (pick_field t) (sort (hm_keys (tbl_dictionary t))) []
      in map (\<lambda>idx. the (hm_get m idx)) (sort (hm_keys m)))"

section \<open>Conversions\<close>

definition md_decimals :: "str \<Rightarrow> nat option" where
  "md_decimals code = (if prefix ''MD'' code \<and> 2 < length code then parse_u64 (drop 2 code) else None)"

definition parse_i64 :: "str \<Rightarrow> int option" where
  "parse_i64 s =
     (if s \<noteq> [] \<and> hd s = CHR ''-'' then
        (if tl s \<noteq> [] \<and> hd (tl s) = CHR ''+'' then None
         else map_option (\<lambda>n. - int n) (from_str_radix (2 ^ 63) 10 (tl s)))
      else map_option int (from_str_radix (2 ^ 63 - 1) 10 s))"

definition show_i64 :: "int \<Rightarrow> str" where
  "show_i64 i = (if i < 0 then CHR ''-'' # show_radix 10 (nat (- i)) else show_radix 10 (nat i))"

record 'f F64 =
  f64_parse :: "str \<Rightarrow> 'f option"
  f64_of_i64 :: "int \<Rightarrow> 'f"
  f64_ten_powi :: "int \<Rightarrow> 'f"
  f64_mul :: "'f \<Rightarrow> 'f \<Rightarrow> 'f"
  f64_div :: "'f \<Rightarrow> 'f \<Rightarrow> 'f"
  f64_round :: "'f \<Rightarrow> 'f"
  f64_as_i64 :: "'f \<Rightarrow> int"
  f64_fixed :: "nat \<Rightarrow> 'f \<Rightarrow> str"

text \<open>The exponent is cast to \<open>i32\<close>, which wraps.\<close>

definition as_i32 :: "nat \<Rightarrow> int" where
  "as_i32 n = sint (word_of_nat n :: 32 word)"

definition md_out :: "'f F64 \<Rightarrow> str \<Rightarrow> nat \<Rightarrow> str option" where
  "md_out ops v decimals =
     (let divisor = f64_ten_powi ops (as_i32 decimals) in
      case parse_i64 v of
        Some num \<Rightarrow>
          Some (if decimals = 0 then show_i64 num else f64_fixed ops decimals (f64_div ops (f64_of_i64 ops num) divisor))
      | None \<Rightarrow>
          (case f64_parse ops v of
             Some f \<Rightarrow>
               Some (if decimals = 0 then show_i64 (f64_as_i64 ops (f64_round ops f))
                     else f64_fixed ops decimals (f64_div ops f divisor))
           | None \<Rightarrow> None))"

definition md_in :: "'f F64 \<Rightarrow> str \<Rightarrow> nat \<Rightarrow> str option" where
  "md_in ops v decimals =
     map_option (\<lambda>f. f64_fixed ops 0 (f64_round ops (f64_mul ops f (f64_ten_powi ops (as_i32 decimals))))) (f64_parse ops v)"

text \<open>\<open>scale_out v d\<close> is the number \<open>v\<close> over ten to the \<open>d\<close> with \<open>d\<close> decimals, \<open>md_out\<close> in the code; \<open>scale_in\<close> is the way back, \<open>md_in\<close>.\<close>

definition apply_conversion :: "(str \<Rightarrow> nat \<Rightarrow> str option) \<Rightarrow> str \<Rightarrow> str \<Rightarrow> str" where
  "apply_conversion scale_out v code =
     (case md_decimals code of None \<Rightarrow> v
      | Some decimals \<Rightarrow> (case scale_out v decimals of Some s \<Rightarrow> s | None \<Rightarrow> v))"

definition apply_iconv :: "(str \<Rightarrow> nat \<Rightarrow> str option) \<Rightarrow> str \<Rightarrow> str \<Rightarrow> str" where
  "apply_iconv scale_in v code =
     (case md_decimals code of None \<Rightarrow> v
      | Some decimals \<Rightarrow> (case scale_in v decimals of Some s \<Rightarrow> s | None \<Rightarrow> v))"

definition convert_display_string :: "(str \<Rightarrow> nat \<Rightarrow> str option) \<Rightarrow> str \<Rightarrow> str \<Rightarrow> str" where
  "convert_display_string scale_out raw code =
     (if CHR '']'' \<notin> set raw \<and> backslash \<notin> set raw then apply_conversion scale_out raw code
      else join_with (CHR '']'')
        (map (\<lambda>v. join_with backslash (map (\<lambda>sub. apply_conversion scale_out sub code) (split_on backslash v)))
          (split_on (CHR '']'') raw)))"

definition format_record_field_at_in ::
  "(str \<Rightarrow> nat \<Rightarrow> str option) \<Rightarrow> Table \<Rightarrow> Record \<Rightarrow> str \<Rightarrow> ValuePosition option \<Rightarrow> str" where
  "format_record_field_at_in scale_out t r field_name position =
     (case field_index_and_conversion t field_name of None \<Rightarrow> []
      | Some (field_idx, conv) \<Rightarrow>
        let raw_val = get_value_display_string r field_idx position
        in (case conv of Some code \<Rightarrow> convert_display_string scale_out raw_val code | None \<Rightarrow> raw_val))"

section \<open>Associations\<close>

definition ASSOC_MAX_DEPTH :: nat where "ASSOC_MAX_DEPTH = 16"

definition controller_of :: "Table \<Rightarrow> str \<Rightarrow> (str \<times> AssociationDepth) option" where
  "controller_of t field_name =
     (case hm_get (tbl_dictionary t) field_name of None \<Rightarrow> None
      | Some r \<Rightarrow>
        let ctl = trim (get_field_display_string r DICT_ASSOC_IDX) in
        if ctl = [] \<or> ctl = field_name then None
        else Some (ctl, depth_from_attribute (get_field_display_string r DICT_ASSOC_DEPTH_IDX)))"

text \<open>The bounded walk up the controllers. \<open>None\<close> is the loop running out, which is a cycle.\<close>

fun root_walk :: "Table \<Rightarrow> nat \<Rightarrow> str \<Rightarrow> AssociationDepth \<Rightarrow> (str \<times> AssociationDepth) option" where
  "root_walk t 0 name depth = None"
| "root_walk t (Suc n) name depth =
     (case controller_of t name of
        Some (ctl, link) \<Rightarrow> root_walk t n ctl (if link = AssocSubValue then AssocSubValue else depth)
      | None \<Rightarrow> Some (name, depth))"

definition association_root :: "Table \<Rightarrow> str \<Rightarrow> str \<times> AssociationDepth" where
  "association_root t field_name =
     (case root_walk t ASSOC_MAX_DEPTH field_name AssocValue of Some r \<Rightarrow> r | None \<Rightarrow> (field_name, AssocValue))"

definition association_member_of :: "Table \<Rightarrow> str \<Rightarrow> str \<Rightarrow> AssociationMember option" where
  "association_member_of t root name =
     (let (name_root, depth) = association_root t name
      in if name_root \<noteq> root then None
         else map_option (\<lambda>index. \<lparr>member_name = name, member_index = index, member_depth = depth\<rparr>) (field_index t name))"

definition association :: "Table \<Rightarrow> str \<Rightarrow> Association option" where
  "association t field_name =
     (if field_name = ''ID'' \<or> \<not> hm_contains (tbl_dictionary t) field_name then None
      else let root = fst (association_root t field_name);
               ms = List.map_filter (association_member_of t root) (hm_keys (tbl_dictionary t))
        in if length ms < 2 then None
           else Some \<lparr>controller = root, members = sort_key (\<lambda>m. (member_index m, member_name m)) ms\<rparr>)"

section \<open>Lemmas\<close>

lemma field_index_and_conversion_index: "map_option fst (field_index_and_conversion t f) = field_index t f"
  by (simp add: field_index_and_conversion_def field_index_def split: option.splits)

lemma association_members:
  assumes "association t f = Some g" "m \<in> set (members g)"
  shows "fst (association_root t (member_name m)) = controller g \<and> member_depth m = snd (association_root t (member_name m)) \<and>
    field_index t (member_name m) = Some (member_index m) \<and> hm_contains (tbl_dictionary t) (member_name m)"
proof -
  let ?root = "fst (association_root t f)"
  from assms obtain name where n: "name \<in> set (hm_keys (tbl_dictionary t))" "association_member_of t ?root name = Some m"
    and c: "controller g = ?root"
    by (auto simp: association_def Let_def List.map_filter_def split: if_splits)
  then show ?thesis
    by (auto simp: association_member_of_def case_prod_beta hm_keys_iff hm_contains_def split: if_splits)
qed

text \<open>Two fields of a group are the same group, whichever of them is asked for.\<close>

lemma association_same:
  assumes "association t f = Some g" "m \<in> set (members g)" "member_name m \<noteq> ''ID''"
  shows "association t (member_name m) = Some g"
proof -
  note am = association_members [OF assms(1,2)]
  have "fst (association_root t (member_name m)) = fst (association_root t f)"
    using am assms(1) by (auto simp: association_def Let_def split: if_splits)
  with assms am show ?thesis by (simp add: association_def Let_def split: if_splits)
qed

section \<open>Properties\<close>

text \<open>
  An association does not depend on which of its members a clause names: every member of the
  group of a field resolves to that same group, members are in attribute order, there are at least two
  of them, and each pairs at the tier its own chain of controllers gives it.
\<close>

theorem association_is_a_class:
  assumes "association t f = Some g"
  shows "2 \<le> length (members g) \<and> sorted (map member_index (members g)) \<and>
    (\<forall>m \<in> set (members g). field_index t (member_name m) = Some (member_index m) \<and>
       association_root t (member_name m) = (controller g, member_depth m) \<and>
       (member_name m = ''ID'' \<or> association t (member_name m) = Some g))"
proof (intro conjI ballI)
  show "2 \<le> length (members g)" using assms by (auto simp: association_def Let_def not_less split: if_splits)
  obtain ms where ms: "members g = sort_key (\<lambda>m. (member_index m, member_name m)) ms"
    using assms by (auto simp: association_def Let_def split: if_splits)
  have "sorted (map (\<lambda>m. (member_index m, member_name m)) (members g))" unfolding ms by (rule sorted_sort_key)
  then show "sorted (map member_index (members g))"
    unfolding sorted_map by (rule sorted_wrt_mono_rel [rotated]) (auto simp: less_eq_prod_def)
next
  fix m assume m: "m \<in> set (members g)"
  note am = association_members [OF assms m]
  show "field_index t (member_name m) = Some (member_index m)" using am by simp
  show "association_root t (member_name m) = (controller g, member_depth m)" using am by (simp add: prod_eq_iff)
  show "member_name m = ''ID'' \<or> association t (member_name m) = Some g" using association_same [OF assms m] by blast
qed

text \<open>A dictionary of two paired fields for the witness.\<close>

definition pair_table :: Table where
  "pair_table = Table_new\<lparr>tbl_dictionary :=
     [(''DATES'', from_attributes [''2'', [], [], [], ''ACCTS'', ''V'']), (''ACCTS'', from_attributes [''1''])]\<rparr>"

lemma pair_walk:
  "controller_of pair_table ''DATES'' = Some (''ACCTS'', AssocValue)" "controller_of pair_table ''ACCTS'' = None"
  "field_index pair_table ''DATES'' = Some 1" "field_index pair_table ''ACCTS'' = Some 0"
proof -
  have plain: "text_of s = s" if "is_ascii s" for s using that by (simp add: text_of_valid utf8_valid_ascii)
  have lossy: "from_utf8_lossy s = s" if "is_ascii s" for s using that by (simp add: from_utf8_lossy_valid utf8_valid_ascii)
  have t: "trim s = s" if "visible_text s" for s using that by (rule trim_visible_text)
  show "controller_of pair_table ''DATES'' = Some (''ACCTS'', AssocValue)"
    by (simp add: controller_of_def pair_table_def hm_get_def from_attributes_def Value_text_def get_field_display_string_def
        get_at_def DICT_ASSOC_IDX_def DICT_ASSOC_DEPTH_IDX_def field_to_bytes_def value_to_bytes_def to_display_chars_def
        display_char_def FM_def VM_def SVM_def lossy t visible_def depth_from_attribute_def eq_ignore_ascii_case_def
        ASSOC_SUB_VALUE_def ascii_lower_def Let_def)
  show "controller_of pair_table ''ACCTS'' = None"
    by (simp add: controller_of_def pair_table_def hm_get_def from_attributes_def Value_text_def get_field_display_string_def
        get_at_def DICT_ASSOC_IDX_def Let_def)
  show "field_index pair_table ''DATES'' = Some 1" "field_index pair_table ''ACCTS'' = Some 0"
    by (simp_all add: field_index_def pair_table_def hm_get_def from_attributes_def Value_text_def attribute_index_def dict_text_def
        get_at_def DICT_FIELD_IDX_def first_text_def plain from_str_radix_def to_digit_def u64_max_def Let_def)
qed

theorem association_is_a_class_witness:
  "\<exists>g. association pair_table ''DATES'' = Some g \<and> map member_name (members g) = [''ACCTS'', ''DATES''] \<and>
     association pair_table ''ACCTS'' = Some g"
proof -
  have r: "association_root pair_table ''DATES'' = (''ACCTS'', AssocValue)" "association_root pair_table ''ACCTS'' = (''ACCTS'', AssocValue)"
    by (simp_all add: association_root_def ASSOC_MAX_DEPTH_def numeral_eq_Suc pair_walk)
  have d: "hm_keys (tbl_dictionary pair_table) = [''DATES'', ''ACCTS'']" "hm_contains (tbl_dictionary pair_table) ''DATES''"
    by (simp_all add: pair_table_def hm_keys_def hm_contains_def hm_get_def)
  have g: "association pair_table ''DATES'' = Some \<lparr>controller = ''ACCTS'', members =
      [\<lparr>member_name = ''ACCTS'', member_index = 0, member_depth = AssocValue\<rparr>, \<lparr>member_name = ''DATES'', member_index = 1, member_depth = AssocValue\<rparr>]\<rparr>"
    by (simp add: association_def r d association_member_of_def pair_walk List.map_filter_simps Let_def)
  from association_is_a_class [OF g] g show ?thesis by simp
qed

end
