(* ===== verification/Query.thy ===== *)
theory Query
  imports Dictionary
begin

text \<open>
  Selection over a table (\<^verbatim>\<open>db/query.rs\<close>): parsing a clause, comparing values, evaluating a query
  against one record, narrowing by the indexes, collecting the matches, and expanding a match into
  the positions of an exploded field or association. The section's order is part of the answer: a scan
  is in key order, a selection from given keys is in the caller's. The input conversion of an \<open>MDn\<close>
  field is the parameter \<open>scale_in\<close> of \<open>apply_iconv\<close>. The ordering of \<open>BY\<close> is not here: it
  compares 64-bit floating-point numbers.
\<close>

section \<open>Clauses\<close>

record QueryCondition =
  cond_field_name :: str
  cond_op :: str
  cond_value :: str

record ExplodeSpec =
  explode_field_name :: str
  explode_condition :: "QueryCondition option"

record SortSpec =
  sort_field_name :: str
  descending :: bool

datatype LogicalOp = And | Or

datatype QueryNode = Condition QueryCondition | Logical LogicalOp QueryNode QueryNode

definition quote :: char where "quote = CHR 0x22"

definition unquote :: "str \<Rightarrow> str" where
  "unquote raw =
     trim (if 2 \<le> length raw \<and> hd raw = quote \<and> last raw = quote then take (length raw - 2) (drop 1 raw) else raw)"

definition is_comparison_op :: "str \<Rightarrow> bool" where
  "is_comparison_op token \<longleftrightarrow> to_uppercase token \<in>
     set [''='', ''EQ'', ''!='', ''#'', ''<>'', ''NE'', ''<'', ''LT'', ''>'', ''GT'', ''<='', ''LE'', ''>='', ''GE'']"

definition is_wildcard_value :: "str \<Rightarrow> bool" where
  "is_wildcard_value v \<longleftrightarrow> v \<noteq> [] \<and> (hd v = CHR ''['' \<or> last v = CHR '']'')"

definition condition_of :: "str \<Rightarrow> str \<Rightarrow> str \<Rightarrow> QueryCondition" where
  "condition_of f op v = \<lparr>cond_field_name = f, cond_op = op, cond_value = unquote v\<rparr>"

definition logical_of :: "str \<Rightarrow> LogicalOp option" where
  "logical_of w = (if to_uppercase w = ''AND'' then Some And else if to_uppercase w = ''OR'' then Some Or else None)"

text \<open>The loop over further conditions: the tokens not yet consumed, and how many were.\<close>

fun parse_more :: "QueryNode \<Rightarrow> nat \<Rightarrow> str list \<Rightarrow> QueryNode \<times> nat" where
  "parse_more node i (w # f # op # v # parts) =
     (case logical_of w of
        Some lop \<Rightarrow> parse_more (Logical lop node (Condition (condition_of f op v))) (i + 4) parts
      | None \<Rightarrow> (node, i))"
| "parse_more node i _ = (node, i)"

definition parse_query_consuming :: "str list \<Rightarrow> QueryNode option \<times> nat" where
  "parse_query_consuming parts =
     (if parts = [] then (None, 0)
      else let i = (if to_uppercase (hd parts) = ''WITH'' then 1 else 0) in
        if length parts < i + 3 then (None, 0)
        else case parse_more (Condition (condition_of (parts ! i) (parts ! (i + 1)) (parts ! (i + 2)))) (i + 3) (drop (i + 3) parts)
          of (node, n) \<Rightarrow> (Some node, n))"

definition parse_query :: "str list \<Rightarrow> QueryNode option" where
  "parse_query parts = fst (parse_query_consuming parts)"

definition and_condition :: "QueryNode option \<Rightarrow> QueryCondition option \<Rightarrow> QueryNode option" where
  "and_condition node cond =
     (case cond of None \<Rightarrow> node
      | Some c \<Rightarrow>
        Some (case node of Some existing \<Rightarrow> Logical And existing (Condition c) | None \<Rightarrow> Condition c))"

fun parse_clause_specs :: "str list \<Rightarrow> str list \<times> SortSpec list \<times> ExplodeSpec list" where
  "parse_clause_specs [] = ([], [], [])"
| "parse_clause_specs [w] = ([w], [], [])"
| "parse_clause_specs (w # f # parts) =
     (let upper = to_uppercase w in
      if upper = ''BY'' \<or> upper = ''BY.DSND'' then
        (case parse_clause_specs parts of (remaining, specs, explodes) \<Rightarrow>
           (remaining, \<lparr>sort_field_name = f, descending = (upper = ''BY.DSND'')\<rparr> # specs, explodes))
      else if upper = ''BY.EXP'' then
        (case parts of
           op # v # rest \<Rightarrow>
             if is_comparison_op op then
               (case parse_clause_specs rest of (remaining, specs, explodes) \<Rightarrow>
                  (remaining, specs, \<lparr>explode_field_name = f, explode_condition = Some (condition_of f op v)\<rparr> # explodes))
             else
               (case parse_clause_specs parts of (remaining, specs, explodes) \<Rightarrow>
                  (remaining, specs, \<lparr>explode_field_name = f, explode_condition = None\<rparr> # explodes))
         | _ \<Rightarrow>
             (case parse_clause_specs parts of (remaining, specs, explodes) \<Rightarrow>
                (remaining, specs, \<lparr>explode_field_name = f, explode_condition = None\<rparr> # explodes)))
      else
        (case parse_clause_specs (f # parts) of (remaining, specs, explodes) \<Rightarrow> (w # remaining, specs, explodes)))"

section \<open>Comparing and evaluating\<close>

text \<open>The equality of \<open>compare_values\<close>: brackets at the ends of the search value are wildcards.\<close>

definition matches_pattern :: "str \<Rightarrow> str \<Rightarrow> bool" where
  "matches_pattern record_val search_val =
     (let len = length search_val in
      if 2 \<le> len \<and> hd search_val = CHR ''['' \<and> last search_val = CHR '']''
        then sublist (take (len - 2) (drop 1 search_val)) record_val
      else if 1 \<le> len \<and> last search_val = CHR '']'' then prefix (take (len - 1) search_val) record_val
      else if 1 \<le> len \<and> hd search_val = CHR ''['' then suffix (drop 1 search_val) record_val
      else record_val = search_val)"

definition compare_values :: "str \<Rightarrow> str \<Rightarrow> str \<Rightarrow> bool" where
  "compare_values rv op search_val =
     (let record_val = trim rv; op_upper = to_uppercase op in
      if op_upper \<in> set [''='', ''EQ''] then matches_pattern record_val search_val
      else if op_upper \<in> set [''!='', ''#'', ''<>'', ''NE''] then \<not> matches_pattern record_val search_val
      else if op_upper \<in> set [''<'', ''LT''] then record_val < search_val
      else if op_upper \<in> set [''>'', ''GT''] then search_val < record_val
      else if op_upper \<in> set [''<='', ''LE''] then record_val \<le> search_val
      else if op_upper \<in> set [''>='', ''GE''] then search_val \<le> record_val
      else False)"

record FieldQueryInfo =
  info_index :: nat
  info_conversion :: "str option"

type_synonym field_map = "(str, FieldQueryInfo) hashmap"

fun collect_field_indices :: "Table \<Rightarrow> QueryNode \<Rightarrow> field_map \<Rightarrow> field_map" where
  "collect_field_indices t (Condition c) fm =
     (if cond_field_name c = ''ID'' \<or> hm_contains fm (cond_field_name c) then fm
      else case field_index_and_conversion t (cond_field_name c) of None \<Rightarrow> fm
        | Some (idx, conversion) \<Rightarrow>
            hm_insert (cond_field_name c) \<lparr>info_index = idx, info_conversion = conversion\<rparr> fm)"
| "collect_field_indices t (Logical op left right) fm =
     collect_field_indices t right (collect_field_indices t left fm)"

definition search_value :: "(str \<Rightarrow> nat \<Rightarrow> str option) \<Rightarrow> QueryCondition \<Rightarrow> str option \<Rightarrow> str" where
  "search_value scale_in c conversion =
     (case conversion of Some code \<Rightarrow> apply_iconv scale_in (cond_value c) code | None \<Rightarrow> cond_value c)"

text \<open>The early returns of the loop over a field's values.\<close>

definition field_matches :: "Field option \<Rightarrow> str \<Rightarrow> str \<Rightarrow> bool" where
  "field_matches field op search_val =
     (case field of
        None \<Rightarrow> compare_values [] op search_val
      | Some f \<Rightarrow>
          if field_values f = [] then compare_values [] op search_val
          else list_ex (\<lambda>v. (sub_values v = [] \<and> compare_values [] op search_val) \<or>
                 list_ex (\<lambda>sv. compare_values (text_of sv) op search_val) (sub_values v)) (field_values f))"

fun evaluate_node :: "(str \<Rightarrow> nat \<Rightarrow> str option) \<Rightarrow> field_map \<Rightarrow> str \<Rightarrow> Record \<Rightarrow> QueryNode \<Rightarrow> bool" where
  "evaluate_node scale_in fm key r (Condition c) =
     (if cond_field_name c = ''ID'' then compare_values key (cond_op c) (cond_value c)
      else case hm_get fm (cond_field_name c) of None \<Rightarrow> False
        | Some info \<Rightarrow>
            field_matches (get_at (rec_fields r) (info_index info)) (cond_op c) (search_value scale_in c (info_conversion info)))"
| "evaluate_node scale_in fm key r (Logical op left right) =
     (case op of
        And \<Rightarrow> evaluate_node scale_in fm key r left \<and> evaluate_node scale_in fm key r right
      | Or \<Rightarrow> evaluate_node scale_in fm key r left \<or> evaluate_node scale_in fm key r right)"

section \<open>Narrowing by the indexes\<close>

definition bt_inter :: "str list \<Rightarrow> str list \<Rightarrow> str list" where
  "bt_inter a b = filter (\<lambda>k. k \<in> set b) a"

definition bt_union :: "str list \<Rightarrow> str list \<Rightarrow> str list" where
  "bt_union a b = fold bt_insert b a"

definition combine_candidates :: "LogicalOp \<Rightarrow> str list option \<Rightarrow> str list option \<Rightarrow> str list option" where
  "combine_candidates op left right =
     (case op of
        And \<Rightarrow>
          (case (left, right) of
             (Some l, Some r) \<Rightarrow> Some (bt_inter l r)
           | (Some l, None) \<Rightarrow> Some l
           | (None, Some r) \<Rightarrow> Some r
           | (None, None) \<Rightarrow> None)
      | Or \<Rightarrow> (case (left, right) of (Some l, Some r) \<Rightarrow> Some (bt_union l r) | _ \<Rightarrow> None))"

text \<open>Each lookup counts itself on its index, so the table is threaded through.\<close>

fun query_candidates ::
  "(str \<Rightarrow> nat \<Rightarrow> str option) \<Rightarrow> field_map \<Rightarrow> QueryNode \<Rightarrow> Table \<Rightarrow> str list option \<times> Table" where
  "query_candidates scale_in fm (Condition c) t =
     (if tbl_indexes t = [] then (None, t)
      else if to_uppercase (cond_op c) \<notin> set [''='', ''EQ''] \<or> cond_field_name c = ''ID'' then (None, t)
      else if is_wildcard_value (cond_value c) then (None, t)
      else case hm_get fm (cond_field_name c) of None \<Rightarrow> (None, t)
        | Some info \<Rightarrow> index_candidates (cond_field_name c) (search_value scale_in c (info_conversion info)) t)"
| "query_candidates scale_in fm (Logical op left right) t =
     (if tbl_indexes t = [] then (None, t)
      else case query_candidates scale_in fm left t of (l, t1) \<Rightarrow>
        (case query_candidates scale_in fm right t1 of (r, t2) \<Rightarrow> (combine_candidates op l r, t2)))"

definition sole_indexed_field :: "Table \<Rightarrow> QueryNode \<Rightarrow> str option" where
  "sole_indexed_field t q =
     (case q of Logical _ _ _ \<Rightarrow> None
      | Condition c \<Rightarrow>
        (case hm_get (tbl_indexes t) (cond_field_name c) of None \<Rightarrow> None
         | Some idx \<Rightarrow> if field_index t (cond_field_name c) = Some (fi_attr idx) then Some (cond_field_name c) else None))"

definition count_survivors :: "str option \<Rightarrow> nat \<Rightarrow> Table \<Rightarrow> Table" where
  "count_survivors field n t =
     (case field of None \<Rightarrow> t
      | Some f \<Rightarrow>
        (case hm_get (tbl_indexes t) f of None \<Rightarrow> t
         | Some idx \<Rightarrow> t\<lparr>tbl_indexes := hm_insert f (note_survivors n idx) (tbl_indexes t)\<rparr>))"

section \<open>Collecting the matches\<close>

definition section_of :: "bool \<Rightarrow> Table \<Rightarrow> (str, Record) hashmap" where
  "section_of use_dict t = (if use_dict then tbl_dictionary t else tbl_records t)"

text \<open>\<open>get_key_value\<close> of each key, kept where the record matches.\<close>

definition pick_matches :: "(str, Record) hashmap \<Rightarrow> (str \<Rightarrow> Record \<Rightarrow> bool) \<Rightarrow> str list \<Rightarrow> (str \<times> Record) list" where
  "pick_matches source ok ks =
     List.map_filter (\<lambda>k. case hm_get source k of None \<Rightarrow> None | Some r \<Rightarrow> if ok k r then Some (k, r) else None) ks"

definition collect_matches_in ::
  "(str \<Rightarrow> nat \<Rightarrow> str option) \<Rightarrow> bool \<Rightarrow> QueryNode \<Rightarrow> str list option \<Rightarrow> Table \<Rightarrow> (str \<times> Record) list \<times> Table" where
  "collect_matches_in scale_in use_dict q keys_to_filter t =
     (let fm = collect_field_indices t q [];
          source = section_of use_dict t;
          ok = (\<lambda>k r. evaluate_node scale_in fm k r q);
          (cands, t1) = (if use_dict then (None, t) else query_candidates scale_in fm q t);
          sole = (case cands of None \<Rightarrow> None | Some _ \<Rightarrow> sole_indexed_field t1 q)
      in case keys_to_filter of
           None \<Rightarrow>
             (case cands of
                Some ks \<Rightarrow>
                  let matched = pick_matches source ok ks in (matched, count_survivors sole (length matched) t1)
              | None \<Rightarrow> (sort_key fst (filter (\<lambda>(k, r). ok k r) source), t1))
         | Some filter_keys \<Rightarrow>
             let results = pick_matches source ok
                   (filter (\<lambda>k. case cands of None \<Rightarrow> True | Some ks \<Rightarrow> k \<in> set ks) filter_keys)
             in (results, count_survivors sole (length results) t1))"

definition query_in ::
  "(str \<Rightarrow> nat \<Rightarrow> str option) \<Rightarrow> bool \<Rightarrow> QueryNode \<Rightarrow> str list option \<Rightarrow> Table \<Rightarrow> (str \<times> Record) list \<times> Table" where
  "query_in scale_in use_dict q keys_to_filter t = collect_matches_in scale_in use_dict q keys_to_filter t"

definition query_keys_in ::
  "(str \<Rightarrow> nat \<Rightarrow> str option) \<Rightarrow> bool \<Rightarrow> QueryNode \<Rightarrow> str list option \<Rightarrow> Table \<Rightarrow> str list \<times> Table" where
  "query_keys_in scale_in use_dict q keys_to_filter t =
     (case collect_matches_in scale_in use_dict q keys_to_filter t of (ms, t') \<Rightarrow> (map fst ms, t'))"

definition all_in :: "bool \<Rightarrow> str list option \<Rightarrow> Table \<Rightarrow> (str \<times> Record) list" where
  "all_in use_dict keys_to_filter t =
     (let source = section_of use_dict t
      in case keys_to_filter of
           Some filter_keys \<Rightarrow> List.map_filter (\<lambda>k. map_option (Pair k) (hm_get source k)) filter_keys
         | None \<Rightarrow> sort_key fst source)"

definition all_keys_in :: "bool \<Rightarrow> str list option \<Rightarrow> Table \<Rightarrow> str list" where
  "all_keys_in use_dict keys_to_filter t =
     (let source = section_of use_dict t
      in case keys_to_filter of
           Some filter_keys \<Rightarrow> filter (hm_contains source) filter_keys
         | None \<Rightarrow> sort (hm_keys source))"

section \<open>Exploding\<close>

definition explode_target_in :: "Table \<Rightarrow> str \<Rightarrow> ExplodeTarget option" where
  "explode_target_in t field_name =
     (case association t field_name of
        Some g \<Rightarrow> Some (ExplodeGroup g)
      | None \<Rightarrow> map_option (ExplodeField field_name) (field_index t field_name))"

fun resolve_explode :: "Table \<Rightarrow> (str \<times> ExplodeTarget) option \<Rightarrow> ExplodeSpec list \<Rightarrow> (ExplodeTarget option, str) result" where
  "resolve_explode t resolved [] = Ok (map_option snd resolved)"
| "resolve_explode t resolved (spec # specs) =
     (case explode_target_in t (explode_field_name spec) of
        None \<Rightarrow> resolve_explode t resolved specs
      | Some target \<Rightarrow>
        (case resolved of
           None \<Rightarrow> resolve_explode t (Some (explode_field_name spec, target)) specs
         | Some (first, existing) \<Rightarrow>
             if existing = target then resolve_explode t resolved specs
             else Err (''BY.EXP fields must belong to one association: '' @ first @ '' and '' @
                    explode_field_name spec @ '' are not associated'')))"

definition resolve_explode_in :: "Table \<Rightarrow> ExplodeSpec list \<Rightarrow> (ExplodeTarget option, str) result" where
  "resolve_explode_in t specs = resolve_explode t None specs"

fun collect_conditions_for :: "QueryNode \<Rightarrow> str \<Rightarrow> QueryCondition list" where
  "collect_conditions_for (Condition c) field_name = (if cond_field_name c = field_name then [c] else [])"
| "collect_conditions_for (Logical op left right) field_name =
     collect_conditions_for left field_name @ collect_conditions_for right field_name"

definition search_values :: "(str \<Rightarrow> nat \<Rightarrow> str option) \<Rightarrow> QueryCondition list \<Rightarrow> field_map \<Rightarrow> str list" where
  "search_values scale_in conditions fm =
     map (\<lambda>c. search_value scale_in c (Option.bind (hm_get fm (cond_field_name c)) info_conversion)) conditions"

definition any_condition_matches :: "str \<Rightarrow> QueryCondition list \<Rightarrow> str list \<Rightarrow> bool" where
  "any_condition_matches txt conditions search_vals =
     list_ex (\<lambda>(c, search). compare_values txt (cond_op c) search) (zip conditions search_vals)"

definition value_matches :: "Value \<Rightarrow> QueryCondition list \<Rightarrow> str list \<Rightarrow> bool" where
  "value_matches v conditions search_vals =
     (if length (sub_values v) \<le> 1 then any_condition_matches (text_of (first_bytes v)) conditions search_vals
      else list_ex (\<lambda>sub. any_condition_matches (text_of sub) conditions search_vals) (sub_values v))"

definition push_unique :: "ValuePosition list \<Rightarrow> ValuePosition \<Rightarrow> ValuePosition list" where
  "push_unique out pos = (if pos \<in> set out then out else out @ [pos])"

definition value_positions :: "QueryCondition list \<Rightarrow> str list \<Rightarrow> nat \<times> Value \<Rightarrow> ValuePosition list \<Rightarrow> ValuePosition list" where
  "value_positions conditions search_vals iv out =
     (case iv of (v_idx, v) \<Rightarrow>
        if length (sub_values v) \<le> 1 then
          (if any_condition_matches (text_of (first_bytes v)) conditions search_vals
           then push_unique out (position_value v_idx) else out)
        else fold (\<lambda>(sv_idx, sub) out. if any_condition_matches (text_of sub) conditions search_vals
               then push_unique out (position_sub_value v_idx sv_idx) else out)
             (enumerate 0 (sub_values v)) out)"

definition collect_positions ::
  "(str \<Rightarrow> nat \<Rightarrow> str option) \<Rightarrow> Record \<Rightarrow> nat \<Rightarrow> QueryCondition list \<Rightarrow> field_map \<Rightarrow> ValuePosition list" where
  "collect_positions scale_in r field_idx conditions fm =
     (case get_at (rec_fields r) field_idx of None \<Rightarrow> []
      | Some field \<Rightarrow>
        if conditions = [] then map position_value [0..<length (field_values field)]
        else fold (value_positions conditions (search_values scale_in conditions fm)) (enumerate 0 (field_values field)) [])"

text \<open>What an association selects of a record: values, sub-values of them, and depth-only members.\<close>

record GroupScan =
  scan_values :: "nat list"
  scan_narrowed :: "(nat, nat list) hashmap"
  scan_structural :: "nat list"

definition narrow :: "nat \<Rightarrow> nat \<Rightarrow> GroupScan \<Rightarrow> GroupScan" where
  "narrow v_idx s_idx sc =
     sc\<lparr>scan_values := bt_insert v_idx (scan_values sc),
        scan_narrowed := hm_insert v_idx
          (bt_insert s_idx (case hm_get (scan_narrowed sc) v_idx of None \<Rightarrow> [] | Some ss \<Rightarrow> ss)) (scan_narrowed sc)\<rparr>"

definition scan_value ::
  "AssociationDepth \<Rightarrow> QueryCondition list \<Rightarrow> str list \<Rightarrow> nat \<times> Value \<Rightarrow> GroupScan \<Rightarrow> GroupScan" where
  "scan_value depth conditions search_vals iv sc =
     (case iv of (v_idx, v) \<Rightarrow>
        (case depth of
           AssocValue \<Rightarrow>
             if conditions = [] \<or> value_matches v conditions search_vals
             then sc\<lparr>scan_values := bt_insert v_idx (scan_values sc)\<rparr> else sc
         | AssocSubValue \<Rightarrow>
             fold (\<lambda>(s_idx, sub) sc. if conditions = [] \<or> any_condition_matches (text_of sub) conditions search_vals
                   then narrow v_idx s_idx sc else sc)
               (enumerate 0 (sub_values v)) sc))"

definition scan_member ::
  "(str \<Rightarrow> nat \<Rightarrow> str option) \<Rightarrow> field_map \<Rightarrow> Record \<Rightarrow> bool \<Rightarrow> AssociationMember \<times> QueryCondition list \<Rightarrow> GroupScan \<Rightarrow> GroupScan" where
  "scan_member scale_in fm r selective mc sc =
     (case mc of (member, conditions) \<Rightarrow>
        if selective \<and> conditions = [] then
          (if member_depth member = AssocSubValue
           then sc\<lparr>scan_structural := scan_structural sc @ [member_index member]\<rparr> else sc)
        else case get_at (rec_fields r) (member_index member) of None \<Rightarrow> sc
          | Some field \<Rightarrow>
              fold (scan_value (member_depth member) conditions (search_values scale_in conditions fm))
                (enumerate 0 (field_values field)) sc)"

definition structural_subs :: "Record \<Rightarrow> nat list \<Rightarrow> nat \<Rightarrow> nat list" where
  "structural_subs r structural v_idx =
     fold (\<lambda>index subs.
        case Option.bind (get_at (rec_fields r) index) (\<lambda>field. get_at (field_values field) v_idx) of
          None \<Rightarrow> subs
        | Some v \<Rightarrow> fold bt_insert [0..<length (sub_values v)] subs) structural []"

definition value_rows :: "Record \<Rightarrow> GroupScan \<Rightarrow> nat \<Rightarrow> ValuePosition list" where
  "value_rows r sc v_idx =
     (case hm_get (scan_narrowed sc) v_idx of
        Some subs \<Rightarrow> map (position_sub_value v_idx) subs
      | None \<Rightarrow>
        let subs = structural_subs r (scan_structural sc) v_idx
        in if subs = [] then [position_value v_idx] else map (position_sub_value v_idx) subs)"

definition collect_group_positions ::
  "(str \<Rightarrow> nat \<Rightarrow> str option) \<Rightarrow> Record \<Rightarrow> (AssociationMember \<times> QueryCondition list) list \<Rightarrow> field_map \<Rightarrow> ValuePosition list" where
  "collect_group_positions scale_in r axes fm =
     (let selective = list_ex (\<lambda>(m, conditions). conditions \<noteq> []) axes;
          sc = fold (scan_member scale_in fm r selective) axes \<lparr>scan_values = [], scan_narrowed = [], scan_structural = []\<rparr>
      in concat (map (value_rows r sc) (scan_values sc)))"

definition positions_of ::
  "(str \<Rightarrow> nat \<Rightarrow> str option) \<Rightarrow> QueryNode option \<Rightarrow> field_map \<Rightarrow> ExplodeTarget \<Rightarrow> Record \<Rightarrow> ValuePosition list" where
  "positions_of scale_in q fm target r =
     (let conditions_for = (\<lambda>name. case q of None \<Rightarrow> [] | Some node \<Rightarrow> collect_conditions_for node name)
      in case target of
           ExplodeField name index \<Rightarrow> collect_positions scale_in r index (conditions_for name) fm
         | ExplodeGroup g \<Rightarrow>
             collect_group_positions scale_in r (map (\<lambda>m. (m, conditions_for (member_name m))) (members g)) fm)"

definition explode_row :: "(Record \<Rightarrow> ValuePosition list) \<Rightarrow> str \<times> Record \<Rightarrow> (SelectEntry \<times> Record) list" where
  "explode_row positions kr =
     (case kr of (key, r) \<Rightarrow>
        let ps = positions r
        in if ps = [] then [(SelectEntry_new key, r)] else map (\<lambda>p. (SelectEntry_at key p, r)) ps)"

definition query_exploded_in ::
  "(str \<Rightarrow> nat \<Rightarrow> str option) \<Rightarrow> bool \<Rightarrow> QueryNode option \<Rightarrow> ExplodeTarget option \<Rightarrow> str list option \<Rightarrow> Table
     \<Rightarrow> (SelectEntry \<times> Record) list \<times> Table" where
  "query_exploded_in scale_in use_dict q explode keys_to_filter t =
     (let (ms, t') = (case q of Some node \<Rightarrow> query_in scale_in use_dict node keys_to_filter t
                      | None \<Rightarrow> (all_in use_dict keys_to_filter t, t))
      in case explode of
           None \<Rightarrow> (map (\<lambda>(key, r). (SelectEntry_new key, r)) ms, t')
         | Some target \<Rightarrow>
             let fm = (case q of None \<Rightarrow> [] | Some node \<Rightarrow> collect_field_indices t node [])
             in (concat (map (explode_row (positions_of scale_in q fm target)) ms), t'))"

end
