(* ===== verification/Query_Laws.thy ===== *)
theory Query_Laws
  imports Query
begin

text \<open>
  What the queries promise. A condition asks the same texts an index files, so narrowing by the
  indexes drops no match; the answer of a query is that of a plain scan, in the same order, whatever
  indexes the table has.
\<close>

section \<open>What a condition compares\<close>

lemma field_matches_texts:
  "field_matches (get_at (rec_fields r) i) op s \<longleftrightarrow> (\<exists>x \<in> set (texts_of r i). compare_values x op s)"
  by (auto simp: field_matches_def texts_of_def value_texts_def list_ex_iff split: option.splits if_splits)

lemma compare_equal:
  assumes "to_uppercase op \<in> set [''='', ''EQ'']" "\<not> is_wildcard_value s" "compare_values x op s"
  shows "trim x = s"
  using assms by (cases s) (auto simp: compare_values_def matches_pattern_def is_wildcard_value_def Let_def split: if_splits)

section \<open>The field map\<close>

definition field_map_ok :: "Table \<Rightarrow> field_map \<Rightarrow> bool" where
  "field_map_ok t fm \<longleftrightarrow>
     (\<forall>f info. hm_get fm f = Some info \<longrightarrow> field_index_and_conversion t f = Some (info_index info, info_conversion info))"

lemma collect_field_indices_ok: "field_map_ok t fm \<Longrightarrow> field_map_ok t (collect_field_indices t q fm)"
proof (induction q arbitrary: fm)
  case (Condition c)
  show ?case
  proof (cases "field_index_and_conversion t (cond_field_name c)")
    case None
    with Condition show ?thesis by simp
  next
    case (Some p)
    with Condition show ?thesis by (cases p) (simp add: field_map_ok_def)
  qed
qed simp

lemma field_map_index: "field_map_ok t fm \<Longrightarrow> hm_get fm f = Some info \<Longrightarrow> field_index t f = Some (info_index info)"
  using field_index_and_conversion_index [of t f] by (simp add: field_map_ok_def)

lemma collect_field_indices_cong:
  "tbl_dictionary t' = tbl_dictionary t \<Longrightarrow> collect_field_indices t' q fm = collect_field_indices t q fm"
proof (induction q arbitrary: fm)
  case (Condition c)
  then have "field_index_and_conversion t' = field_index_and_conversion t" by (simp add: field_index_and_conversion_def fun_eq_iff)
  then show ?case by (simp only: collect_field_indices.simps)
qed simp

section \<open>Candidates\<close>

text \<open>
  The printed form of a scaled number starts and ends with a digit, a sign or a letter, never with
  one of the wildcard brackets.
\<close>

definition prints_number :: "(str \<Rightarrow> nat \<Rightarrow> str option) \<Rightarrow> bool" where
  "prints_number scale_in \<longleftrightarrow> (\<forall>v d s. scale_in v d = Some s \<longrightarrow> \<not> is_wildcard_value s)"

lemma search_value_plain:
  "prints_number scale_in \<Longrightarrow> \<not> is_wildcard_value (cond_value c) \<Longrightarrow> \<not> is_wildcard_value (search_value scale_in c conv)"
  by (auto simp: search_value_def apply_iconv_def prints_number_def split: option.splits)

lemma index_candidates_same:
  "tbl_records (snd (index_candidates f v t)) = tbl_records t" "tbl_dictionary (snd (index_candidates f v t)) = tbl_dictionary t"
  by (simp_all add: index_candidates_def case_prod_beta split: option.splits)

lemma field_map_ok_cong: "tbl_dictionary t' = tbl_dictionary t \<Longrightarrow> field_map_ok t' fm = field_map_ok t fm"
proof -
  assume "tbl_dictionary t' = tbl_dictionary t"
  then have "field_index_and_conversion t' = field_index_and_conversion t" by (simp add: field_index_and_conversion_def fun_eq_iff)
  then show ?thesis by (simp only: field_map_ok_def)
qed

lemma query_candidates_same:
  "tbl_records (snd (query_candidates scale_in fm q t)) = tbl_records t \<and>
   tbl_dictionary (snd (query_candidates scale_in fm q t)) = tbl_dictionary t \<and>
   (table_ok t \<longrightarrow> table_ok (snd (query_candidates scale_in fm q t)))"
proof (induction q arbitrary: t)
  case (Condition c)
  then show ?case by (simp add: index_candidates_same index_candidates_ok split: option.splits)
next
  case (Logical op l r)
  from Logical.IH(1) [of t] Logical.IH(2) [of "snd (query_candidates scale_in fm l t)"] show ?case
    by (simp add: case_prod_beta)
qed

lemma bt_union_simps: "set (bt_union a b) = set a \<union> set b" "bt_wf a \<Longrightarrow> bt_wf (bt_union a b)"
  by (auto simp: bt_union_def set_fold_bt_insert bt_wf_fold_insert)

lemma combine_wf:
  "combine_candidates op l r = Some ks \<Longrightarrow> (\<And>x. l = Some x \<Longrightarrow> bt_wf x) \<Longrightarrow> (\<And>x. r = Some x \<Longrightarrow> bt_wf x) \<Longrightarrow> bt_wf ks"
  by (auto simp: combine_candidates_def bt_union_simps bt_inter_def split: LogicalOp.splits option.splits)

lemma combine_complete:
  assumes "combine_candidates op l r = Some ks"
    and "\<And>x. l = Some x \<Longrightarrow> P \<Longrightarrow> k \<in> set x" "\<And>x. r = Some x \<Longrightarrow> Q \<Longrightarrow> k \<in> set x"
    and "case op of And \<Rightarrow> P \<and> Q | Or \<Rightarrow> P \<or> Q"
  shows "k \<in> set ks"
  using assms by (auto simp: combine_candidates_def bt_union_simps bt_inter_def split: LogicalOp.splits option.splits)

lemma query_candidates_cond:
  assumes "fst (query_candidates scale_in fm (Condition c) t) = Some ks"
  obtains info where "to_uppercase (cond_op c) \<in> set [''='', ''EQ'']" "cond_field_name c \<noteq> ''ID''"
    "\<not> is_wildcard_value (cond_value c)" "hm_get fm (cond_field_name c) = Some info"
    "table_lookup t (cond_field_name c) (search_value scale_in c (info_conversion info)) = Some ks"
proof -
  have g: "to_uppercase (cond_op c) \<in> set [''='', ''EQ''] \<and> cond_field_name c \<noteq> ''ID'' \<and> \<not> is_wildcard_value (cond_value c)"
    using assms by (rule contrapos_pp) (simp only: query_candidates.simps, simp, blast)
  show ?thesis
  proof (cases "hm_get fm (cond_field_name c)")
    case None
    with assms g show ?thesis by (simp split: if_splits)
  next
    case (Some info)
    with assms g show ?thesis by (intro that [of info]) (simp_all add: table_lookup_def split: if_splits)
  qed
qed

text \<open>The candidates are in key order and miss no match.\<close>

lemma query_candidates_complete:
  assumes "table_ok t" "field_map_ok t fm" "prints_number scale_in" "fst (query_candidates scale_in fm q t) = Some ks"
  shows "bt_wf ks \<and> (\<forall>k r. hm_get (tbl_records t) k = Some r \<and> evaluate_node scale_in fm k r q \<longrightarrow> k \<in> set ks)"
  using assms(1,2,4)
proof (induction q arbitrary: t ks)
  case (Condition c)
  from Condition.prems(3) obtain info where eq: "to_uppercase (cond_op c) \<in> set [''='', ''EQ'']" and f: "cond_field_name c \<noteq> ''ID''"
    and nw: "\<not> is_wildcard_value (cond_value c)" and info: "hm_get fm (cond_field_name c) = Some info"
    and ks: "table_lookup t (cond_field_name c) (search_value scale_in c (info_conversion info)) = Some ks"
    by (rule query_candidates_cond)
  let ?s = "search_value scale_in c (info_conversion info)"
  note idx = field_map_index [OF Condition.prems(2) info]
  have "k \<in> set ks" if k: "hm_get (tbl_records t) k = Some r" "evaluate_node scale_in fm k r (Condition c)" for k r
  proof (rule tl.complete [OF Condition.prems(1) ks])
    obtain x where x: "x \<in> set (texts_of r (info_index info))" "compare_values x (cond_op c) ?s"
      using k(2) f info by (auto simp: field_matches_texts)
    have "trim x = ?s" by (rule compare_equal [OF eq search_value_plain [OF assms(3) nw] x(2)])
    then have "index_key ?s = index_key x" by (metis index_key_trim)
    with x(1) k(1) idx show "record_carries t (cond_field_name c) ?s k"
      by (auto simp: record_carries_def set_keys_of)
  qed
  then show ?case using tl.ordered [OF Condition.prems(1) ks] by blast
next
  case (Logical op l r)
  let ?t1 = "snd (query_candidates scale_in fm l t)"
  note same = query_candidates_same [of scale_in fm l t]
  have ok1: "table_ok ?t1" "field_map_ok ?t1 fm" using same Logical.prems(1,2) by (blast, blast intro: field_map_ok_cong [THEN iffD2])
  have ks: "combine_candidates op (fst (query_candidates scale_in fm l t)) (fst (query_candidates scale_in fm r ?t1)) = Some ks"
    using Logical.prems(3) by (cases "tbl_indexes t = []") (simp_all add: case_prod_beta)
  note L = Logical.IH(1) [OF Logical.prems(1,2)] and R = Logical.IH(2) [OF ok1]
  have "bt_wf ks" by (rule combine_wf [OF ks]) (use L R in blast)+
  moreover have "k \<in> set ks" if k: "hm_get (tbl_records t) k = Some x" "evaluate_node scale_in fm k x (Logical op l r)" for k x
  proof (rule combine_complete [OF ks, where P = "evaluate_node scale_in fm k x l" and Q = "evaluate_node scale_in fm k x r"])
    show "case op of And \<Rightarrow> evaluate_node scale_in fm k x l \<and> evaluate_node scale_in fm k x r
      | Or \<Rightarrow> evaluate_node scale_in fm k x l \<or> evaluate_node scale_in fm k x r" using k(2) by simp
  qed (use L R k(1) same in auto)
  ultimately show ?case by blast
qed

section \<open>Matches\<close>

lemma pairs_determined:
  assumes "sorted_wrt (<) (map fst xs)" "sorted_wrt (<) (map fst ys)" "set xs = set (ys :: ('a::linorder \<times> 'b) list)"
  shows "xs = ys"
proof (rule map_sorted_distinct_set_unique [of fst])
  have "distinct (map fst ys)" using assms(2) by (simp add: strict_sorted_iff)
  then show "inj_on fst (set xs \<union> set ys)" using assms(3) by (simp add: distinct_map)
qed (use assms in \<open>simp_all add: strict_sorted_iff\<close>)

lemma pick_matches_keys:
  "map fst (pick_matches source ok ks) = filter (\<lambda>k. case hm_get source k of None \<Rightarrow> False | Some r \<Rightarrow> ok k r) ks"
  by (induction ks) (auto simp: pick_matches_def List.map_filter_simps split: option.splits)

lemma set_pick_matches: "set (pick_matches source ok ks) = {(k, r). k \<in> set ks \<and> hm_get source k = Some r \<and> ok k r}"
  by (force simp: pick_matches_def List.map_filter_def image_iff split: option.splits if_splits)

lemma sorted_scan: "hm_wf source \<Longrightarrow> sorted_wrt (<) (map fst (sort_key fst (filter P source)))"
proof -
  assume "hm_wf source"
  then have "distinct (map fst (filter P source))" by (simp add: hm_wf_def distinct_map_filter)
  then have "distinct (map fst (sort_key fst (filter P source)))"
    by (metis distinct_map distinct_sort set_sort)
  then show ?thesis by (simp add: strict_sorted_iff)
qed

lemma pick_is_scan:
  assumes "hm_wf source" "bt_wf ks" "\<And>k r. hm_get source k = Some r \<Longrightarrow> ok k r \<Longrightarrow> k \<in> set ks"
  shows "pick_matches source ok ks = sort_key fst (filter (\<lambda>(k, r). ok k r) source)"
proof (rule pairs_determined)
  show "sorted_wrt (<) (map fst (pick_matches source ok ks))"
    using assms(2) by (simp add: pick_matches_keys bt_wf_def sorted_wrt_filter)
  show "sorted_wrt (<) (map fst (sort_key fst (filter (\<lambda>(k, r). ok k r) source)))" by (rule sorted_scan [OF assms(1)])
  show "set (pick_matches source ok ks) = set (sort_key fst (filter (\<lambda>(k, r). ok k r) source))"
    using assms(3) by (auto simp: set_pick_matches hm_wf_mem [OF assms(1)])
qed

lemma pick_filtered:
  assumes "\<And>k r. hm_get source k = Some r \<Longrightarrow> ok k r \<Longrightarrow> k \<in> S"
  shows "pick_matches source ok (filter (\<lambda>k. k \<in> S) ks) = pick_matches source ok ks"
  using assms by (induction ks) (auto simp: pick_matches_def List.map_filter_simps split: option.splits)

text \<open>The answer of a scan that knows no index: the reference of the equivalence below.\<close>

definition scan_in ::
  "(str \<Rightarrow> nat \<Rightarrow> str option) \<Rightarrow> bool \<Rightarrow> QueryNode \<Rightarrow> str list option \<Rightarrow> Table \<Rightarrow> (str \<times> Record) list" where
  "scan_in scale_in use_dict q keys_to_filter t =
     (let source = section_of use_dict t;
          ok = (\<lambda>k r. evaluate_node scale_in (collect_field_indices t q []) k r q)
      in case keys_to_filter of
           None \<Rightarrow> sort_key fst (filter (\<lambda>(k, r). ok k r) source)
         | Some ks \<Rightarrow> pick_matches source ok ks)"

lemma collect_matches_scan:
  assumes "table_ok t" "prints_number scale_in"
  shows "fst (collect_matches_in scale_in use_dict q keys t) = scan_in scale_in use_dict q keys t"
proof -
  let ?fm = "collect_field_indices t q []"
  let ?ok = "\<lambda>k r. evaluate_node scale_in ?fm k r q"
  have fm: "field_map_ok t ?fm" by (rule collect_field_indices_ok) (simp add: field_map_ok_def)
  show ?thesis
  proof (cases use_dict)
    case True
    then show ?thesis
      by (simp add: collect_matches_in_def scan_in_def Let_def split: option.splits)
  next
    case False
    obtain cands t1 where c: "query_candidates scale_in ?fm q t = (cands, t1)" by (cases "query_candidates scale_in ?fm q t")
    show ?thesis
    proof (cases cands)
      case None
      with False c show ?thesis by (simp add: collect_matches_in_def scan_in_def Let_def split: option.splits)
    next
      case (Some ks)
      then have all: "bt_wf ks" "\<And>k r. hm_get (tbl_records t) k = Some r \<Longrightarrow> ?ok k r \<Longrightarrow> k \<in> set ks"
        using query_candidates_complete [OF assms(1) fm assms(2), of q ks] c by auto
      show ?thesis
        using False c Some pick_is_scan [OF table_okD(1) [OF assms(1)] all] pick_filtered [of "tbl_records t" ?ok "set ks", OF all(2)]
        by (cases keys) (simp_all add: collect_matches_in_def scan_in_def section_of_def Let_def)
    qed
  qed
qed

section \<open>Properties\<close>

text \<open>
  C9. An index never changes an answer. On every table whose indexes describe its records, a query
  gives exactly what a scan of the section gives, in the same order: key order for the whole section,
  the caller's order for given keys.
\<close>

theorem index_equals_scan:
  assumes "table_ok t" "prints_number scale_in"
  shows "fst (query_in scale_in use_dict q keys t) = scan_in scale_in use_dict q keys t \<and>
    fst (query_keys_in scale_in use_dict q keys t) = map fst (scan_in scale_in use_dict q keys t)"
  using collect_matches_scan [OF assms, of use_dict q keys] by (simp add: query_in_def query_keys_in_def case_prod_beta)

theorem index_equals_scan_witness:
  "fst (query_in (\<lambda>v d. None) False (Condition \<lparr>cond_field_name = ''CITY'', cond_op = ''='', cond_value = ''v''\<rparr>) None
      (insert_record ''k'' sample_record indexed_city_table)) =
    scan_in (\<lambda>v d. None) False (Condition \<lparr>cond_field_name = ''CITY'', cond_op = ''='', cond_value = ''v''\<rparr>) None
      (insert_record ''k'' sample_record indexed_city_table)"
proof -
  have "table_ok (insert_record ''k'' sample_record indexed_city_table)"
    using table_steps_ok [OF city_steps] by (simp add: insert_record_ok)
  moreover have "prints_number (\<lambda>v d. None)" by (simp add: prints_number_def)
  ultimately show ?thesis using index_equals_scan by blast
qed

end
