(* ===== verification/Query_Props.thy ===== *)
theory Query_Props
  imports Query_Laws
begin

text \<open>
  Clauses and rows: what the parser takes of a clause, and which rows an exploded selection has, in
  which order.
\<close>

section \<open>Parsing\<close>

type_synonym criterion = "str \<times> str \<times> str \<times> str"

definition criterion_tokens :: "criterion \<Rightarrow> str list" where
  "criterion_tokens cr = (case cr of (w, f, op, v) \<Rightarrow> [w, f, op, v])"

definition add_criterion :: "QueryNode \<Rightarrow> criterion \<Rightarrow> QueryNode" where
  "add_criterion node cr = (case cr of (w, f, op, v) \<Rightarrow> Logical (the (logical_of w)) node (Condition (condition_of f op v)))"

lemma parse_more_stops: "columns = [] \<or> logical_of (hd columns) = None \<Longrightarrow> parse_more node i columns = (node, i)"
  by (induction node i columns rule: parse_more.induct) auto

lemma parse_more_chain:
  assumes "\<forall>cr \<in> set chain. logical_of (fst cr) \<noteq> None" "columns = [] \<or> logical_of (hd columns) = None"
  shows "parse_more node i (concat (map criterion_tokens chain) @ columns) =
    (foldl add_criterion node chain, i + 4 * length chain)"
  using assms(1)
proof (induction chain arbitrary: node i)
  case (Cons cr chain)
  obtain w f op v where cr: "cr = (w, f, op, v)" by (cases cr)
  with Cons show ?case by (auto simp: criterion_tokens_def add_criterion_def)
qed (simp add: parse_more_stops [OF assms(2)])

section \<open>Positions of a field\<close>

text \<open>Which positions of one value satisfy a criterion, written out without the accumulator.\<close>

definition value_matching :: "QueryCondition list \<Rightarrow> str list \<Rightarrow> nat \<times> Value \<Rightarrow> ValuePosition list" where
  "value_matching conditions search_vals iv =
     (case iv of (i, v) \<Rightarrow>
        if length (sub_values v) \<le> 1
        then (if any_condition_matches (text_of (first_bytes v)) conditions search_vals then [position_value i] else [])
        else map (\<lambda>(j, sub). position_sub_value i j)
          (filter (\<lambda>(j, sub). any_condition_matches (text_of sub) conditions search_vals) (enumerate 0 (sub_values v))))"

lemma position_simps [simp]:
  "pos_value (position_value i) = i" "pos_value (position_sub_value i j) = i"
  "pos_sub_value (position_value i) = None" "pos_sub_value (position_sub_value i j) = Some j"
  by (simp_all add: position_value_def position_sub_value_def)

lemma fold_push_subs:
  assumes "\<forall>p \<in> set out. pos_value p = i \<longrightarrow> (\<exists>j < m. p = position_sub_value i j)"
  shows "fold (\<lambda>(j, sub) out. if P sub then push_unique out (position_sub_value i j) else out) (enumerate m subs) out =
    out @ map (\<lambda>(j, sub). position_sub_value i j) (filter (\<lambda>(j, sub). P sub) (enumerate m subs))"
  using assms
proof (induction subs arbitrary: m out)
  case (Cons s subs)
  have new: "position_sub_value i m \<notin> set out"
    using Cons.prems by (auto simp: position_sub_value_def)
  have keep: "\<forall>p \<in> set out'. pos_value p = i \<longrightarrow> (\<exists>j < Suc m. p = position_sub_value i j)"
    if "set out' \<subseteq> insert (position_sub_value i m) (set out)" for out'
  proof (intro ballI impI)
    fix p assume "p \<in> set out'" "pos_value p = i"
    with that Cons.prems consider "p = position_sub_value i m" | "\<exists>j < m. p = position_sub_value i j" by blast
    then show "\<exists>j < Suc m. p = position_sub_value i j" by (metis less_Suc_eq)
  qed
  from Cons.IH [of "out @ [position_sub_value i m]" "Suc m"] Cons.IH [of out "Suc m"] keep new show ?case
    by (auto simp: push_unique_def)
qed simp

lemma value_positions_append:
  assumes "\<forall>p \<in> set out. pos_value p \<noteq> i"
  shows "value_positions conditions search_vals (i, v) out = out @ value_matching conditions search_vals (i, v)"
proof -
  have new: "position_value i \<notin> set out" using assms by auto
  have "\<forall>p \<in> set out. pos_value p = i \<longrightarrow> (\<exists>j < 0. p = position_sub_value i j)" using assms by auto
  from fold_push_subs [OF this, of "\<lambda>sub. any_condition_matches (text_of sub) conditions search_vals" "sub_values v"] new
  show ?thesis by (simp add: value_positions_def value_matching_def push_unique_def)
qed

lemma value_matching_pos: "p \<in> set (value_matching conditions search_vals (i, v)) \<Longrightarrow> pos_value p = i"
  by (auto simp: value_matching_def split: if_splits)

lemma fold_value_positions:
  assumes "\<forall>p \<in> set out. pos_value p < n"
  shows "fold (value_positions conditions search_vals) (enumerate n vs) out =
    out @ concat (map (value_matching conditions search_vals) (enumerate n vs))"
  using assms
proof (induction vs arbitrary: n out)
  case (Cons v vs)
  have "value_positions conditions search_vals (n, v) out = out @ value_matching conditions search_vals (n, v)"
    using Cons.prems by (intro value_positions_append) auto
  moreover have "\<forall>p \<in> set (out @ value_matching conditions search_vals (n, v)). pos_value p < Suc n"
    using Cons.prems value_matching_pos [of _ conditions search_vals n v] by (auto intro: less_SucI)
  ultimately show ?case using Cons.IH by simp
qed simp

section \<open>Rows of a group\<close>

definition row_order :: "ValuePosition \<Rightarrow> nat \<times> nat" where
  "row_order p = (pos_value p, case pos_sub_value p of None \<Rightarrow> 0 | Some s \<Rightarrow> s)"

definition group_scan_ok :: "GroupScan \<Rightarrow> bool" where
  "group_scan_ok sc \<longleftrightarrow> bt_wf (scan_values sc) \<and> (\<forall>v ss. hm_get (scan_narrowed sc) v = Some ss \<longrightarrow> bt_wf ss \<and> ss \<noteq> [])"

lemma narrow_ok: "group_scan_ok sc \<Longrightarrow> group_scan_ok (narrow v s sc)"
  by (auto simp: group_scan_ok_def narrow_def split: option.splits if_splits)

lemma fold_preserves: "P s \<Longrightarrow> (\<And>x s. P s \<Longrightarrow> P (f x s)) \<Longrightarrow> P (fold f xs s)"
  by (induction xs arbitrary: s) auto

lemma group_scan_ok_updates:
  "group_scan_ok sc \<Longrightarrow> group_scan_ok (sc\<lparr>scan_values := bt_insert v (scan_values sc)\<rparr>)"
  "group_scan_ok sc \<Longrightarrow> group_scan_ok (sc\<lparr>scan_structural := xs\<rparr>)"
  by (simp_all add: group_scan_ok_def)

lemma scan_value_ok: "group_scan_ok sc \<Longrightarrow> group_scan_ok (scan_value depth conditions search_vals iv sc)"
  by (cases iv; cases depth)
    (auto simp: scan_value_def group_scan_ok_updates narrow_ok intro!: fold_preserves [where P = group_scan_ok])

lemma scan_member_ok: "group_scan_ok sc \<Longrightarrow> group_scan_ok (scan_member scale_in fm r selective mc sc)"
  by (cases mc)
    (auto simp: scan_member_def scan_value_ok group_scan_ok_updates split: option.splits
      intro!: fold_preserves [where P = group_scan_ok])

lemma structural_subs_ok: "bt_wf (structural_subs r structural v)"
  unfolding structural_subs_def
  by (rule fold_preserves [where P = bt_wf]) (auto simp: bt_wf_fold_insert split: option.splits)

lemma sub_rows_ok:
  assumes "bt_wf subs"
  shows "sorted_wrt (<) (map row_order (map (position_sub_value v) subs))"
proof -
  have "sorted_wrt (\<lambda>a b. row_order (position_sub_value v a) < row_order (position_sub_value v b)) subs"
    using assms unfolding bt_wf_def by (rule sorted_wrt_mono_rel [rotated]) (simp add: row_order_def less_prod_def)
  then show ?thesis by (simp add: sorted_wrt_map)
qed

lemma value_rows_ok:
  assumes "group_scan_ok sc"
  shows "sorted_wrt (<) (map row_order (value_rows r sc v)) \<and> (\<forall>p \<in> set (value_rows r sc v). pos_value p = v) \<and> value_rows r sc v \<noteq> []"
proof (cases "hm_get (scan_narrowed sc) v")
  case None
  then show ?thesis
    using sub_rows_ok [OF structural_subs_ok] by (auto simp: value_rows_def Let_def simp del: map_map)
next
  case (Some subs)
  with assms have "bt_wf subs" "subs \<noteq> []" by (auto simp: group_scan_ok_def)
  with Some sub_rows_ok show ?thesis by (auto simp: value_rows_def simp del: map_map)
qed

lemma concat_rows_sorted:
  assumes "sorted_wrt (<) vs"
    and "\<And>v. v \<in> set vs \<Longrightarrow> sorted_wrt (<) (map row_order (f v)) \<and> (\<forall>p \<in> set (f v). pos_value p = v)"
  shows "sorted_wrt (<) (map row_order (concat (map f vs)))"
  using assms
proof (induction vs)
  case (Cons v vs)
  have "row_order p < row_order q" if "p \<in> set (f v)" "w \<in> set vs" "q \<in> set (f w)" for p w q
  proof -
    have "pos_value p = v" "pos_value q = w" "v < w" using that Cons.prems by auto
    then show ?thesis by (simp add: row_order_def less_prod_def)
  qed
  with Cons show ?case by (auto simp: sorted_wrt_append)
qed simp

section \<open>Properties\<close>

text \<open>
  A clause of conditions joined by \<open>AND\<close> and \<open>OR\<close> parses to the left-associated tree of its
  conditions and takes exactly its own tokens: whatever column names follow are left to the caller.
\<close>

theorem clause_parses:
  assumes "\<forall>cr \<in> set chain. logical_of (fst cr) \<noteq> None" and "columns = [] \<or> logical_of (hd columns) = None"
  shows "parse_query_consuming (''WITH'' # f # op # v # concat (map criterion_tokens chain) @ columns) =
    (Some (foldl add_criterion (Condition (condition_of f op v)) chain), 4 + 4 * length chain)"
  using parse_more_chain [OF assms, of "Condition (condition_of f op v)" 4]
  by (simp add: parse_query_consuming_def to_uppercase_ascii ascii_upper_def Let_def)

theorem clause_parses_witness:
  "parse_query_consuming [''WITH'', ''NAME'', ''='', ''Bob'', ''or'', ''CITY'', ''#'', ''X'', ''EMAIL''] =
    (Some (Logical Or (Condition (condition_of ''NAME'' ''='' ''Bob'')) (Condition (condition_of ''CITY'' ''#'' ''X''))), 8)"
proof -
  have u: "logical_of ''or'' = Some Or" "logical_of ''EMAIL'' = None"
    by (simp_all add: logical_of_def to_uppercase_ascii ascii_upper_def char_of_def bit_Suc_0_iff)
  from clause_parses [where chain = "[(''or'', ''CITY'', ''#'', ''X'')]" and columns = "[''EMAIL'']" and f = "''NAME''" and op = "''=''" and v = "''Bob''"]
  show ?thesis using u by (simp add: criterion_tokens_def add_criterion_def)
qed



text \<open>
  The rows of an exploded association come out in value order and, within a value, in sub-value
  order, no row twice.
\<close>

theorem group_rows_ordered:
  "sorted_wrt (<) (map row_order (collect_group_positions scale_in r axes fm))"
proof -
  let ?sc = "fold (scan_member scale_in fm r (list_ex (\<lambda>(m, conditions). conditions \<noteq> []) axes)) axes
    \<lparr>scan_values = [], scan_narrowed = [], scan_structural = []\<rparr>"
  have ok: "group_scan_ok ?sc"
    by (rule fold_preserves [where P = group_scan_ok]) (simp_all add: scan_member_ok, simp add: group_scan_ok_def)
  then have "sorted_wrt (<) (scan_values ?sc)" by (simp add: group_scan_ok_def bt_wf_def)
  from concat_rows_sorted [OF this, of "value_rows r ?sc"] value_rows_ok [OF ok, of r]
  show ?thesis by (simp add: collect_group_positions_def Let_def)
qed

end
