(* ===== verification/Write.thy ===== *)
theory Write
  imports Table_Props
begin

text \<open>
  The record write path of \<^verbatim>\<open>db/engine/write.rs\<close>: the condition a key has to meet, and where the key
  comes from when the caller names none. One call is one critical section on the file's table, so it
  is a function from the table before to the answer and the table after; a refused write returns the
  table too, because a key minted for it is spent. Whether the file mints keys, and what its
  \<open>autokey\<close> file says, are read before the lock is taken and are arguments. The digest behind a
  record's version is the parameter \<open>digest\<close>. The flush that may follow a write is \<open>flush_locked\<close>.
\<close>

datatype WriteCondition = Always | IfAbsent | IfMatch str

definition is_unconditional :: "WriteCondition \<Rightarrow> bool" where
  "is_unconditional c = (case c of Always \<Rightarrow> True | _ \<Rightarrow> False)"

definition quoted :: "str \<Rightarrow> str" where
  "quoted s = CHR 0x27 # s @ [CHR 0x27]"

definition condition_check :: "(bytes \<Rightarrow> bytes) \<Rightarrow> WriteCondition \<Rightarrow> Record option \<Rightarrow> str \<Rightarrow> str \<Rightarrow> unit DbResult" where
  "condition_check digest c existing fname key =
     (let record_in = ''Record '' @ quoted key @ '' in file '' @ quoted fname in
      case (c, existing) of
        (Always, _) \<Rightarrow> Ok ()
      | (IfAbsent, None) \<Rightarrow> Ok ()
      | (IfAbsent, Some _) \<Rightarrow>
          Err (PreconditionFailed (record_in @ '' already exists, and if_absent asked for it not to''))
      | (IfMatch _, None) \<Rightarrow>
          Err (PreconditionFailed (record_in @ '' does not exist, so it cannot match the version if_match named''))
      | (IfMatch wanted, Some r) \<Rightarrow>
          let current = version digest r in
          if current = wanted then Ok ()
          else Err (PreconditionFailed (record_in @ '' has version '' @ current @ '', not the '' @ wanted @
                 '' if_match named: it was changed since it was read'')))"

record Written =
  written_key :: str
  written_version :: str
  minted :: bool

definition keyless_write_refused :: "str \<Rightarrow> DbError" where
  "keyless_write_refused name =
     InvalidRequest (quoted name @ '' does not mint keys, so a write to it has to name one. Create it with CREATE.FILE '' @
       name @ '' AUTOKEY, or use SET.FILE to turn minting on'')"

definition dict_key_missing :: "str \<Rightarrow> DbError" where
  "dict_key_missing name =
     InvalidRequest (''A dictionary entry of '' @ quoted name @
       '' is keyed by the field name it defines, so there is no key to mint'')"

definition attach_autokey :: "nat option \<Rightarrow> Table \<Rightarrow> Table" where
  "attach_autokey persisted t =
     (case tbl_autokey t of Some _ \<Rightarrow> t
      | None \<Rightarrow>
        let counter = restored (case persisted of Some n \<Rightarrow> n | None \<Rightarrow> 0)
        in t\<lparr>tbl_autokey := Some (fold raise_past (hm_keys (tbl_records t)) counter)\<rparr>)"

text \<open>The key of a write: the caller's, stepping the counter over it, or a fresh one.\<close>

definition choose_key :: "bool \<Rightarrow> nat option \<Rightarrow> nat \<Rightarrow> str \<Rightarrow> str option \<Rightarrow> Table \<Rightarrow> str DbResult \<times> Table" where
  "choose_key mints persisted now name key t =
     (case key of
        Some k \<Rightarrow> (Ok k, t\<lparr>tbl_autokey := map_option (raise_past k) (tbl_autokey t)\<rparr>)
      | None \<Rightarrow>
          if \<not> mints then (Err (keyless_write_refused name), t)
          else let t = attach_autokey persisted t in
            (case tbl_autokey t of None \<Rightarrow> (Err (keyless_write_refused name), t)
             | Some counter \<Rightarrow> (case mint now counter of (n, counter') \<Rightarrow> (Ok (format_key n), t\<lparr>tbl_autokey := Some counter'\<rparr>))))"

definition write_dict_entry ::
  "(bytes \<Rightarrow> bytes) \<Rightarrow> str \<Rightarrow> str \<Rightarrow> Record \<Rightarrow> WriteCondition \<Rightarrow> Table \<Rightarrow> Written DbResult \<times> Table" where
  "write_dict_entry digest name key r c t =
     (case condition_check digest c (hm_get (tbl_dictionary t) key) name key of
        Inl e \<Rightarrow> (Err e, t)
      | Inr _ \<Rightarrow>
          (Ok \<lparr>written_key = key, written_version = version digest r, minted = False\<rparr>,
           mark_dict_dirty (t\<lparr>tbl_dictionary := hm_insert key r (tbl_dictionary t)\<rparr>)))"

definition write_record_in ::
  "(bytes \<Rightarrow> bytes) \<Rightarrow> bool \<Rightarrow> nat option \<Rightarrow> nat \<Rightarrow> str \<Rightarrow> str option \<Rightarrow> Record \<Rightarrow> bool \<Rightarrow> WriteCondition \<Rightarrow> Table
     \<Rightarrow> Written DbResult \<times> Table" where
  "write_record_in digest autokey autokey_file now name key r is_dict c t =
     (if is_dict then
        (case key of None \<Rightarrow> (Err (dict_key_missing name), t) | Some k \<Rightarrow> write_dict_entry digest name k r c t)
      else
        let mints = (key = None \<and> autokey);
            persisted = (if mints then autokey_file else None)
        in case choose_key mints persisted now name key t of
            (Inl e, t') \<Rightarrow> (Err e, t')
          | (Inr k, t') \<Rightarrow>
              (case condition_check digest c (hm_get (tbl_records t') k) name k of
                 Inl e \<Rightarrow> (Err e, t')
               | Inr _ \<Rightarrow> (Ok \<lparr>written_key = k, written_version = version digest r, minted = mints\<rparr>, insert_record k r t')))"

definition delete_record_in ::
  "(bytes \<Rightarrow> bytes) \<Rightarrow> str \<Rightarrow> str \<Rightarrow> bool \<Rightarrow> WriteCondition \<Rightarrow> Table \<Rightarrow> bool DbResult \<times> Table" where
  "delete_record_in digest name key is_dict c t =
     (if is_dict then
        (case condition_check digest c (hm_get (tbl_dictionary t) key) name key of
           Inl e \<Rightarrow> (Err e, t)
         | Inr _ \<Rightarrow>
             (Ok (hm_contains (tbl_dictionary t) key),
              mark_dict_dirty (t\<lparr>tbl_dictionary := hm_remove key (tbl_dictionary t)\<rparr>)))
      else
        (case condition_check digest c (hm_get (tbl_records t) key) name key of
           Inl e \<Rightarrow> (Err e, t)
         | Inr _ \<Rightarrow> (case remove_record key t of (previous, t') \<Rightarrow> (Ok (previous \<noteq> None), t'))))"

text \<open>\<open>autokey_statistics\<close>: the counter in memory when there is one, else what the file beside the records says.\<close>

record AutoKeyStats =
  stat_next_key :: str
  stat_next_sequence :: nat
  stat_loaded :: bool

definition autokey_statistics :: "bool \<Rightarrow> Table option \<Rightarrow> nat option \<Rightarrow> nat \<Rightarrow> AutoKeyStats option" where
  "autokey_statistics autokey loaded autokey_file now =
     (if \<not> autokey then None
      else let in_memory = Option.bind loaded (\<lambda>t. map_option seq_peek (tbl_autokey t));
               next_sequence = (case in_memory of Some n \<Rightarrow> n | None \<Rightarrow> (case autokey_file of Some n \<Rightarrow> n | None \<Rightarrow> 0))
        in Some \<lparr>stat_next_key = format_key (max next_sequence (now * SUB_MILLISECOND)),
                 stat_next_sequence = next_sequence, stat_loaded = (in_memory \<noteq> None)\<rparr>)"

definition reattach_autokey :: "bool \<Rightarrow> directory \<Rightarrow> Table option \<Rightarrow> directory \<times> Table option" where
  "reattach_autokey autokey d loaded =
     (if autokey then (d, loaded) else (remove_autokey d, map_option (\<lambda>t. t\<lparr>tbl_autokey := None\<rparr>) loaded))"

definition persist_autokey :: "directory \<Rightarrow> Sequence \<Rightarrow> directory \<times> Sequence" where
  "persist_autokey d counter = (write_autokey d (seq_peek counter), seq_clear_dirty counter)"

section \<open>Conditions\<close>

definition condition_holds :: "(bytes \<Rightarrow> bytes) \<Rightarrow> WriteCondition \<Rightarrow> Record option \<Rightarrow> bool" where
  "condition_holds digest c existing =
     (case c of Always \<Rightarrow> True | IfAbsent \<Rightarrow> existing = None
      | IfMatch wanted \<Rightarrow> (\<exists>r. existing = Some r \<and> version digest r = wanted))"

lemma condition_check_cases:
  "if condition_holds digest c existing then condition_check digest c existing fname key = Ok ()
   else \<exists>d. condition_check digest c existing fname key = Err (PreconditionFailed d)"
  by (cases c; cases existing) (simp_all add: condition_check_def condition_holds_def Let_def)

lemma condition_check_iff:
  "condition_check digest c existing fname key = Ok u \<longleftrightarrow> condition_holds digest c existing"
  "(\<exists>e. condition_check digest c existing fname key = Err e) \<longleftrightarrow> \<not> condition_holds digest c existing"
  "condition_check digest c existing fname key = Err e \<Longrightarrow> \<exists>d. e = PreconditionFailed d"
  using condition_check_cases [of digest c existing fname key] by (auto split: if_splits)

lemma choose_key_same:
  "tbl_records (snd (choose_key mints p now name key t)) = tbl_records t"
  "tbl_dictionary (snd (choose_key mints p now name key t)) = tbl_dictionary t"
  "tbl_indexes (snd (choose_key mints p now name key t)) = tbl_indexes t"
  by (auto simp: choose_key_def attach_autokey_def Let_def case_prod_beta split: option.splits)

text \<open>A named write: applied when its condition holds on what is there, else nothing of the file moves.\<close>

lemma named_write:
  "write_record_in digest autokey af now name (Some k) r False c t =
     (let t' = t\<lparr>tbl_autokey := map_option (raise_past k) (tbl_autokey t)\<rparr> in
      case condition_check digest c (hm_get (tbl_records t) k) name k of
        Inl e \<Rightarrow> (Err e, t')
      | Inr _ \<Rightarrow> (Ok \<lparr>written_key = k, written_version = version digest r, minted = False\<rparr>, insert_record k r t'))"
  by (simp add: write_record_in_def choose_key_def Let_def)

section \<open>The counter covers the keys\<close>

definition counter_covers :: "Table \<Rightarrow> bool" where
  "counter_covers t \<longleftrightarrow> (\<forall>c. tbl_autokey t = Some c \<longrightarrow> seq_ok c \<and>
     (\<forall>k n. hm_contains (tbl_records t) k \<longrightarrow> key_sequence k = Some n \<longrightarrow> n < u64_max \<longrightarrow> n < seq_next c))"

lemma attach_covers:
  assumes "counter_covers t" and "\<And>n. persisted = Some n \<Longrightarrow> n \<le> u64_max"
  shows "counter_covers (attach_autokey persisted t)" "\<exists>c. tbl_autokey (attach_autokey persisted t) = Some c"
proof -
  have ok: "seq_ok (restored (case persisted of Some n \<Rightarrow> n | None \<Rightarrow> 0))"
    using assms(2) by (auto simp: seq_ok_def restored_def split: option.splits)
  show "counter_covers (attach_autokey persisted t)"
    using assms(1) fold_raise_past [OF ok, of "hm_keys (tbl_records t)"]
    by (auto simp: attach_autokey_def counter_covers_def Let_def hm_keys_iff hm_contains_def split: option.splits)
  show "\<exists>c. tbl_autokey (attach_autokey persisted t) = Some c"
    by (simp add: attach_autokey_def Let_def split: option.splits)
qed

lemma attach_same [simp]: "tbl_records (attach_autokey p t) = tbl_records t"
  by (simp add: attach_autokey_def Let_def split: option.splits)

lemma insert_record_simps [simp]:
  "tbl_records (insert_record k r t) = hm_insert k r (tbl_records t)" "tbl_autokey (insert_record k r t) = tbl_autokey t"
  "tbl_dictionary (insert_record k r t) = tbl_dictionary t"
  by (simp_all add: insert_record_def mark_dirty_def)

lemma raise_past_covers:
  assumes "counter_covers t"
  shows "counter_covers (insert_record k r (t\<lparr>tbl_autokey := map_option (raise_past k) (tbl_autokey t)\<rparr>))"
  unfolding counter_covers_def
proof (intro allI impI conjI)
  fix c assume c: "tbl_autokey (insert_record k r (t\<lparr>tbl_autokey := map_option (raise_past k) (tbl_autokey t)\<rparr>)) = Some c"
  then obtain c0 where c0: "tbl_autokey t = Some c0" "c = raise_past k c0" by auto
  with assms show "seq_ok c" by (simp add: counter_covers_def)
  fix k' n assume k': "hm_contains (tbl_records (insert_record k r (t\<lparr>tbl_autokey := map_option (raise_past k) (tbl_autokey t)\<rparr>))) k'"
    "key_sequence k' = Some n" "n < u64_max"
  show "n < seq_next c"
  proof (cases "k' = k")
    case True
    with k' c0 show ?thesis by (simp add: raise_past_above)
  next
    case False
    with k' c0 assms have "n < seq_next c0" by (simp add: counter_covers_def)
    with raise_past_mono [of c0 k] c0 show ?thesis by simp
  qed
qed

text \<open>A minted key is no key of the file, below the largest number.\<close>

lemma mint_fresh:
  assumes "counter_covers t" "tbl_autokey t = Some c" "mint now c = (n, c')" "n < u64_max"
  shows "\<not> hm_contains (tbl_records t) (format_key n)" "counter_covers (insert_record (format_key n) r (t\<lparr>tbl_autokey := Some c'\<rparr>))"
proof -
  have ok: "seq_ok c" and cov: "\<And>k m. hm_contains (tbl_records t) k \<Longrightarrow> key_sequence k = Some m \<Longrightarrow> m < u64_max \<Longrightarrow> m < seq_next c"
    using assms(1,2) by (auto simp: counter_covers_def)
  note spec = mint_spec [OF ok assms(3)]
  show "\<not> hm_contains (tbl_records t) (format_key n)"
    using cov [of "format_key n" n] spec(1) assms(4) by auto
  have "m < seq_next c'" if "hm_contains (tbl_records t) k" "key_sequence k = Some m" "m < u64_max" for k m
    using cov [OF that] spec(4) by simp
  then show "counter_covers (insert_record (format_key n) r (t\<lparr>tbl_autokey := Some c'\<rparr>))"
    using spec(3) spec(5) assms(4) by (auto simp: counter_covers_def)
qed

section \<open>Properties\<close>

text \<open>
  C20. A conditional write is decided on what is stored at that moment. When its condition holds it is
  stored, with the version the answer names, and no other record changes; when it does not, the refusal
  is a failed precondition and neither the records nor the dictionary nor an index changes.
\<close>

theorem conditional_write:
  "case write_record_in digest autokey autokey_file now name (Some key) r False c t of
     (Inr w, t') \<Rightarrow> condition_holds digest c (hm_get (tbl_records t) key) \<and> written_key w = key \<and>
        written_version w = version digest r \<and> \<not> minted w \<and> hm_get (tbl_records t') = (hm_get (tbl_records t))(key \<mapsto> r)
   | (Inl e, t') \<Rightarrow> \<not> condition_holds digest c (hm_get (tbl_records t) key) \<and> (\<exists>d. e = PreconditionFailed d) \<and>
        tbl_records t' = tbl_records t \<and> tbl_dictionary t' = tbl_dictionary t \<and> tbl_indexes t' = tbl_indexes t"
proof (cases "condition_check digest c (hm_get (tbl_records t) key) name key")
  case (Inl e)
  then show ?thesis using condition_check_iff(2,3) by (fastforce simp: named_write)
next
  case (Inr u)
  then show ?thesis using condition_check_iff(1) by (fastforce simp: named_write hm.get_insert)
qed

text \<open>
  C21. No lost update and no lost creation. After one writer's write succeeded on a condition, a second
  write of the same key on the same condition is refused: the key is taken, or its version has moved
  on, unless the first write stored a record of the very version it replaced.
\<close>

theorem second_writer_refused:
  assumes "write_record_in digest autokey autokey_file now name (Some key) r False c t = (Ok w, t')"
    and "c = IfAbsent \<or> c = IfMatch v \<and> version digest r \<noteq> v"
  shows "\<exists>d t''. write_record_in digest autokey' autokey_file' now' name (Some key) r' False c t' = (Err (PreconditionFailed d), t'') \<and>
    tbl_records t'' = tbl_records t'"
proof -
  have stored: "hm_get (tbl_records t') key = Some r"
    using assms(1) by (auto simp: named_write Let_def split: sum.splits)
  with assms(2) have "\<not> condition_holds digest c (hm_get (tbl_records t') key)" by (auto simp: condition_holds_def)
  then obtain e where e: "condition_check digest c (hm_get (tbl_records t') key) name key = Err e" using condition_check_iff(2) by metis
  with condition_check_iff(3) obtain d where "e = PreconditionFailed d" by blast
  with e show ?thesis by (simp add: named_write Let_def)
qed

theorem second_writer_refused_witness:
  "\<exists>w t'. write_record_in (\<lambda>b. b) False None 0 ''F'' (Some ''k'') sample_record False IfAbsent Table_new = (Ok w, t') \<and>
    (\<exists>d t''. write_record_in (\<lambda>b. b) False None 0 ''F'' (Some ''k'') Record_new False IfAbsent t' = (Err (PreconditionFailed d), t'') \<and>
      tbl_records t'' = tbl_records t')"
proof -
  obtain w t' where w: "write_record_in (\<lambda>b. b) False None 0 ''F'' (Some ''k'') sample_record False IfAbsent Table_new = (Ok w, t')"
    by (simp add: named_write condition_check_def Table_new_def Let_def)
  from second_writer_refused [OF w disjI1 [OF refl]] w show ?thesis by blast
qed



end
