(* ===== verification/Table_Store_Props.thy ===== *)
theory Table_Store_Props
  imports Table_Store
begin

text \<open>
  What a flush leaves for the next load (\<open>Table_Store\<close>): the sections of a file one by one, then the
  whole file, and the states a crash in between leaves behind.
\<close>

section \<open>Flat sections\<close>

definition entries_ok :: "(str, Record) hashmap \<Rightarrow> bool" where
  "entries_ok m \<longleftrightarrow> hm_wf m \<and> (\<forall>k r. hm_get m k = Some r \<longrightarrow> entry_ok (k, r))"

text \<open>The frames of a flat section, which are what a load inserts.\<close>

definition flat_frames :: "(str, Record) hashmap \<Rightarrow> (str \<times> Record) list" where
  "flat_frames m = map (\<lambda>key. (key, the (hm_get m key))) (sort (hm_keys m))"

lemma flat_frames:
  assumes "entries_ok m"
  shows "flat_content m = concat (map frame (flat_frames m))" "\<forall>kr \<in> set (flat_frames m). entry_ok kr"
    "hm_get (hm.insert_all (flat_frames m) []) = hm_get m"
proof -
  have keys: "k \<in> set (hm_keys m) \<longleftrightarrow> hm_get m k \<noteq> None" for k by (auto simp: hm.keys_get)
  show "flat_content m = concat (map frame (flat_frames m))" by (simp add: flat_content_def flat_frames_def comp_def)
  show "\<forall>kr \<in> set (flat_frames m). entry_ok kr"
    using assms keys by (auto simp: flat_frames_def entries_ok_def)
  have fst: "map fst (flat_frames m) = sort (hm_keys m)" by (simp add: flat_frames_def comp_def)
  then have d: "distinct (map fst (flat_frames m))" using assms by (simp add: entries_ok_def hm.keys_distinct)
  have "map_of (flat_frames m) k = hm_get m k" for k
  proof (cases "hm_get m k")
    case None
    then have "k \<notin> fst ` set (flat_frames m)" using keys [of k] fst by (metis list.set_map set_sort)
    then show ?thesis using None by (simp add: map_of_eq_None_iff)
  next
    case (Some r)
    then have "(k, r) \<in> set (flat_frames m)" using keys [of k] by (auto simp: flat_frames_def intro!: image_eqI [of _ _ k])
    then show ?thesis using Some d by simp
  qed
  then show "hm_get (hm.insert_all (flat_frames m) []) = hm_get m"
    using hm.get_insert_all [OF d, of "[]"] by (auto simp: fun_eq_iff map_add_def hm.get_empty split: option.split)
qed

lemma load_section_flat:
  assumes "entries_ok m"
  shows "\<exists>mp. load_section [] (Some (flat_content m)) path = Ok mp \<and> hm_wf mp \<and> hm_get mp = hm_get m"
  using flat_frames [OF assms] read_loop_frames [of "flat_frames m" path] hm.wf_insert_all [OF hm.wf_empty]
  by (simp add: load_section_def)

section \<open>The record section\<close>

lemma sweep_tmp_get [simp]:
  "hm_get (sweep_tmp d) (group_path g) = hm_get d (group_path g)" "hm_get (sweep_tmp d) meta_path = hm_get d meta_path"
proof -
  have "\<not> suffix ''.tmp'' (group_path g)" using group_path_no_dot [of g] by (auto simp: suffix_def)
  then show "hm_get (sweep_tmp d) (group_path g) = hm_get d (group_path g)" by (simp add: sweep_tmp_def)
  have "\<not> suffix ''.tmp'' meta_path" by (auto simp: meta_path_def suffix_def Cons_eq_append_conv)
  then show "hm_get (sweep_tmp d) meta_path = hm_get d meta_path" by (simp add: sweep_tmp_def)
qed

lemma represents_sweep [simp]: "represents (sweep_tmp d) meta m = represents d meta m"
  by (simp add: represents_def section_holds_def read_meta_checked_def)

lemma flush_ready_sweep [simp]: "flush_ready (sweep_tmp d) = flush_ready d"
  by (intro ext) (simp add: flush_ready_def split: option.split)

lemma is_hashfile_sweep [simp]: "is_hashfile (sweep_tmp d) = is_hashfile d"
  by (simp add: is_hashfile_def hm_contains_def)

lemma represents_is_hashfile: "represents d meta m \<Longrightarrow> is_hashfile d"
  by (auto simp: represents_def read_meta_checked_def is_hashfile_def hm_contains_def split: option.splits)

text \<open>The records of \<open>t\<close> are on disk, hashed or still flat, under its meta data.\<close>

definition records_stored :: "FileStore \<Rightarrow> Table \<Rightarrow> bool" where
  "records_stored fs t \<longleftrightarrow> meta_version (data_meta t) \<le> u64_max \<and>
     (if legacy_data t
      then \<not> is_hashfile (fs_data fs) \<and> fs_flat fs \<noteq> None \<and> data_meta t = SectionMeta_empty \<and>
        (\<exists>mp. load_section [] (fs_flat fs) ''data'' = Ok mp \<and> hm_wf mp \<and> hm_get mp = hm_get (tbl_records t))
      else represents (fs_data fs) (data_meta t) (hm_get (tbl_records t)))"

lemma records_stored_cong:
  assumes "records_stored fs t" and "fs_data fs' = fs_data fs" "fs_flat fs' = fs_flat fs" "data_meta t' = data_meta t"
    "legacy_data t' = legacy_data t" "tbl_records t' = tbl_records t"
  shows "records_stored fs' t'"
  using assms(1) unfolding records_stored_def assms(2-) .

definition records_ready :: "nat \<Rightarrow> FileStore \<Rightarrow> Table \<Rightarrow> bool" where
  "records_ready per_group fs t \<longleftrightarrow>
     (if records_dirty t
      then flush_ready (fs_data fs) (data_meta t) (source_of_map (tbl_records t))
        (if dirty_all t \<or> legacy_data t then None else Some (dirty_keys t)) per_group
      else records_stored fs t)"

lemma flush_records_ok:
  assumes "records_ready per_group fs t"
  shows "\<exists>fs' t'. flush_records per_group fs t = Some (fs', t', Ok ()) \<and> records_stored fs' t' \<and>
    fs_dict fs' = fs_dict fs \<and> fs_indexes fs' = fs_indexes fs \<and> fs_state fs' = fs_state fs \<and>
    (\<exists>m l. t' = t\<lparr>data_meta := m, legacy_data := l\<rparr>)"
proof (cases "records_dirty t")
  case False
  then show ?thesis
    using assms by (intro exI [of _ fs] exI [of _ t]) (auto simp: flush_records_def records_ready_def intro!: exI [of _ "data_meta t"] exI [of _ "legacy_data t"])
next
  case True
  then have ready: "flush_ready (fs_data fs) (data_meta t) (source_of_map (tbl_records t))
      (if dirty_all t \<or> legacy_data t then None else Some (dirty_keys t)) per_group"
    using assms by (simp add: records_ready_def)
  obtain d meta where s: "save_with_fsync (fs_data fs) (source_of_map (tbl_records t)) (data_meta t)
      (if dirty_all t \<or> legacy_data t then None else Some (dirty_keys t)) per_group = Some (d, Ok meta)"
    "represents d meta (source_record (source_of_map (tbl_records t)))" "meta_version meta = meta_version (data_meta t) + 1"
    using save_represents [OF ready] by blast
  have v: "meta_version meta \<le> u64_max" using s(3) ready by (simp add: flush_ready_def)
  let ?t = "t\<lparr>data_meta := meta, legacy_data := False\<rparr>"
  show ?thesis
  proof (cases "legacy_data t")
    case True
    with \<open>records_dirty t\<close> s v show ?thesis
      by (intro exI [of _ "fs\<lparr>fs_data := d, fs_flat := None\<rparr>"] exI [of _ ?t])
        (auto simp: flush_records_def records_stored_def source_of_map_def Let_def)
  next
    case False
    then have "t\<lparr>data_meta := meta\<rparr> = ?t" by simp
    with False \<open>records_dirty t\<close> s v show ?thesis
      by (intro exI [of _ "fs\<lparr>fs_data := d\<rparr>"] exI [of _ ?t])
        (auto simp: flush_records_def records_stored_def source_of_map_def Let_def)
  qed
qed

section \<open>The dictionary\<close>

definition dict_stored :: "FileStore \<Rightarrow> Table \<Rightarrow> bool" where
  "dict_stored fs t \<longleftrightarrow>
     (\<exists>mp. load_section [] (fs_dict fs) ''dict'' = Ok mp \<and> hm_wf mp \<and> hm_get mp = hm_get (tbl_dictionary t))"

definition dict_ready :: "FileStore \<Rightarrow> Table \<Rightarrow> bool" where
  "dict_ready fs t \<longleftrightarrow> (if dict_dirty t then entries_ok (tbl_dictionary t) else dict_stored fs t)"

lemma flush_dict_ok: "dict_ready fs t \<Longrightarrow> dict_stored (flush_dict fs t) t"
  using load_section_flat [of "tbl_dictionary t" "''dict''"] by (auto simp: dict_ready_def dict_stored_def flush_dict_def)

section \<open>The indexes\<close>

text \<open>An index section on disk, trusted for one data version.\<close>

definition index_stored :: "FileStore \<Rightarrow> nat \<Rightarrow> str \<Rightarrow> FileIndex \<Rightarrow> bool" where
  "index_stored fs data_version f idx \<longleftrightarrow>
     (\<exists>meta. represents (index_dir fs f) meta (source_record (source_of_index idx))) \<and>
     index_read_state (index_dir fs f) = Some (index_state_of data_version idx)"

lemma index_dir_insert [simp]:
  "index_dir (fs\<lparr>fs_indexes := hm_insert f d (fs_indexes fs)\<rparr>) g = (if g = f then d else index_dir fs g)"
  by (simp add: index_dir_def)

definition indexes_flushed :: "nat \<Rightarrow> str list \<Rightarrow> FileStore \<Rightarrow> Table \<Rightarrow> FileStore \<Rightarrow> Table \<Rightarrow> bool" where
  "indexes_flushed data_version names fs t fs' t' \<longleftrightarrow>
    (\<forall>f idx. f \<in> set names \<longrightarrow> hm_get (tbl_indexes t) f = Some idx \<longrightarrow> index_stored fs' data_version f idx) \<and>
    (\<forall>f. f \<notin> set names \<longrightarrow> index_dir fs' f = index_dir fs f) \<and>
    (\<exists>ds. fs' = fs\<lparr>fs_indexes := ds\<rparr> \<and> set (hm_keys ds) = set (hm_keys (fs_indexes fs)) \<union> (set names \<inter> set (hm_keys (tbl_indexes t)))) \<and>
    (\<exists>ixs. t' = t\<lparr>tbl_indexes := ixs\<rparr>)"

lemma flush_indexes_ok:
  assumes "distinct names"
    and "\<And>f idx. f \<in> set names \<Longrightarrow> hm_get (tbl_indexes t) f = Some idx \<Longrightarrow>
      index_ready (index_dir fs f) idx per_group \<and> index_state_ok (index_state_of data_version idx)"
  shows "\<exists>fs' t'. flush_indexes per_group data_version names fs t = Some (fs', t', Ok ()) \<and>
    indexes_flushed data_version names fs t fs' t'"
  using assms
proof (induction names arbitrary: fs t)
  case Nil
  show ?case by (auto simp: indexes_flushed_def intro!: exI [of _ "fs_indexes fs"] exI [of _ "tbl_indexes t"])
next
  case (Cons f names)
  show ?case
  proof (cases "hm_get (tbl_indexes t) f")
    case None
    then have "f \<notin> set (hm_keys (tbl_indexes t))" by (simp add: hm.get_eq_None)
    moreover obtain fs' t' where "flush_indexes per_group data_version names fs t = Some (fs', t', Ok ())"
      "indexes_flushed data_version names fs t fs' t'"
      using Cons.IH [of t fs] Cons.prems by (meson distinct.simps(2) list.set_intros(2))
    ultimately show ?thesis using None by (intro exI [of _ fs'] exI [of _ t']) (auto simp: indexes_flushed_def)
  next
    case (Some idx)
    with Cons.prems(2) [of f idx] obtain d idx' where s: "index_save (index_dir fs f) data_version per_group idx = Some (d, Ok idx')"
      and st: "represents d (fi_meta idx') (source_record (source_of_index idx))"
        "index_read_state d = Some (index_state_of data_version idx)"
      using index_save_ok by (metis list.set_intros(1))
    let ?fs = "fs\<lparr>fs_indexes := hm_insert f d (fs_indexes fs)\<rparr>" and ?t = "t\<lparr>tbl_indexes := hm_insert f idx' (tbl_indexes t)\<rparr>"
    have notin: "distinct names" "f \<notin> set names" using Cons.prems(1) by simp_all
    have "index_ready (index_dir ?fs g) i per_group \<and> index_state_ok (index_state_of data_version i)"
      if "g \<in> set names" "hm_get (tbl_indexes ?t) g = Some i" for g i
    proof -
      have "g \<noteq> f" using that(1) notin(2) by auto
      with that Cons.prems(2) [of g i] show ?thesis by simp
    qed
    from Cons.IH [OF notin(1) this] obtain fs' t' where
      run: "flush_indexes per_group data_version names ?fs ?t = Some (fs', t', Ok ())"
      and "indexes_flushed data_version names ?fs ?t fs' t'" by blast
    note IH = run this(2) [unfolded indexes_flushed_def, THEN conjunct1]
      this(2) [unfolded indexes_flushed_def, THEN conjunct2, THEN conjunct1]
      this(2) [unfolded indexes_flushed_def, THEN conjunct2, THEN conjunct2, THEN conjunct1]
      this(2) [unfolded indexes_flushed_def, THEN conjunct2, THEN conjunct2, THEN conjunct2]
    have stored: "index_stored fs' data_version g i" if "g \<in> set (f # names)" "hm_get (tbl_indexes t) g = Some i" for g i
    proof (cases "g = f")
      case True
      have "index_dir fs' f = d" using IH(3) notin(2) by simp
      moreover have "i = idx" using that(2) True Some by simp
      ultimately show ?thesis unfolding index_stored_def using st True by blast
    next
      case False
      with IH(2) that show ?thesis by simp
    qed
    have keys: "set (hm_keys (hm_insert f x m)) = Set.insert f (set (hm_keys m))" for x :: "'z" and m
      by (auto simp: hm.keys_get)
    have fin: "f \<in> set (hm_keys (tbl_indexes t))" using Some by (auto simp: hm.keys_get)
    obtain ds0 where ds0: "fs' = ?fs\<lparr>fs_indexes := ds0\<rparr>"
      "set (hm_keys ds0) = set (hm_keys (fs_indexes ?fs)) \<union> (set names \<inter> set (hm_keys (tbl_indexes ?t)))" using IH(4) by blast
    have "set (hm_keys ds0) = set (hm_keys (fs_indexes fs)) \<union> (set (f # names) \<inter> set (hm_keys (tbl_indexes t)))"
      unfolding ds0(2) using fin by (auto simp: keys)
    then have ds: "\<exists>ds. fs' = fs\<lparr>fs_indexes := ds\<rparr> \<and>
        set (hm_keys ds) = set (hm_keys (fs_indexes fs)) \<union> (set (f # names) \<inter> set (hm_keys (tbl_indexes t)))"
      using ds0(1) by (intro exI [of _ ds0]) simp
    have other: "index_dir fs' g = index_dir fs g" if "g \<notin> set (f # names)" for g
      using IH(3) that by simp
    obtain ixs where "t' = ?t\<lparr>tbl_indexes := ixs\<rparr>" using IH(5) by blast
    then have t': "\<exists>ixs. t' = t\<lparr>tbl_indexes := ixs\<rparr>" by (intro exI [of _ ixs]) simp
    have "flush_indexes per_group data_version (f # names) fs t = Some (fs', t', Ok ())"
      using IH(1) s Some by simp
    moreover have "indexes_flushed data_version (f # names) fs t fs' t'"
      unfolding indexes_flushed_def using stored other ds t' by blast
    ultimately show ?thesis by blast
  qed
qed

section \<open>Loading what was flushed\<close>

lemma load_records_stored:
  assumes "records_stored fs t"
  shows "\<exists>l. load_records fs (Table_new\<lparr>tbl_stamp := st\<rparr>) = Ok l \<and> hm_wf (tbl_records l) \<and>
    hm_get (tbl_records l) = hm_get (tbl_records t) \<and>
    (if legacy_data l then 0 else meta_version (data_meta l)) = meta_version (data_meta t) \<and>
    tbl_dictionary l = [] \<and> tbl_indexes l = []"
proof (cases "legacy_data t")
  case True
  then show ?thesis using assms
    by (auto simp: records_stored_def load_records_def Table_new_def SectionMeta_empty_def split: if_splits)
next
  case False
  then have rep: "represents (fs_data fs) (data_meta t) (hm_get (tbl_records t))"
    using assms by (simp add: records_stored_def)
  from load_represents [OF this] obtain mp where
    "load (fs_data fs) [] = Ok (mp, data_meta t)" "hm_wf mp" "hm_get mp = hm_get (tbl_records t)" by blast
  then show ?thesis
    using represents_is_hashfile [OF rep] by (simp add: load_records_def Table_new_def)
qed

lemma ascii_field_name: "is_valid_field_name f \<Longrightarrow> is_ascii f"
proof -
  have "(of_char c :: nat) < 128" if "is_name_char c" for c
    using that by (auto simp: is_name_char_def is_ascii_alphanumeric_def Let_def)
  then show "is_valid_field_name f \<Longrightarrow> is_ascii f"
    by (auto simp: is_valid_field_name_def is_ascii_def list_all_iff)
qed

lemma indexed_fields_store:
  assumes "\<forall>f \<in> set (hm_keys (fs_indexes fs)). is_valid_field_name f"
  shows "set (indexed_fields (dir_entries fs)) = set (hm_keys (fs_indexes fs))"
proof -
  have "indexed_field (SECTION_PREFIX @ f @ SECTION_SUFFIX, True) = Some f" if "is_valid_field_name f" for f
  proof -
    have "is_ascii (SECTION_PREFIX @ f @ SECTION_SUFFIX)"
      using ascii_field_name [OF that] by (simp add: SECTION_PREFIX_def SECTION_SUFFIX_def)
    then show ?thesis using that by (simp add: indexed_field_def utf8_valid_ascii strip_suffix_def suffix_def)
  qed
  then show ?thesis using assms
    by (force simp: indexed_fields_def dir_entries_def hm_keys_def map_filter_def image_iff)
qed

lemma get_fold_insert:
  "hm_get (fold (\<lambda>f m. hm_insert f (g f) m) fs m) k = (if k \<in> set fs then Some (g k) else hm_get m k)"
  by (induction fs arbitrary: m) simp_all

lemma wf_fold_insert: "hm_wf m \<Longrightarrow> hm_wf (fold (\<lambda>f m. hm_insert f (g f) m) fs m)"
  by (induction fs arbitrary: m) (simp_all add: hm.wf_insert)

lemma index_describes_cong:
  assumes "index_describes m idx" and "hm_wf (postings i)" and "hm_get (postings i) = hm_get (postings idx)"
    and "fi_attr i = fi_attr idx" and "fi_excluded i = fi_excluded idx"
  shows "index_describes m i"
  using assms by (simp add: index_describes_def postings_ok_def posted_def retained_def)

lemma load_index_stored:
  assumes st: "index_stored fs dv f idx" and ok: "postings_ok (postings idx)" "\<forall>v. \<forall>k \<in> posted (postings idx) v. utf8_valid k"
    and fld: "fi_field idx = f" "field_index t f = Some attr"
  shows "fi_field (load_index t dv fs f) = f \<and> fi_attr (load_index t dv fs f) = attr \<and>
    hm_wf (postings (load_index t dv fs f)) \<and> hm_get (postings (load_index t dv fs f)) = hm_get (postings idx) \<and>
    fi_excluded (load_index t dv fs f) = fi_excluded idx \<and>
    needs_rebuild (load_index t dv fs f) = (attr \<noteq> fi_attr idx)"
proof -
  obtain meta where rep: "represents (index_dir fs f) meta (source_record (source_of_index idx))"
    and state: "index_read_state (index_dir fs f) = Some (index_state_of dv idx)" using st by (auto simp: index_stored_def)
  obtain mp where mp: "load (index_dir fs f) [] = Ok (mp, meta)" "hm_wf mp" "hm_get mp = source_record (source_of_index idx)"
    using load_represents [OF rep] by blast
  let ?l = "FileIndex_loaded f attr mp meta (index_read_state (index_dir fs f)) dv"
  have l: "load_index t dv fs f = ?l" using mp(1) fld(2) by (simp add: load_index_def)
  have "hm_get (postings ?l) = hm_get (postings idx)" by (rule loaded_postings [OF ok mp(3)])
  moreover have "hm_wf (postings ?l)"
    using mp(2) hm_wf_map_keyed [of "\<lambda>_. posting_keys" mp] by (simp add: FileIndex_loaded_def Let_def)
  ultimately show ?thesis
    unfolding l using fld(1) by (auto simp: FileIndex_loaded_def Let_def state index_state_of_def)
qed

section \<open>A whole file\<close>

definition indexes_ready :: "nat \<Rightarrow> FileStore \<Rightarrow> Table \<Rightarrow> bool" where
  "indexes_ready per_group fs t \<longleftrightarrow> set (hm_keys (fs_indexes fs)) \<subseteq> set (hm_keys (tbl_indexes t)) \<and>
     (\<forall>f idx. hm_get (tbl_indexes (rebuild_stale_indexes t)) f = Some idx \<longrightarrow>
        is_valid_field_name f \<and> index_ready (index_dir fs f) idx per_group \<and> index_state_ok (index_state_of 0 idx))"

definition table_ready :: "nat \<Rightarrow> FileStore \<Rightarrow> Table \<Rightarrow> bool" where
  "table_ready per_group fs t \<longleftrightarrow> table_ok t \<and> records_ready per_group fs t \<and> dict_ready fs t \<and> indexes_ready per_group fs t"

text \<open>The file holds \<open>t\<close>: every section is on disk, the indexes for the data version of the records.\<close>

definition table_stored :: "FileStore \<Rightarrow> Table \<Rightarrow> bool" where
  "table_stored fs t \<longleftrightarrow> table_ok t \<and> records_stored fs t \<and> dict_stored fs t \<and>
     set (hm_keys (fs_indexes fs)) = set (hm_keys (tbl_indexes t)) \<and>
     (\<forall>f idx. hm_get (tbl_indexes t) f = Some idx \<longrightarrow> is_valid_field_name f \<and> (needs_rebuild idx \<longrightarrow> field_index t f = None) \<and>
        (\<forall>v. \<forall>k \<in> posted (postings idx) v. utf8_valid k) \<and> index_stored fs (meta_version (data_meta t)) f idx)"

lemma flush_locked_stored:
  assumes ready: "table_ready per_group fs t" and dirty: "table_is_dirty t"
  shows "\<exists>fs' t' t1. flush_locked per_group stamp_after fs t = Some (fs', t', Ok ()) \<and> table_stored fs' t1 \<and>
    tbl_records t' = tbl_records t \<and> tbl_dictionary t' = tbl_dictionary t \<and>
    (\<exists>m l s. t1 = (rebuild_stale_indexes t)\<lparr>data_meta := m, legacy_data := l, tmp_swept := s\<rparr>)"
proof -
  let ?r = "rebuild_stale_indexes t"
  define fs0 where "fs0 = (if tmp_swept ?r then fs else fs\<lparr>fs_data := sweep_tmp (fs_data fs)\<rparr>)"
  define t0 where "t0 = ?r\<lparr>tmp_swept := True\<rparr>"
  have start: "(if tmp_swept ?r then (fs, ?r) else (fs\<lparr>fs_data := sweep_tmp (fs_data fs)\<rparr>, ?r\<lparr>tmp_swept := True\<rparr>)) = (fs0, t0)"
    by (simp add: fs0_def t0_def)
  have "records_ready per_group fs0 t0"
    using ready by (auto simp: table_ready_def records_ready_def records_stored_def records_dirty_def fs0_def t0_def)
  from flush_records_ok [OF this] obtain fs1 m l where
    rec: "flush_records per_group fs0 t0 = Some (fs1, t0\<lparr>data_meta := m, legacy_data := l\<rparr>, Ok ())"
      "records_stored fs1 (t0\<lparr>data_meta := m, legacy_data := l\<rparr>)"
      "fs_dict fs1 = fs_dict fs0" "fs_indexes fs1 = fs_indexes fs0" by blast
  define t1 where "t1 = t0\<lparr>data_meta := m, legacy_data := l\<rparr>"
  define fs2 where "fs2 = flush_dict fs1 t1"
  have same: "tbl_indexes t1 = tbl_indexes ?r" "tbl_dictionary t1 = tbl_dictionary t" "tbl_records t1 = tbl_records t"
    "dict_dirty t1 = dict_dirty t" "data_meta t1 = m" by (simp_all add: t1_def t0_def)
  have ok: "table_ok t1"
    using rebuild_stale_indexes_ok [of t] ready by (simp add: table_ready_def table_ok_def same)
  have "dict_ready fs1 t1"
    using ready rec(3) by (simp add: table_ready_def dict_ready_def dict_stored_def same fs0_def split: if_splits)
  then have dict: "dict_stored fs2 t1" unfolding fs2_def by (rule flush_dict_ok)
  have idx2: "index_dir fs2 f = index_dir fs f" "fs_indexes fs2 = fs_indexes fs" for f
    using rec(4) by (simp_all add: fs2_def flush_dict_def index_dir_def fs0_def)
  have rec2: "records_stored fs2 t1" by (rule records_stored_cong [OF rec(2)]) (simp_all add: fs2_def flush_dict_def t1_def)
  have idxs: "is_valid_field_name f \<and> index_ready (index_dir fs2 f) i per_group \<and> index_state_ok (index_state_of (meta_version m) i)"
    if "hm_get (tbl_indexes t1) f = Some i" for f i
    using ready that rec2 unfolding same idx2 by (auto simp: table_ready_def indexes_ready_def index_state_ok_def index_state_of_def records_stored_def same)
  have "distinct (hm_keys (tbl_indexes t1))" using ok by (simp add: table_ok_def hm.keys_distinct)
  from flush_indexes_ok [OF this, where fs = fs2 and per_group = per_group and data_version = "meta_version m" and t = t1] idxs obtain fs3 t3 where
    fl: "flush_indexes per_group (meta_version m) (hm_keys (tbl_indexes t1)) fs2 t1 = Some (fs3, t3, Ok ())"
      "indexes_flushed (meta_version m) (hm_keys (tbl_indexes t1)) fs2 t1 fs3 t3" by blast
  obtain ds ixs where ds: "fs3 = fs2\<lparr>fs_indexes := ds\<rparr>" "set (hm_keys ds) = set (hm_keys (fs_indexes fs)) \<union> set (hm_keys (tbl_indexes t1))"
    and t3: "t3 = t1\<lparr>tbl_indexes := ixs\<rparr>" using fl(2) unfolding indexes_flushed_def idx2(2) by auto
  have keys: "set (hm_keys (tbl_indexes t1)) = set (hm_keys (tbl_indexes t))"
    by (auto simp: same hm.keys_get rebuild_stale_indexes_get)
  have "index_stored fs3 (meta_version m) f i" if "hm_get (tbl_indexes t1) f = Some i" for f i
  proof -
    have "f \<in> set (hm_keys (tbl_indexes t1))" using that by (auto simp: hm.keys_get)
    with that fl(2) show ?thesis by (auto simp: indexes_flushed_def)
  qed
  moreover have "set (hm_keys ds) = set (hm_keys (tbl_indexes t1))"
    using ds(2) ready keys by (auto simp: table_ready_def indexes_ready_def)
  moreover have "field_index t1 f = None" if "hm_get (tbl_indexes t1) f = Some i" "needs_rebuild i" for f i
  proof -
    have "hm_get (tbl_indexes (rebuild_stale_indexes t)) f = Some i" using that(1) by (simp add: same)
    then obtain i0 where "i = refresh_index t f i0" unfolding rebuild_stale_indexes_get by (cases "hm_get (tbl_indexes t) f") auto
    moreover have "field_index t1 f = field_index t f" by (simp add: field_index_def same)
    ultimately show ?thesis using that(2) by (auto simp: refresh_index_def split: if_splits option.splits)
  qed
  moreover have "records_stored fs3 t1" by (rule records_stored_cong [OF rec2]) (simp_all add: ds(1))
  moreover have "dict_stored fs3 t1" using dict by (simp add: ds(1) dict_stored_def)
  ultimately have st3: "table_stored fs3 t1"
    using ok idxs by (auto simp: table_stored_def ds(1) same index_ready_def)
  obtain fs4 t4 where q: "flush_queue fs3 t3 = (fs4, t4)" by (cases "flush_queue fs3 t3")
  obtain fs5 t5 where a: "flush_autokey fs4 t4 = (fs5, t5)" by (cases "flush_autokey fs4 t4")
  have q': "fs_data fs4 = fs_data fs3 \<and> fs_flat fs4 = fs_flat fs3 \<and> fs_dict fs4 = fs_dict fs3 \<and> fs_indexes fs4 = fs_indexes fs3 \<and>
      tbl_records t4 = tbl_records t3 \<and> tbl_dictionary t4 = tbl_dictionary t3"
    using q by (auto simp: flush_queue_def persist_queue_def split: option.splits if_splits)
  have a': "fs_data fs5 = fs_data fs4 \<and> fs_flat fs5 = fs_flat fs4 \<and> fs_dict fs5 = fs_dict fs4 \<and> fs_indexes fs5 = fs_indexes fs4 \<and>
      tbl_records t5 = tbl_records t4 \<and> tbl_dictionary t5 = tbl_dictionary t4"
    using a by (auto simp: flush_autokey_def persist_autokey_def split: option.splits if_splits)
  have "records_stored fs5 t1" using st3 q' a' by (intro records_stored_cong [of fs3 t1 fs5]) (simp_all add: table_stored_def)
  then have "table_stored fs5 t1"
    using st3 q' a' by (simp add: table_stored_def dict_stored_def index_stored_def index_dir_def)
  moreover have "flush_locked per_group stamp_after fs t = Some (fs5, (clear_dirty t5)\<lparr>tbl_stamp := Some (stamp_after fs5 (clear_dirty t5))\<rparr>, Ok ())"
    using dirty fl(1) q a rec(1)
    by (simp add: flush_locked_def Let_def start flush_tail_def t1_def [symmetric] fs2_def [symmetric] same)
  moreover have "t1 = ?r\<lparr>data_meta := m, legacy_data := l, tmp_swept := True\<rparr>" by (simp add: t1_def t0_def)
  moreover have "tbl_records t5 = tbl_records t" "tbl_dictionary t5 = tbl_dictionary t" using q' a' t3 by (simp_all add: same)
  ultimately show ?thesis by (auto simp: clear_dirty_def)
qed

text \<open>An index of a stored table comes back exact, or stale where its field is gone.\<close>

lemma load_index_ok:
  assumes st: "table_stored fs t" and idx: "hm_get (tbl_indexes t) f = Some idx" and fld: "\<And>g. field_index l g = field_index t g"
  shows "index_ok (hm_get (tbl_records t)) f (load_index l (meta_version (data_meta t)) fs f)"
    and "field_index t f = None \<Longrightarrow> needs_rebuild (load_index l (meta_version (data_meta t)) fs f)"
    and "field_index t f \<noteq> None \<Longrightarrow> fi_excluded (load_index l (meta_version (data_meta t)) fs f) = fi_excluded idx"
proof -
  let ?i = "load_index l (meta_version (data_meta t)) fs f"
  have ok: "index_ok (hm_get (tbl_records t)) f idx" and s: "index_stored fs (meta_version (data_meta t)) f idx"
    and u: "\<forall>v. \<forall>k \<in> posted (postings idx) v. utf8_valid k"
    using st idx by (auto simp: table_stored_def table_ok_def)
  have p: "postings_ok (postings idx)" "fi_field idx = f" using ok by (auto simp: index_ok_def)
  show "field_index t f = None \<Longrightarrow> needs_rebuild ?i"
    by (simp add: load_index_def fld FileIndex_new_def with_exclusions_def split: sum.split)
  show "field_index t f \<noteq> None \<Longrightarrow> fi_excluded ?i = fi_excluded idx"
    using load_index_stored [OF s p(1) u p(2)] fld by fastforce
  show "index_ok (hm_get (tbl_records t)) f ?i"
  proof (cases "field_index t f")
    case None
    then show ?thesis
      by (simp add: load_index_def fld FileIndex_new_def with_exclusions_def index_ok_def split: sum.split)
  next
    case (Some attr)
    then have L: "fi_field ?i = f \<and> fi_attr ?i = attr \<and> hm_wf (postings ?i) \<and> hm_get (postings ?i) = hm_get (postings idx) \<and>
        fi_excluded ?i = fi_excluded idx \<and> needs_rebuild ?i = (attr \<noteq> fi_attr idx)"
      by (intro load_index_stored [OF s p(1) u p(2)]) (simp add: fld)
    then have "postings_ok (postings ?i)" using p(1) by (simp add: postings_ok_def)
    moreover have "index_describes (hm_get (tbl_records t)) ?i" if "\<not> needs_rebuild ?i"
    proof (rule index_describes_cong)
      show "index_describes (hm_get (tbl_records t)) idx"
        using ok L that st idx Some by (auto simp: index_ok_def table_stored_def)
    qed (use L that in auto)
    ultimately show ?thesis using L by (simp add: index_ok_def)
  qed
qed

lemma load_table_stored:
  assumes st: "table_stored fs t"
  shows "\<exists>l. load_table disk_stamp fs = Ok l \<and> table_ok l \<and> hm_get (tbl_records l) = hm_get (tbl_records t) \<and>
    hm_get (tbl_dictionary l) = hm_get (tbl_dictionary t) \<and> (\<forall>f. has_index l f = has_index t f) \<and>
    (\<forall>f idx. hm_get (tbl_indexes t) f = Some idx \<longrightarrow> (\<exists>i. hm_get (tbl_indexes l) f = Some i \<and>
       needs_rebuild i = (field_index t f = None) \<and> (field_index t f \<noteq> None \<longrightarrow> fi_excluded i = fi_excluded idx)))"
proof -
  let ?dv = "meta_version (data_meta t)"
  from st have rec: "records_stored fs t" and dict: "dict_stored fs t" and "table_ok t" by (simp_all add: table_stored_def)
  from load_records_stored [OF rec, of "Some (disk_stamp fs)"] obtain r where
    r: "load_records fs (Table_new\<lparr>tbl_stamp := Some (disk_stamp fs)\<rparr>) = Ok r" "hm_wf (tbl_records r)"
      "hm_get (tbl_records r) = hm_get (tbl_records t)" "(if legacy_data r then 0 else meta_version (data_meta r)) = ?dv"
      "tbl_dictionary r = []" "tbl_indexes r = []" by blast
  obtain dm where dm: "load_section [] (fs_dict fs) ''dict'' = Ok dm" "hm_get dm = hm_get (tbl_dictionary t)"
    using dict by (auto simp: dict_stored_def)
  let ?r = "r\<lparr>tbl_dictionary := dm\<rparr>"
  let ?ixs = "fold (\<lambda>f m. hm_insert f (load_index ?r ?dv fs f) m) (indexed_fields (dir_entries fs)) []"
  let ?l = "?r\<lparr>tbl_indexes := ?ixs\<rparr>"
  have run: "load_table disk_stamp fs = Ok (rebuild_stale_indexes ?l)"
  proof -
    have "load_indexes fs ?r = rebuild_stale_indexes ?l" using r(6) by (simp add: load_indexes_def Let_def r(4) del: if_split cong: if_cong)
    with r(1,5) dm(1) show ?thesis by (simp add: load_table_def)
  qed
  have fld: "field_index ?r g = field_index t g" "field_index ?l g = field_index t g" for g using dm(2) by (simp_all add: field_index_def)
  have keys: "set (indexed_fields (dir_entries fs)) = set (hm_keys (tbl_indexes t))"
  proof -
    have "\<forall>f \<in> set (hm_keys (fs_indexes fs)). is_valid_field_name f"
      using st by (auto simp: table_stored_def hm.keys_get)
    then show ?thesis using st by (simp add: indexed_fields_store table_stored_def)
  qed
  have get: "hm_get ?ixs f = (if hm_get (tbl_indexes t) f = None then None else Some (load_index ?r ?dv fs f))" for f
    by (simp add: get_fold_insert keys hm.get_eq_None hm.get_empty)
  have "table_ok ?l"
  proof (rule table_okI)
    show "hm_wf (tbl_records ?l)" "hm_wf (tbl_indexes ?l)" using r(2) by (simp_all add: wf_fold_insert hm.wf_empty)
    fix f i assume "hm_get (tbl_indexes ?l) f = Some i"
    then obtain idx where "hm_get (tbl_indexes t) f = Some idx" "i = load_index ?r ?dv fs f" by (auto simp: get split: if_splits)
    then show "index_ok (hm_get (tbl_records ?l)) f i" using load_index_ok(1) [OF st _ fld(1)] by (simp add: r(3))
  qed
  note ok = rebuild_stale_indexes_ok [OF this]
  have final: "hm_get (tbl_indexes (rebuild_stale_indexes ?l)) f =
      (if hm_get (tbl_indexes t) f = None then None else Some (refresh_index ?l f (load_index ?r ?dv fs f)))" for f
    by (simp add: rebuild_stale_indexes_get get)
  have "needs_rebuild (refresh_index ?l f (load_index ?r ?dv fs f)) = (field_index t f = None) \<and>
      (field_index t f \<noteq> None \<longrightarrow> fi_excluded (refresh_index ?l f (load_index ?r ?dv fs f)) = fi_excluded idx)"
    if "hm_get (tbl_indexes t) f = Some idx" for f idx
    using load_index_ok(2,3) [OF st that fld(1)] by (auto simp: refresh_index_def fld split: option.splits)
  with run ok show ?thesis
    by (intro exI [of _ "rebuild_stale_indexes ?l"]) (simp add: final r(3) dm(2) has_index_def hm_contains_def)
qed

section \<open>Crashes in the middle of a flush\<close>

text \<open>The frames before a cut are read, and what is left of the cut one decides the rest.\<close>

lemma read_loop_cut:
  assumes "\<forall>kr \<in> set krs. entry_ok kr"
  shows "read_loop name (concat (map frame krs) @ bs) =
    (case read_loop name bs of Inl e \<Rightarrow> Err e | Inr rest \<Rightarrow> Ok (krs @ rest))"
  using assms
proof (induction krs)
  case Nil
  then show ?case by (simp split: sum.split)
next
  case (Cons kr krs)
  then show ?case
    using length_frame [of kr]
    by (subst read_loop_unfold) (simp add: read_frame_frame split: sum.split)
qed

lemma read_loop_torn:
  assumes "entry_ok kr" and "n < length (frame kr)"
  shows "read_loop name (take n (frame kr)) = (if n < 8 then Ok [] else Err UnexpectedEof)"
proof (cases "n < 8")
  case True
  then show ?thesis using assms(2) by (subst read_loop_unfold) simp
next
  case False
  obtain k r where kr: "kr = (k, r)" by (cases kr)
  let ?d = "to_bytes r"
  have len: "length k \<le> MAX_KEY_LEN" "length k \<le> MAX_DATA_LEN" "length ?d \<le> MAX_DATA_LEN"
    using assms(1) by (auto simp: entry_ok_def kr MAX_KEY_LEN_def MAX_DATA_LEN_def)
  have t: "take n (frame kr) = le_bytes 8 (length k) @ take (n - 8) (k @ le_bytes 8 (length ?d) @ ?d)"
    using False by (simp add: frame_def kr Let_def)
  have "read_frame name (take n (frame kr)) = Err UnexpectedEof"
  proof (cases "n - 8 < length k")
    case True
    then show ?thesis unfolding t using len by (simp add: read_frame_def Let_def)
  next
    case False
    then have t2: "take (n - 8) (k @ le_bytes 8 (length ?d) @ ?d) = k @ take (n - 8 - length k) (le_bytes 8 (length ?d) @ ?d)" by simp
    show ?thesis
    proof (cases "n - 8 - length k < 8")
      case True
      then show ?thesis unfolding t t2 using len by (simp add: read_frame_def Let_def)
    next
      case False
      moreover have "n < 16 + length k + length ?d" using assms(2) by (simp add: frame_def kr Let_def)
      ultimately show ?thesis unfolding t t2 using len by (simp add: read_frame_def Let_def)
    qed
  qed
  then show ?thesis using False assms(2) by (subst read_loop_unfold) simp
qed

lemma save_full_state: "hm_get (save_full d source modulus) index_state_path = hm_get d index_state_path"
proof -
  have "hm_get (fold (\<lambda>g d. write_frames d (group_path g) (b g)) gs d) index_state_path = hm_get d index_state_path" for b gs d
    by (induction gs arbitrary: d) (auto simp: write_frames_def index_state_path_def group_path_def)
  then show ?thesis by (simp add: save_full_def remove_groups_beyond_def index_state_path_def Let_def)
qed

section \<open>Properties\<close>

text \<open>
  C2. A flush loses nothing. Whatever is pending in a table, when the flush ends the file loads with
  the same records and the same dictionary, every index is there and describes the records exactly,
  and an index is marked for a rebuild only when its field is no longer defined.
\<close>

theorem flushed_table_loads:
  assumes "table_ready per_group fs t" and "table_is_dirty t"
  shows "\<exists>fs' t' l. flush_locked per_group stamp_after fs t = Some (fs', t', Ok ()) \<and> load_table disk_stamp fs' = Ok l \<and>
    hm_get (tbl_records l) = hm_get (tbl_records t) \<and> hm_get (tbl_dictionary l) = hm_get (tbl_dictionary t) \<and>
    table_ok l \<and> (\<forall>f. has_index l f = has_index t f) \<and>
    (\<forall>f i. hm_get (tbl_indexes l) f = Some i \<longrightarrow> needs_rebuild i = (field_index t f = None))"
proof -
  obtain fs' t' t1 where fl: "flush_locked per_group stamp_after fs t = Some (fs', t', Ok ())" "table_stored fs' t1"
    and t1: "\<exists>m l s. t1 = (rebuild_stale_indexes t)\<lparr>data_meta := m, legacy_data := l, tmp_swept := s\<rparr>"
    using flush_locked_stored [OF assms, of stamp_after] by blast
  obtain l where l: "load_table disk_stamp fs' = Ok l" "table_ok l" "hm_get (tbl_records l) = hm_get (tbl_records t1)"
    "hm_get (tbl_dictionary l) = hm_get (tbl_dictionary t1)" "\<forall>f. has_index l f = has_index t1 f"
    and idx: "\<forall>f idx. hm_get (tbl_indexes t1) f = Some idx \<longrightarrow> (\<exists>i. hm_get (tbl_indexes l) f = Some i \<and>
       needs_rebuild i = (field_index t1 f = None) \<and> (field_index t1 f \<noteq> None \<longrightarrow> fi_excluded i = fi_excluded idx))"
    using load_table_stored [OF fl(2), of disk_stamp] by blast
  have same: "tbl_records t1 = tbl_records t" "tbl_dictionary t1 = tbl_dictionary t" "has_index t1 f = has_index t f"
    "field_index t1 f = field_index t f" for f
    using t1 by (auto simp: has_index_def hm_contains_def rebuild_stale_indexes_get field_index_def)
  have "needs_rebuild i = (field_index t f = None)" if "hm_get (tbl_indexes l) f = Some i" for f i
  proof -
    have "has_index l f" using that by (simp add: has_index_def hm_contains_def)
    then have "has_index t1 f" using l(5) by blast
    then obtain idx where "hm_get (tbl_indexes t1) f = Some idx" by (auto simp: has_index_def hm_contains_def)
    with idx obtain i' where "hm_get (tbl_indexes l) f = Some i'" "needs_rebuild i' = (field_index t1 f = None)" by blast
    with that show ?thesis by (simp add: same)
  qed
  with fl(1) l show ?thesis by (auto simp: same)
qed

lemma table_ready_stamped:
  "table_ready 16 FileStore_new (insert_record ''k'' sample_record (Table_new\<lparr>tbl_stamp := st\<rparr>))"
  "table_is_dirty (insert_record ''k'' sample_record (Table_new\<lparr>tbl_stamp := st\<rparr>))"
proof -
  let ?t = "insert_record ''k'' sample_record (Table_new\<lparr>tbl_stamp := st\<rparr>)"
  have ok: "table_ok (Table_new\<lparr>tbl_stamp := st\<rparr>)" by (simp add: table_ok_def Table_new_def hm.wf_empty hm.get_empty)
  have t: "tbl_records ?t = [(''k'', sample_record)]" "tbl_indexes ?t = []" "dirty_keys ?t = [''k'']" "tbl_dictionary ?t = []"
    "\<not> dirty_all ?t" "\<not> legacy_data ?t" "\<not> dict_dirty ?t" "data_meta ?t = SectionMeta_empty"
    by (simp_all add: insert_record_def mark_dirty_def Table_new_def hm_insert_def)
  have "\<exists>c. meta_modulus SectionMeta_empty = MIN_MODULUS * 2 ^ c" by (rule exI [of _ 0]) (simp add: SectionMeta_empty_def)
  then have "flush_ready [] SectionMeta_empty (source_of_map [(''k'', sample_record)]) (Some [''k'']) 16"
    using sample_source by (simp add: flush_ready_def SectionMeta_empty_def MIN_MODULUS_def u64_max_def sizes_fit_def)
      (simp add: source_of_map_def)
  then show "table_ready 16 FileStore_new ?t"
    unfolding table_ready_def records_ready_def records_dirty_def dict_ready_def dict_stored_def indexes_ready_def
      rebuild_stale_indexes_def t
    using t(5-7) by (simp add: insert_record_ok ok FileStore_new_def load_section_def hm.wf_empty t(2) hm.get_empty)
  show "table_is_dirty ?t" by (simp add: table_is_dirty_def t)
qed

lemma table_ready_sample:
  "table_ready 16 FileStore_new (insert_record ''k'' sample_record Table_new)" "table_is_dirty (insert_record ''k'' sample_record Table_new)"
  using table_ready_stamped [of None] by (simp_all add: Table_new_def)

theorem flushed_table_loads_witness:
  "\<exists>fs' t' l. flush_locked 16 (\<lambda>_ _. undefined) FileStore_new (insert_record ''k'' sample_record Table_new) = Some (fs', t', Ok ()) \<and>
    load_table (\<lambda>_. undefined) fs' = Ok l \<and> hm_get (tbl_records l) ''k'' = Some sample_record \<and> tbl_dictionary l = []"
proof -
  obtain fs' t' l where r: "flush_locked 16 (\<lambda>_ _. undefined) FileStore_new (insert_record ''k'' sample_record Table_new) = Some (fs', t', Ok ())"
    "load_table (\<lambda>_. undefined) fs' = Ok l" "hm_get (tbl_records l) = hm_get (tbl_records (insert_record ''k'' sample_record Table_new))"
    "hm_get (tbl_dictionary l) = hm_get (tbl_dictionary (insert_record ''k'' sample_record Table_new))"
    using flushed_table_loads [OF table_ready_sample, of "\<lambda>_ _. undefined" "\<lambda>_. undefined"] by blast
  have "hm_get (tbl_dictionary l) = hm_get []" using r(4) by (simp add: insert_record_def mark_dirty_def Table_new_def)
  then have "tbl_dictionary l = []" by (metis hm.get_empty hm.get_eq_None hm.keys_empty hm_keys_def list.map_disc_iff list.set_intros(1) neq_Nil_conv)
  with r show ?thesis by (intro exI [of _ fs'] exI [of _ t'] exI [of _ l]) (simp add: insert_record_def mark_dirty_def)
qed

text \<open>
  The dictionary is written in place. A crash that cuts it inside an entry leaves a file that
  no longer loads at all, its records included; a crash within the first eight bytes of an entry loses
  that entry and every later one without a word.
\<close>

theorem torn_dictionary:
  assumes "\<forall>kr \<in> set krs. entry_ok kr" and "distinct (map fst krs)" and "entry_ok kr" and "n < length (frame kr)"
    and "fs_dict fs = Some (concat (map frame krs) @ take n (frame kr))"
  shows "if n < 8 then \<exists>mp. load_section [] (fs_dict fs) ''dict'' = Ok mp \<and> hm_get mp = map_of krs
    else (\<forall>disk_stamp. \<exists>e. load_table disk_stamp fs = Err e)"
proof (cases "n < 8")
  case True
  have empty: "hm_get [] ++ map_of krs = map_of krs"
    by (rule ext) (simp add: map_add_def hm.get_empty split: option.split)
  from True show ?thesis
    using assms(5) read_loop_torn [OF assms(3,4), of "''dict''"] read_loop_cut [OF assms(1), of "''dict''" "take n (frame kr)"]
      hm.get_insert_all [OF assms(2), of "[]"] empty
    by (simp add: load_section_def)
next
  case False
  have cut: "load_section m (fs_dict fs) ''dict'' = Err UnexpectedEof" for m
    using assms(5) False read_loop_torn [OF assms(3,4), of "''dict''"] read_loop_cut [OF assms(1), of "''dict''" "take n (frame kr)"]
    by (simp add: load_section_def)
  have "\<exists>e. load_table disk_stamp fs = Err e" for disk_stamp
    by (cases "load_records fs (Table_new\<lparr>tbl_stamp := Some (disk_stamp fs)\<rparr>)") (simp_all add: load_table_def cut)
  with False show ?thesis by simp
qed

theorem torn_dictionary_witness:
  "\<exists>e. load_table (\<lambda>_. undefined) (FileStore_new\<lparr>fs_dict := Some (take 10 (frame (''k'', sample_record)))\<rparr>) = Err e"
  using torn_dictionary [where krs = "[]" and kr = "(''k'', sample_record)" and n = 10
      and fs = "FileStore_new\<lparr>fs_dict := Some (take 10 (frame (''k'', sample_record)))\<rparr>"] sample_entry_ok
  by (simp add: frame_def Let_def sample_record_def from_bytes_def to_bytes_def)

lemma save_full_index_state:
  assumes "save_with_fsync d source previous None per_group = Some (d', Ok meta)"
  shows "index_read_state d' = index_read_state d"
proof -
  obtain modulus where "d' = write_meta (save_full d source modulus) meta"
    using assms by (auto simp: save_with_fsync_def Let_def split: option.splits)
  then have "hm_get d' index_state_path = hm_get d index_state_path"
    using save_full_state by (simp add: write_meta_def meta_path_def index_state_path_def Let_def)
  then show ?thesis by (simp add: index_read_state_def)
qed

text \<open>
  Excluding a value from an index rewrites its section before the \<open>state\<close> that lists the
  exclusions, and leaves the data version alone. A crash between the two leaves postings without the
  value beside a state that does not exclude it and still names the records on disk: the next load
  trusts the index, and it answers that no record carries the value.
\<close>

theorem torn_exclusion_hides_records:
  assumes "index_read_state d = Some (index_state_of dv idx)" and "v \<notin> set (fi_excluded idx)"
    and "idx' = rebuild records (fi_attr idx) (snd (set_excluded vs idx))" and "v \<in> set (normalise_exclusions vs)"
    and "hm_wf records" and "\<forall>k \<in> dom (hm_get records). utf8_valid k"
    and "flush_ready d (fi_meta idx) (source_of_index idx') None per_group"
  shows "\<exists>d' meta mp. save_with_fsync d (source_of_index idx') (fi_meta idx') None per_group = Some (d', Ok meta) \<and>
    load d' [] = Ok (mp, meta) \<and>
    fst (candidates v (FileIndex_loaded (fi_field idx) (fi_attr idx) mp meta (index_read_state d') dv)) = Some []"
proof -
  have m: "fi_meta idx' = fi_meta idx" and ex: "fi_excluded idx' = normalise_exclusions vs"
    using assms(3) by (auto simp: set_excluded_def Let_def)
  have desc: "index_describes (hm_get records) idx'" unfolding assms(3) by (rule rebuild_describes [OF assms(5)])
  from save_represents [OF assms(7)] obtain d' meta where
    s: "save_with_fsync d (source_of_index idx') (fi_meta idx') None per_group = Some (d', Ok meta)"
      "represents d' meta (source_record (source_of_index idx'))" unfolding m by blast
  obtain mp where mp: "load d' [] = Ok (mp, meta)" "hm_get mp = source_record (source_of_index idx')"
    using load_represents [OF s(2)] by blast
  let ?l = "FileIndex_loaded (fi_field idx) (fi_attr idx) mp meta (index_read_state d') dv"
  have st: "index_read_state d' = Some (index_state_of dv idx)" using save_full_index_state [OF s(1)] assms(1) by simp
  have utf: "\<forall>v. \<forall>k \<in> posted (postings idx') v. utf8_valid k" using desc assms(6) unfolding index_describes_def by blast
  have "hm_get (postings ?l) = hm_get (postings idx')"
    using desc utf mp(2) by (intro loaded_postings) (simp_all add: index_describes_def)
  moreover have "posted (postings idx') v = {}"
    using desc assms(4) ex by (auto simp: index_describes_def retained_def)
  then have "hm_get (postings idx') v = None"
    using desc by (auto simp: index_describes_def postings_ok_def posted_def split: option.splits)
  ultimately have "hm_get (postings ?l) v = None" by simp
  then have "fst (candidates v ?l) = Some []"
    using assms(2) st by (simp add: candidates_def FileIndex_loaded_def index_state_of_def Let_def)
  with s(1) mp(1) show ?thesis by blast
qed

text \<open>The one record of \<open>sample_index\<close> carries \<open>v\<close>, which is then excluded.\<close>

theorem torn_exclusion_hides_records_witness:
  "\<exists>d idx' d' meta mp. index_save [] 4 16 sample_index = Some d \<and>
    idx' = rebuild [(''k'', sample_record)] 0 (snd (set_excluded [''v''] sample_index)) \<and>
    save_with_fsync (fst d) (source_of_index idx') (fi_meta idx') None 16 = Some (d', Ok meta) \<and>
    load d' [] = Ok (mp, meta) \<and>
    fst (candidates ''v'' (FileIndex_loaded ''CITY'' 0 mp meta (index_read_state d') 4)) = Some [] \<and>
    keys_of (Some sample_record) 0 = [''v'']"
proof -
  have sok: "index_state_ok (index_state_of 4 sample_index)"
    by (simp add: index_state_ok_def index_state_of_def sample_index_def FileIndex_new_def with_exclusions_def
        normalise_exclusions_def bt_of_list_def rebuild_def visible_def u64_max_def)
  obtain d i where d: "index_save [] 4 16 sample_index = Some (d, Ok i)" "index_read_state d = Some (index_state_of 4 sample_index)"
    using index_save_ok [OF sample_index_ready sok] by blast
  have f: "fi_field sample_index = ''CITY''" "fi_attr sample_index = 0" "fi_excluded sample_index = []" "fi_meta sample_index = SectionMeta_empty"
    by (simp_all add: sample_index_def FileIndex_new_def with_exclusions_def normalise_exclusions_def bt_of_list_def)
  have k: "normalise_exclusions [''v''] = [''v'']"
    by (simp add: normalise_exclusions_def bt_of_list_def index_key_def MAX_INDEX_KEY_def trim_visible_text visible_def)
  define idx' where "idx' = rebuild [(''k'', sample_record)] (fi_attr sample_index) (snd (set_excluded [''v''] sample_index))"
  have p: "postings idx' = []"
    by (simp add: idx'_def set_excluded_def k f Let_def rebuild_def rebuild_record_def sample_keys_of)
  have src: "section_source (source_of_index idx')" by (rule section_source_index) (simp add: p)
  have ok: "source_ok (source_of_index idx')" by (simp add: source_ok_def source_of_index_def p hm.get_empty)
  have ready: "flush_ready d (fi_meta sample_index) (source_of_index idx') None 16"
    unfolding f(4) using src ok
    by (simp add: flush_ready_def SectionMeta_empty_def MIN_MODULUS_def u64_max_def sizes_fit_def)
      (simp add: source_of_index_def p exI [of _ 0])
  have "hm_wf [(''k'', sample_record)]" by (simp add: hm_wf_def)
  moreover have "\<forall>k \<in> dom (hm_get [(''k'', sample_record)]). utf8_valid k"
    by (simp add: hm_get_def utf8_valid_ascii dom_def)
  moreover have "''v'' \<in> set (normalise_exclusions [''v''])" "''v'' \<notin> set (fi_excluded sample_index)" by (simp_all add: k f)
  ultimately obtain d' meta mp where
    "save_with_fsync d (source_of_index idx') (fi_meta idx') None 16 = Some (d', Ok meta)" "load d' [] = Ok (mp, meta)"
    "fst (candidates ''v'' (FileIndex_loaded (fi_field sample_index) (fi_attr sample_index) mp meta (index_read_state d') 4)) = Some []"
    using torn_exclusion_hides_records [OF d(2) _ idx'_def _ _ _ ready] by blast
  then show ?thesis
    using d(1) sample_keys_of unfolding f idx'_def [unfolded f(2), symmetric] by (intro exI [of _ "(d, Ok i)"] exI [of _ idx']) auto
qed

end
