(* ===== verification/Attributes.thy ===== *)
theory Attributes
  imports Queue
begin

text \<open>
  What a \<open>DIR\<close> entry says of a file, and who may do what (\<^verbatim>\<open>db/models.rs\<close>): \<open>FileAttributes\<close> with
  its reading from and writing to a record, \<open>DirectoryPolicy\<close>, and the client's \<open>Capability\<close>,
  \<open>EnqueueGrant\<close>, \<open>ClientGrant\<close> and \<open>ClientInfo\<close>.
\<close>

section \<open>Entries of the file listing\<close>

definition DIR_TYPE_IDX :: nat where "DIR_TYPE_IDX = 0"
definition DIR_DURABLE_IDX :: nat where "DIR_DURABLE_IDX = 1"
definition DIR_QUEUE_IDX :: nat where "DIR_QUEUE_IDX = 2"
definition DIR_QUEUE_TIMEOUT_IDX :: nat where "DIR_QUEUE_TIMEOUT_IDX = 3"
definition DIR_QUEUE_RETRIES_IDX :: nat where "DIR_QUEUE_RETRIES_IDX = 4"
definition DIR_PATH_IDX :: nat where "DIR_PATH_IDX = 5"
definition DIR_AUTOKEY_IDX :: nat where "DIR_AUTOKEY_IDX = 6"
definition DIR_TYPE_FILE :: str where "DIR_TYPE_FILE = ''F''"
definition DIR_TYPE_DIRECTORY :: str where "DIR_TYPE_DIRECTORY = ''D''"

record DirectoryPolicy =
  policy_path :: str

definition default_path :: DirectoryPolicy where "default_path = \<lparr>policy_path = []\<rparr>"

definition DirectoryPolicy_at :: "str \<Rightarrow> DirectoryPolicy" where
  "DirectoryPolicy_at path = \<lparr>policy_path = path\<rparr>"

definition explicit_path :: "DirectoryPolicy \<Rightarrow> str option" where
  "explicit_path p = (if trim (policy_path p) \<noteq> [] then Some (trim (policy_path p)) else None)"

record FileAttributes =
  durable :: bool
  att_queue :: "QueuePolicy option"
  att_directory :: "DirectoryPolicy option"
  autokey :: bool

definition FileAttributes_default :: FileAttributes where
  "FileAttributes_default = \<lparr>durable = False, att_queue = None, att_directory = None, autokey = False\<rparr>"

definition attribute_flag :: "Record \<Rightarrow> nat \<Rightarrow> bool" where
  "attribute_flag r idx \<longleftrightarrow> to_uppercase (trim (get_field_display_string r idx)) \<in>
     set [''Y'', ''YES'', ''1'', ''TRUE'', ''DURABLE'', ''QUEUE'']"

definition attributes_of :: "Record \<Rightarrow> FileAttributes" where
  "attributes_of r =
     (let attribute = get_field_display_string r in
      if to_uppercase (trim (attribute DIR_TYPE_IDX)) = DIR_TYPE_DIRECTORY then
        \<lparr>durable = False, att_queue = None, att_directory = Some \<lparr>policy_path = trim (attribute DIR_PATH_IDX)\<rparr>, autokey = False\<rparr>
      else
        \<lparr>durable = attribute_flag r DIR_DURABLE_IDX,
         att_queue = (if attribute_flag r DIR_QUEUE_IDX
           then Some (policy_from_attributes (attribute DIR_QUEUE_TIMEOUT_IDX) (attribute DIR_QUEUE_RETRIES_IDX)) else None),
         att_directory = None,
         autokey = (attribute_flag r DIR_AUTOKEY_IDX \<and> \<not> attribute_flag r DIR_QUEUE_IDX)\<rparr>)"

definition flag_text :: "bool \<Rightarrow> str" where "flag_text b = (if b then ''Y'' else [])"

definition attributes_to_record :: "FileAttributes \<Rightarrow> Record" where
  "attributes_to_record a =
     from_attributes
       [if att_directory a \<noteq> None then DIR_TYPE_DIRECTORY else DIR_TYPE_FILE,
        flag_text (durable a),
        flag_text (att_queue a \<noteq> None),
        (case att_queue a of Some policy \<Rightarrow> show_nat (visibility_seconds policy) | None \<Rightarrow> []),
        (case att_queue a of Some policy \<Rightarrow> show_nat (max_deliveries policy) | None \<Rightarrow> []),
        (case att_directory a of Some policy \<Rightarrow> policy_path policy | None \<Rightarrow> []),
        flag_text (autokey a)]"

definition is_directory :: "FileAttributes \<Rightarrow> bool" where
  "is_directory a \<longleftrightarrow> att_directory a \<noteq> None"

section \<open>Clients\<close>

datatype Capability = AccountsManage | ClientsManage | ServerObserve

text \<open>The derived order of the enumeration.\<close>

instantiation Capability :: linorder
begin

definition capability_rank :: "Capability \<Rightarrow> nat" where
  "capability_rank c = (case c of AccountsManage \<Rightarrow> 0 | ClientsManage \<Rightarrow> 1 | ServerObserve \<Rightarrow> 2)"

definition less_eq_Capability :: "Capability \<Rightarrow> Capability \<Rightarrow> bool" where
  "less_eq_Capability a b \<longleftrightarrow> capability_rank a \<le> capability_rank b"

definition less_Capability :: "Capability \<Rightarrow> Capability \<Rightarrow> bool" where
  "less_Capability a b \<longleftrightarrow> capability_rank a < capability_rank b"

instance
  by standard (auto simp: less_eq_Capability_def less_Capability_def capability_rank_def split: Capability.splits)

end

definition capability_as_str :: "Capability \<Rightarrow> str" where
  "capability_as_str c =
     (case c of AccountsManage \<Rightarrow> ''accounts:manage'' | ClientsManage \<Rightarrow> ''clients:manage'' | ServerObserve \<Rightarrow> ''server:observe'')"

definition capability_parse :: "str \<Rightarrow> Capability option" where
  "capability_parse name =
     (let s = to_ascii_lowercase (trim name) in
      if s = ''accounts:manage'' then Some AccountsManage
      else if s = ''clients:manage'' then Some ClientsManage
      else if s = ''server:observe'' then Some ServerObserve
      else None)"

definition Capability_ALL :: "Capability list" where
  "Capability_ALL = [AccountsManage, ClientsManage, ServerObserve]"

record EnqueueGrant =
  grant_account :: str
  grant_file :: str

definition ENQUEUE_PREFIX :: str where "ENQUEUE_PREFIX = ''enqueue:''"

definition enqueue_grant_parse :: "str \<Rightarrow> EnqueueGrant option" where
  "enqueue_grant_parse txt =
     (case split_once (CHR ''/'') (trim txt) of None \<Rightarrow> None
      | Some (a, f) \<Rightarrow>
        let account = trim a; fname = trim f in
        if account = [] \<or> fname = [] \<or> CHR ''/'' \<in> set fname then None
        else Some \<lparr>grant_account = to_uppercase account, grant_file = fname\<rparr>)"

definition enqueue_grant_as_string :: "EnqueueGrant \<Rightarrow> str" where
  "enqueue_grant_as_string g = grant_account g @ ''/'' @ grant_file g"

record ClientGrant =
  cg_allowed_accounts :: "str list"
  cg_is_admin :: bool
  cg_capabilities :: "Capability list"
  cg_expires_at :: "str option"
  cg_enqueue_files :: "EnqueueGrant list"

record ClientInfo =
  client_name :: str
  thumbprint :: str
  allowed_accounts :: "str list"
  is_admin :: bool
  capabilities :: "Capability list"
  expires_at :: "str option"
  enqueue_files :: "EnqueueGrant list"

definition client_can :: "ClientInfo \<Rightarrow> Capability \<Rightarrow> bool" where
  "client_can c capability \<longleftrightarrow> is_admin c \<or> capability \<in> set (capabilities c)"

definition may_reach :: "ClientInfo \<Rightarrow> str \<Rightarrow> bool" where
  "may_reach c account \<longleftrightarrow> is_admin c \<or> list_ex (\<lambda>a. a = account) (allowed_accounts c)"

definition may_enqueue :: "ClientInfo \<Rightarrow> str \<Rightarrow> str \<Rightarrow> bool" where
  "may_enqueue c account fname \<longleftrightarrow> list_ex (\<lambda>g. grant_account g = account \<and> grant_file g = fname) (enqueue_files c)"

text \<open>\<open>sort\<close> and \<open>dedup\<close>, which drops repeats that stand next to each other.\<close>

definition effective_capabilities :: "ClientInfo \<Rightarrow> Capability list" where
  "effective_capabilities c = (if is_admin c then Capability_ALL else remdups_adj (sort (capabilities c)))"

section \<open>Lemmas\<close>

lemma lossy_plain: "is_ascii s \<Longrightarrow> from_utf8_lossy s = s"
  by (simp add: from_utf8_lossy_valid utf8_valid_ascii)

lemma map_display_char: "FM \<notin> set s \<Longrightarrow> VM \<notin> set s \<Longrightarrow> SVM \<notin> set s \<Longrightarrow> map display_char s = s"
  by (induction s) (auto simp: display_char_def)

lemma utf8_no_marks: "utf8_valid s \<Longrightarrow> FM \<notin> set s \<and> VM \<notin> set s \<and> SVM \<notin> set s"
  using utf8_valid_bytes [of s] by (force simp: FM_def VM_def SVM_def)

lemma attribute_display:
  assumes "i < length attrs" "utf8_valid (attrs ! i)"
  shows "get_field_display_string (from_attributes attrs) i = attrs ! i"
  using assms utf8_no_marks [OF assms(2)] by (simp add: get_field_display_string_def from_attributes_def get_at_def field_to_bytes_def
      value_to_bytes_def Value_text_def to_display_chars_def map_display_char from_utf8_lossy_valid)

definition attributes_ok :: "FileAttributes \<Rightarrow> bool" where
  "attributes_ok a \<longleftrightarrow>
     (case att_directory a of
        Some p \<Rightarrow> \<not> durable a \<and> att_queue a = None \<and> \<not> autokey a \<and> utf8_valid (policy_path p) \<and> trim (policy_path p) = policy_path p
      | None \<Rightarrow>
        (case att_queue a of None \<Rightarrow> True
         | Some p \<Rightarrow> \<not> autokey a \<and> (\<exists>s. visibility p = from_secs s \<and> 0 < s \<and> s \<le> MAX_VISIBILITY_SECONDS) \<and>
             0 < max_deliveries p \<and> max_deliveries p \<le> MAX_DELIVERY_LIMIT))"

lemma uppercase_letters: "to_uppercase [] = []" "to_uppercase ''Y'' = ''Y''" "to_uppercase ''F'' = ''F''" "to_uppercase ''D'' = ''D''"
  by (simp_all add: to_uppercase_ascii ascii_upper_def)

lemma trim_letters: "trim ''Y'' = ''Y''" "trim ''F'' = ''F''" "trim ''D'' = ''D''"
  by (simp_all add: trim_visible_text visible_def)

lemma policy_round_trip:
  assumes "visibility p = from_secs s" "0 < s" "s \<le> MAX_VISIBILITY_SECONDS" "0 < max_deliveries p" "max_deliveries p \<le> MAX_DELIVERY_LIMIT"
  shows "policy_from_attributes (show_nat (visibility_seconds p)) (show_nat (max_deliveries p)) = p"
proof -
  have "s \<le> u64_max" "max_deliveries p \<le> u32_max"
    using assms by (simp_all add: MAX_VISIBILITY_SECONDS_def MAX_DELIVERY_LIMIT_def u64_max_def u32_max_def)
  then show ?thesis
    using assms by (cases p) (simp add: policy_from_attributes_def visibility_seconds_def from_secs_def trim_show_radix
        from_str_radix_show del: show_radix.simps)
qed

section \<open>Properties\<close>

text \<open>
  A \<open>DIR\<close> entry reads back as the attributes it was written from, for every combination the
  database can hold, and a host path is never split or changed.
\<close>

theorem attributes_round_trip:
  assumes "attributes_ok a"
  shows "attributes_of (attributes_to_record a) = a"
proof -
  have utf: "utf8_valid (show_nat n)" for n
    by (rule utf8_valid_ascii, rule visible_text_ascii) simp
  have flag: "utf8_valid (flag_text b)" for b by (simp add: flag_text_def utf8_valid_ascii)
  have path: "utf8_valid (case att_directory a of Some p \<Rightarrow> policy_path p | None \<Rightarrow> [])"
    using assms by (simp add: attributes_ok_def split: option.splits)
  let ?r = "attributes_to_record a"
  have disp: "get_field_display_string ?r 0 = (if att_directory a \<noteq> None then DIR_TYPE_DIRECTORY else DIR_TYPE_FILE)"
    "get_field_display_string ?r (Suc 0) = flag_text (durable a)"
    "get_field_display_string ?r 2 = flag_text (att_queue a \<noteq> None)"
    "get_field_display_string ?r 3 = (case att_queue a of Some p \<Rightarrow> show_nat (visibility_seconds p) | None \<Rightarrow> [])"
    "get_field_display_string ?r 4 = (case att_queue a of Some p \<Rightarrow> show_nat (max_deliveries p) | None \<Rightarrow> [])"
    "get_field_display_string ?r 5 = (case att_directory a of Some p \<Rightarrow> policy_path p | None \<Rightarrow> [])"
    "get_field_display_string ?r 6 = flag_text (autokey a)"
    using utf flag path unfolding attributes_to_record_def
    by (subst attribute_display; simp add: DIR_TYPE_DIRECTORY_def DIR_TYPE_FILE_def utf8_valid_ascii split: option.splits
        del: show_radix.simps)+
  have flags: "attribute_flag ?r (Suc 0) = durable a" "attribute_flag ?r 2 = (att_queue a \<noteq> None)" "attribute_flag ?r 6 = autokey a"
    by (simp_all add: attribute_flag_def disp flag_text_def trim_letters uppercase_letters)
  show ?thesis
  proof (cases "att_directory a")
    case (Some p)
    have ok: "\<not> durable a" "att_queue a = None" "\<not> autokey a" "trim (policy_path p) = policy_path p"
      using assms Some by (simp_all add: attributes_ok_def)
    have "attributes_of ?r = \<lparr>durable = False, att_queue = None, att_directory = Some p, autokey = False\<rparr>"
      by (simp add: attributes_of_def disp Some DIR_TYPE_IDX_def DIR_PATH_IDX_def DIR_TYPE_DIRECTORY_def
          trim_letters uppercase_letters ok Let_def)
    with ok Some show ?thesis by (cases a) simp
  next
    case None
    note base = attributes_of_def disp flags None DIR_TYPE_IDX_def DIR_DURABLE_IDX_def DIR_QUEUE_IDX_def DIR_AUTOKEY_IDX_def
      DIR_QUEUE_TIMEOUT_IDX_def DIR_QUEUE_RETRIES_IDX_def DIR_TYPE_DIRECTORY_def DIR_TYPE_FILE_def trim_letters uppercase_letters Let_def
    show ?thesis
    proof (cases "att_queue a")
      case None
      then have "attributes_of ?r = \<lparr>durable = durable a, att_queue = None, att_directory = None, autokey = autokey a\<rparr>"
        by (simp add: base)
      with None \<open>att_directory a = None\<close> show ?thesis by (cases a) simp
    next
      case (Some p)
      with assms \<open>att_directory a = None\<close> obtain s where "visibility p = from_secs s" "0 < s" "s \<le> MAX_VISIBILITY_SECONDS"
        "0 < max_deliveries p" "max_deliveries p \<le> MAX_DELIVERY_LIMIT" "\<not> autokey a" by (auto simp: attributes_ok_def)
      with policy_round_trip [of p s] Some
      have "attributes_of ?r = \<lparr>durable = durable a, att_queue = Some p, att_directory = None, autokey = False\<rparr>"
        by (simp add: base del: show_radix.simps)
      with Some \<open>\<not> autokey a\<close> \<open>att_directory a = None\<close> show ?thesis by (cases a) simp
    qed
  qed
qed

theorem attributes_round_trip_witness:
  "attributes_of (attributes_to_record \<lparr>durable = True, att_queue = Some \<lparr>visibility = 30000, max_deliveries = 3\<rparr>,
      att_directory = None, autokey = False\<rparr>) =
    \<lparr>durable = True, att_queue = Some \<lparr>visibility = 30000, max_deliveries = 3\<rparr>, att_directory = None, autokey = False\<rparr>"
  by (rule attributes_round_trip)
    (auto simp: attributes_ok_def from_secs_def MAX_VISIBILITY_SECONDS_def MAX_DELIVERY_LIMIT_def intro!: exI [of _ 30])

text \<open>
  The two jobs of the administrator flag stay apart. A client that is no administrator can do what
  it was granted and nothing else, reaches the accounts it was granted and no other, and an enqueue
  grant on a file reaches no account; a wire name of a capability reads back as that capability.
\<close>

theorem grants_are_separate:
  "capability_parse (capability_as_str k) = Some k \<and>
   (client_can c k \<longleftrightarrow> k \<in> set (effective_capabilities c)) \<and>
   may_reach (c\<lparr>capabilities := ks, enqueue_files := gs\<rparr>) account = may_reach c account \<and>
   client_can (c\<lparr>allowed_accounts := accounts, enqueue_files := gs\<rparr>) k = client_can c k"
proof -
  have "capability_parse (capability_as_str k) = Some k"
    by (cases k) (simp_all add: capability_parse_def capability_as_str_def trim_visible_text visible_def
        to_ascii_lowercase_def ascii_lower_def Let_def)
  moreover have "k \<in> set Capability_ALL" by (cases k) (simp_all add: Capability_ALL_def)
  ultimately show ?thesis by (simp add: client_can_def effective_capabilities_def may_reach_def)
qed

end
