(* ===== verification/Transaction.thy ===== *)
theory Transaction
  imports Table_Store_Props Attributes
begin

text \<open>
  The intent log of \<^verbatim>\<open>db/transaction.rs\<close>: a set of writes and deletes as one checksummed frame, the
  names intents are filed under, and which of the files found in the log directory are intents. A
  cursor is the bytes that remain. Shown: an intent reads back as it was written, an intent damaged in
  a few consecutive bytes is discarded, and the names sort in the order the intents were written.
\<close>

section \<open>Changes\<close>

definition LOG_DIR :: str where "LOG_DIR = ''.txn''"
definition INTENT_SUFFIX :: str where "INTENT_SUFFIX = ''.intent''"
definition TXN_MAGIC :: bytes where "TXN_MAGIC = ''SRPTXN01''"
definition MAX_CHANGES :: nat where "MAX_CHANGES = 1000"

datatype ChangeOp = WriteOp Record | DeleteOp

record Change =
  change_file :: str
  change_key :: str
  change_dict :: bool
  change_op :: ChangeOp

definition Change_write :: "str \<Rightarrow> str \<Rightarrow> Record \<Rightarrow> Change" where
  "Change_write fname key r = \<lparr>change_file = fname, change_key = key, change_dict = False, change_op = WriteOp r\<rparr>"

definition Change_delete :: "str \<Rightarrow> str \<Rightarrow> Change" where
  "Change_delete fname key = \<lparr>change_file = fname, change_key = key, change_dict = False, change_op = DeleteOp\<rparr>"

definition in_dictionary :: "Change \<Rightarrow> Change" where
  "in_dictionary c = c\<lparr>change_dict := True\<rparr>"

definition change_target :: "Change \<Rightarrow> str \<times> str \<times> bool" where
  "change_target c = (change_file c, change_key c, change_dict c)"

record Intent =
  intent_account :: str
  intent_changes :: "Change list"

section \<open>The frame\<close>

definition OP_WRITE :: byte where "OP_WRITE = CHR 0x00"
definition OP_DELETE :: byte where "OP_DELETE = CHR 0x01"
definition FLAG_DICT :: nat where "FLAG_DICT = 1"

definition put_bytes :: "bytes \<Rightarrow> bytes" where
  "put_bytes bs = le_bytes 8 (length bs) @ bs"

definition encode_change :: "Change \<Rightarrow> bytes" where
  "encode_change c =
     (case change_op c of WriteOp _ \<Rightarrow> OP_WRITE | DeleteOp \<Rightarrow> OP_DELETE) #
     (if change_dict c then char_of FLAG_DICT else char_of (0 :: nat)) #
     put_bytes (change_file c) @ put_bytes (change_key c) @
     (case change_op c of WriteOp r \<Rightarrow> put_bytes (to_bytes r) | DeleteOp \<Rightarrow> [])"

definition encode_body :: "str \<Rightarrow> Change list \<Rightarrow> bytes" where
  "encode_body account changes =
     TXN_MAGIC @ put_bytes account @ le_bytes 8 (length changes) @ concat (map encode_change changes)"

definition encode :: "str \<Rightarrow> Change list \<Rightarrow> bytes" where
  "encode account changes =
     (let out = encode_body account changes in out @ le_bytes 4 (unat (crc32c out)))"

definition cursor_byte :: "bytes \<Rightarrow> (byte \<times> bytes) option" where
  "cursor_byte bs = (case bs of [] \<Rightarrow> None | b # rest \<Rightarrow> Some (b, rest))"

definition cursor_u64 :: "bytes \<Rightarrow> (nat \<times> bytes) option" where
  "cursor_u64 bs = (if length bs < 8 then None else Some (le_value (take 8 bs), drop 8 bs))"

definition cursor_slice :: "bytes \<Rightarrow> (bytes \<times> bytes) option" where
  "cursor_slice bs =
     (case cursor_u64 bs of None \<Rightarrow> None
      | Some (len, rest) \<Rightarrow> if length rest < len then None else Some (take len rest, drop len rest))"

definition cursor_text :: "bytes \<Rightarrow> (str \<times> bytes) option" where
  "cursor_text bs =
     (case cursor_slice bs of None \<Rightarrow> None | Some (s, rest) \<Rightarrow> if utf8_valid s then Some (s, rest) else None)"

definition decode_op :: "byte \<Rightarrow> bytes \<Rightarrow> (ChangeOp \<times> bytes) option" where
  "decode_op op bs =
     (if op = OP_WRITE then
        (case cursor_slice bs of None \<Rightarrow> None | Some (data, rest) \<Rightarrow> Some (WriteOp (from_bytes data), rest))
      else if op = OP_DELETE then Some (DeleteOp, bs) else None)"

definition decode_change :: "bytes \<Rightarrow> (Change \<times> bytes) option" where
  "decode_change bs =
     (case cursor_byte bs of None \<Rightarrow> None
      | Some (op, bs) \<Rightarrow>
        (case cursor_byte bs of None \<Rightarrow> None
         | Some (flags, bs) \<Rightarrow>
           (case cursor_text bs of None \<Rightarrow> None
            | Some (fname, bs) \<Rightarrow>
              (case cursor_text bs of None \<Rightarrow> None
               | Some (key, bs) \<Rightarrow>
                 (case decode_op op bs of None \<Rightarrow> None
                  | Some (op, bs) \<Rightarrow>
                    Some (\<lparr>change_file = fname, change_key = key, change_dict = odd (of_char flags :: nat), change_op = op\<rparr>, bs))))))"

fun decode_changes :: "nat \<Rightarrow> bytes \<Rightarrow> (Change list \<times> bytes) option" where
  "decode_changes 0 bs = Some ([], bs)"
| "decode_changes (Suc n) bs =
     (case decode_change bs of None \<Rightarrow> None
      | Some (c, bs) \<Rightarrow> (case decode_changes n bs of None \<Rightarrow> None | Some (cs, bs) \<Rightarrow> Some (c # cs, bs)))"

definition decode_body :: "bytes \<Rightarrow> Intent option" where
  "decode_body body =
     (case cursor_text (drop (length TXN_MAGIC) body) of None \<Rightarrow> None
      | Some (account, bs) \<Rightarrow>
        (case cursor_u64 bs of None \<Rightarrow> None
         | Some (count, bs) \<Rightarrow>
           if MAX_CHANGES < count then None
           else (case decode_changes count bs of None \<Rightarrow> None
             | Some (changes, rest) \<Rightarrow>
                 if rest = [] then Some \<lparr>intent_account = account, intent_changes = changes\<rparr> else None)))"

definition decode :: "bytes \<Rightarrow> Intent option" where
  "decode bs =
     (if length bs < length TXN_MAGIC + 4 \<or> take (length TXN_MAGIC) bs \<noteq> TXN_MAGIC then None
      else let body = take (length bs - 4) bs; trailer = drop (length bs - 4) bs
        in if crc32c body \<noteq> of_nat (le_value trailer) then None else decode_body body)"

section \<open>The log\<close>

text \<open>\<open>intent_name\<close>: the clock, the process's counter and its id are the caller's.\<close>

definition intent_name :: "nat \<Rightarrow> nat \<Rightarrow> nat \<Rightarrow> str" where
  "intent_name millis seq pid =
     pad_left 20 (show_nat millis) @ ''-'' @ pad_left 10 (show_nat seq) @ ''-'' @ show_nat pid @ INTENT_SUFFIX"

text \<open>\<open>Path::extension\<close>: what follows the last dot, unless that dot is the first character.\<close>

definition extension :: "str \<Rightarrow> str option" where
  "extension name =
     (let ext = takeWhile (\<lambda>c. c \<noteq> CHR ''.'') (rev name)
      in if length ext + 1 < length name then Some (rev ext) else None)"

definition write_intent :: "str \<Rightarrow> str \<Rightarrow> Change list \<Rightarrow> directory \<Rightarrow> directory" where
  "write_intent name account changes log = hm_insert name (encode account changes) log"

definition read_intent :: "directory \<Rightarrow> str \<Rightarrow> Intent option" where
  "read_intent log name = Option.bind (hm_get log name) decode"

definition remove_intent :: "str \<Rightarrow> directory \<Rightarrow> directory" where
  "remove_intent name log = hm_remove name log"

text \<open>\<open>pending\<close>: what is left of the log once unfinished writes are swept, and the intents in it.\<close>

definition pending :: "directory \<Rightarrow> str list \<times> directory" where
  "pending log =
     (sort (filter (\<lambda>name. extension name = Some ''intent'') (hm_keys log)),
      hm_retain (\<lambda>name. extension name \<noteq> Some ''tmp'') log)"

section \<open>Reading back\<close>

definition change_ok :: "Change \<Rightarrow> bool" where
  "change_ok c \<longleftrightarrow> utf8_valid (change_file c) \<and> length (change_file c) < 2 ^ 64 \<and>
     utf8_valid (change_key c) \<and> length (change_key c) < 2 ^ 64 \<and>
     (case change_op c of WriteOp r \<Rightarrow> record_stored r \<and> length (to_bytes r) < 2 ^ 64 | DeleteOp \<Rightarrow> True)"

definition intent_ok :: "str \<Rightarrow> Change list \<Rightarrow> bool" where
  "intent_ok account changes \<longleftrightarrow> utf8_valid account \<and> length account < 2 ^ 64 \<and>
     length changes \<le> MAX_CHANGES \<and> (\<forall>c \<in> set changes. change_ok c)"

lemma cursor_slice_put [simp]: "length bs < 2 ^ 64 \<Longrightarrow> cursor_slice (put_bytes bs @ rest) = Some (bs, rest)"
  by (simp add: cursor_slice_def cursor_u64_def put_bytes_def)

lemma cursor_text_put [simp]:
  "utf8_valid bs \<Longrightarrow> length bs < 2 ^ 64 \<Longrightarrow> cursor_text (put_bytes bs @ rest) = Some (bs, rest)"
  by (simp add: cursor_text_def)

interpretation cc: prefix_codec encode_change decode_change change_ok
proof
  fix c rest assume "change_ok c"
  then show "decode_change (encode_change c @ rest) = Some (c, rest)"
    by (cases "change_op c"; cases "change_dict c")
      (auto simp: change_ok_def decode_change_def encode_change_def cursor_byte_def decode_op_def OP_WRITE_def OP_DELETE_def
        FLAG_DICT_def from_to_bytes)
qed

lemma decode_changes_n: "decode_changes n bs = cc.dec_n n bs"
  by (induction n arbitrary: bs) (auto split: option.splits)

lemma length_TXN_MAGIC [simp]: "length TXN_MAGIC = 8"
  by (simp add: TXN_MAGIC_def)

lemma decode_encode_body:
  assumes "intent_ok account changes"
  shows "decode_body (encode_body account changes) = Some \<lparr>intent_account = account, intent_changes = changes\<rparr>"
proof -
  have "length changes < 2 ^ 64" using assms by (simp add: intent_ok_def MAX_CHANGES_def)
  then have u: "cursor_u64 (le_bytes 8 (length changes) @ concat (map encode_change changes)) =
      Some (length changes, concat (map encode_change changes))" by (simp add: cursor_u64_def)
  have "cc.dec_n (length changes) (concat (map encode_change changes)) = Some (changes, [])"
    using cc.dec_n_enc [of changes "[]"] assms by (simp add: intent_ok_def)
  with u assms show ?thesis
    by (simp add: decode_body_def encode_body_def intent_ok_def decode_changes_n)
qed

lemma decode_encode:
  assumes "intent_ok account changes"
  shows "decode (encode account changes) = Some \<lparr>intent_account = account, intent_changes = changes\<rparr>"
proof -
  let ?b = "encode_body account changes"
  have "take 8 ?b = TXN_MAGIC" "8 \<le> length ?b" by (simp_all add: encode_body_def)
  moreover have "le_value (le_bytes 4 (unat (crc32c ?b))) = unat (crc32c ?b)"
    by (rule le_value_le_bytes_id) (use unat_less_32 [of "crc32c ?b"] in simp)
  ultimately show ?thesis
    using decode_encode_body [OF assms] by (simp add: decode_def encode_def Let_def)
qed

section \<open>Names\<close>

lemma append_less_iff:
  "length a = length b \<Longrightarrow> a @ x < b @ y \<longleftrightarrow> a < b \<or> a = b \<and> x < y" for a b x y :: str
  by (induction a b rule: list_induct2) auto

lemma padded_digits:
  assumes "n < 10 ^ w" and "0 < w"
  shows "length (pad_left w (show_nat n)) = w" and "digits_value 10 0 (pad_left w (show_nat n)) = Some n"
proof -
  obtain v where w: "w = Suc v" using assms(2) by (cases w) auto
  then have "length (show_nat n) \<le> w" using length_show_radix [of 10 n v] assms(1) by simp
  then show "length (pad_left w (show_nat n)) = w" by (simp add: pad_left_def)
  show "digits_value 10 0 (pad_left w (show_nat n)) = Some n" by (simp add: digits_value_pad digits_value_show)
qed

lemma padded_less_iff:
  assumes "m < 10 ^ w" "n < 10 ^ w" "0 < w"
  shows "pad_left w (show_nat m) < pad_left w (show_nat n) \<longleftrightarrow> m < n" "pad_left w (show_nat m) = pad_left w (show_nat n) \<longleftrightarrow> m = n"
proof -
  note d = padded_digits [OF assms(1,3)] padded_digits [OF assms(2,3)]
  show "pad_left w (show_nat m) < pad_left w (show_nat n) \<longleftrightarrow> m < n" by (rule digits_value_less_iff) (use d in simp_all)
  show "pad_left w (show_nat m) = pad_left w (show_nat n) \<longleftrightarrow> m = n" using d by (metis option.inject)
qed

lemma extension_intent: "extension (intent_name millis seq pid) = Some ''intent''"
  by (simp add: extension_def intent_name_def INTENT_SUFFIX_def Let_def)

section \<open>Properties\<close>

text \<open>
  An intent reads back exactly as it was written: the account, and every change in its order, with
  the file, key, section and record it names.
\<close>

theorem intent_round_trip:
  assumes "intent_ok account changes"
  shows "read_intent (write_intent name account changes log) name = Some \<lparr>intent_account = account, intent_changes = changes\<rparr>"
  using decode_encode [OF assms] by (simp add: read_intent_def write_intent_def)

theorem intent_round_trip_witness:
  "read_intent (write_intent ''1.intent'' ''ACME'' [Change_write ''ORDERS'' ''7'' sample_record, in_dictionary (Change_delete ''ORDERS'' ''X'')] [])
     ''1.intent'' = Some \<lparr>intent_account = ''ACME'', intent_changes =
       [\<lparr>change_file = ''ORDERS'', change_key = ''7'', change_dict = False, change_op = WriteOp sample_record\<rparr>,
        \<lparr>change_file = ''ORDERS'', change_key = ''X'', change_dict = True, change_op = DeleteOp\<rparr>]\<rparr>"
proof -
  have "intent_ok ''ACME'' [Change_write ''ORDERS'' ''7'' sample_record, in_dictionary (Change_delete ''ORDERS'' ''X'')]"
    using sample_entry_ok
    by (simp add: intent_ok_def change_ok_def Change_write_def Change_delete_def in_dictionary_def utf8_valid_ascii MAX_CHANGES_def
        entry_ok_def MAX_DATA_LEN_def)
  from intent_round_trip [OF this] show ?thesis by (simp add: Change_write_def Change_delete_def in_dictionary_def)
qed

text \<open>
  An intent damaged after it was written, in up to four consecutive bytes of its body, is never
  replayed: it does not read as an intent, neither as the set it was nor as another one.
\<close>

theorem damaged_intent_discarded:
  assumes "encode_body account changes = p @ xs @ q" and "length ys = length xs" and "length xs \<le> 4" and "ys \<noteq> xs"
  shows "decode (p @ ys @ q @ le_bytes 4 (unat (crc32c (p @ xs @ q)))) = None"
proof -
  let ?w = "crc32c (p @ xs @ q)" and ?bs = "p @ ys @ q @ le_bytes 4 (unat (crc32c (p @ xs @ q)))"
  have "crc32c (p @ ys @ q) \<noteq> ?w" using crc32c_burst [of ys xs p q] assms(2-4) by auto
  moreover have "take (length ?bs - 4) ?bs = p @ ys @ q" "drop (length ?bs - 4) ?bs = le_bytes 4 (unat ?w)" by simp_all
  moreover have "le_value (le_bytes 4 (unat ?w)) = unat ?w"
    by (rule le_value_le_bytes_id) (use unat_less_32 [of ?w] in simp)
  ultimately show ?thesis by (simp add: decode_def Let_def)
qed

theorem damaged_intent_discarded_witness:
  "decode ((TXN_MAGIC @ le_bytes 8 (length ''ACME'')) @ ''AD'' @ (''ME'' @ le_bytes 8 0) @
     le_bytes 4 (unat (crc32c ((TXN_MAGIC @ le_bytes 8 (length ''ACME'')) @ ''AC'' @ (''ME'' @ le_bytes 8 0))))) = None"
  by (rule damaged_intent_discarded [where account = "''ACME''" and changes = "[]"])
    (simp_all add: encode_body_def put_bytes_def del: le_bytes.simps)

text \<open>
  Intents are replayed in the order they were written: their names sort by the millisecond and
  then by the process's counter.
\<close>

theorem intents_sort_by_age:
  assumes "m < 10 ^ 20" "m' < 10 ^ 20" "s < 10 ^ 10" "s' < 10 ^ 10" and "m < m' \<or> m = m' \<and> s < s'"
  shows "intent_name m s pid < intent_name m' s' pid' \<and>
    fst (pending [(intent_name m' s' pid', x), (intent_name m s pid, y)]) = [intent_name m s pid, intent_name m' s' pid']"
proof -
  have less: "intent_name m s pid < intent_name m' s' pid'"
    unfolding intent_name_def
    using assms padded_digits(1) [of m 20] padded_digits(1) [of m' 20] padded_digits(1) [of s 10] padded_digits(1) [of s' 10]
    by (auto simp: append_less_iff padded_less_iff simp del: append_assoc show_radix.simps)
  moreover from this have "\<not> intent_name m' s' pid' \<le> intent_name m s pid" by (simp add: not_le)
  ultimately show ?thesis by (simp add: pending_def hm_keys_def extension_intent)
qed

theorem intents_sort_by_age_witness: "intent_name 99 7 1 < intent_name 100 3 1"
  using intents_sort_by_age [of 99 100 7 3 1 1] by simp

end
