(* ===== verification/Transact.thy ===== *)
theory Transact
  imports Transaction
begin

text \<open>
  Applying a transaction (\<^verbatim>\<open>db/engine/transaction.rs\<close>) to the files of an account: they are staged in name
  order, the intent is written first, every file flushed, the intent removed last; and the replay of what
  a previous run left in the log. The state is the registered accounts, and for each file of each account its
  table in memory, its directory on disk and what the \<open>DIR\<close> entry says of it; and the log. The locks are taken together and released together, so the
  steps between them are one function. Loading and flushing are those of \<open>Table_Store\<close>; the eviction of
  other tables when the cache is full, and what the engine notes about authorizations afterwards, are
  not part of it.
\<close>

section \<open>State\<close>

type_synonym table_key = "str \<times> str"

record DbState =
  db_accounts :: "str list"
  db_tables :: "(table_key, Table) hashmap"
  db_files :: "(table_key, FileStore) hashmap"
  db_attributes :: "table_key \<Rightarrow> FileAttributes"
  db_log :: directory

text \<open>What the engine is configured with, and what it asks of the file system.\<close>

record Engine =
  records_per_group :: nat
  disk_stamp :: "FileStore \<Rightarrow> TableStamp"
  stamp_after :: "FileStore \<Rightarrow> Table \<Rightarrow> TableStamp"
  io_of_hashfile :: "HashfileError \<Rightarrow> IoError"

datatype Unusable = Refuse | Skip

section \<open>Staging\<close>

definition resolve_table :: "Engine \<Rightarrow> str \<Rightarrow> str \<Rightarrow> DbState \<Rightarrow> unit DbResult \<times> DbState" where
  "resolve_table eng account name db =
     (if account \<notin> set (db_accounts db) then (Err (AccountNotFound account), db)
      else case hm_get (db_files db) (account, name) of
        None \<Rightarrow> (Err (FileNotFound account name), db)
      | Some fs \<Rightarrow>
        if hm_contains (db_tables db) (account, name) then (Ok (), db)
        else (case load_table (disk_stamp eng) fs of
            Inl e \<Rightarrow> (Err (Io (io_of_hashfile eng e)), db)
          | Inr t \<Rightarrow> (Ok (), db\<lparr>db_tables := hm_insert (account, name) t (db_tables db)\<rparr>)))"

definition outside_scope :: "str \<Rightarrow> FileAttributes \<Rightarrow> str option" where
  "outside_scope name attributes =
     (if att_queue attributes \<noteq> None then
        Some (quoted name @ '' is a queue file: its records are minted by ENQUEUE and claimed by DEQUEUE, so a transaction cannot write them'')
      else if is_directory attributes then
        Some (quoted name @ '' is a directory file: each of its records is committed on its own by the write that renames it, so a transaction cannot hold one back until the rest of the set is ready'')
      else None)"

fun stage_names :: "Engine \<Rightarrow> str \<Rightarrow> Unusable \<Rightarrow> str list \<Rightarrow> DbState \<Rightarrow> str list DbResult \<times> DbState" where
  "stage_names eng account unusable [] db = (Ok [], db)"
| "stage_names eng account unusable (name # names) db =
     (case outside_scope name (db_attributes db (account, name)) of
        Some why \<Rightarrow>
          (case unusable of Refuse \<Rightarrow> (Err (TransactionScope why), db) | Skip \<Rightarrow> stage_names eng account unusable names db)
      | None \<Rightarrow>
          (case resolve_table eng account name db of
             (Inl e, db') \<Rightarrow> (case unusable of Refuse \<Rightarrow> (Err e, db') | Skip \<Rightarrow> stage_names eng account unusable names db')
           | (Inr _, db') \<Rightarrow>
               (case stage_names eng account unusable names db' of
                  (Inl e, db'') \<Rightarrow> (Err e, db'') | (Inr files, db'') \<Rightarrow> (Ok (name # files), db''))))"

definition names_of :: "Change list \<Rightarrow> str list" where
  "names_of changes = remdups_adj (sort (map change_file changes))"

definition stage :: "Engine \<Rightarrow> str \<Rightarrow> Change list \<Rightarrow> Unusable \<Rightarrow> DbState \<Rightarrow> str list DbResult \<times> DbState" where
  "stage eng account changes unusable db = stage_names eng account unusable (names_of changes) db"

section \<open>Applying\<close>

definition apply_change :: "Change \<Rightarrow> Table \<Rightarrow> Table" where
  "apply_change c t =
     (case (change_op c, change_dict c) of
        (WriteOp r, False) \<Rightarrow> insert_record (change_key c) r t
      | (WriteOp r, True) \<Rightarrow> mark_dict_dirty (t\<lparr>tbl_dictionary := hm_insert (change_key c) r (tbl_dictionary t)\<rparr>)
      | (DeleteOp, False) \<Rightarrow> snd (remove_record (change_key c) t)
      | (DeleteOp, True) \<Rightarrow> mark_dict_dirty (t\<lparr>tbl_dictionary := hm_remove (change_key c) (tbl_dictionary t)\<rparr>))"

definition apply_to :: "str \<Rightarrow> str list \<Rightarrow> Change \<Rightarrow> (table_key, Table) hashmap \<Rightarrow> (table_key, Table) hashmap" where
  "apply_to account files c tables =
     (if change_file c \<notin> set files then tables
      else case hm_get tables (account, change_file c) of None \<Rightarrow> tables
        | Some t \<Rightarrow> hm_insert (account, change_file c) (apply_change c t) tables)"

fun flush_files :: "Engine \<Rightarrow> str \<Rightarrow> str list \<Rightarrow> DbState \<Rightarrow> (unit DbResult \<times> DbState) option" where
  "flush_files eng account [] db = Some (Ok (), db)"
| "flush_files eng account (name # names) db =
     (case (hm_get (db_tables db) (account, name), hm_get (db_files db) (account, name)) of
        (Some t, Some fs) \<Rightarrow>
          (case flush_locked (records_per_group eng) (stamp_after eng) fs t of
             None \<Rightarrow> None
           | Some (fs', t', outcome) \<Rightarrow>
             let db' = db\<lparr>db_tables := hm_insert (account, name) t' (db_tables db), db_files := hm_insert (account, name) fs' (db_files db)\<rparr>
             in (case outcome of Inl e \<Rightarrow> Some (Err (Io (io_of_hashfile eng e)), db') | Inr _ \<Rightarrow> flush_files eng account names db'))
      | _ \<Rightarrow> flush_files eng account names db)"

definition apply_staged :: "Engine \<Rightarrow> str \<Rightarrow> str list \<Rightarrow> Change list \<Rightarrow> DbState \<Rightarrow> (unit DbResult \<times> DbState) option" where
  "apply_staged eng account files changes db =
     flush_files eng account files (db\<lparr>db_tables := fold (apply_to account files) changes (db_tables db)\<rparr>)"

text \<open>The first change whose target an earlier one has, which the set of targets refuses.\<close>

fun changed_twice :: "(str \<times> str \<times> bool) list \<Rightarrow> Change list \<Rightarrow> Change option" where
  "changed_twice targets [] = None"
| "changed_twice targets (c # cs) =
     (if change_target c \<in> set targets then Some c else changed_twice (change_target c # targets) cs)"

definition refused_set :: "Change list \<Rightarrow> DbError option" where
  "refused_set changes =
     (if changes = [] then Some (InvalidRequest ''A transaction must carry at least one change'')
      else if MAX_CHANGES < length changes then
        Some (TransactionScope (''A transaction may carry at most '' @ show_nat MAX_CHANGES @ '' changes, and this one carries '' @
          show_nat (length changes)))
      else case changed_twice [] changes of
          Some c \<Rightarrow> Some (InvalidRequest (quoted (change_key c) @ '' of file '' @ quoted (change_file c) @
            '' is changed twice in one transaction, and nothing says which change wins''))
        | None \<Rightarrow> None)"

text \<open>The name of the intent comes from the clock.\<close>

definition apply_transaction ::
  "Engine \<Rightarrow> str \<Rightarrow> str \<Rightarrow> Change list \<Rightarrow> DbState \<Rightarrow> (nat DbResult \<times> DbState) option" where
  "apply_transaction eng name account changes db =
     (case refused_set changes of Some e \<Rightarrow> Some (Err e, db)
      | None \<Rightarrow>
        (case stage eng account changes Refuse db of
           (Inl e, db) \<Rightarrow> Some (Err e, db)
         | (Inr files, db) \<Rightarrow>
             (case apply_staged eng account files changes (db\<lparr>db_log := write_intent name account changes (db_log db)\<rparr>) of
                None \<Rightarrow> None
              | Some (Inl e, db) \<Rightarrow> Some (Err e, db)
              | Some (Inr _, db) \<Rightarrow> Some (Ok (length changes), db\<lparr>db_log := remove_intent name (db_log db)\<rparr>))))"

section \<open>Replaying\<close>

definition replay :: "Engine \<Rightarrow> Intent \<Rightarrow> DbState \<Rightarrow> (unit DbResult \<times> DbState) option" where
  "replay eng i db =
     (if intent_account i \<notin> set (db_accounts db) then Some (Ok (), db)
      else case stage eng (intent_account i) (intent_changes i) Skip db of
        (Inl e, db) \<Rightarrow> Some (Err e, db)
      | (Inr files, db) \<Rightarrow> if files = [] then Some (Ok (), db) else apply_staged eng (intent_account i) files (intent_changes i) db)"

fun replay_log :: "Engine \<Rightarrow> str list \<Rightarrow> DbState \<Rightarrow> (unit DbResult \<times> DbState) option" where
  "replay_log eng [] db = Some (Ok (), db)"
| "replay_log eng (path # paths) db =
     (case (case read_intent (db_log db) path of None \<Rightarrow> Some (Ok (), db) | Some i \<Rightarrow> replay eng i db) of
        None \<Rightarrow> None
      | Some (Inl e, db) \<Rightarrow> Some (Err e, db)
      | Some (Inr _, db) \<Rightarrow> replay_log eng paths (db\<lparr>db_log := remove_intent path (db_log db)\<rparr>))"

definition replay_transaction_log :: "Engine \<Rightarrow> DbState \<Rightarrow> (unit DbResult \<times> DbState) option" where
  "replay_transaction_log eng db =
     (case pending (db_log db) of (paths, log) \<Rightarrow> replay_log eng paths (db\<lparr>db_log := log\<rparr>))"

end
