(* ===== verification/Transact_Props.thy ===== *)
theory Transact_Props
  imports Transact
begin

text \<open>
  What a transaction promises (\<open>Transact\<close>): all of its changes or none of them, whatever the disk holds
  when it is completed.
\<close>

section \<open>One change, and a set of them\<close>

definition view :: "bool \<Rightarrow> Table \<Rightarrow> str \<Rightarrow> Record option" where
  "view is_dict t = hm_get (if is_dict then tbl_dictionary t else tbl_records t)"

definition outcome :: "Change \<Rightarrow> Record option" where
  "outcome c = (case change_op c of WriteOp r \<Rightarrow> Some r | DeleteOp \<Rightarrow> None)"

text \<open>The change is visible in the table.\<close>

definition change_seen :: "Change \<Rightarrow> Table \<Rightarrow> bool" where
  "change_seen c t \<longleftrightarrow> view (change_dict c) t (change_key c) = outcome c"

definition apply_changes :: "str \<Rightarrow> Change list \<Rightarrow> Table \<Rightarrow> Table" where
  "apply_changes name changes t = fold apply_change (filter (\<lambda>c. change_file c = name) changes) t"

lemma mark_dict_dirty_view [simp]:
  "tbl_records (mark_dict_dirty t) = tbl_records t" "tbl_dictionary (mark_dict_dirty t) = tbl_dictionary t" "dict_dirty (mark_dict_dirty t)"
  by (simp_all add: mark_dict_dirty_def recheck_index_attributes_def)

lemma apply_change_view:
  "view d (apply_change c t) k = (if d = change_dict c \<and> k = change_key c then outcome c else view d t k)"
  by (cases "change_op c"; cases "change_dict c")
    (auto simp: view_def apply_change_def outcome_def insert_record_def remove_record_def mark_dirty_def Let_def)

lemma apply_change_dirty: "table_is_dirty (apply_change c t)"
  by (cases "change_op c"; cases "change_dict c")
    (auto simp: apply_change_def table_is_dirty_def insert_record_def remove_record_def mark_dirty_def Let_def List.insert_def)

lemma fold_apply_other:
  "\<forall>c \<in> set cs. \<not> (change_dict c = d \<and> change_key c = k) \<Longrightarrow> view d (fold apply_change cs t) k = view d t k"
  by (induction cs arbitrary: t) (auto simp: apply_change_view)

lemma fold_apply_seen:
  assumes "distinct (map (\<lambda>c. (change_key c, change_dict c)) cs)" and "c \<in> set cs"
  shows "change_seen c (fold apply_change cs t)"
  using assms
proof (induction cs arbitrary: t)
  case (Cons c' cs)
  show ?case
  proof (cases "c = c'")
    case True
    with Cons.prems(1) have "\<forall>x \<in> set cs. \<not> (change_dict x = change_dict c \<and> change_key x = change_key c)"
      by (auto simp: image_iff)
    then show ?thesis using True by (simp add: change_seen_def fold_apply_other apply_change_view)
  next
    case False
    with Cons show ?thesis by simp
  qed
qed simp

lemma apply_changes_seen:
  assumes "distinct (map change_target cs)" and "c \<in> set cs"
  shows "change_seen c (apply_changes (change_file c) cs t)"
  unfolding apply_changes_def
proof (rule fold_apply_seen)
  have "distinct (map change_target (filter (\<lambda>x. change_file x = change_file c) cs))"
    using assms(1) by (rule distinct_map_filter)
  then show "distinct (map (\<lambda>x. (change_key x, change_dict x)) (filter (\<lambda>x. change_file x = change_file c) cs))"
    by (auto simp: distinct_map inj_on_def change_target_def)
qed (use assms(2) in simp)

lemma apply_changes_dirty:
  assumes "n \<in> set (map change_file cs)"
  shows "table_is_dirty (apply_changes n cs t)"
proof -
  have "filter (\<lambda>c. change_file c = n) cs \<noteq> []" using assms by (auto simp: filter_empty_conv)
  then obtain xs x where "filter (\<lambda>c. change_file c = n) cs = xs @ [x]" by (metis rev_exhaust)
  then show ?thesis by (simp add: apply_changes_def apply_change_dirty)
qed

lemma changed_twice_None: "changed_twice seen cs = None \<longleftrightarrow> distinct (map change_target cs) \<and> set seen \<inter> change_target ` set cs = {}"
  by (induction cs arbitrary: seen) auto

lemma refused_set_None:
  "refused_set cs = None \<longleftrightarrow> cs \<noteq> [] \<and> length cs \<le> MAX_CHANGES \<and> distinct (map change_target cs)"
  using changed_twice_None [of "[]" cs] by (auto simp: refused_set_def split: option.splits)

lemma remdups_adj_sorted_distinct: "sorted xs \<Longrightarrow> distinct (remdups_adj xs)" for xs :: "'x::linorder list"
  by (induction xs rule: remdups_adj.induct) (auto dest: order.antisym)

lemma set_names_of: "set (names_of cs) = change_file ` set cs" "distinct (names_of cs)"
  by (simp_all add: names_of_def remdups_adj_sorted_distinct)

lemma apply_to_get:
  "hm_get (apply_to account files c tables) (a, n) =
     (if a = account \<and> n \<in> set files \<and> n = change_file c then map_option (apply_change c) (hm_get tables (a, n))
      else hm_get tables (a, n))"
  by (auto simp: apply_to_def split: option.split)

lemma fold_apply_to:
  "hm_get (fold (apply_to account files) cs tables) (a, n) =
     (if a = account \<and> n \<in> set files then map_option (apply_changes n cs) (hm_get tables (a, n)) else hm_get tables (a, n))"
proof (induction cs arbitrary: tables)
  case Nil
  then show ?case by (cases "hm_get tables (a, n)") (auto simp: apply_changes_def)
next
  case (Cons c cs)
  have step: "fold (apply_to account files) (c # cs) tables = fold (apply_to account files) cs (apply_to account files c tables)" by simp
  show ?case
    unfolding step Cons.IH [of "apply_to account files c tables"] apply_to_get
    by (cases "hm_get tables (a, n)") (auto simp: apply_changes_def)
qed

section \<open>Files\<close>

text \<open>A file that loads as the records and dictionary of a table.\<close>

definition file_holds :: "Engine \<Rightarrow> FileStore \<Rightarrow> Table \<Rightarrow> bool" where
  "file_holds eng fs t \<longleftrightarrow> (\<exists>l. load_table (disk_stamp eng) fs = Ok l \<and> (\<forall>d. view d l = view d t))"

lemma flush_locked_holds:
  assumes "table_ready (records_per_group eng) fs t" and "table_is_dirty t"
  shows "\<exists>fs' t'. flush_locked (records_per_group eng) (stamp_after eng) fs t = Some (fs', t', Ok ()) \<and>
    file_holds eng fs' t \<and> (\<forall>d. view d t' = view d t)"
proof -
  obtain fs' t' t1 where fl: "flush_locked (records_per_group eng) (stamp_after eng) fs t = Some (fs', t', Ok ())" "table_stored fs' t1"
    "tbl_records t' = tbl_records t" "tbl_dictionary t' = tbl_dictionary t"
    and t1: "\<exists>m l s. t1 = (rebuild_stale_indexes t)\<lparr>data_meta := m, legacy_data := l, tmp_swept := s\<rparr>"
    using flush_locked_stored [OF assms, of "stamp_after eng"] by blast
  obtain l where "load_table (disk_stamp eng) fs' = Ok l" "hm_get (tbl_records l) = hm_get (tbl_records t1)"
    "hm_get (tbl_dictionary l) = hm_get (tbl_dictionary t1)"
    using load_table_stored [OF fl(2), of "disk_stamp eng"] by blast
  moreover have "tbl_records t1 = tbl_records t" "tbl_dictionary t1 = tbl_dictionary t" using t1 by auto
  ultimately have "file_holds eng fs' t" by (auto simp: file_holds_def view_def)
  with fl show ?thesis by (auto simp: view_def)
qed

text \<open>What flushing a list of files does: each holds its table, every other file is as it was.\<close>

definition files_flushed :: "Engine \<Rightarrow> str \<Rightarrow> str list \<Rightarrow> DbState \<Rightarrow> DbState \<Rightarrow> bool" where
  "files_flushed eng account names db db' \<longleftrightarrow>
     db_log db' = db_log db \<and> db_accounts db' = db_accounts db \<and> db_attributes db' = db_attributes db \<and>
     (\<forall>n \<in> set names. \<forall>t. hm_get (db_tables db) (account, n) = Some t \<longrightarrow>
        (\<exists>fs' t'. hm_get (db_files db') (account, n) = Some fs' \<and> file_holds eng fs' t \<and>
           hm_get (db_tables db') (account, n) = Some t' \<and> (\<forall>d. view d t' = view d t))) \<and>
     (\<forall>key. key \<notin> {account} \<times> set names \<longrightarrow>
        hm_get (db_files db') key = hm_get (db_files db) key \<and> hm_get (db_tables db') key = hm_get (db_tables db) key)"

lemma flush_files_ok:
  assumes "distinct names"
    and "\<And>n. n \<in> set names \<Longrightarrow> \<exists>t fs. hm_get (db_tables db) (account, n) = Some t \<and> hm_get (db_files db) (account, n) = Some fs \<and>
      table_ready (records_per_group eng) fs t \<and> table_is_dirty t"
  shows "\<exists>db'. flush_files eng account names db = Some (Ok (), db') \<and> files_flushed eng account names db db'"
  using assms
proof (induction names arbitrary: db)
  case Nil
  then show ?case by (simp add: files_flushed_def)
next
  case (Cons n names)
  obtain t fs where n: "hm_get (db_tables db) (account, n) = Some t" "hm_get (db_files db) (account, n) = Some fs"
    "table_ready (records_per_group eng) fs t" "table_is_dirty t" using Cons.prems(2) [of n] by auto
  obtain fs' t' where fl: "flush_locked (records_per_group eng) (stamp_after eng) fs t = Some (fs', t', Ok ())"
    "file_holds eng fs' t" "\<forall>d. view d t' = view d t" using flush_locked_holds [OF n(3,4)] by blast
  let ?db = "db\<lparr>db_tables := hm_insert (account, n) t' (db_tables db), db_files := hm_insert (account, n) fs' (db_files db)\<rparr>"
  have notin: "n \<notin> set names" "distinct names" using Cons.prems(1) by simp_all
  have other: "hm_get (db_tables ?db) (account, x) = hm_get (db_tables db) (account, x)"
    "hm_get (db_files ?db) (account, x) = hm_get (db_files db) (account, x)" if "x \<in> set names" for x
    using that notin(1) by auto
  have "\<exists>t fs. hm_get (db_tables ?db) (account, x) = Some t \<and> hm_get (db_files ?db) (account, x) = Some fs \<and>
      table_ready (records_per_group eng) fs t \<and> table_is_dirty t" if "x \<in> set names" for x
    unfolding other [OF that] using Cons.prems(2) that by simp
  from Cons.IH [OF notin(2) this] obtain db' where
    IH: "flush_files eng account names ?db = Some (Ok (), db')" "files_flushed eng account names ?db db'" by blast
  have "flush_files eng account (n # names) db = Some (Ok (), db')" using n(1,2) fl(1) IH(1) by (simp add: Let_def)
  moreover have "files_flushed eng account (n # names) db db'"
  proof -
    have "hm_get (db_files db') (account, n) = Some fs'" "hm_get (db_tables db') (account, n) = Some t'"
      using IH(2) notin(1) by (auto simp: files_flushed_def)
    then have "\<exists>fs' t'. hm_get (db_files db') (account, x) = Some fs' \<and> file_holds eng fs' u \<and>
        hm_get (db_tables db') (account, x) = Some t' \<and> (\<forall>d. view d t' = view d u)"
      if "x \<in> set (n # names)" "hm_get (db_tables db) (account, x) = Some u" for x u
      using that n(1) fl(2,3) IH(2) other(1) by (cases "x = n") (auto simp: files_flushed_def)
    with IH(2) show ?thesis by (auto simp: files_flushed_def)
  qed
  ultimately show ?case by blast
qed

section \<open>Staging\<close>

text \<open>The table a handle leads to: the one in memory, or the one on disk.\<close>

definition staged_table :: "Engine \<Rightarrow> DbState \<Rightarrow> table_key \<Rightarrow> Table option" where
  "staged_table eng db key =
     (case hm_get (db_tables db) key of Some t \<Rightarrow> Some t
      | None \<Rightarrow> (case hm_get (db_files db) key of None \<Rightarrow> None
          | Some fs \<Rightarrow> (case load_table (disk_stamp eng) fs of Inl _ \<Rightarrow> None | Inr t \<Rightarrow> Some t)))"

definition usable :: "Engine \<Rightarrow> DbState \<Rightarrow> str \<Rightarrow> str \<Rightarrow> bool" where
  "usable eng db account name \<longleftrightarrow> account \<in> set (db_accounts db) \<and> outside_scope name (db_attributes db (account, name)) = None \<and>
     hm_contains (db_files db) (account, name) \<and> staged_table eng db (account, name) \<noteq> None"

lemma stage_names_usable:
  assumes "\<forall>n \<in> set names. usable eng db account n"
  shows "\<exists>ts. stage_names eng account u names db = (Ok names, db\<lparr>db_tables := ts\<rparr>) \<and>
    (\<forall>key. hm_get ts key = (if key \<in> {account} \<times> set names then staged_table eng db key else hm_get (db_tables db) key))"
  using assms
proof (induction names arbitrary: db)
  case Nil
  then show ?case by (auto intro: exI [of _ "db_tables db"])
next
  case (Cons n names)
  obtain fs t where n: "account \<in> set (db_accounts db)" "outside_scope n (db_attributes db (account, n)) = None"
    "hm_get (db_files db) (account, n) = Some fs" "staged_table eng db (account, n) = Some t"
    using Cons.prems by (auto simp: usable_def hm_contains_def)
  let ?ts = "if hm_contains (db_tables db) (account, n) then db_tables db else hm_insert (account, n) t (db_tables db)"
  let ?db = "db\<lparr>db_tables := ?ts\<rparr>"
  have r: "resolve_table eng account n db = (Ok (), ?db)"
    using n by (auto simp: resolve_table_def staged_table_def hm_contains_def split: option.splits sum.splits)
  have get: "hm_get (db_tables ?db) key = (if key = (account, n) then staged_table eng db key else hm_get (db_tables db) key)" for key
    using n(4) by (auto simp: staged_table_def hm_contains_def split: option.splits)
  have st: "staged_table eng ?db key = staged_table eng db key" for key
  proof (cases "key = (account, n)")
    case True
    then have "hm_get (db_tables ?db) key = Some t" unfolding get using n(4) by simp
    then show ?thesis using True n(4) by (simp only: staged_table_def [of eng ?db] option.case)
  next
    case False
    then have "hm_get (db_tables ?db) key = hm_get (db_tables db) key" unfolding get by simp
    moreover have "db_files ?db = db_files db" by simp
    ultimately show ?thesis by (simp only: staged_table_def)
  qed
  have "\<forall>x \<in> set names. usable eng ?db account x" using Cons.prems by (simp add: usable_def st)
  from Cons.IH [OF this] obtain ts where IH: "stage_names eng account u names ?db = (Ok names, ?db\<lparr>db_tables := ts\<rparr>)"
    "\<forall>key. hm_get ts key = (if key \<in> {account} \<times> set names then staged_table eng ?db key else hm_get (db_tables ?db) key)" by blast
  have "stage_names eng account u (n # names) db = (Ok (n # names), db\<lparr>db_tables := ts\<rparr>)"
    using IH(1) r n(2) by simp
  moreover have "hm_get ts key = (if key \<in> {account} \<times> set (n # names) then staged_table eng db key else hm_get (db_tables db) key)" for key
    unfolding IH(2) [rule_format] st get by auto
  ultimately show ?case by blast
qed

section \<open>The whole set\<close>

text \<open>Every file of the set can be opened, and takes its part of it within the limits of the format.\<close>

definition set_ready :: "Engine \<Rightarrow> DbState \<Rightarrow> str \<Rightarrow> Change list \<Rightarrow> bool" where
  "set_ready eng db account changes \<longleftrightarrow>
     (\<forall>n \<in> change_file ` set changes. usable eng db account n \<and>
        (\<forall>fs t. hm_get (db_files db) (account, n) = Some fs \<longrightarrow> staged_table eng db (account, n) = Some t \<longrightarrow>
           table_ready (records_per_group eng) fs (apply_changes n changes t)))"

text \<open>Every change of the set is on disk.\<close>

definition set_on_disk :: "Engine \<Rightarrow> DbState \<Rightarrow> str \<Rightarrow> Change list \<Rightarrow> bool" where
  "set_on_disk eng db account changes \<longleftrightarrow>
     (\<forall>c \<in> set changes. \<exists>fs l. hm_get (db_files db) (account, change_file c) = Some fs \<and>
        load_table (disk_stamp eng) fs = Ok l \<and> change_seen c l)"

definition same_elsewhere :: "str \<Rightarrow> Change list \<Rightarrow> DbState \<Rightarrow> DbState \<Rightarrow> bool" where
  "same_elsewhere account changes db db' \<longleftrightarrow>
     (\<forall>key. key \<notin> {account} \<times> change_file ` set changes \<longrightarrow> hm_get (db_files db') key = hm_get (db_files db) key)"

lemma staged_table_log [simp]: "staged_table eng (db\<lparr>db_log := log\<rparr>) = staged_table eng db"
  by (rule ext) (simp add: staged_table_def cong: option.case_cong)

lemma set_ready_log [simp]: "set_ready eng (db\<lparr>db_log := log\<rparr>) account changes = set_ready eng db account changes"
  by (simp add: set_ready_def usable_def)

lemma stage_apply:
  assumes ready: "set_ready eng db account changes" and dist: "distinct (map change_target changes)"
  shows "\<exists>db1. stage eng account changes u db = (Ok (names_of changes), db1) \<and> db_files db1 = db_files db \<and> db_log db1 = db_log db \<and>
    (\<forall>log. \<exists>db2. apply_staged eng account (names_of changes) changes (db1\<lparr>db_log := log\<rparr>) = Some (Ok (), db2) \<and>
      db_log db2 = log \<and> set_on_disk eng db2 account changes \<and> same_elsewhere account changes db db2)"
proof -
  have names: "set (names_of changes) = change_file ` set changes" "distinct (names_of changes)" by (rule set_names_of)+
  have "\<forall>n \<in> set (names_of changes). usable eng db account n" using ready by (simp add: names set_ready_def)
  from stage_names_usable [OF this, of u] obtain ts where
    st: "stage eng account changes u db = (Ok (names_of changes), db\<lparr>db_tables := ts\<rparr>)"
    and ts: "\<forall>key. hm_get ts key = (if key \<in> {account} \<times> set (names_of changes) then staged_table eng db key else hm_get (db_tables db) key)"
    unfolding stage_def by blast
  have "\<exists>db2. apply_staged eng account (names_of changes) changes (db\<lparr>db_tables := ts\<rparr>\<lparr>db_log := log\<rparr>) = Some (Ok (), db2) \<and>
      db_log db2 = log \<and> set_on_disk eng db2 account changes \<and> same_elsewhere account changes db db2" for log
  proof -
    let ?db = "db\<lparr>db_log := log, db_tables := fold (apply_to account (names_of changes)) changes ts\<rparr>"
    have get: "hm_get (db_tables ?db) (account, n) = map_option (apply_changes n changes) (staged_table eng db (account, n))"
      if "n \<in> set (names_of changes)" for n using that ts by (simp add: fold_apply_to)
    have "\<exists>t fs. hm_get (db_tables ?db) (account, n) = Some t \<and> hm_get (db_files ?db) (account, n) = Some fs \<and>
        table_ready (records_per_group eng) fs t \<and> table_is_dirty t" if n: "n \<in> set (names_of changes)" for n
    proof -
      have "usable eng db account n" using ready n unfolding set_ready_def names by blast
      then obtain fs t where "hm_get (db_files db) (account, n) = Some fs" "staged_table eng db (account, n) = Some t"
        by (auto simp: usable_def hm_contains_def)
      moreover from this have "table_ready (records_per_group eng) fs (apply_changes n changes t)"
        using ready n unfolding set_ready_def names by blast
      moreover have "table_is_dirty (apply_changes n changes t)" using n by (intro apply_changes_dirty) (simp add: names)
      ultimately show ?thesis using get [OF n] by simp
    qed
    from flush_files_ok [OF names(2) this] obtain db2 where fl: "flush_files eng account (names_of changes) ?db = Some (Ok (), db2)"
      "files_flushed eng account (names_of changes) ?db db2" by blast
    have "\<exists>fs l. hm_get (db_files db2) (account, change_file c) = Some fs \<and> load_table (disk_stamp eng) fs = Ok l \<and> change_seen c l"
      if c: "c \<in> set changes" for c
    proof -
      have n: "change_file c \<in> set (names_of changes)" using c by (simp add: names)
      then obtain t where "staged_table eng db (account, change_file c) = Some t"
        using ready by (auto simp: set_ready_def names usable_def)
      then have "hm_get (db_tables ?db) (account, change_file c) = Some (apply_changes (change_file c) changes t)"
        using get [OF n] by simp
      then obtain fs' where "hm_get (db_files db2) (account, change_file c) = Some fs'"
        "file_holds eng fs' (apply_changes (change_file c) changes t)"
        using fl(2) n unfolding files_flushed_def by blast
      moreover have "change_seen c (apply_changes (change_file c) changes t)" by (rule apply_changes_seen [OF dist c])
      ultimately show ?thesis by (auto simp: file_holds_def change_seen_def)
    qed
    then have "set_on_disk eng db2 account changes" by (simp add: set_on_disk_def)
    moreover have "same_elsewhere account changes db db2" "db_log db2 = log"
      using fl(2) by (simp_all add: files_flushed_def same_elsewhere_def names)
    ultimately show ?thesis using fl(1) by (simp add: apply_staged_def)
  qed
  with st show ?thesis by (intro exI [of _ "db\<lparr>db_tables := ts\<rparr>"]) simp
qed

lemma stage_names_keeps:
  "stage_names eng account u names db = (r, db') \<Longrightarrow> db_files db' = db_files db \<and> db_log db' = db_log db \<and>
     (\<forall>key t. hm_get (db_tables db) key = Some t \<longrightarrow> hm_get (db_tables db') key = Some t)"
proof (induction names arbitrary: db r db')
  case (Cons n names)
  obtain r1 db1 where r1: "resolve_table eng account n db = (r1, db1)" by (cases "resolve_table eng account n db")
  have k: "db_files db1 = db_files db \<and> db_log db1 = db_log db \<and>
      (\<forall>key t. hm_get (db_tables db) key = Some t \<longrightarrow> hm_get (db_tables db1) key = Some t)"
    using r1 by (auto simp: resolve_table_def hm_contains_def split: if_splits option.splits sum.splits)
  obtain r2 db2 where r2: "stage_names eng account u names db1 = (r2, db2)" by (cases "stage_names eng account u names db1")
  note k2 = Cons.IH [OF r2]
  show ?case
  proof (cases "outside_scope n (db_attributes db (account, n))")
    case None
    then show ?thesis using Cons.prems r1 r2 k k2 by (cases r1; cases r2; cases u) auto
  next
    case (Some why)
    then show ?thesis using Cons by (cases u) auto
  qed
qed simp

section \<open>A small database\<close>

text \<open>One account with one empty file, for the witnesses.\<close>

definition small_engine :: Engine where
  "small_engine = \<lparr>records_per_group = 16, disk_stamp = \<lambda>_. \<lparr>data_modified = None, data_len = 0, dict_modified = None, dict_len = 0\<rparr>,
     stamp_after = \<lambda>_ _. \<lparr>data_modified = None, data_len = 0, dict_modified = None, dict_len = 0\<rparr>,
     io_of_hashfile = \<lambda>_. \<lparr>io_kind = InvalidData, io_message = []\<rparr>\<rparr>"

definition small_db :: "FileStore \<Rightarrow> directory \<Rightarrow> DbState" where
  "small_db fs log = \<lparr>db_accounts = [''ACME''], db_tables = [], db_files = [((''ACME'', ''F''), fs)],
     db_attributes = \<lambda>_. FileAttributes_default, db_log = log\<rparr>"

definition small_set :: "Change list" where
  "small_set = [Change_write ''F'' ''k'' sample_record]"

lemma small_set_ok: "refused_set small_set = None" "intent_ok ''ACME'' small_set"
  using sample_entry_ok
  by (simp_all add: refused_set_None small_set_def MAX_CHANGES_def intent_ok_def change_ok_def Change_write_def utf8_valid_ascii
      entry_ok_def MAX_DATA_LEN_def)

lemma small_set_ready: "set_ready small_engine (small_db FileStore_new log) ''ACME'' small_set"
proof -
  let ?st = "Some (disk_stamp small_engine FileStore_new)"
  have "load_table (disk_stamp small_engine) FileStore_new = Ok (Table_new\<lparr>tbl_stamp := ?st\<rparr>)"
    by (simp add: load_table_def load_records_def load_section_def FileStore_new_def is_hashfile_def hm_contains_def hm.get_empty
        load_indexes_def indexed_fields_def dir_entries_def rebuild_stale_indexes_def Table_new_def List.map_filter_simps)
  then have "staged_table small_engine (small_db FileStore_new log) (''ACME'', ''F'') = Some (Table_new\<lparr>tbl_stamp := ?st\<rparr>)"
    by (simp add: staged_table_def small_db_def hm_get_def)
  moreover have "apply_changes ''F'' small_set t = insert_record ''k'' sample_record t" for t
    by (simp add: apply_changes_def small_set_def Change_write_def apply_change_def)
  ultimately show ?thesis
    using table_ready_stamped(1) [of ?st]
    by (simp add: set_ready_def usable_def small_set_def Change_write_def small_db_def hm_contains_def hm_get_def outside_scope_def
        FileAttributes_default_def is_directory_def small_engine_def)
qed

section \<open>Properties\<close>







text \<open>
  The replay does not tell a file that is gone from a file it cannot read. An intent whose files
  all fail to load, for whatever reason, is removed as if it had been applied: the open succeeds and
  the committed changes are lost.
\<close>

theorem replay_drops_unreadable_files:
  assumes "db_log db = [(intent_name millis seq pid, encode account changes)]" and "intent_ok account changes"
    and "db_tables db = []" and "account \<in> set (db_accounts db)"
    and "\<forall>c \<in> set changes. \<exists>fs err. hm_get (db_files db) (account, change_file c) = Some fs \<and> load_table (disk_stamp eng) fs = Err err"
  shows "replay_transaction_log eng db = Some (Ok (), db\<lparr>db_log := []\<rparr>)"
proof -
  let ?name = "intent_name millis seq pid" and ?i = "\<lparr>intent_account = account, intent_changes = changes\<rparr>"
  have p: "pending (db_log db) = ([?name], db_log db)"
    by (simp add: pending_def assms(1) hm_keys_def extension_intent hm_retain_def)
  have read: "read_intent (db_log db) ?name = Some ?i"
    using decode_encode [OF assms(2)] by (simp add: read_intent_def assms(1) hm_get_def)
  have "stage_names eng account Skip names db = (Ok [], db)" if "set names \<subseteq> change_file ` set changes" for names
    using that
  proof (induction names)
    case (Cons n names)
    then obtain fs err where "hm_get (db_files db) (account, n) = Some fs" "load_table (disk_stamp eng) fs = Err err"
      using assms(5) by force
    then have "resolve_table eng account n db = (Err (Io (io_of_hashfile eng err)), db)"
      using assms(3,4) by (simp add: resolve_table_def hm_contains_def hm.get_empty)
    with Cons show ?case by (simp split: option.split)
  qed simp
  then have "stage eng account changes Skip db = (Ok [], db)" by (simp add: stage_def set_names_of(1))
  then have "replay eng ?i db = Some (Ok (), db)" using assms(4) by (simp add: replay_def)
  moreover have "remove_intent ?name (db_log db) = []" by (simp add: remove_intent_def assms(1) hm_remove_def)
  ultimately show ?thesis using p read by (simp add: replay_transaction_log_def)
qed

theorem replay_drops_unreadable_files_witness:
  "\<exists>fs. replay_transaction_log small_engine (small_db fs [(intent_name 5 0 1, encode ''ACME'' small_set)]) = Some (Ok (), small_db fs [])"
proof -
  let ?fs = "FileStore_new\<lparr>fs_dict := Some (take 10 (frame (''k'', sample_record)))\<rparr>"
  have "read_loop ''dict'' (take 10 (frame (''k'', sample_record))) = Err UnexpectedEof"
    using read_loop_torn [OF sample_entry_ok, of 10 "''dict''"] by (simp add: frame_def Let_def)
  then have "load_table (disk_stamp small_engine) ?fs = Err UnexpectedEof"
    by (simp add: load_table_def load_records_def load_section_def FileStore_new_def is_hashfile_def hm_contains_def hm.get_empty)
  then have "replay_transaction_log small_engine (small_db ?fs [(intent_name 5 0 1, encode ''ACME'' small_set)]) =
      Some (Ok (), (small_db ?fs [(intent_name 5 0 1, encode ''ACME'' small_set)])\<lparr>db_log := []\<rparr>)"
    by (intro replay_drops_unreadable_files [OF _ small_set_ok(2)])
      (simp_all add: small_db_def small_set_def Change_write_def hm_get_def)
  then show ?thesis by (intro exI [of _ ?fs]) (simp add: small_db_def)
qed

text \<open>
  An ordinary write of a key by hand moves the key counter past it; a transaction does not. The
  next keyless write may mint that very key, and stores its record over the one the transaction wrote.
\<close>

theorem transaction_key_overwritten:
  assumes "tbl_autokey t = Some c" and "seq_next c = n" and "now * SUB_MILLISECOND \<le> n" and "n \<le> u64_max"
  shows "\<exists>w t'. write_record_in digest True autokey_file now name None r' False Always
      (apply_change (Change_write name (format_key n) r) t) = (Ok w, t') \<and>
    written_key w = format_key n \<and> minted w \<and>
    hm_get (tbl_records (apply_change (Change_write name (format_key n) r) t)) (format_key n) = Some r \<and>
    hm_get (tbl_records t') (format_key n) = Some r'"
proof -
  let ?t = "apply_change (Change_write name (format_key n) r) t"
  have t: "tbl_autokey ?t = Some c" "hm_get (tbl_records ?t) (format_key n) = Some r"
    using assms(1) by (simp_all add: apply_change_def Change_write_def insert_record_def mark_dirty_def)
  have "fst (mint now c) = n" using assms by (simp add: mint_def Let_def max_def saturating_mul_def)
  then obtain c' where "mint now c = (n, c')" by (cases "mint now c") simp
  then have "choose_key True autokey_file now name None ?t = (Ok (format_key n), ?t\<lparr>tbl_autokey := Some c'\<rparr>)"
    by (simp add: choose_key_def attach_autokey_def t(1) Let_def)
  then show ?thesis
    using t by (simp add: write_record_in_def condition_check_def Let_def insert_record_def mark_dirty_def)
qed

theorem transaction_key_overwritten_witness:
  "\<exists>w t'. write_record_in id True None 0 ''F'' None Record_new False Always
      (apply_change (Change_write ''F'' (format_key 7) sample_record) (Table_new\<lparr>tbl_autokey := Some \<lparr>seq_next = 7, seq_dirty = False\<rparr>\<rparr>)) = (Ok w, t') \<and>
    written_key w = format_key 7 \<and> hm_get (tbl_records t') (format_key 7) = Some Record_new"
  using transaction_key_overwritten [where t = "Table_new\<lparr>tbl_autokey := Some \<lparr>seq_next = 7, seq_dirty = False\<rparr>\<rparr>"
      and c = "\<lparr>seq_next = 7, seq_dirty = False\<rparr>" and n = 7 and now = 0 and digest = id and autokey_file = None
      and name = "''F''" and r' = Record_new and r = sample_record]
  by (fastforce simp: u64_max_def)

end
