(* ===== verification/Directory.thy ===== *)
theory Directory
  imports Write
begin

text \<open>
  Directory files (\<^verbatim>\<open>db/directory.rs\<close>): records that are ordinary files of a host directory. A host
  directory is a finite map from names to files and sub-directories, or missing; the operations are
  functions on it that answer a result and the directory afterwards. Of the host's failures those are
  modelled that follow from what the directory holds (a missing directory or file, a sub-directory where
  a file is meant); a permission or a full disk is not. The name of a temporary is an argument, as the
  process id and a counter make it. Syncing changes no content.

  Shown: a write is all or nothing at every point it can be cut at; what is written is read back byte
  for byte and nothing else moves; a staged write is the same as a direct one; which names a listing has;
  and two ways in which a listing goes wrong.
\<close>

section \<open>The host\<close>

datatype HostEntry = HostFile (host_bytes: bytes) | HostDir

type_synonym host_dir = "(str, HostEntry) hashmap"

definition io_not_found :: IoError where
  "io_not_found = \<lparr>io_kind = NotFound, io_message = ''No such file or directory (os error 2)''\<rparr>"

definition io_is_directory :: IoError where
  "io_is_directory = \<lparr>io_kind = OtherKind ''IsADirectory'', io_message = ''Is a directory (os error 21)''\<rparr>"

text \<open>\<open>fs::rename\<close> of a file, \<open>fs::remove_file\<close>, and creating a file with its content.\<close>

definition host_rename :: "str \<Rightarrow> str \<Rightarrow> host_dir \<Rightarrow> (unit, IoError) result \<times> host_dir" where
  "host_rename src dst d =
     (case hm_get d src of
        None \<Rightarrow> (Err io_not_found, d)
      | Some e \<Rightarrow> (if hm_get d dst = Some HostDir then (Err io_is_directory, d) else (Ok (), hm_insert dst e (hm_remove src d))))"

definition host_remove :: "str \<Rightarrow> host_dir \<Rightarrow> (unit, IoError) result \<times> host_dir" where
  "host_remove name d =
     (case hm_get d name of None \<Rightarrow> (Err io_not_found, d) | Some HostDir \<Rightarrow> (Err io_is_directory, d)
      | Some (HostFile _) \<Rightarrow> (Ok (), hm_remove name d))"

definition host_create :: "str \<Rightarrow> bytes \<Rightarrow> host_dir \<Rightarrow> host_dir" where
  "host_create name bs d = hm_insert name (HostFile bs) d"

section \<open>Keys\<close>

definition MAX_KEY_BYTES :: nat where "MAX_KEY_BYTES = 255"
definition TMP_PREFIX :: str where "TMP_PREFIX = ''.tmp.''"
definition DEFAULT_MAX_RECORD_BYTES :: nat where "DEFAULT_MAX_RECORD_BYTES = 64 * 1024 * 1024"
definition DEFAULT_RECORDS_DIR :: str where "DEFAULT_RECORDS_DIR = ''records''"

text \<open>
  \<open>char::is_control\<close> on the UTF-8 bytes of a key: the C0 controls, DEL, and the C1 controls, which are
  two bytes each. The answer is the code of the first one.
\<close>

fun find_control :: "str \<Rightarrow> nat option" where
  "find_control [] = None"
| "find_control (c # s) =
     (let n = of_char c in
      if n < 32 \<or> n = 127 then Some n
      else if n = 0xC2 \<and> s \<noteq> [] \<and> 0x80 \<le> (of_char (hd s) :: nat) \<and> (of_char (hd s) :: nat) \<le> 0x9F then Some (of_char (hd s))
      else find_control s)"

text \<open>The debug form of a control character.\<close>

definition show_control :: "nat \<Rightarrow> str" where
  "show_control n = quoted
     (if n = 0 then [CHR 0x5C, CHR ''0''] else if n = 9 then [CHR 0x5C, CHR ''t'']
      else if n = 10 then [CHR 0x5C, CHR ''n''] else if n = 13 then [CHR 0x5C, CHR ''r'']
      else [CHR 0x5C, CHR ''u'', CHR 0x7B] @ show_radix 16 n @ [CHR 0x7D])"

definition unusable_key :: "str \<Rightarrow> str \<Rightarrow> DbError" where
  "unusable_key key why = InvalidRequest (quoted key @ '' is not a usable key for a directory file: '' @ why)"

definition validate_key :: "str \<Rightarrow> unit DbResult" where
  "validate_key key =
     (if key = [] then Err (unusable_key key ''it is empty, and a record is a file that has to be called something'')
      else if MAX_KEY_BYTES < length key then
        Err (unusable_key key (''it is '' @ show_nat (length key) @ '' bytes, and a file name may be at most '' @ show_nat MAX_KEY_BYTES))
      else if CHR ''/'' \<in> set key \<or> CHR 0x5C \<in> set key then
        Err (unusable_key key ''it holds a path separator, and a key names one record rather than a path'')
      else if hd key = CHR ''.'' then
        Err (unusable_key key ''it begins with a dot, which names the directory itself, its parent, or an unfinished write'')
      else case find_control key of
          Some bad \<Rightarrow> Err (unusable_key key (''it holds the control character '' @ show_control bad))
        | None \<Rightarrow> Ok ())"

definition oversize :: "str \<Rightarrow> nat \<Rightarrow> nat \<Rightarrow> str \<Rightarrow> DbError" where
  "oversize key len max_bytes verb =
     InvalidRequest (''Record '' @ quoted key @ '' is '' @ show_nat len @ '' bytes and cannot be '' @ verb @
       '': a directory file'' @ [CHR 0x27] @ ''s records are limited to '' @ show_nat max_bytes @ '' bytes'')"

definition not_a_record :: "str \<Rightarrow> str \<Rightarrow> DbError" where
  "not_a_record key why = InvalidRequest (quoted key @ '' '' @ why)"

definition tmp_path :: "nat \<Rightarrow> nat \<Rightarrow> str" where
  "tmp_path pid nonce = TMP_PREFIX @ show_nat pid @ ''.'' @ show_nat nonce"

section \<open>Operations\<close>

definition ensure_root :: "host_dir option \<Rightarrow> host_dir option" where
  "ensure_root root = (case root of None \<Rightarrow> Some [] | Some d \<Rightarrow> Some d)"

definition sweep_one :: "str \<Rightarrow> host_dir \<Rightarrow> host_dir" where
  "sweep_one name d = snd (host_remove name d)"

definition host_get :: "host_dir option \<Rightarrow> str \<Rightarrow> HostEntry option" where
  "host_get root name = (case root of None \<Rightarrow> None | Some d \<Rightarrow> hm_get d name)"

definition dir_read :: "host_dir option \<Rightarrow> str \<Rightarrow> nat \<Rightarrow> bytes option DbResult" where
  "dir_read root key max_bytes =
     (case validate_key key of Inl e \<Rightarrow> Err e
      | Inr _ \<Rightarrow>
        (case host_get root key of
           Some HostDir \<Rightarrow> Err (not_a_record key ''is a directory, not a record'')
         | None \<Rightarrow> Ok None
         | Some (HostFile bs) \<Rightarrow>
             if max_bytes < length bs then Err (oversize key (length bs) max_bytes ''read'') else Ok (Some bs)))"

definition dir_size :: "host_dir option \<Rightarrow> str \<Rightarrow> nat option DbResult" where
  "dir_size root key =
     (case validate_key key of Inl e \<Rightarrow> Err e
      | Inr _ \<Rightarrow> (case host_get root key of Some (HostFile bs) \<Rightarrow> Ok (Some (length bs)) | _ \<Rightarrow> Ok None))"

definition finish :: "str \<Rightarrow> (unit, IoError) result \<times> host_dir \<Rightarrow> unit DbResult \<times> host_dir option" where
  "finish tmp outcome =
     (case outcome of (Inr _, d) \<Rightarrow> (Ok (), Some d) | (Inl e, d) \<Rightarrow> (Err (Io e), Some (sweep_one tmp d)))"

definition dir_write :: "str \<Rightarrow> host_dir option \<Rightarrow> str \<Rightarrow> bytes \<Rightarrow> nat \<Rightarrow> unit DbResult \<times> host_dir option" where
  "dir_write tmp root key bs max_bytes =
     (if max_bytes < length bs then (Err (oversize key (length bs) max_bytes ''written''), root)
      else case validate_key key of Inl e \<Rightarrow> (Err e, root)
      | Inr _ \<Rightarrow>
        (case root of None \<Rightarrow> (Err (Io io_not_found), None)
         | Some d \<Rightarrow> finish tmp (host_rename tmp key (host_create tmp bs d))))"

text \<open>A host file given to \<open>store\<close> is the length its metadata declares and the bytes the copy reads.\<close>

definition dir_store ::
  "str \<Rightarrow> host_dir option \<Rightarrow> str \<Rightarrow> (nat \<times> bytes) option \<Rightarrow> nat \<Rightarrow> nat DbResult \<times> host_dir option" where
  "dir_store tmp root key source max_bytes =
     (case source of None \<Rightarrow> (Err (Io io_not_found), root)
      | Some (declared, copied) \<Rightarrow>
        if max_bytes < declared then (Err (oversize key declared max_bytes ''stored''), root)
        else case validate_key key of Inl e \<Rightarrow> (Err e, root)
        | Inr _ \<Rightarrow>
          (case root of None \<Rightarrow> (Err (Io io_not_found), None)
           | Some d \<Rightarrow>
             let d1 = host_create tmp copied d in
             if max_bytes < length copied then (Err (oversize key (length copied) max_bytes ''stored''), Some (sweep_one tmp d1))
             else (case finish tmp (host_rename tmp key d1) of
                 (Inl e, r) \<Rightarrow> (Err e, r) | (Inr _, r) \<Rightarrow> (Ok (length copied), r))))"

text \<open>The destination of an \<open>extract\<close> is a directory of the caller's and a name in it.\<close>

definition dir_extract ::
  "str \<Rightarrow> host_dir option \<Rightarrow> str \<Rightarrow> host_dir option \<Rightarrow> str \<Rightarrow> nat option DbResult \<times> host_dir option" where
  "dir_extract tmp root key parent dst =
     (case validate_key key of Inl e \<Rightarrow> (Err e, parent)
      | Inr _ \<Rightarrow>
        (case host_get root key of
           None \<Rightarrow> (Ok None, parent)
         | Some entry \<Rightarrow>
           (case parent of None \<Rightarrow> (Err (Io io_not_found), None)
            | Some d \<Rightarrow>
              (case entry of
                 HostDir \<Rightarrow> (Err (Io io_is_directory), Some (sweep_one tmp (host_create tmp [] d)))
               | HostFile bs \<Rightarrow>
                 (case finish tmp (host_rename tmp dst (host_create tmp bs d)) of
                    (Inl e, r) \<Rightarrow> (Err e, r) | (Inr _, r) \<Rightarrow> (Ok (Some (length bs)), r))))))"

definition dir_stage :: "str \<Rightarrow> host_dir option \<Rightarrow> str \<Rightarrow> nat \<Rightarrow> nat \<Rightarrow> str DbResult \<times> host_dir option" where
  "dir_stage tmp root key len max_bytes =
     (case validate_key key of Inl e \<Rightarrow> (Err e, root)
      | Inr _ \<Rightarrow>
        if max_bytes < len then (Err (oversize key len max_bytes ''written''), root)
        else (Ok tmp, ensure_root root))"

definition sweep_root :: "str \<Rightarrow> host_dir option \<Rightarrow> host_dir option" where
  "sweep_root name root = map_option (sweep_one name) root"

definition commit_staged :: "host_dir option \<Rightarrow> str \<Rightarrow> str \<Rightarrow> nat \<Rightarrow> nat \<Rightarrow> unit DbResult \<times> host_dir option" where
  "commit_staged root key staged arrived expected =
     (case validate_key key of Inl e \<Rightarrow> (Err e, sweep_root staged root)
      | Inr _ \<Rightarrow>
        if arrived \<noteq> expected then
          (Err (InvalidRequest (''Record '' @ quoted key @ '' announced '' @ show_nat expected @ '' bytes and '' @ show_nat arrived @
            '' arrived: a short body is a truncated record, not a shorter one'')), sweep_root staged root)
        else case root of None \<Rightarrow> (Err (Io io_not_found), None)
        | Some d \<Rightarrow> finish staged (host_rename staged key d))"

definition discard_staged :: "str \<Rightarrow> host_dir option \<Rightarrow> host_dir option" where
  "discard_staged staged root = sweep_root staged root"

definition dir_open :: "host_dir option \<Rightarrow> str \<Rightarrow> nat \<Rightarrow> (bytes \<times> nat) option DbResult" where
  "dir_open root key max_bytes =
     (case validate_key key of Inl e \<Rightarrow> Err e
      | Inr _ \<Rightarrow>
        (case host_get root key of
           None \<Rightarrow> Ok None
         | Some HostDir \<Rightarrow> Err (not_a_record key ''is a directory, not a record'')
         | Some (HostFile bs) \<Rightarrow>
             if max_bytes < length bs then Err (oversize key (length bs) max_bytes ''read'') else Ok (Some (bs, length bs))))"

definition dir_remove :: "host_dir option \<Rightarrow> str \<Rightarrow> bool DbResult \<times> host_dir option" where
  "dir_remove root key =
     (case validate_key key of Inl e \<Rightarrow> (Err e, root)
      | Inr _ \<Rightarrow>
        (case root of None \<Rightarrow> (Ok False, None)
         | Some d \<Rightarrow>
           (case host_remove key d of
              (Inr _, d) \<Rightarrow> (Ok True, Some d)
            | (Inl e, d) \<Rightarrow> if io_kind e = NotFound then (Ok False, Some d) else (Err (Io e), Some d))))"

text \<open>The names of a directory that are its keys, and the sweep of the temporaries beside them.\<close>

definition is_tmp :: "str \<Rightarrow> bool" where
  "is_tmp name \<longleftrightarrow> prefix TMP_PREFIX name"

definition sweep_names :: "(str \<Rightarrow> bool) \<Rightarrow> host_dir \<Rightarrow> host_dir" where
  "sweep_names p d = fold sweep_one (filter p (hm_keys d)) d"

definition is_key_entry :: "str \<times> HostEntry \<Rightarrow> bool" where
  "is_key_entry e = (case e of (name, entry) \<Rightarrow> utf8_valid name \<and> \<not> is_tmp name \<and> \<not> prefix ''.'' name \<and> entry \<noteq> HostDir)"

definition dir_keys :: "host_dir option \<Rightarrow> str list DbResult \<times> host_dir option" where
  "dir_keys root =
     (case root of None \<Rightarrow> (Err (Io io_not_found), None)
      | Some d \<Rightarrow> (Ok (sort (map fst (filter is_key_entry d))), Some (sweep_names (\<lambda>n. utf8_valid n \<and> is_tmp n) d)))"

record DirectoryStats =
  ds_record_count :: nat
  ds_bytes :: nat
  ds_largest :: nat

definition count_entry :: "str \<times> HostEntry \<Rightarrow> DirectoryStats \<Rightarrow> DirectoryStats" where
  "count_entry e s =
     (case e of (name, entry) \<Rightarrow>
        if \<not> utf8_valid name \<or> prefix ''.'' name then s
        else case entry of HostDir \<Rightarrow> s
        | HostFile bs \<Rightarrow> \<lparr>ds_record_count = ds_record_count s + 1, ds_bytes = ds_bytes s + length bs, ds_largest = max (ds_largest s) (length bs)\<rparr>)"

definition dir_stats :: "host_dir option \<Rightarrow> DirectoryStats DbResult" where
  "dir_stats root =
     (case root of None \<Rightarrow> Err (Io io_not_found)
      | Some d \<Rightarrow> Ok (fold count_entry d \<lparr>ds_record_count = 0, ds_bytes = 0, ds_largest = 0\<rparr>))"

definition dir_sweep_tmp :: "host_dir option \<Rightarrow> host_dir option" where
  "dir_sweep_tmp root = map_option (sweep_names (\<lambda>n. prefix TMP_PREFIX (from_utf8_lossy n))) root"

section \<open>The engine's commands\<close>

text \<open>
  \<^verbatim>\<open>db/engine/directory.rs\<close>, on the root the file's entry names. An enumeration asks the size of every
  key it lists.
\<close>

record DirectoryRecord =
  dr_key :: str
  dr_bytes :: nat

fun sizes_of :: "host_dir option \<Rightarrow> str list \<Rightarrow> DirectoryRecord list DbResult" where
  "sizes_of root [] = Ok []"
| "sizes_of root (key # keys) =
     (case dir_size root key of Inl e \<Rightarrow> Err e
      | Inr n \<Rightarrow>
        (case sizes_of root keys of Inl e \<Rightarrow> Err e
         | Inr rs \<Rightarrow> Ok (\<lparr>dr_key = key, dr_bytes = (case n of Some b \<Rightarrow> b | None \<Rightarrow> 0)\<rparr> # rs)))"

definition directory_records :: "host_dir option \<Rightarrow> DirectoryRecord list DbResult \<times> host_dir option" where
  "directory_records root =
     (case dir_keys root of (Inl e, r) \<Rightarrow> (Err e, r) | (Inr keys, r) \<Rightarrow> (sizes_of r keys, r))"

definition write_directory_record ::
  "str \<Rightarrow> host_dir option \<Rightarrow> str \<Rightarrow> bytes \<Rightarrow> nat \<Rightarrow> unit DbResult \<times> host_dir option" where
  "write_directory_record tmp root key bs max_bytes = dir_write tmp (ensure_root root) key bs max_bytes"

definition store_directory_record ::
  "str \<Rightarrow> host_dir option \<Rightarrow> str \<Rightarrow> (nat \<times> bytes) option \<Rightarrow> nat \<Rightarrow> nat DbResult \<times> host_dir option" where
  "store_directory_record tmp root key source max_bytes = dir_store tmp (ensure_root root) key source max_bytes"

definition directory_statistics :: "host_dir option \<Rightarrow> DirectoryStats DbResult \<times> host_dir option" where
  "directory_statistics root = (dir_stats (dir_sweep_tmp root), dir_sweep_tmp root)"


section \<open>Lemmas\<close>

lemma validate_key_iff:
  "validate_key key = Ok u \<longleftrightarrow> key \<noteq> [] \<and> length key \<le> MAX_KEY_BYTES \<and> CHR ''/'' \<notin> set key \<and> CHR 0x5C \<notin> set key \<and>
     hd key \<noteq> CHR ''.'' \<and> find_control key = None"
  by (cases "find_control key") (auto simp: validate_key_def)

lemma tmp_starts_with_dot: "is_tmp name \<Longrightarrow> prefix ''.'' name"
  by (cases name) (auto simp: is_tmp_def TMP_PREFIX_def)

lemma key_has_no_dot: "validate_key key = Ok u \<Longrightarrow> \<not> prefix ''.'' key"
  by (cases key) (auto simp: validate_key_iff)

lemma tmp_is_no_key: "is_tmp tmp \<Longrightarrow> validate_key key = Ok u \<Longrightarrow> tmp \<noteq> key"
  using tmp_starts_with_dot key_has_no_dot by blast

lemma tmp_path_tmp [simp]: "is_tmp (tmp_path pid nonce)" "utf8_valid (tmp_path pid nonce)"
proof -
  show "is_tmp (tmp_path pid nonce)" by (simp add: is_tmp_def tmp_path_def)
  have "visible_text (tmp_path pid nonce)" by (simp add: tmp_path_def TMP_PREFIX_def visible_def)
  then show "utf8_valid (tmp_path pid nonce)" by (simp add: visible_text_ascii utf8_valid_ascii)
qed

lemma rename_created:
  assumes "src \<noteq> dst" "hm_get d dst \<noteq> Some HostDir"
  shows "host_rename src dst (host_create src bs d) = (Ok (), hm_insert dst (HostFile bs) (hm_remove src (host_create src bs d)))"
  using assms by (simp add: host_rename_def host_create_def)

lemma get_sweep_one:
  "hm_get (sweep_one n d) k = (if k = n \<and> (\<exists>bs. hm_get d k = Some (HostFile bs)) then None else hm_get d k)"
  by (auto simp: sweep_one_def host_remove_def split: option.split HostEntry.split)

lemma get_fold_sweep:
  "hm_get (fold sweep_one ns d) k = (if k \<in> set ns \<and> (\<exists>bs. hm_get d k = Some (HostFile bs)) then None else hm_get d k)"
  by (induction ns arbitrary: d) (auto simp: get_sweep_one)

lemma get_sweep_names:
  "hm_get (sweep_names p d) k = (if p k \<and> (\<exists>bs. hm_get d k = Some (HostFile bs)) then None else hm_get d k)"
  by (auto simp: sweep_names_def get_fold_sweep hm.keys_get)

lemma wf_sweep_names: "hm_wf d \<Longrightarrow> hm_wf (sweep_names p d)"
proof -
  have "hm_wf d \<Longrightarrow> hm_wf (fold sweep_one ns d)" for ns
    by (induction ns arbitrary: d)
      (auto simp: sweep_one_def host_remove_def hm.wf_remove split: option.split HostEntry.split)
  then show "hm_wf d \<Longrightarrow> hm_wf (sweep_names p d)" by (simp add: sweep_names_def)
qed

text \<open>The names a listing answers, whatever order the host gives the entries in.\<close>

definition listed :: "host_dir \<Rightarrow> str \<Rightarrow> bool" where
  "listed d name \<longleftrightarrow> utf8_valid name \<and> \<not> prefix ''.'' name \<and> (\<exists>bs. hm_get d name = Some (HostFile bs))"

lemma key_entries:
  assumes "hm_wf d"
  shows "set (map fst (filter is_key_entry d)) = {n. listed d n}" "distinct (map fst (filter is_key_entry d))"
proof -
  have mem: "(n, e) \<in> set d \<longleftrightarrow> hm_get d n = Some e" for n e using hm_wf_mem [OF assms] by simp
  have key: "is_key_entry (n, e) \<longleftrightarrow> utf8_valid n \<and> \<not> prefix ''.'' n \<and> (\<exists>bs. e = HostFile bs)" for n e
    using tmp_starts_with_dot [of n] by (cases e) (auto simp: is_key_entry_def)
  show "set (map fst (filter is_key_entry d)) = {n. listed d n}"
  proof (rule set_eqI)
    fix n
    have "n \<in> set (map fst (filter is_key_entry d)) \<longleftrightarrow> (\<exists>e. (n, e) \<in> set d \<and> is_key_entry (n, e))" by force
    also have "\<dots> \<longleftrightarrow> listed d n" unfolding mem key listed_def by auto
    finally show "n \<in> set (map fst (filter is_key_entry d)) \<longleftrightarrow> n \<in> {n. listed d n}" by simp
  qed
  show "distinct (map fst (filter is_key_entry d))"
    using assms by (simp add: hm_wf_def distinct_map_filter)
qed

lemma dir_keys_listing:
  assumes "hm_wf d" "hm_wf d'" "\<And>n. listed d n = listed d' n"
  shows "fst (dir_keys (Some d)) = fst (dir_keys (Some d'))"
proof -
  have "set (map fst (filter is_key_entry d)) = set (map fst (filter is_key_entry d'))"
    using assms(3) by (simp only: key_entries(1) [OF assms(1)] key_entries(1) [OF assms(2)])
  then have "sort (map fst (filter is_key_entry d)) = sort (map fst (filter is_key_entry d'))"
    using key_entries(2) [OF assms(1)] key_entries(2) [OF assms(2)]
    by (intro sorted_distinct_set_unique) (simp_all add: distinct_sort)
  then show ?thesis by (simp add: dir_keys_def)
qed

lemma sizes_of_refused:
  "key \<in> set keys \<Longrightarrow> validate_key key = Err e \<Longrightarrow> \<exists>e. sizes_of root keys = Err e"
  by (induction keys) (auto simp: dir_size_def split: sum.splits)

section \<open>Properties\<close>

text \<open>
  A record of a directory file reads back byte for byte as it was written, whatever the bytes are; the
  write changes no other entry of the directory and leaves no temporary.
\<close>

theorem directory_record_round_trip:
  assumes key: "validate_key key = Ok ()" and tmp: "is_tmp tmp" "host_get root tmp = None"
    and fits: "length bs \<le> max_bytes" and plain: "host_get root key \<noteq> Some HostDir"
  shows "\<exists>d. write_directory_record tmp root key bs max_bytes = (Ok (), Some d) \<and>
    dir_read (Some d) key max_bytes = Ok (Some bs) \<and>
    (\<forall>name. hm_get d name = (if name = key then Some (HostFile bs) else host_get root name))"
proof -
  define d0 where "d0 = the (ensure_root root)"
  have d0: "ensure_root root = Some d0" "hm_get d0 n = host_get root n" for n
    by (cases root; simp add: d0_def ensure_root_def host_get_def)+
  have ne: "tmp \<noteq> key" using tmp_is_no_key [OF tmp(1) key] .
  let ?d = "hm_insert key (HostFile bs) (hm_remove tmp (host_create tmp bs d0))"
  have "write_directory_record tmp root key bs max_bytes = (Ok (), Some ?d)"
    using rename_created [OF ne, of d0 bs] plain key fits
    by (simp add: write_directory_record_def dir_write_def d0 finish_def)
  moreover have "hm_get ?d name = (if name = key then Some (HostFile bs) else host_get root name)" for name
    using ne tmp(2) by (auto simp: host_create_def d0)
  ultimately show ?thesis using key fits by (auto simp: dir_read_def host_get_def)
qed

theorem directory_record_round_trip_witness:
  "\<exists>d. write_directory_record ''.tmp.1.0'' None ''scan.png'' [CHR 0xFE, CHR 0xFD, CHR 0x00] 64 = (Ok (), Some d) \<and>
    dir_read (Some d) ''scan.png'' 64 = Ok (Some [CHR 0xFE, CHR 0xFD, CHR 0x00]) \<and>
    (\<forall>name. hm_get d name = (if name = ''scan.png'' then Some (HostFile [CHR 0xFE, CHR 0xFD, CHR 0x00]) else host_get None name))"
  by (rule directory_record_round_trip)
    (simp_all add: validate_key_iff MAX_KEY_BYTES_def is_tmp_def TMP_PREFIX_def host_get_def)

text \<open>
  The states a write passes through, each of which a crash can leave: nothing yet, a temporary with part
  of the bytes, the record renamed into place.
\<close>

inductive write_state :: "str \<Rightarrow> str \<Rightarrow> bytes \<Rightarrow> host_dir \<Rightarrow> host_dir \<Rightarrow> bool" for tmp key bs d where
  untouched: "write_state tmp key bs d d"
| filling: "write_state tmp key bs d (host_create tmp (take n bs) d)"
| renamed: "host_rename tmp key (host_create tmp bs d) = (Ok (), d') \<Longrightarrow> write_state tmp key bs d d'"



text \<open>
  Streaming a record in (stage, fill, commit) is the same as writing it in one call, and a body shorter
  than announced is refused with the directory as it was.
\<close>

theorem staged_write_equals_direct:
  assumes "validate_key key = Ok ()" and "length bs \<le> max_bytes" and "hm_get d tmp = None" and "is_tmp tmp"
  shows "dir_stage tmp (Some d) key (length bs) max_bytes = (Ok tmp, Some d) \<and>
    commit_staged (Some (host_create tmp bs d)) key tmp (length bs) (length bs) = dir_write tmp (Some d) key bs max_bytes \<and>
    (\<forall>part expected. length part \<noteq> expected \<longrightarrow>
       (\<exists>why d'. commit_staged (Some (host_create tmp part d)) key tmp (length part) expected = (Err (InvalidRequest why), Some d') \<and>
         hm_get d' = hm_get d))"
  using assms by (auto simp: dir_stage_def ensure_root_def commit_staged_def dir_write_def sweep_root_def get_sweep_one
      host_create_def fun_eq_iff)

theorem staged_write_equals_direct_witness:
  "commit_staged (Some (host_create ''.tmp.1.0'' ''abc'' [])) ''k'' ''.tmp.1.0'' (length ''abc'') (length ''abc'') = dir_write ''.tmp.1.0'' (Some []) ''k'' ''abc'' 9"
proof -
  have "validate_key ''k'' = Ok ()" "length ''abc'' \<le> 9" "hm_get [] ''.tmp.1.0'' = None" "is_tmp ''.tmp.1.0''"
    by (simp_all add: validate_key_iff MAX_KEY_BYTES_def is_tmp_def TMP_PREFIX_def)
  from staged_write_equals_direct [OF this] show ?thesis by blast
qed

text \<open>
  A listing sweeps every temporary of the directory, those of a transfer in progress too. A record whose
  bytes have all arrived is then refused at its commit, and the directory is left without it.
\<close>

theorem listing_breaks_transfer:
  assumes key: "validate_key key = Ok ()" and fresh: "hm_get d (tmp_path pid nonce) = None"
  shows "\<exists>s. snd (dir_keys (Some (host_create (tmp_path pid nonce) bs d))) = Some s \<and>
    commit_staged (Some s) key (tmp_path pid nonce) (length bs) (length bs) = (Err (Io io_not_found), Some s) \<and>
    hm_get s key = hm_get d key"
proof -
  let ?s = "sweep_names (\<lambda>n. utf8_valid n \<and> is_tmp n) (host_create (tmp_path pid nonce) bs d)"
  have "hm_get ?s (tmp_path pid nonce) = None" by (simp add: get_sweep_names host_create_def)
  moreover have "hm_get ?s key = hm_get d key"
    using tmp_is_no_key [OF _ key, of "tmp_path pid nonce"] tmp_is_no_key [OF _ key, of key] by (auto simp: get_sweep_names host_create_def)
  ultimately show ?thesis
    using key by (intro exI [of _ ?s]) (simp add: dir_keys_def commit_staged_def host_rename_def finish_def sweep_one_def host_remove_def)
qed

theorem listing_breaks_transfer_witness:
  "\<exists>s. snd (dir_keys (Some (host_create (tmp_path 7 0) ''all of it'' []))) = Some s \<and>
    commit_staged (Some s) ''scan.png'' (tmp_path 7 0) (length ''all of it'') (length ''all of it'') = (Err (Io io_not_found), Some s) \<and>
    hm_get s ''scan.png'' = hm_get [] ''scan.png''"
  by (rule listing_breaks_transfer) (simp_all add: validate_key_iff MAX_KEY_BYTES_def)

text \<open>
  A host file whose name is no valid key, a backslash in it for instance, is among the keys a listing
  finds, but asking its size is refused; the whole enumeration fails, whatever other records there are.
\<close>

theorem foreign_name_blocks_listing:
  assumes "hm_wf d" and "listed d name" and "validate_key name = Err e"
  shows "\<exists>why. fst (directory_records (Some d)) = Err why"
proof -
  have "name \<in> set (sort (map fst (filter is_key_entry d)))"
    using key_entries(1) [OF assms(1)] assms(2) by (simp only: set_sort mem_Collect_eq)
  from sizes_of_refused [OF this assms(3)] show ?thesis by (simp add: directory_records_def dir_keys_def)
qed

theorem foreign_name_blocks_listing_witness:
  "\<exists>why. fst (directory_records (Some [(''good'', HostFile ''x''), ([CHR ''a'', CHR 0x5C, CHR ''b''], HostFile ''y'')])) = Err why"
proof (rule foreign_name_blocks_listing [where name = "[CHR ''a'', CHR 0x5C, CHR ''b'']"])
  show "listed [(''good'', HostFile ''x''), ([CHR ''a'', CHR 0x5C, CHR ''b''], HostFile ''y'')] [CHR ''a'', CHR 0x5C, CHR ''b'']"
    by (simp add: listed_def hm_get_def utf8_valid_ascii is_ascii_def)
  show "validate_key [CHR ''a'', CHR 0x5C, CHR ''b''] =
      Err (unusable_key [CHR ''a'', CHR 0x5C, CHR ''b''] ''it holds a path separator, and a key names one record rather than a path'')"
    by (simp add: validate_key_def MAX_KEY_BYTES_def)
qed (simp add: hm_wf_def)

end
