(* ===== verification/Engine_State.thy ===== *)
theory Engine_State
  imports Transact Directory
begin

text \<open>
  The state of a \<open>Database\<close> (\<^verbatim>\<open>db/engine/mod.rs\<close>) and how its operations are written down. An operation is
  a command: it runs on the database and answers a \<open>DbResult\<close> and the database afterwards, or nothing at
  all where a flush inside it does not end. The question mark of the source is \<open>and_then\<close>, a result the
  source throws away is \<open>ignored\<close>. One command is what one thread does while nothing else changes what it
  looks at, so each lock of the source is taken and released inside it; the keys of which some other
  thread holds a handle are an argument where the source counts handles.

  The disk is the directories it has, by path, each with the sections a file's directory can hold. Paths
  are resolved the way the host resolves them when no symbolic link is on the way.
\<close>

section \<open>Paths\<close>

type_synonym path = "str list"

definition push_component :: "str \<Rightarrow> path \<Rightarrow> path" where
  "push_component c stack =
     (if c = [] \<or> c = ''.'' then stack
      else if c = ''..'' then
        (case stack of [] \<Rightarrow> [c] | u # rest \<Rightarrow> if u = ''..'' then c # stack else if u = ''/'' then stack else rest)
      else c # stack)"

definition path_start :: "str \<Rightarrow> path" where
  "path_start s = (if prefix ''/'' s then [''/''] else [])"

definition path_of :: "str \<Rightarrow> path" where
  "path_of s = rev (fold push_component (split_on (CHR ''/'') s) (path_start s))"

text \<open>The directories \<open>create_dir_all\<close> makes: every leading part of the path as it is written.\<close>

definition leading_parts :: "str \<Rightarrow> path list" where
  "leading_parts s = map (\<lambda>n. rev (fold push_component (take n (split_on (CHR ''/'') s)) (path_start s)))
     [1..<Suc (length (split_on (CHR ''/'') s))]"

section \<open>State\<close>

record WriteMark =
  mark_pending :: nat
  mark_flushed :: nat

definition WriteMark_fresh :: "nat \<Rightarrow> WriteMark" where
  "WriteMark_fresh now = \<lparr>mark_pending = 0, mark_flushed = now\<rparr>"

record ClientRegistry =
  reg_certs :: "str list"
  reg_clients :: "(str, ClientInfo) hashmap"
  reg_stamp :: "TableStamp option"

definition ClientRegistry_default :: ClientRegistry where
  "ClientRegistry_default = \<lparr>reg_certs = [], reg_clients = [], reg_stamp = None\<rparr>"

type_synonym disk = "(path, FileStore) hashmap"

record Database =
  storage_dir :: str
  session_account :: str
  accounts_config :: Record
  tables :: "(table_key, Table) hashmap"
  available_tables :: "(str, str list) hashmap"
  available_stamps :: "(str, nat option) hashmap"
  lru_order :: "table_key list"
  clients :: ClientRegistry
  registry_stamp :: "(nat option \<times> nat) option"
  pending_writes :: nat
  last_flush :: nat
  write_marks :: "(table_key, WriteMark) hashmap"
  file_attributes :: "(table_key, FileAttributes) hashmap"
  disk_dirs :: disk
  disk_records :: "(path, host_dir) hashmap"
  disk_registry :: "bytes option"
  disk_certs :: "bytes option"

text \<open>The configuration of a database, and what it asks of the file system and the standard library.\<close>

record Settings =
  cfg_engine :: Engine
  max_loaded :: nat
  durable_writes :: bool
  flush_interval :: nat
  flush_max_pending :: nat
  max_log_records :: nat
  dir_modified :: "path \<Rightarrow> disk \<Rightarrow> nat option"
  file_stamp :: "bytes option \<Rightarrow> nat option \<times> nat"
  to_lowercase :: "str \<Rightarrow> str"

section \<open>Commands\<close>

type_synonym 'a cmd = "Database \<Rightarrow> ('a DbResult \<times> Database) option"

definition ret :: "'a \<Rightarrow> 'a cmd" where "ret x db = Some (Ok x, db)"
definition fail :: "DbError \<Rightarrow> 'a cmd" where "fail e db = Some (Err e, db)"
definition asks :: "(Database \<Rightarrow> 'a) \<Rightarrow> 'a cmd" where "asks f db = Some (Ok (f db), db)"
definition change :: "(Database \<Rightarrow> Database) \<Rightarrow> unit cmd" where "change f db = Some (Ok (), f db)"

definition and_then :: "'a cmd \<Rightarrow> ('a \<Rightarrow> 'b cmd) \<Rightarrow> 'b cmd" where
  "and_then m f db =
     (case m db of None \<Rightarrow> None | Some (Inl e, db') \<Rightarrow> Some (Err e, db') | Some (Inr x, db') \<Rightarrow> f x db')"

definition outcome_of :: "'a cmd \<Rightarrow> 'a DbResult cmd" where
  "outcome_of m db = (case m db of None \<Rightarrow> None | Some (r, db') \<Rightarrow> Some (Ok r, db'))"

definition ignored :: "'a cmd \<Rightarrow> unit cmd" where
  "ignored m = and_then (outcome_of m) (\<lambda>_. ret ())"

definition of_result :: "'a DbResult \<Rightarrow> 'a cmd" where
  "of_result r db = Some (r, db)"

fun for_each :: "'a list \<Rightarrow> ('a \<Rightarrow> unit cmd) \<Rightarrow> unit cmd" where
  "for_each [] f = ret ()"
| "for_each (x # xs) f = and_then (f x) (\<lambda>_. for_each xs f)"

lemma cmd_simps [simp]:
  "ret x db = Some (Ok x, db)" "fail e db = Some (Err e, db)" "asks g db = Some (Ok (g db), db)"
  "change h db = Some (Ok (), h db)" "of_result r db = Some (r, db)"
  by (simp_all add: ret_def fail_def asks_def change_def of_result_def)

lemma and_then_simps [simp]:
  "and_then (ret x) f = f x" "and_then (fail e) f = fail e"
  "and_then (asks g) f db = f (g db) db" "and_then (change h) k db = k () (h db)"
  by (simp_all add: fun_eq_iff and_then_def)

lemma and_then_step:
  "m db = None \<Longrightarrow> and_then m f db = None"
  "m db = Some (Err e, db') \<Longrightarrow> and_then m f db = Some (Err e, db')"
  "m db = Some (Ok x, db') \<Longrightarrow> and_then m f db = f x db'"
  by (simp_all add: and_then_def)

lemma and_then_SomeE:
  assumes "and_then m f db = Some (r, db')"
  obtains (failed) e where "m db = Some (Err e, db')" "r = Err e"
    | (went_on) x db1 where "m db = Some (Ok x, db1)" "f x db1 = Some (r, db')"
  using assms by (auto simp: and_then_def split: option.splits prod.splits sum.splits)

lemma and_then_Ok_iff:
  "and_then m f db = Some (Ok y, db') \<longleftrightarrow> (\<exists>x db1. m db = Some (Ok x, db1) \<and> f x db1 = Some (Ok y, db'))"
  by (auto simp: and_then_def split: option.splits prod.splits sum.splits)

lemma ignored_step: "m db = Some (r, db') \<Longrightarrow> ignored m db = Some (Ok (), db')"
  by (simp add: ignored_def outcome_of_def and_then_def)

text \<open>A property of the state that a command keeps, however it answers.\<close>

definition keeps :: "(Database \<Rightarrow> bool) \<Rightarrow> 'a cmd \<Rightarrow> bool" where
  "keeps P m \<longleftrightarrow> (\<forall>db r db'. P db \<longrightarrow> m db = Some (r, db') \<longrightarrow> P db')"

named_theorems keeps_intro

lemma keepsD: "keeps P m \<Longrightarrow> m db = Some (r, db') \<Longrightarrow> P db \<Longrightarrow> P db'"
  by (auto simp: keeps_def)

lemma keeps_basic [keeps_intro]: "keeps P (ret x)" "keeps P (fail e)" "keeps P (asks g)" "keeps P (of_result r)"
  by (simp_all add: keeps_def)

lemma keeps_change [keeps_intro]: "(\<And>db. P db \<Longrightarrow> P (h db)) \<Longrightarrow> keeps P (change h)"
  by (simp add: keeps_def)

lemma keeps_and_then [keeps_intro]: "keeps P m \<Longrightarrow> (\<And>x. keeps P (f x)) \<Longrightarrow> keeps P (and_then m f)"
  unfolding keeps_def by (metis and_then_SomeE)

lemma keeps_outcome [keeps_intro]: "keeps P m \<Longrightarrow> keeps P (outcome_of m)"
  by (auto simp: keeps_def outcome_of_def split: option.splits)

lemma keeps_ignored [keeps_intro]: "keeps P m \<Longrightarrow> keeps P (ignored m)"
  by (simp add: ignored_def keeps_intro)

lemma keeps_if [keeps_intro]: "(c \<Longrightarrow> keeps P m) \<Longrightarrow> (\<not> c \<Longrightarrow> keeps P n) \<Longrightarrow> keeps P (if c then m else n)"
  by simp

lemma keeps_for_each [keeps_intro]: "(\<And>x. x \<in> set xs \<Longrightarrow> keeps P (f x)) \<Longrightarrow> keeps P (for_each xs f)"
  by (induction xs) (simp_all add: keeps_intro)

lemma for_each_ok:
  assumes "\<And>x db. x \<in> set xs \<Longrightarrow> P db \<Longrightarrow> \<exists>db'. f x db = Some (Ok (), db') \<and> P db'" and "P db"
  shows "\<exists>db'. for_each xs f db = Some (Ok (), db') \<and> P db'"
  using assms
proof (induction xs arbitrary: db)
  case (Cons x xs)
  then obtain db1 where "f x db = Some (Ok (), db1)" "P db1" by (metis list.set_intros(1))
  with Cons show ?case by (simp add: and_then_step)
qed simp

section \<open>Accounts\<close>

fun position_of :: "('a \<Rightarrow> bool) \<Rightarrow> 'a list \<Rightarrow> nat option" where
  "position_of p [] = None"
| "position_of p (x # xs) = (if p x then Some 0 else map_option Suc (position_of p xs))"

definition get_account_dir :: "Database \<Rightarrow> str \<Rightarrow> str option" where
  "get_account_dir db account =
     (case (get_at (rec_fields (accounts_config db)) 0, get_at (rec_fields (accounts_config db)) 1) of
        (Some names, Some dirs) \<Rightarrow>
          (case position_of (\<lambda>v. first_bytes v = account) (field_values names) of
             None \<Rightarrow> None
           | Some pos \<Rightarrow> (case get_at (field_values dirs) pos of None \<Rightarrow> None | Some v \<Rightarrow> first_text v))
      | _ \<Rightarrow> None)"

definition account_storage_dir :: "Database \<Rightarrow> str \<Rightarrow> str" where
  "account_storage_dir db account = (case get_account_dir db account of Some dir \<Rightarrow> dir | None \<Rightarrow> storage_dir db)"

definition file_dir :: "Database \<Rightarrow> str \<Rightarrow> str \<Rightarrow> str" where
  "file_dir db account name = account_storage_dir db account @ ''/'' @ name"

definition file_path :: "Database \<Rightarrow> table_key \<Rightarrow> path" where
  "file_path db key = path_of (file_dir db (fst key) (snd key))"

definition store_at :: "Database \<Rightarrow> path \<Rightarrow> FileStore" where
  "store_at db p = (case hm_get (disk_dirs db) p of Some fs \<Rightarrow> fs | None \<Rightarrow> FileStore_new)"

definition put_store :: "path \<Rightarrow> FileStore \<Rightarrow> Database \<Rightarrow> Database" where
  "put_store p fs db = db\<lparr>disk_dirs := hm_insert p fs (disk_dirs db)\<rparr>"

definition put_table :: "table_key \<Rightarrow> Table \<Rightarrow> Database \<Rightarrow> Database" where
  "put_table key t db = db\<lparr>tables := hm_insert key t (tables db)\<rparr>"

definition create_dir_all :: "str \<Rightarrow> Database \<Rightarrow> Database" where
  "create_dir_all s db =
     db\<lparr>disk_dirs := fold (\<lambda>p d. if hm_contains d p then d else hm_insert p FileStore_new d) (leading_parts s) (disk_dirs db)\<rparr>"

definition remove_dir_all :: "str \<Rightarrow> Database \<Rightarrow> Database" where
  "remove_dir_all s db =
     db\<lparr>disk_dirs := hm_retain (\<lambda>p. \<not> prefix (path_of s) p) (disk_dirs db),
        disk_records := hm_retain (\<lambda>p. \<not> prefix (path_of s) p) (disk_records db)\<rparr>"

text \<open>\<open>load_account_registry\<close> and \<open>refresh_account_registry\<close>, which look at \<^verbatim>\<open>accounts.reg\<close>.\<close>

definition load_account_registry :: "Settings \<Rightarrow> unit cmd" where
  "load_account_registry cfg db =
     (let stamped = db\<lparr>registry_stamp := Some (file_stamp cfg (disk_registry db))\<rparr> in
      case disk_registry db of None \<Rightarrow> Some (Ok (), stamped)
      | Some _ \<Rightarrow>
        (case load_section [] (disk_registry db) ''accounts.reg'' of
           Inl e \<Rightarrow> Some (Err (Io (io_of_hashfile (cfg_engine cfg) e)), db)
         | Inr mp \<Rightarrow>
           (case hm_get mp ''registry'' of None \<Rightarrow> Some (Ok (), stamped)
            | Some r \<Rightarrow> Some (Ok (), stamped\<lparr>accounts_config := r\<rparr>))))"

definition refresh_account_registry :: "Settings \<Rightarrow> unit cmd" where
  "refresh_account_registry cfg db =
     (if registry_stamp db = Some (file_stamp cfg (disk_registry db)) then Some (Ok (), db) else load_account_registry cfg db)"

definition persist_account_registry :: "Settings \<Rightarrow> unit cmd" where
  "persist_account_registry cfg db =
     (let content = flat_content (hm_insert ''registry'' (accounts_config db) [])
      in Some (Ok (), db\<lparr>disk_registry := Some content, registry_stamp := Some (file_stamp cfg (Some content))\<rparr>))"

definition list_accounts :: "Settings \<Rightarrow> str list cmd" where
  "list_accounts cfg = and_then (ignored (refresh_account_registry cfg)) (\<lambda>_.
     asks (\<lambda>db. case get_at (rec_fields (accounts_config db)) 0 of None \<Rightarrow> []
       | Some f \<Rightarrow> remdups_adj (sort (List.map_filter first_text (field_values f)))))"

definition get_account_for_dir :: "Database \<Rightarrow> str \<Rightarrow> str option" where
  "get_account_for_dir db dir =
     (case (get_at (rec_fields (accounts_config db)) 0, get_at (rec_fields (accounts_config db)) 1) of
        (Some names, Some dirs) \<Rightarrow>
          (case position_of (\<lambda>v. first_bytes v = dir) (field_values dirs) of
             None \<Rightarrow> None
           | Some pos \<Rightarrow> (case get_at (field_values names) pos of None \<Rightarrow> None | Some v \<Rightarrow> first_text v))
      | _ \<Rightarrow> None)"

definition current_storage_dir :: "Database \<Rightarrow> str" where
  "current_storage_dir db = account_storage_dir db (session_account db)"

end
