(* ===== verification/Catalog.thy ===== *)
theory Catalog
  imports Engine_State
begin

text \<open>
  The files of an account and the tables in memory (\<^verbatim>\<open>db/engine/cache.rs\<close> and the file commands of
  \<^verbatim>\<open>db/engine/mod.rs\<close>): the listing of an account, which tables are loaded, when one is dropped or
  evicted, when pending changes are written, creating and deleting files, and the \<open>DIR\<close> file that says
  what each file is.
\<close>

section \<open>Listings\<close>

definition scan_names :: "path \<Rightarrow> disk \<Rightarrow> str list" where
  "scan_names dir d =
     map last (filter (\<lambda>p. length p = Suc (length dir) \<and> prefix dir p \<and> utf8_valid (last p) \<and> \<not> prefix ''.'' (last p)) (hm_keys d))"

definition scan_available_tables :: "Settings \<Rightarrow> str \<Rightarrow> unit cmd" where
  "scan_available_tables cfg account =
     and_then (asks (\<lambda>db. get_account_dir db account)) (\<lambda>dir.
     case dir of None \<Rightarrow> fail (AccountNotFound account)
     | Some dir \<Rightarrow> change (\<lambda>db. db\<lparr>
         available_tables := hm_insert account (scan_names (path_of dir) (disk_dirs db)) (available_tables db),
         available_stamps := hm_insert account (dir_modified cfg (path_of dir) (disk_dirs db)) (available_stamps db)\<rparr>))"

definition listing_fresh :: "Settings \<Rightarrow> Database \<Rightarrow> str \<Rightarrow> str \<Rightarrow> bool" where
  "listing_fresh cfg db account dir \<longleftrightarrow> hm_contains (available_tables db) account \<and>
     hm_get (available_stamps db) account = Some (dir_modified cfg (path_of dir) (disk_dirs db))"

definition ensure_available_tables :: "Settings \<Rightarrow> str \<Rightarrow> unit cmd" where
  "ensure_available_tables cfg account =
     and_then (asks (\<lambda>db. get_account_dir db account)) (\<lambda>known.
     and_then (if known = None then ignored (refresh_account_registry cfg) else ret ()) (\<lambda>_.
     and_then (asks (\<lambda>db. map_option (\<lambda>dir. listing_fresh cfg db account dir) (get_account_dir db account))) (\<lambda>fresh.
     case fresh of None \<Rightarrow> fail (AccountNotFound account)
     | Some f \<Rightarrow> if f then ret () else scan_available_tables cfg account)))"

definition listing :: "Database \<Rightarrow> str \<Rightarrow> str list" where
  "listing db account = (case hm_get (available_tables db) account of Some names \<Rightarrow> names | None \<Rightarrow> [])"

definition account_has_table :: "Settings \<Rightarrow> str \<Rightarrow> str \<Rightarrow> bool cmd" where
  "account_has_table cfg account name =
     and_then (outcome_of (ensure_available_tables cfg account)) (\<lambda>r.
     case r of Inl _ \<Rightarrow> ret False | Inr _ \<Rightarrow> asks (\<lambda>db. name \<in> set (listing db account)))"

definition account_tables :: "Settings \<Rightarrow> str \<Rightarrow> str list cmd" where
  "account_tables cfg account = and_then (ensure_available_tables cfg account) (\<lambda>_. asks (\<lambda>db. listing db account))"

definition list_tables_for_account :: "Settings \<Rightarrow> str \<Rightarrow> str list cmd" where
  "list_tables_for_account cfg account =
     and_then (outcome_of (account_tables cfg account)) (\<lambda>r. ret (case r of Inl _ \<Rightarrow> [] | Inr names \<Rightarrow> sort names))"

section \<open>The cache\<close>

definition touch_lru :: "table_key \<Rightarrow> Database \<Rightarrow> Database" where
  "touch_lru key db = db\<lparr>lru_order := remove1 key (lru_order db) @ [key]\<rparr>"

definition forget_lru :: "table_key \<Rightarrow> Database \<Rightarrow> Database" where
  "forget_lru key db = db\<lparr>lru_order := remove1 key (lru_order db)\<rparr>"

definition table_stale :: "Settings \<Rightarrow> Database \<Rightarrow> table_key \<Rightarrow> Table \<Rightarrow> bool" where
  "table_stale cfg db key t \<longleftrightarrow>
     \<not> table_is_dirty t \<and> tbl_stamp t \<noteq> Some (disk_stamp (cfg_engine cfg) (store_at db (file_path db key)))"

definition table_ready_for_read :: "Settings \<Rightarrow> table_key \<Rightarrow> Database \<Rightarrow> bool \<times> Database" where
  "table_ready_for_read cfg key db =
     (case hm_get (tables db) key of None \<Rightarrow> (False, db)
      | Some t \<Rightarrow> if table_stale cfg db key t then (False, db) else (True, touch_lru key db))"

definition invalidate_if_stale :: "Settings \<Rightarrow> table_key list \<Rightarrow> table_key \<Rightarrow> Database \<Rightarrow> Database" where
  "invalidate_if_stale cfg pinned key db =
     (case hm_get (tables db) key of None \<Rightarrow> db
      | Some t \<Rightarrow>
        if table_stale cfg db key t \<and> key \<notin> set pinned
        then forget_lru key (db\<lparr>tables := hm_remove key (tables db)\<rparr>) else db)"

text \<open>Writing out one loaded table, which leaves it as the flush does, whether it ends well or not.\<close>

definition flush_handle :: "Settings \<Rightarrow> table_key \<Rightarrow> unit cmd" where
  "flush_handle cfg key db =
     (case hm_get (tables db) key of None \<Rightarrow> Some (Ok (), db)
      | Some t \<Rightarrow>
        (case flush_locked (records_per_group (cfg_engine cfg)) (stamp_after (cfg_engine cfg)) (store_at db (file_path db key)) t of
           None \<Rightarrow> None
         | Some (fs, t', outcome) \<Rightarrow>
             Some (case outcome of Inl e \<Rightarrow> Err (Io (io_of_hashfile (cfg_engine cfg) e)) | Inr _ \<Rightarrow> Ok (),
               put_store (file_path db key) fs (put_table key t' db))))"

text \<open>Queues somebody holds a record from, and tables somebody holds, stay.\<close>

definition has_claims :: "Table \<Rightarrow> bool" where
  "has_claims t = (case tbl_queue t of None \<Rightarrow> False | Some q \<Rightarrow> 0 < in_flight q)"

fun evict_loop :: "Settings \<Rightarrow> table_key list \<Rightarrow> table_key list \<Rightarrow> table_key list \<Rightarrow> Database
    \<Rightarrow> (table_key list \<times> table_key list \<times> Database) option" where
  "evict_loop cfg pinned lru skipped db =
     (if length (tables db) \<le> max_loaded cfg then Some (lru, skipped, db)
      else case lru of [] \<Rightarrow> Some ([], skipped, db)
      | key # rest \<Rightarrow>
        (case hm_get (tables db) key of None \<Rightarrow> evict_loop cfg pinned rest skipped db
         | Some t \<Rightarrow>
           if key \<in> set pinned \<or> has_claims t then evict_loop cfg pinned rest (skipped @ [key]) db
           else
             (case flush_handle cfg key db of None \<Rightarrow> None
              | Some (_, db') \<Rightarrow> evict_loop cfg pinned rest skipped (db'\<lparr>tables := hm_remove key (tables db')\<rparr>))))"

declare evict_loop.simps [simp del]

definition evict_if_over_budget :: "Settings \<Rightarrow> table_key list \<Rightarrow> unit cmd" where
  "evict_if_over_budget cfg pinned db =
     (if length (tables db) \<le> max_loaded cfg then Some (Ok (), db)
      else case evict_loop cfg pinned (lru_order db) [] db of None \<Rightarrow> None
      | Some (lru, skipped, db') \<Rightarrow> Some (Ok (), db'\<lparr>lru_order := lru @ skipped\<rparr>))"

text \<open>
  \<open>init_data_section\<close> on a file's directory: an intact meta file is kept, an old flat file too, and
  anything else is replaced by an empty section.
\<close>

definition init_data_section :: "nat \<Rightarrow> FileStore \<Rightarrow> (FileStore \<times> (SectionMeta, HashfileError) result) option" where
  "init_data_section per_group fs =
     (case read_meta (fs_data fs) of Some meta \<Rightarrow> Some (fs, Ok meta)
      | None \<Rightarrow>
        if fs_flat fs \<noteq> None then Some (fs, Ok SectionMeta_empty)
        else (case save_with_fsync (fs_data fs) (source_of_map []) SectionMeta_empty None per_group of
            None \<Rightarrow> None | Some (d, r) \<Rightarrow> Some (fs\<lparr>fs_data := d\<rparr>, r)))"

text \<open>The data section made ready and the dictionary created, which truncates one that is there.\<close>

definition init_file :: "Settings \<Rightarrow> str \<Rightarrow> str \<Rightarrow> SectionMeta cmd" where
  "init_file cfg account name db0 =
     (let dir = file_dir db0 account name;
          db = (if hm_contains (disk_dirs db0) (path_of dir) then db0 else create_dir_all dir db0)
      in case init_data_section (records_per_group (cfg_engine cfg)) (store_at db (path_of dir)) of
           None \<Rightarrow> None
         | Some (fs, Inl e) \<Rightarrow> Some (Err (Io (io_of_hashfile (cfg_engine cfg) e)), put_store (path_of dir) fs db)
         | Some (fs, Inr meta) \<Rightarrow> Some (Ok meta, put_store (path_of dir) (fs\<lparr>fs_dict := Some []\<rparr>) db))"

definition load_or_create :: "Settings \<Rightarrow> table_key \<Rightarrow> bool \<Rightarrow> Table cmd" where
  "load_or_create cfg key create_missing db =
     (case load_table (disk_stamp (cfg_engine cfg)) (store_at db (file_path db key)) of
        Inr t \<Rightarrow> Some (Ok t, db)
      | Inl e \<Rightarrow>
        if io_kind (io_of_hashfile (cfg_engine cfg) e) = NotFound \<and> create_missing
        then and_then (init_file cfg (fst key) (snd key)) (\<lambda>meta. ret (Table_new\<lparr>data_meta := meta\<rparr>)) db
        else Some (Err (Io (io_of_hashfile (cfg_engine cfg) e)), db))"

definition resolve_listed :: "Settings \<Rightarrow> table_key list \<Rightarrow> table_key \<Rightarrow> bool \<Rightarrow> unit cmd" where
  "resolve_listed cfg pinned key create_missing =
     and_then (change (invalidate_if_stale cfg pinned key)) (\<lambda>_.
     and_then (asks (\<lambda>db. hm_contains (tables db) key)) (\<lambda>loaded.
     if loaded then change (touch_lru key)
     else
       and_then (load_or_create cfg key create_missing) (\<lambda>t.
       and_then (change (\<lambda>db. touch_lru key (put_table key t db))) (\<lambda>_.
       evict_if_over_budget cfg (key # pinned)))))"

text \<open>\<open>resolve_table\<close> of the cache, which leaves the table in memory.\<close>

definition resolve_cached :: "Settings \<Rightarrow> table_key list \<Rightarrow> str \<Rightarrow> str \<Rightarrow> bool \<Rightarrow> unit cmd" where
  "resolve_cached cfg pinned account name create_missing =
     and_then (ensure_available_tables cfg account) (\<lambda>_.
     and_then (account_has_table cfg account name) (\<lambda>has.
     and_then (if has then ret () else scan_available_tables cfg account) (\<lambda>_.
     and_then (asks (\<lambda>db. name \<in> set (listing db account))) (\<lambda>listed.
     if listed then resolve_listed cfg pinned (account, name) create_missing
     else fail (FileNotFound account name)))))"

definition get_table_mut :: "Settings \<Rightarrow> table_key list \<Rightarrow> str \<Rightarrow> str \<Rightarrow> unit cmd" where
  "get_table_mut cfg pinned account name = resolve_cached cfg pinned account name True"

text \<open>Work under a table's guard, on the table of a handle.\<close>

definition with_table :: "table_key \<Rightarrow> (Table \<Rightarrow> 'a \<times> Table) \<Rightarrow> 'a cmd" where
  "with_table key f db =
     (case hm_get (tables db) key of None \<Rightarrow> None
      | Some t \<Rightarrow> (case f t of (x, t') \<Rightarrow> Some (Ok x, put_table key t' db)))"

section \<open>Authorizations\<close>

definition SYS_CLIENTS_THUMBPRINT_IDX :: nat where "SYS_CLIENTS_THUMBPRINT_IDX = 0"
definition SYS_CLIENTS_ACCOUNTS_IDX :: nat where "SYS_CLIENTS_ACCOUNTS_IDX = 1"
definition SYS_CLIENTS_ADMIN_IDX :: nat where "SYS_CLIENTS_ADMIN_IDX = 2"
definition SYS_CLIENTS_CAPABILITIES_IDX :: nat where "SYS_CLIENTS_CAPABILITIES_IDX = 3"
definition SYS_CLIENTS_EXPIRES_IDX :: nat where "SYS_CLIENTS_EXPIRES_IDX = 4"
definition SYS_CLIENTS_ENQUEUE_IDX :: nat where "SYS_CLIENTS_ENQUEUE_IDX = 5"

definition CLIENTS_KEY :: table_key where "CLIENTS_KEY = (''SYSTEM'', ''$CLIENTS'')"

definition values_at :: "Record \<Rightarrow> nat \<Rightarrow> Value list" where
  "values_at r idx = (case get_at (rec_fields r) idx of None \<Rightarrow> [] | Some f \<Rightarrow> field_values f)"

definition text_at :: "Record \<Rightarrow> nat \<Rightarrow> str option" where
  "text_at r idx = (case values_at r idx of [] \<Rightarrow> None | v # _ \<Rightarrow> first_text v)"

definition push_new :: "'a \<Rightarrow> 'a list \<Rightarrow> 'a list" where
  "push_new x xs = (if x \<in> set xs then xs else xs @ [x])"

definition client_of :: "(str \<Rightarrow> str) \<Rightarrow> str \<Rightarrow> Record \<Rightarrow> ClientInfo option" where
  "client_of lower name r =
     (case text_at r SYS_CLIENTS_THUMBPRINT_IDX of None \<Rightarrow> None
      | Some tp \<Rightarrow> Some \<lparr>
          client_name = name, thumbprint = lower tp,
          allowed_accounts = filter (\<lambda>a. a \<noteq> []) (List.map_filter first_text (values_at r SYS_CLIENTS_ACCOUNTS_IDX)),
          is_admin = (text_at r SYS_CLIENTS_ADMIN_IDX = Some ''Y''),
          capabilities = fold push_new
            (List.map_filter (\<lambda>v. Option.bind (first_text v) capability_parse) (values_at r SYS_CLIENTS_CAPABILITIES_IDX)) [],
          expires_at = (case text_at r SYS_CLIENTS_EXPIRES_IDX of None \<Rightarrow> None
            | Some t \<Rightarrow> if trim t = [] then None else Some (trim t)),
          enqueue_files = fold push_new
            (List.map_filter (\<lambda>v. Option.bind (first_text v) enqueue_grant_parse) (values_at r SYS_CLIENTS_ENQUEUE_IDX)) []\<rparr>)"

definition register_client :: "ClientInfo \<Rightarrow> ClientRegistry \<Rightarrow> ClientRegistry" where
  "register_client c reg = reg\<lparr>reg_clients := hm_insert (thumbprint c) c (reg_clients reg), reg_certs := push_new (thumbprint c) (reg_certs reg)\<rparr>"

definition registry_of :: "(str \<Rightarrow> str) \<Rightarrow> TableStamp \<Rightarrow> (str, Record) hashmap \<Rightarrow> ClientRegistry" where
  "registry_of lower stamp records =
     fold register_client (List.map_filter (\<lambda>(name, r). client_of lower name r) records)
       \<lparr>reg_certs = [], reg_clients = [], reg_stamp = Some stamp\<rparr>"

definition load_clients_from_table :: "Settings \<Rightarrow> table_key list \<Rightarrow> unit cmd" where
  "load_clients_from_table cfg pinned =
     and_then (asks (\<lambda>db. disk_stamp (cfg_engine cfg) (store_at db (file_path db CLIENTS_KEY)))) (\<lambda>stamp.
     and_then (get_table_mut cfg pinned ''SYSTEM'' ''$CLIENTS'') (\<lambda>_.
     and_then (with_table CLIENTS_KEY (\<lambda>t. (tbl_records t, t))) (\<lambda>records.
     change (\<lambda>db. db\<lparr>clients := registry_of (to_lowercase cfg) stamp records\<rparr>))))"

definition client_for_thumbprint :: "Database \<Rightarrow> str \<Rightarrow> ClientInfo option" where
  "client_for_thumbprint db tp = hm_get (reg_clients (clients db)) tp"

definition refresh_clients_if_stale :: "Settings \<Rightarrow> table_key list \<Rightarrow> unit cmd" where
  "refresh_clients_if_stale cfg pinned =
     and_then (ignored (refresh_account_registry cfg)) (\<lambda>_.
     and_then (asks (\<lambda>db. get_account_dir db ''SYSTEM'' = None \<or>
       reg_stamp (clients db) = Some (disk_stamp (cfg_engine cfg) (store_at db (file_path db CLIENTS_KEY))))) (\<lambda>current.
     if current then ret () else load_clients_from_table cfg pinned))"

section \<open>Writing out\<close>

definition loaded_dirty :: "Database \<Rightarrow> table_key \<Rightarrow> bool" where
  "loaded_dirty db key = (case hm_get (tables db) key of None \<Rightarrow> False | Some t \<Rightarrow> table_is_dirty t)"

definition flush_dirty :: "Settings \<Rightarrow> table_key \<Rightarrow> unit cmd" where
  "flush_dirty cfg key = and_then (asks (\<lambda>db. loaded_dirty db key)) (\<lambda>dirty. if dirty then flush_handle cfg key else ret ())"

definition save :: "Settings \<Rightarrow> table_key list \<Rightarrow> nat \<Rightarrow> unit cmd" where
  "save cfg pinned now =
     and_then (asks (\<lambda>db. (hm_keys (tables db), loaded_dirty db CLIENTS_KEY))) (\<lambda>(snapshot, clients_updated).
     and_then (for_each snapshot (flush_dirty cfg)) (\<lambda>_.
     and_then (change (\<lambda>db. db\<lparr>pending_writes := 0, write_marks := [], last_flush := now\<rparr>)) (\<lambda>_.
     if clients_updated then load_clients_from_table cfg pinned else ret ())))"

definition has_pending_writes :: "Database \<Rightarrow> bool" where
  "has_pending_writes db = list_ex (\<lambda>(_, t). table_is_dirty t) (tables db)"

definition pending_write_count :: "Database \<Rightarrow> nat" where
  "pending_write_count db = pending_writes db + sum_list (map (mark_pending \<circ> snd) (write_marks db))"

definition note_write :: "Settings \<Rightarrow> table_key list \<Rightarrow> nat \<Rightarrow> unit cmd" where
  "note_write cfg pinned now =
     (if durable_writes cfg then save cfg pinned now
      else
        and_then (change (\<lambda>db. db\<lparr>pending_writes := pending_writes db + 1\<rparr>)) (\<lambda>_.
        and_then (asks (\<lambda>db. flush_max_pending cfg \<le> pending_writes db \<or> flush_interval cfg \<le> now - last_flush db)) (\<lambda>due.
        if due then save cfg pinned now else ret ())))"

definition flush_table :: "Settings \<Rightarrow> table_key list \<Rightarrow> nat \<Rightarrow> table_key \<Rightarrow> unit cmd" where
  "flush_table cfg pinned now key =
     and_then (asks (\<lambda>db. loaded_dirty db key)) (\<lambda>dirty.
     and_then (if dirty then
         and_then (flush_handle cfg key) (\<lambda>_. if key = CLIENTS_KEY then load_clients_from_table cfg pinned else ret ())
       else ret ()) (\<lambda>_.
     change (\<lambda>db. db\<lparr>write_marks := hm_insert key (WriteMark_fresh now) (write_marks db)\<rparr>)))"

definition flush_if_due :: "Settings \<Rightarrow> table_key list \<Rightarrow> nat \<Rightarrow> bool cmd" where
  "flush_if_due cfg pinned now =
     and_then (asks (\<lambda>db. pending_write_count db = 0 \<and> \<not> has_pending_writes db \<or> now - last_flush db < flush_interval cfg)) (\<lambda>idle.
     if idle then ret False else and_then (save cfg pinned now) (\<lambda>_. ret True))"

section \<open>What a file is\<close>

definition file_attributes_for_account :: "Settings \<Rightarrow> table_key list \<Rightarrow> str \<Rightarrow> str \<Rightarrow> FileAttributes cmd" where
  "file_attributes_for_account cfg pinned account name =
     and_then (asks (\<lambda>db. hm_get (file_attributes db) (account, name))) (\<lambda>cached.
     case cached of Some a \<Rightarrow> ret a
     | None \<Rightarrow>
       and_then (if name = ''DIR'' then ret False else account_has_table cfg account ''DIR'') (\<lambda>has_dir.
       and_then (if has_dir then
           and_then (outcome_of (get_table_mut cfg pinned account ''DIR'')) (\<lambda>r.
           case r of Inl _ \<Rightarrow> ret FileAttributes_default
           | Inr _ \<Rightarrow> with_table (account, ''DIR'') (\<lambda>t.
               (case hm_get (tbl_records t) name of Some rec \<Rightarrow> attributes_of rec | None \<Rightarrow> FileAttributes_default, t)))
         else ret FileAttributes_default) (\<lambda>a.
       and_then (change (\<lambda>db. db\<lparr>file_attributes := hm_insert (account, name) a (file_attributes db)\<rparr>)) (\<lambda>_.
       ret a))))"

definition is_table_durable_for_account :: "Settings \<Rightarrow> table_key list \<Rightarrow> str \<Rightarrow> str \<Rightarrow> bool cmd" where
  "is_table_durable_for_account cfg pinned account name =
     (if durable_writes cfg then ret True
      else and_then (file_attributes_for_account cfg pinned account name) (\<lambda>a. ret (durable a)))"

definition bump_mark :: "table_key \<Rightarrow> nat \<Rightarrow> Database \<Rightarrow> Database" where
  "bump_mark key now db =
     (let m = (case hm_get (write_marks db) key of Some m \<Rightarrow> m | None \<Rightarrow> WriteMark_fresh now)
      in db\<lparr>write_marks := hm_insert key (m\<lparr>mark_pending := mark_pending m + 1\<rparr>) (write_marks db)\<rparr>)"

definition mark_due :: "Settings \<Rightarrow> table_key \<Rightarrow> nat \<Rightarrow> Database \<Rightarrow> bool" where
  "mark_due cfg key now db =
     (case hm_get (write_marks db) key of None \<Rightarrow> False
      | Some m \<Rightarrow> flush_max_pending cfg \<le> mark_pending m \<or> flush_interval cfg \<le> now - mark_flushed m)"

definition note_write_for :: "Settings \<Rightarrow> table_key list \<Rightarrow> nat \<Rightarrow> str \<Rightarrow> str \<Rightarrow> unit cmd" where
  "note_write_for cfg pinned now account name =
     and_then (is_table_durable_for_account cfg pinned account name) (\<lambda>is_durable.
     if is_durable then save cfg pinned now
     else
       and_then (change (bump_mark (account, name) now)) (\<lambda>_.
       and_then (asks (mark_due cfg (account, name) now)) (\<lambda>due.
       if due then flush_table cfg pinned now (account, name) else ret ())))"

definition list_tables_with_attributes_for_account ::
  "Settings \<Rightarrow> table_key list \<Rightarrow> str \<Rightarrow> (str \<times> FileAttributes) list cmd" where
  "list_tables_with_attributes_for_account cfg pinned account =
     and_then (list_tables_for_account cfg account) (\<lambda>names.
     fold (\<lambda>name m. and_then m (\<lambda>out.
         and_then (file_attributes_for_account cfg pinned account name) (\<lambda>a.
         ret (out @ [(name, a\<lparr>durable := durable a \<or> durable_writes cfg\<rparr>)])))) names (ret []))"

section \<open>The listing file\<close>

definition add_entry :: "str \<times> str \<Rightarrow> Table \<Rightarrow> Table" where
  "add_entry e t =
     (if hm_contains (tbl_dictionary t) (fst e) then t
      else mark_dict_dirty (t\<lparr>tbl_dictionary := hm_insert (fst e) (from_display_string (snd e)) (tbl_dictionary t)\<rparr>))"

definition dir_entries_of_listing :: "(str \<times> str) list" where
  "dir_entries_of_listing =
     [(''TYPE'', ''1^TYPE^L^1''), (''DURABLE'', ''2^DURABLE^L^7''), (''QUEUE'', ''3^QUEUE^L^5''),
      (''QUEUE.TIMEOUT'', ''4^TIMEOUT^R^7''), (''QUEUE.RETRIES'', ''5^RETRIES^R^7''), (''PATH'', ''6^PATH^L^40'')]"

definition ensure_dir_dictionary :: "Table \<Rightarrow> Table" where
  "ensure_dir_dictionary t = fold add_entry dir_entries_of_listing t"

definition default_entries :: "str \<Rightarrow> (str \<times> str) list" where
  "default_entries name =
     (if name = ''$LOGS'' then [(''MESSAGE'', ''1^MESSAGE^L^60''), (''DETAIL'', ''2^DETAIL^L^40'')]
      else if name = ''$ACCOUNTS'' then [(''PATH'', ''1^PATH^L^50'')]
      else if name = ''$CLIENTS'' then
        [(''THUMBPRINT'', ''1^THUMBPRINT^L^64''), (''ACCOUNTS'', ''2^ACCOUNTS^L^30''), (''ADMIN'', ''3^ADMIN^L^5''),
         (''CAPABILITIES'', ''4^CAPABILITIES^L^40''), (''EXPIRES'', ''5^EXPIRES^L^20'')]
      else if name = ''$SAVEDLISTS'' then [(''TABLE'', ''1^TABLE^L^20''), (''IS_DICT'', ''2^IS_DICT^L^1'')]
      else if name = ''DIR'' then [(''TYPE'', ''1^TYPE^L^1''), (''DURABLE'', ''2^DURABLE^L^7'')]
      else [])"

text \<open>The table is looked for in the session's account.\<close>

definition ensure_default_dictionaries :: "Settings \<Rightarrow> table_key list \<Rightarrow> str \<Rightarrow> bool cmd" where
  "ensure_default_dictionaries cfg pinned name =
     and_then (asks session_account) (\<lambda>account.
     and_then (get_table_mut cfg pinned account name) (\<lambda>_.
     with_table (account, name) (\<lambda>t.
       let missing = filter (\<lambda>e. \<not> hm_contains (tbl_dictionary t) (fst e)) (default_entries name)
       in (missing \<noteq> [],
           if missing = [] then t
           else mark_dict_dirty (t\<lparr>tbl_dictionary :=
             fold (\<lambda>e d. hm_insert (fst e) (from_display_string (snd e)) d) missing (tbl_dictionary t)\<rparr>)))))"

definition rebuilt_listing :: "(str, Record) hashmap \<Rightarrow> str list \<Rightarrow> (str, Record) hashmap" where
  "rebuilt_listing old names =
     fold (\<lambda>name m. if name = ''DIR'' then m
       else hm_insert name (attributes_to_record (case hm_get old name of Some r \<Rightarrow> attributes_of r | None \<Rightarrow> FileAttributes_default)) m)
       names []"

definition sync_dir_file_for_account :: "Settings \<Rightarrow> table_key list \<Rightarrow> str \<Rightarrow> unit cmd" where
  "sync_dir_file_for_account cfg pinned account =
     and_then (list_tables_for_account cfg account) (\<lambda>names.
     and_then (get_table_mut cfg pinned account ''DIR'') (\<lambda>_.
     with_table (account, ''DIR'') (\<lambda>t. ((), touch_all (t\<lparr>tbl_records := rebuilt_listing (tbl_records t) names\<rparr>)))))"

section \<open>Creating and deleting\<close>

definition listed_dirs :: "Database \<Rightarrow> str \<Rightarrow> str \<Rightarrow> Database" where
  "listed_dirs db account name = db\<lparr>available_tables := hm_insert account (listing db account @ [name]) (available_tables db)\<rparr>"

text \<open>The first part of \<open>create_table_for_account\<close>, up to the listing; it answers whether there is a \<open>DIR\<close>.\<close>

definition create_listed :: "Settings \<Rightarrow> str \<Rightarrow> str \<Rightarrow> bool cmd" where
  "create_listed cfg account name =
     (if account = [] then fail NoAccount
      else
        and_then (ensure_available_tables cfg account) (\<lambda>_.
        and_then (init_file cfg account name) (\<lambda>_.
        and_then (asks (\<lambda>db. name \<in> set (listing db account))) (\<lambda>exists.
        if exists then fail (FileExists account name)
        else
          and_then (change (\<lambda>db. listed_dirs db account name)) (\<lambda>_.
          asks (\<lambda>db. ''DIR'' \<in> set (listing db account)))))))"

text \<open>Its last part, the entries of the new file's dictionary.\<close>

definition default_dictionary :: "Settings \<Rightarrow> table_key list \<Rightarrow> str \<Rightarrow> str \<Rightarrow> unit cmd" where
  "default_dictionary cfg pinned account name =
     (if account = ''SYSTEM'' \<and> (prefix ''$'' name \<or> name = ''DIR'') then ignored (ensure_default_dictionaries cfg pinned name)
      else if name = ''DIR'' then
        and_then (outcome_of (get_table_mut cfg pinned account ''DIR'')) (\<lambda>r.
        case r of Inl _ \<Rightarrow> ret () | Inr _ \<Rightarrow> with_table (account, ''DIR'') (\<lambda>t. ((), ensure_dir_dictionary t)))
      else ret ())"

definition create_dir_table :: "Settings \<Rightarrow> table_key list \<Rightarrow> str \<Rightarrow> unit cmd" where
  "create_dir_table cfg pinned account =
     and_then (create_listed cfg account ''DIR'') (\<lambda>_. default_dictionary cfg pinned account ''DIR'')"

definition ensure_dir_file_for_account :: "Settings \<Rightarrow> table_key list \<Rightarrow> str \<Rightarrow> unit cmd" where
  "ensure_dir_file_for_account cfg pinned account =
     and_then (account_has_table cfg account ''DIR'') (\<lambda>has.
     if has then ret ()
     else and_then (create_dir_table cfg pinned account) (\<lambda>_. sync_dir_file_for_account cfg pinned account))"

definition create_table_for_account :: "Settings \<Rightarrow> table_key list \<Rightarrow> str \<Rightarrow> str \<Rightarrow> unit cmd" where
  "create_table_for_account cfg pinned account name =
     (if name = ''DIR'' then create_dir_table cfg pinned account
      else
        and_then (create_listed cfg account name) (\<lambda>has_dir.
        and_then (ignored (if has_dir then sync_dir_file_for_account cfg pinned account
          else ensure_dir_file_for_account cfg pinned account)) (\<lambda>_.
        default_dictionary cfg pinned account name)))"

definition delete_table_for_account :: "Settings \<Rightarrow> str \<Rightarrow> str \<Rightarrow> unit cmd" where
  "delete_table_for_account cfg account name =
     (if account = [] then fail NoAccount
      else
        and_then (account_has_table cfg account name) (\<lambda>has.
        if \<not> has then fail (FileNotFound account name)
        else
          change (\<lambda>db. remove_dir_all (file_dir db account name) (forget_lru (account, name) (db\<lparr>
            tables := hm_remove (account, name) (tables db),
            file_attributes := hm_remove (account, name) (file_attributes db),
            available_tables := (case hm_get (available_tables db) account of None \<Rightarrow> available_tables db
              | Some names \<Rightarrow> hm_insert account (removeAll name names) (available_tables db))\<rparr>)))))"

text \<open>Attaching or dropping the queue of a file whose entry changed, on its state files and its table.\<close>

definition reattach_queue :: "bool \<Rightarrow> directory \<Rightarrow> Table option \<Rightarrow> directory \<times> Table option" where
  "reattach_queue is_queue d t =
     (let d = (if is_queue then d else queue_remove_state d) in
      (d, map_option (\<lambda>t.
        case (is_queue, tbl_queue t) of
          (True, None) \<Rightarrow>
            t\<lparr>tbl_queue := Some (attach (tbl_records t) (case queue_read_state d of Some p \<Rightarrow> p | None \<Rightarrow> PersistedQueue_default))\<rparr>
        | (False, Some _) \<Rightarrow> t\<lparr>tbl_queue := None\<rparr>
        | _ \<Rightarrow> t) t))"

definition reattach :: "table_key \<Rightarrow> (directory \<Rightarrow> Table option \<Rightarrow> directory \<times> Table option) \<Rightarrow> Database \<Rightarrow> Database" where
  "reattach key f db =
     (let p = file_path db key; fs = store_at db p in
      case f (fs_state fs) (hm_get (tables db) key) of (d, t) \<Rightarrow>
        let db = (if hm_contains (disk_dirs db) p then put_store p (fs\<lparr>fs_state := d\<rparr>) db else db)
        in (case t of None \<Rightarrow> db | Some t \<Rightarrow> put_table key t db))"

definition set_file_attributes_for_account ::
  "Settings \<Rightarrow> table_key list \<Rightarrow> nat \<Rightarrow> str \<Rightarrow> str \<Rightarrow> FileAttributes \<Rightarrow> str \<Rightarrow> unit cmd" where
  "set_file_attributes_for_account cfg pinned now account name attributes what =
     (if account = [] then fail NoAccount
      else
        and_then (account_has_table cfg account name) (\<lambda>has.
        if \<not> has then fail (FileNotFound account name)
        else if name = ''DIR'' then
          fail (InvalidRequest (''The DIR file'' @ [CHR 0x27] @ ''s '' @ what @
            '' is not settable: it carries the other files'' @ [CHR 0x27] @ '' attributes rather than one of its own''))
        else
          and_then (ensure_dir_file_for_account cfg pinned account) (\<lambda>_.
          and_then (get_table_mut cfg pinned account ''DIR'') (\<lambda>_.
          and_then (with_table (account, ''DIR'') (\<lambda>t. ((), ensure_dir_dictionary (insert_record name (attributes_to_record attributes) t)))) (\<lambda>_.
          and_then (change (\<lambda>db. db\<lparr>file_attributes := hm_insert (account, name) attributes (file_attributes db)\<rparr>)) (\<lambda>_.
          and_then (change (reattach (account, name) (reattach_queue (att_queue attributes \<noteq> None)))) (\<lambda>_.
          and_then (change (reattach (account, name) (reattach_autokey (autokey attributes)))) (\<lambda>_.
          save cfg pinned now))))))))"

definition directory_root_from :: "Database \<Rightarrow> str \<Rightarrow> str \<Rightarrow> DirectoryPolicy \<Rightarrow> str" where
  "directory_root_from db account name policy =
     (case explicit_path policy of Some path \<Rightarrow> path | None \<Rightarrow> file_dir db account name @ ''/'' @ DEFAULT_RECORDS_DIR)"

definition make_records_dir :: "str \<Rightarrow> Database \<Rightarrow> Database" where
  "make_records_dir s db =
     (if hm_contains (disk_records db) (path_of s) then db else db\<lparr>disk_records := hm_insert (path_of s) [] (disk_records db)\<rparr>)"

definition create_table_with ::
  "Settings \<Rightarrow> table_key list \<Rightarrow> nat \<Rightarrow> str \<Rightarrow> str \<Rightarrow> FileAttributes \<Rightarrow> unit cmd" where
  "create_table_with cfg pinned now account name attributes =
     and_then (create_table_for_account cfg pinned account name) (\<lambda>_.
     and_then (case att_directory attributes of None \<Rightarrow> ret ()
       | Some policy \<Rightarrow> change (\<lambda>db. make_records_dir (directory_root_from db account name policy) db)) (\<lambda>_.
     if attributes = FileAttributes_default then ret ()
     else set_file_attributes_for_account cfg pinned now account name attributes ''attributes''))"

definition set_table_durable_for_account :: "Settings \<Rightarrow> table_key list \<Rightarrow> nat \<Rightarrow> str \<Rightarrow> str \<Rightarrow> bool \<Rightarrow> unit cmd" where
  "set_table_durable_for_account cfg pinned now account name is_durable =
     and_then (file_attributes_for_account cfg pinned account name) (\<lambda>a.
     set_file_attributes_for_account cfg pinned now account name (a\<lparr>durable := is_durable\<rparr>) ''durability'')"

end
