(* ===== verification/Catalog_Props.thy ===== *)
theory Catalog_Props
  imports Catalog Transact_Props
begin

text \<open>
  What the cache and the file commands promise: which tables an eviction may drop and what it leaves of
  them on disk, when a pending change is written, and what creating and deleting a file does to the files
  that are there.
\<close>

declare split_paired_All [simp del] split_paired_Ex [simp del]

section \<open>Listings\<close>

lemma ensure_available_known:
  "get_account_dir db account = Some dir \<Longrightarrow> listing_fresh cfg db account dir \<Longrightarrow>
    ensure_available_tables cfg account db = Some (Ok (), db)"
  by (simp add: ensure_available_tables_def)

lemma account_has_table_known:
  "get_account_dir db account = Some dir \<Longrightarrow> listing_fresh cfg db account dir \<Longrightarrow>
    account_has_table cfg account name db = Some (Ok (name \<in> set (listing db account)), db)"
  by (simp add: account_has_table_def outcome_of_def and_then_def ensure_available_known)

lemma get_table_loaded:
  assumes "get_account_dir db account = Some dir" "listing_fresh cfg db account dir" "name \<in> set (listing db account)"
    and "hm_get (tables db) (account, name) = Some t" "\<not> table_stale cfg db (account, name) t"
  shows "get_table_mut cfg pinned account name db = Some (Ok (), touch_lru (account, name) db)"
  using assms
  by (simp add: get_table_mut_def resolve_cached_def and_then_step(3) [OF ensure_available_known]
      and_then_step(3) [OF account_has_table_known] resolve_listed_def invalidate_if_stale_def hm_contains_def)

lemma keeps_refresh [keeps_intro]:
  assumes "\<And>db s. P db \<Longrightarrow> P (db\<lparr>registry_stamp := s\<rparr>)" "\<And>db s r. P db \<Longrightarrow> P (db\<lparr>registry_stamp := s, accounts_config := r\<rparr>)"
  shows "keeps P (refresh_account_registry cfg)"
  using assms by (auto simp: keeps_def refresh_account_registry_def load_account_registry_def Let_def split: if_splits option.splits sum.splits)

text \<open>Looking at a listing changes the listing and the registry, nothing else.\<close>

definition listing_free :: "(Database \<Rightarrow> bool) \<Rightarrow> bool" where
  "listing_free P \<longleftrightarrow> (\<forall>db names stamps s r. P db \<longrightarrow>
     P (db\<lparr>available_tables := names, available_stamps := stamps\<rparr>) \<and> P (db\<lparr>registry_stamp := s\<rparr>) \<and> P (db\<lparr>registry_stamp := s, accounts_config := r\<rparr>))"

lemma keeps_listing [keeps_intro]:
  assumes "listing_free P"
  shows "keeps P (scan_available_tables cfg account)" "keeps P (ensure_available_tables cfg account)" "keeps P (account_has_table cfg account name)"
proof -
  show scan: "keeps P (scan_available_tables cfg account)"
    unfolding scan_available_tables_def
  proof (intro keeps_intro)
    show "keeps P (case dir of None \<Rightarrow> fail (AccountNotFound account) | Some dir \<Rightarrow> change (\<lambda>db. db\<lparr>
         available_tables := hm_insert account (scan_names (path_of dir) (disk_dirs db)) (available_tables db),
         available_stamps := hm_insert account (dir_modified cfg (path_of dir) (disk_dirs db)) (available_stamps db)\<rparr>))" for dir
      using assms by (cases dir) (auto simp: keeps_def listing_free_def)
  qed
  have refresh: "keeps P (refresh_account_registry cfg)" using assms by (intro keeps_refresh) (auto simp: listing_free_def)
  show ensure: "keeps P (ensure_available_tables cfg account)"
    unfolding ensure_available_tables_def
    by (intro keeps_intro refresh) (auto intro!: keeps_intro scan split: option.split)
  show "keeps P (account_has_table cfg account name)"
    unfolding account_has_table_def by (intro keeps_intro ensure) (auto intro: keeps_intro split: sum.split)
qed

section \<open>Creating a file that is there\<close>

lemma load_empty_section:
  assumes "sizes_fit 0 per_group"
  shows "\<exists>d' meta. save_with_fsync d (source_of_map []) SectionMeta_empty None per_group = Some (d', Ok meta) \<and> load d' [] = Ok ([], meta)"
proof -
  have "flush_ready d SectionMeta_empty (source_of_map []) None per_group"
    using assms by (auto simp: flush_ready_def source_of_map_def section_source_def source_ok_def SectionMeta_empty_def u64_max_def
        hm_keys_def MIN_MODULUS_def intro: exI [of _ 0])
  from save_represents [OF this] obtain d' meta where
    s: "save_with_fsync d (source_of_map []) SectionMeta_empty None per_group = Some (d', Ok meta)"
    "represents d' meta (source_record (source_of_map []))" by blast
  obtain mp where mp: "load d' [] = Ok (mp, meta)" "hm_get mp = source_record (source_of_map [])"
    using load_represents [OF s(2)] by blast
  have "mp = []"
  proof (cases mp)
    case (Cons kv rest)
    then have "hm_get mp (fst kv) = Some (snd kv)" by (simp add: hm_get_def)
    then show ?thesis by (simp add: mp(2) source_of_map_def)
  qed
  with s mp show ?thesis by blast
qed

lemma load_indexes_dictionary [simp]: "tbl_dictionary (load_indexes fs t) = tbl_dictionary t"
  by (simp add: load_indexes_def Let_def)

lemma load_empty_dictionary:
  "fs_dict fs = Some [] \<Longrightarrow> load_table st fs = Ok t \<Longrightarrow> tbl_dictionary t = []"
  by (auto simp: load_table_def load_section_def load_records_def read_loop_unfold hm.insert_all_simps Table_new_def
      split: sum.splits prod.splits if_splits)

lemma init_data_section_cases:
  assumes "sizes_fit 0 per_group"
  shows "\<exists>fs' meta. init_data_section per_group fs = Some (fs', Ok meta) \<and> fs_flat fs' = fs_flat fs \<and>
    (read_meta (fs_data fs) \<noteq> None \<longrightarrow> fs' = fs) \<and>
    (read_meta (fs_data fs) = None \<and> fs_flat fs = None \<longrightarrow> load (fs_data fs') [] = Ok ([], meta))"
proof (cases "read_meta (fs_data fs)")
  case None
  then show ?thesis
    using load_empty_section [OF assms, of "fs_data fs"] by (cases "fs_flat fs") (auto simp: init_data_section_def)
next
  case (Some meta)
  then show ?thesis by (simp add: init_data_section_def)
qed

lemma init_file_existing:
  assumes "hm_contains (disk_dirs db) (file_path db (account, name))" and "sizes_fit 0 (records_per_group (cfg_engine cfg))"
  shows "\<exists>fs' meta. init_file cfg account name db = Some (Ok meta, put_store (file_path db (account, name)) fs' db) \<and>
    fs_dict fs' = Some [] \<and>
    (read_meta (fs_data (store_at db (file_path db (account, name)))) \<noteq> None \<longrightarrow>
      fs' = (store_at db (file_path db (account, name)))\<lparr>fs_dict := Some []\<rparr>) \<and>
    (read_meta (fs_data (store_at db (file_path db (account, name)))) = None \<and>
      fs_flat (store_at db (file_path db (account, name))) = None \<longrightarrow> load (fs_data fs') [] = Ok ([], meta))"
proof -
  let ?p = "file_path db (account, name)"
  obtain fs' meta where i: "init_data_section (records_per_group (cfg_engine cfg)) (store_at db ?p) = Some (fs', Ok meta)"
    "read_meta (fs_data (store_at db ?p)) \<noteq> None \<longrightarrow> fs' = store_at db ?p"
    "read_meta (fs_data (store_at db ?p)) = None \<and> fs_flat (store_at db ?p) = None \<longrightarrow> load (fs_data fs') [] = Ok ([], meta)"
    using init_data_section_cases [OF assms(2), of "store_at db ?p"] by blast
  have "path_of (file_dir db account name) = ?p" by (simp add: file_path_def)
  then have "init_file cfg account name db = Some (Ok meta, put_store ?p (fs'\<lparr>fs_dict := Some []\<rparr>) db)"
    using i(1) assms(1) by (simp add: init_file_def Let_def)
  with i(2,3) show ?thesis by (intro exI [of _ "fs'\<lparr>fs_dict := Some []\<rparr>"] exI [of _ meta]) auto
qed

lemma file_path_cong:
  assumes "accounts_config db' = accounts_config db" "storage_dir db' = storage_dir db"
  shows "get_account_dir db' = get_account_dir db" "file_path db' = file_path db"
proof -
  show *: "get_account_dir db' = get_account_dir db" by (simp add: fun_eq_iff get_account_dir_def assms)
  show "file_path db' = file_path db" 
    by (simp add: fun_eq_iff file_path_def file_dir_def account_storage_dir_def * assms(2) split: option.split)
qed

lemma put_store_simps [simp]:
  "listing (put_store p fs db) = listing db" "tables (put_store p fs db) = tables db"
  "available_tables (put_store p fs db) = available_tables db"
  "store_at (put_store p fs db) q = (if q = p then fs else store_at db q)"
  "get_account_dir (put_store p fs db) = get_account_dir db" "file_path (put_store p fs db) = file_path db"
  using file_path_cong [of "put_store p fs db" db]
  by (simp_all add: put_store_def listing_def store_at_def fun_eq_iff)

text \<open>
  Creating a file under a name the account already has is refused, but only after the sections were
  prepared: the dictionary on disk is emptied, so that the next load of the file finds none of its fields.
  Where the meta file of the record section cannot be read, the section is replaced by an empty one, and
  the next load finds no record instead of the damage.
\<close>

theorem recreate_damages_file:
  assumes known: "account \<noteq> []" "get_account_dir db account = Some dir" "listing_fresh cfg db account dir" "name \<in> set (listing db account)"
    and there: "hm_contains (disk_dirs db) (file_path db (account, name))" and fits: "sizes_fit 0 (records_per_group (cfg_engine cfg))"
  shows "\<exists>fs. create_table_for_account cfg pinned account name db =
      Some (Err (FileExists account name), put_store (file_path db (account, name)) fs db) \<and>
    (\<forall>st t. load_table st fs = Ok t \<longrightarrow> tbl_dictionary t = []) \<and>
    (read_meta (fs_data (store_at db (file_path db (account, name)))) = None \<and>
      fs_flat (store_at db (file_path db (account, name))) = None \<longrightarrow> (\<exists>meta. load (fs_data fs) [] = Ok ([], meta)))"
proof -
  obtain fs meta where i: "init_file cfg account name db = Some (Ok meta, put_store (file_path db (account, name)) fs db)"
    "fs_dict fs = Some []"
    "read_meta (fs_data (store_at db (file_path db (account, name)))) = None \<and>
      fs_flat (store_at db (file_path db (account, name))) = None \<longrightarrow> load (fs_data fs) [] = Ok ([], meta)"
    using init_file_existing [OF there fits] by blast
  have listed: "create_listed cfg account name db = Some (Err (FileExists account name), put_store (file_path db (account, name)) fs db)"
    using known by (simp add: create_listed_def and_then_def ensure_available_known i(1))
  then have "create_table_for_account cfg pinned account name db =
      Some (Err (FileExists account name), put_store (file_path db (account, name)) fs db)"
    by (cases "name = ''DIR''") (simp_all add: create_table_for_account_def create_dir_table_def and_then_step(2))
  then show ?thesis using i(2,3) load_empty_dictionary by blast
qed

section \<open>Names that leave the account\<close>

lemma split_on_join: "split_on d (xs @ d # ys) = split_on d xs @ split_on d ys"
proof (induction xs)
  case (Cons x xs)
  obtain p ps where "split_on d xs = p # ps" using split_on_not_Nil [of d xs] by (cases "split_on d xs") auto
  with Cons show ?case by simp
qed simp

lemma path_start_append: "s \<noteq> [] \<Longrightarrow> path_start (s @ t) = path_start s"
  by (cases s) (simp_all add: path_start_def)

lemma path_of_append:
  "s \<noteq> [] \<Longrightarrow> path_of (s @ CHR ''/'' # t) = rev (fold push_component (split_on (CHR ''/'') t) (rev (path_of s)))"
  by (simp add: path_of_def path_start_append split_on_join)

definition plain_component :: "str \<Rightarrow> bool" where
  "plain_component c \<longleftrightarrow> c \<noteq> [] \<and> c \<noteq> ''.'' \<and> c \<noteq> ''..'' \<and> CHR ''/'' \<notin> set c"

lemma push_plain: "plain_component c \<Longrightarrow> push_component c stack = c # stack"
  by (simp add: plain_component_def push_component_def)

lemma push_parent: "plain_component c \<Longrightarrow> push_component ''..'' (c # stack) = stack"
  by (auto simp: plain_component_def push_component_def)

lemma path_of_plain: "s \<noteq> [] \<Longrightarrow> plain_component c \<Longrightarrow> path_of (s @ CHR ''/'' # c) = path_of s @ [c]"
  by (simp add: path_of_append split_on_no_sep push_plain plain_component_def)

lemma path_of_sibling:
  assumes "root \<noteq> []" "plain_component a" "plain_component b"
  shows "path_of ((root @ ''/'' @ a) @ ''/'' @ ''../'' @ b @ ''/'' @ f) = path_of ((root @ ''/'' @ b) @ ''/'' @ f)"
proof -
  have b: "CHR ''/'' \<notin> set b" using assms(3) by (simp add: plain_component_def)
  have tail: "split_on (CHR ''/'') (b @ CHR ''/'' # f) = b # split_on (CHR ''/'') f" by (rule split_on_append [OF b])
  have split: "split_on (CHR ''/'') (''../'' @ b @ CHR ''/'' # f) = ''..'' # b # split_on (CHR ''/'') f"
    using split_on_append [of "CHR ''/''" "''..''" "b @ CHR ''/'' # f"] tail by simp
  have "path_of ((root @ CHR ''/'' # a) @ CHR ''/'' # (''../'' @ b @ CHR ''/'' # f)) =
      rev (fold push_component (split_on (CHR ''/'') f) (b # rev (path_of root)))"
    unfolding path_of_append [of "root @ CHR ''/'' # a"] split
    using assms push_parent [OF assms(2), of "rev (path_of root)"] path_of_append [of "root @ CHR ''/'' # a" "''../'' @ b @ CHR ''/'' # f"]
    by (simp add: path_of_plain push_plain tail)
  also have "\<dots> = path_of ((root @ CHR ''/'' # b) @ CHR ''/'' # f)"
    using assms path_of_append [of "root @ CHR ''/'' # b" f] by (simp add: path_of_plain)
  finally show ?thesis by simp
qed

text \<open>
  A file name is not checked before it becomes a path. An account that may create files reaches the files
  of another by naming them through the parent directory: the new name is listed as its own, resolves to
  the other account's directory, and creating it has emptied that file's dictionary.
\<close>

theorem file_name_escapes_account:
  assumes accounts: "get_account_dir db a = Some (storage_dir db @ ''/'' @ a)" "get_account_dir db b = Some (storage_dir db @ ''/'' @ b)"
    and plain: "storage_dir db \<noteq> []" "plain_component a" "plain_component b"
    and listings: "listing_fresh cfg db a (storage_dir db @ ''/'' @ a)" "''../'' @ b @ ''/'' @ f \<notin> set (listing db a)"
    and there: "hm_contains (disk_dirs db) (file_path db (b, f))" and fits: "sizes_fit 0 (records_per_group (cfg_engine cfg))"
  shows "\<exists>has_dir db'. create_listed cfg a (''../'' @ b @ ''/'' @ f) db = Some (Ok has_dir, db') \<and>
    ''../'' @ b @ ''/'' @ f \<in> set (listing db' a) \<and>
    file_path db' (a, ''../'' @ b @ ''/'' @ f) = file_path db' (b, f) \<and>
    fs_dict (store_at db' (file_path db' (b, f))) = Some []"
proof -
  let ?n = "''../'' @ b @ ''/'' @ f"
  have same: "file_path db (a, ?n) = file_path db (b, f)"
    using path_of_sibling [OF plain, of f] accounts by (simp add: file_path_def file_dir_def account_storage_dir_def)
  obtain fs meta where i: "init_file cfg a ?n db = Some (Ok meta, put_store (file_path db (a, ?n)) fs db)" "fs_dict fs = Some []"
    using init_file_existing [of db a ?n cfg] there fits same by auto
  let ?db = "listed_dirs (put_store (file_path db (a, ?n)) fs db) a ?n"
  have ne: "a \<noteq> []" using plain(2) by (simp add: plain_component_def)
  have "create_listed cfg a ?n db = Some (Ok (''DIR'' \<in> set (listing ?db a)), ?db)"
    using accounts(1) listings ne
    by (simp add: create_listed_def and_then_def ensure_available_known i(1) [simplified])
  moreover have "?n \<in> set (listing ?db a)" by (simp add: listed_dirs_def listing_def)
  moreover have paths: "file_path ?db = file_path db"
    by (intro file_path_cong) (simp_all add: listed_dirs_def put_store_def)
  moreover have "store_at ?db p = (if p = file_path db (a, ?n) then fs else store_at db p)" for p
    by (simp add: listed_dirs_def store_at_def put_store_def)
  ultimately show ?thesis using same i(2) by auto
qed


section \<open>Flushing one table\<close>

definition on_disk :: "(FileStore \<Rightarrow> TableStamp) \<Rightarrow> FileStore \<Rightarrow> Table \<Rightarrow> bool" where
  "on_disk st fs t \<longleftrightarrow> (\<exists>l. load_table st fs = Ok l \<and> hm_get (tbl_records l) = hm_get (tbl_records t) \<and>
     hm_get (tbl_dictionary l) = hm_get (tbl_dictionary t))"

lemma load_table_sections:
  assumes "records_stored fs t" "dict_stored fs t"
  shows "on_disk st fs t"
proof -
  from load_records_stored [OF assms(1), of "Some (st fs)"] obtain r where
    r: "load_records fs (Table_new\<lparr>tbl_stamp := Some (st fs)\<rparr>) = Ok r" "hm_get (tbl_records r) = hm_get (tbl_records t)"
      "tbl_dictionary r = []" by blast
  obtain mp where "load_section [] (fs_dict fs) ''dict'' = Ok mp" "hm_get mp = hm_get (tbl_dictionary t)"
    using assms(2) by (auto simp: dict_stored_def)
  with r show ?thesis by (simp add: on_disk_def load_table_def load_indexes_def Let_def)
qed

lemma flush_ready_on_disk:
  assumes "table_ready per_group fs t"
  shows "\<exists>fs' t'. flush_locked per_group sa fs t = Some (fs', t', Ok ()) \<and> on_disk st fs' t"
proof (cases "table_is_dirty t")
  case True
  then obtain fs' t' t1 where f: "flush_locked per_group sa fs t = Some (fs', t', Ok ())" "table_stored fs' t1"
    and t1: "\<exists>m l s. t1 = (rebuild_stale_indexes t)\<lparr>data_meta := m, legacy_data := l, tmp_swept := s\<rparr>"
    using flush_locked_stored [OF assms, of sa] by blast
  have "on_disk st fs' t1" using f(2) by (intro load_table_sections) (simp_all add: table_stored_def)
  moreover have "tbl_records t1 = tbl_records t" "tbl_dictionary t1 = tbl_dictionary t" using t1 by auto
  ultimately have "on_disk st fs' t" by (simp add: on_disk_def)
  with f(1) show ?thesis by blast
next
  case False
  then have "records_stored fs t" "dict_stored fs t"
    using assms by (auto simp: table_ready_def records_ready_def dict_ready_def records_dirty_def table_is_dirty_def)
  with False show ?thesis by (auto simp: flush_locked_def intro: load_table_sections)
qed

lemma flush_locked_clean:
  "flush_locked per_group sa fs t = Some (fs', t', Ok u) \<Longrightarrow> \<not> records_dirty t' \<and> \<not> dict_dirty t'"
  by (auto simp: flush_locked_def flush_tail_def Let_def clear_dirty_def records_dirty_def table_is_dirty_def
      split: if_splits option.splits prod.splits sum.splits)

text \<open>What a flush of one table leaves alone.\<close>

definition same_but :: "table_key \<Rightarrow> Database \<Rightarrow> Database \<Rightarrow> bool" where
  "same_but key db db' \<longleftrightarrow> (\<forall>k. k \<noteq> key \<longrightarrow> hm_get (tables db') k = hm_get (tables db) k) \<and>
     (\<forall>p. p \<noteq> file_path db key \<longrightarrow> store_at db' p = store_at db p) \<and>
     file_path db' = file_path db \<and> file_attributes db' = file_attributes db \<and> write_marks db' = write_marks db \<and>
     (hm_wf (tables db) \<longrightarrow> hm_wf (tables db')) \<and> lru_order db' = lru_order db"

lemma put_table_simps [simp]:
  "hm_get (tables (put_table key t db)) k = (if k = key then Some t else hm_get (tables db) k)"
  "store_at (put_table key t db) = store_at db" "file_path (put_table key t db) = file_path db"
  "disk_dirs (put_table key t db) = disk_dirs db" "file_attributes (put_table key t db) = file_attributes db"
  "write_marks (put_table key t db) = write_marks db" "lru_order (put_table key t db) = lru_order db"
  using file_path_cong [of "put_table key t db" db]
  by (simp_all add: put_table_def store_at_def fun_eq_iff)

lemma put_store_fields [simp]:
  "file_attributes (put_store p fs db) = file_attributes db" "write_marks (put_store p fs db) = write_marks db"
  "lru_order (put_store p fs db) = lru_order db"
  by (simp_all add: put_store_def)

lemma put_table_wf: "hm_wf (tables db) \<Longrightarrow> hm_wf (tables (put_table key t db))"
  by (simp add: put_table_def hm.wf_insert)

lemma same_but_refl [simp]: "same_but key db db"
  by (simp add: same_but_def)

lemma flush_handle_same: "flush_handle cfg key db = Some (r, db') \<Longrightarrow> same_but key db db'"
  by (auto simp: flush_handle_def same_but_def put_table_wf split: option.splits prod.splits)

lemma flush_handle_get:
  "flush_handle cfg key db = Some (r, db') \<Longrightarrow> hm_get (tables db') key = None \<longleftrightarrow> hm_get (tables db) key = None"
  by (auto simp: flush_handle_def split: option.splits prod.splits)

lemma flush_handle_ready:
  assumes "hm_get (tables db) key = Some t" "table_ready (records_per_group (cfg_engine cfg)) (store_at db (file_path db key)) t"
  shows "\<exists>db'. flush_handle cfg key db = Some (Ok (), db') \<and> on_disk st (store_at db' (file_path db key)) t"
  using flush_ready_on_disk [OF assms(2), of "stamp_after (cfg_engine cfg)" st] assms(1)
  by (auto simp: flush_handle_def)

lemma flush_handle_clean:
  "flush_handle cfg key db = Some (Ok u, db') \<Longrightarrow> hm_get (tables db') key = Some t \<Longrightarrow> \<not> records_dirty t \<and> \<not> dict_dirty t"
  using flush_locked_clean by (fastforce simp: flush_handle_def split: option.splits prod.splits sum.splits)


section \<open>Eviction\<close>

definition paths_apart :: "Database \<Rightarrow> bool" where
  "paths_apart db \<longleftrightarrow> (\<forall>k k'. hm_get (tables db) k \<noteq> None \<longrightarrow> hm_get (tables db) k' \<noteq> None \<longrightarrow> file_path db k = file_path db k' \<longrightarrow> k = k')"

lemma paths_apartD:
  "paths_apart db \<Longrightarrow> hm_get (tables db) k \<noteq> None \<Longrightarrow> hm_get (tables db) k' \<noteq> None \<Longrightarrow> k \<noteq> k' \<Longrightarrow> file_path db k \<noteq> file_path db k'"
  unfolding paths_apart_def by blast

text \<open>
  One state has fewer tables than another: those that stay are unchanged, and what was dropped has its
  records and dictionary on disk, where its flush could write them.
\<close>

definition dropped :: "Database \<Rightarrow> Database \<Rightarrow> table_key \<Rightarrow> bool" where
  "dropped db db' key \<longleftrightarrow> hm_get (tables db) key \<noteq> None \<and> hm_get (tables db') key = None"

definition shrinks :: "Settings \<Rightarrow> table_key list \<Rightarrow> Database \<Rightarrow> Database \<Rightarrow> bool" where
  "shrinks cfg pinned db db' \<longleftrightarrow> file_path db' = file_path db \<and> file_attributes db' = file_attributes db \<and> write_marks db' = write_marks db \<and>
     (hm_wf (tables db) \<longrightarrow> hm_wf (tables db')) \<and>
     (\<forall>key. dropped db db' key \<or> hm_get (tables db') key = hm_get (tables db) key) \<and>
     (\<forall>key t. dropped db db' key \<longrightarrow> hm_get (tables db) key = Some t \<longrightarrow> key \<notin> set pinned \<and> \<not> has_claims t) \<and>
     (\<forall>p. (\<forall>key. dropped db db' key \<longrightarrow> file_path db key \<noteq> p) \<longrightarrow> store_at db' p = store_at db p) \<and>
     (\<forall>key t st. paths_apart db \<longrightarrow> dropped db db' key \<longrightarrow> hm_get (tables db) key = Some t \<longrightarrow>
        table_ready (records_per_group (cfg_engine cfg)) (store_at db (file_path db key)) t \<longrightarrow>
        on_disk st (store_at db' (file_path db key)) t)"

lemma shrinks_refl [simp]: "shrinks cfg pinned db db"
  by (simp add: shrinks_def dropped_def)

lemma shrinksD:
  assumes "shrinks cfg pinned db db'"
  shows "file_path db' = file_path db" "file_attributes db' = file_attributes db" "write_marks db' = write_marks db"
    "hm_wf (tables db) \<Longrightarrow> hm_wf (tables db')"
    "dropped db db' key \<or> hm_get (tables db') key = hm_get (tables db) key"
    "dropped db db' key \<Longrightarrow> hm_get (tables db) key = Some t \<Longrightarrow> key \<notin> set pinned \<and> \<not> has_claims t"
    "(\<And>key. dropped db db' key \<Longrightarrow> file_path db key \<noteq> p) \<Longrightarrow> store_at db' p = store_at db p"
    "paths_apart db \<Longrightarrow> dropped db db' key \<Longrightarrow> hm_get (tables db) key = Some t \<Longrightarrow>
      table_ready (records_per_group (cfg_engine cfg)) (store_at db (file_path db key)) t \<Longrightarrow> on_disk st (store_at db' (file_path db key)) t"
  using assms unfolding shrinks_def by blast+

lemma shrinks_trans:
  assumes a: "shrinks cfg pinned db db1" and b: "shrinks cfg pinned db1 db2"
  shows "shrinks cfg pinned db db2"
proof -
  note A = shrinksD [OF a] and B = shrinksD [OF b]
  have drop: "dropped db db2 key \<longleftrightarrow> dropped db db1 key \<or> dropped db1 db2 key" for key
    using A(5) [of key] B(5) [of key] unfolding dropped_def by metis
  have first: "hm_get (tables db1) key = hm_get (tables db) key" if "dropped db1 db2 key" for key
    using A(5) [of key] that by (auto simp: dropped_def)
  have pins: "key \<notin> set pinned \<and> \<not> has_claims t" if "dropped db db2 key" "hm_get (tables db) key = Some t" for key t
    using that drop [of key] A(6) [of key t] B(6) [of key t] first [of key] by auto
  have stores: "store_at db2 p = store_at db p" if "\<And>key. dropped db db2 key \<Longrightarrow> file_path db key \<noteq> p" for p
    using A(7) [of p] B(7) [of p] that drop A(1) by simp
  have data: "on_disk st (store_at db2 (file_path db key)) t"
    if ap: "paths_apart db" and d: "dropped db db2 key" "hm_get (tables db) key = Some t"
      and r: "table_ready (records_per_group (cfg_engine cfg)) (store_at db (file_path db key)) t" for key t st
  proof (cases "dropped db db1 key")
    case True
    have "store_at db2 (file_path db key) = store_at db1 (file_path db key)"
    proof (rule B(7))
      fix k assume k: "dropped db1 db2 k"
      have "k \<noteq> key" using k True by (auto simp: dropped_def)
      moreover have "hm_get (tables db) k \<noteq> None" using first [OF k] k by (auto simp: dropped_def)
      ultimately show "file_path db1 k \<noteq> file_path db key" using paths_apartD [OF ap, of k key] d(2) A(1) by simp
    qed
    then show ?thesis using A(8) [OF ap True d(2) r, of st] by simp
  next
    case False
    with d(1) drop have k: "dropped db1 db2 key" by blast
    have apart: "paths_apart db1"
      unfolding paths_apart_def A(1)
    proof (intro allI impI)
      fix k k' assume l: "hm_get (tables db1) k \<noteq> None" "hm_get (tables db1) k' \<noteq> None" "file_path db k = file_path db k'"
      then have "hm_get (tables db) k \<noteq> None" "hm_get (tables db) k' \<noteq> None"
        using A(5) [of k] A(5) [of k'] by (auto simp: dropped_def)
      then show "k = k'" using ap l(3) unfolding paths_apart_def by blast
    qed
    have "store_at db1 (file_path db key) = store_at db (file_path db key)"
    proof (rule A(7))
      fix j assume j: "dropped db db1 j"
      then have "j \<noteq> key" using False by auto
      then show "file_path db j \<noteq> file_path db key" using paths_apartD [OF ap, of j key] j d(2) by (simp add: dropped_def)
    qed
    then show ?thesis using B(8) [OF apart k, of t st] first [OF k] d(2) r A(1) by simp
  qed
  show ?thesis
    unfolding shrinks_def
  proof (intro conjI allI impI)
    show "dropped db db2 key \<or> hm_get (tables db2) key = hm_get (tables db) key" for key
      using A(5) [of key] B(5) [of key] drop [of key] by auto
  qed (use A B pins stores data in auto)
qed

lemma evict_one:
  assumes t: "hm_get (tables db) key = Some t" and free: "key \<notin> set pinned" "\<not> has_claims t"
    and f: "flush_handle cfg key db = Some (r, db1)"
  shows "shrinks cfg pinned db (db1\<lparr>tables := hm_remove key (tables db1)\<rparr>)"
proof -
  let ?db = "db1\<lparr>tables := hm_remove key (tables db1)\<rparr>"
  note same = flush_handle_same [OF f, unfolded same_but_def]
  have path: "file_path ?db = file_path db1" by (rule file_path_cong) simp_all
  have store: "store_at ?db = store_at db1" by (simp add: store_at_def fun_eq_iff)
  have others: "k \<noteq> key \<Longrightarrow> hm_get (tables db1) k = hm_get (tables db) k" for k using same by blast
  have drop: "dropped db ?db k \<longleftrightarrow> k = key" for k using others [of k] t by (cases "k = key"; cases "hm_get (tables db) k") (simp_all add: dropped_def)
  have "on_disk st (store_at db1 (file_path db key)) t"
    if "table_ready (records_per_group (cfg_engine cfg)) (store_at db (file_path db key)) t" for st
    using flush_handle_ready [OF t that, of st] f by auto
  then show ?thesis
    unfolding shrinks_def drop using same others t free path store by (simp add: hm.wf_remove)
qed

lemma evict_loop_shrinks:
  "evict_loop cfg pinned lru skipped db = Some (lru', skipped', db') \<Longrightarrow>
    shrinks cfg pinned db db' \<and>
    (length (tables db') \<le> max_loaded cfg \<or>
      (\<forall>key t. key \<in> set lru \<longrightarrow> hm_get (tables db') key = Some t \<longrightarrow> key \<in> set pinned \<or> has_claims t))"
proof (induction lru arbitrary: skipped db)
  case Nil
  then show ?case by (simp add: evict_loop.simps [of _ _ "[]"] split: if_splits)
next
  case (Cons key rest)
  show ?case
  proof (cases "length (tables db) \<le> max_loaded cfg")
    case True
    then show ?thesis using Cons.prems by (simp add: evict_loop.simps [of _ _ "key # rest"])
  next
    case big: False
    show ?thesis
    proof (cases "hm_get (tables db) key")
      case None
      then have run: "evict_loop cfg pinned rest skipped db = Some (lru', skipped', db')"
        using Cons.prems big by (simp add: evict_loop.simps [of _ _ "key # rest"])
      have "hm_get (tables db') key = None"
        using shrinksD(5) [of cfg pinned db db' key] Cons.IH [OF run] None by (auto simp: dropped_def)
      with Cons.IH [OF run] show ?thesis by auto
    next
      case (Some t)
      show ?thesis
      proof (cases "key \<in> set pinned \<or> has_claims t")
        case True
        then have run: "evict_loop cfg pinned rest (skipped @ [key]) db = Some (lru', skipped', db')"
          using Cons.prems big Some by (simp add: evict_loop.simps [of _ _ "key # rest"])
        have "hm_get (tables db') key = Some t"
          using shrinksD(5,6) [of cfg pinned db db' key] Cons.IH [OF run] True Some by auto
        with Cons.IH [OF run] True show ?thesis by auto
      next
        case free: False
        then obtain r db1 where f: "flush_handle cfg key db = Some (r, db1)"
          and run: "evict_loop cfg pinned rest skipped (db1\<lparr>tables := hm_remove key (tables db1)\<rparr>) = Some (lru', skipped', db')"
          using Cons.prems big Some by (auto simp: evict_loop.simps [of _ _ "key # rest"] split: option.splits prod.splits)
        have one: "shrinks cfg pinned db (db1\<lparr>tables := hm_remove key (tables db1)\<rparr>)" using evict_one [OF Some _ _ f] free by blast
        have "hm_get (tables db') key = None"
          using shrinksD(5) [of cfg pinned "db1\<lparr>tables := hm_remove key (tables db1)\<rparr>" db' key] Cons.IH [OF run] by (auto simp: dropped_def)
        with Cons.IH [OF run] shrinks_trans [OF one] show ?thesis by auto
      qed
    qed
  qed
qed



text \<open>
  The answer of the flush is thrown away: a table whose flush fails is dropped all the same, with every
  change it held, and the eviction reports nothing.
\<close>

theorem failed_eviction_drops_changes:
  assumes "length (tables db) = Suc (max_loaded cfg)" and "hm_wf (tables db)" and "lru_order db = key # rest"
    and "hm_get (tables db) key = Some t" and "key \<notin> set pinned" and "\<not> has_claims t"
    and fails: "flush_handle cfg key db = Some (Err e, db1)"
  shows "\<exists>db'. evict_if_over_budget cfg pinned db = Some (Ok (), db') \<and> hm_get (tables db') key = None \<and>
    store_at db' (file_path db key) = store_at db1 (file_path db key)"
proof -
  let ?db = "db1\<lparr>tables := hm_remove key (tables db1)\<rparr>"
  note same = flush_handle_same [OF fails, unfolded same_but_def]
  have wf: "hm_wf (tables db1)" using same assms(2) by blast
  have others: "k \<noteq> key \<Longrightarrow> hm_get (tables db1) k = hm_get (tables db) k" for k using same by blast
  have "{k. hm_contains (hm_remove key (tables db1)) k} = {k. hm_contains (tables db) k} - {key}"
    using others by (auto simp: hm_contains_def)
  moreover have "key \<in> {k. hm_contains (tables db) k}" using assms(4) by (simp add: hm_contains_def)
  ultimately have "length (hm_remove key (tables db1)) = max_loaded cfg"
    using assms(1) hm_length_card [OF assms(2)] hm_length_card [OF hm.wf_remove [OF wf]] by simp
  then have "evict_loop cfg pinned rest [] ?db = Some (rest, [], ?db)" by (simp add: evict_loop.simps [of _ _ rest])
  then have "evict_loop cfg pinned (lru_order db) [] db = Some (rest, [], ?db)"
    using assms by (simp add: evict_loop.simps [of _ _ "key # rest"])
  then show ?thesis using assms(1) by (simp add: evict_if_over_budget_def store_at_def)
qed

section \<open>Writing everything out\<close>

lemma flush_dirty_ready:
  assumes "hm_get (tables db) key = Some t" "table_ready (records_per_group (cfg_engine cfg)) (store_at db (file_path db key)) t"
  shows "\<exists>db'. flush_dirty cfg key db = Some (Ok (), db') \<and> same_but key db db' \<and> on_disk st (store_at db' (file_path db key)) t"
proof (cases "table_is_dirty t")
  case True
  then show ?thesis
    using flush_handle_ready [OF assms, of st] flush_handle_same assms(1) by (fastforce simp: flush_dirty_def loaded_dirty_def)
next
  case False
  then have "records_stored (store_at db (file_path db key)) t" "dict_stored (store_at db (file_path db key)) t"
    using assms(2) by (auto simp: table_ready_def records_ready_def dict_ready_def records_dirty_def table_is_dirty_def)
  with False assms(1) show ?thesis by (auto simp: flush_dirty_def loaded_dirty_def intro: load_table_sections)
qed

lemma flush_all_ready:
  assumes "distinct keys" and "\<And>k. k \<in> set keys \<Longrightarrow> hm_get (tables db) k \<noteq> None" and "paths_apart db"
    and "\<And>k t. k \<in> set keys \<Longrightarrow> hm_get (tables db) k = Some t \<Longrightarrow>
      table_ready (records_per_group (cfg_engine cfg)) (store_at db (file_path db k)) t"
  shows "\<exists>db'. for_each keys (flush_dirty cfg) db = Some (Ok (), db') \<and> file_path db' = file_path db \<and>
    (\<forall>k t. k \<in> set keys \<longrightarrow> hm_get (tables db) k = Some t \<longrightarrow> on_disk st (store_at db' (file_path db k)) t) \<and>
    (\<forall>p. (\<forall>k \<in> set keys. file_path db k \<noteq> p) \<longrightarrow> store_at db' p = store_at db p)"
  using assms
proof (induction keys arbitrary: db)
  case (Cons key keys)
  obtain t where t: "hm_get (tables db) key = Some t" using Cons.prems(2) [of key] by auto
  obtain db1 where one: "flush_dirty cfg key db = Some (Ok (), db1)" "same_but key db db1" "on_disk st (store_at db1 (file_path db key)) t"
    using flush_dirty_ready [OF t Cons.prems(4) [OF _ t], of st] by auto
  have same: "k \<noteq> key \<Longrightarrow> hm_get (tables db1) k = hm_get (tables db) k" "p \<noteq> file_path db key \<Longrightarrow> store_at db1 p = store_at db p"
    "file_path db1 = file_path db" for k p using one(2) unfolding same_but_def by blast+
  have notin: "distinct keys" "k \<in> set keys \<Longrightarrow> k \<noteq> key" for k using Cons.prems(1) by auto
  have apart: "k \<in> set keys \<Longrightarrow> file_path db k \<noteq> file_path db key" for k
    using paths_apartD [OF Cons.prems(3), of k key] Cons.prems(2) [of k] t notin(2) [of k] by simp
  have gone: "hm_get (tables db1) key \<noteq> None"
    using one(1) t flush_handle_get [of cfg key db "Ok ()" db1] by (auto simp: flush_dirty_def split: if_splits)
  have apart1: "paths_apart db1"
    unfolding paths_apart_def same(3)
  proof (intro allI impI)
    fix k k' assume l: "hm_get (tables db1) k \<noteq> None" "hm_get (tables db1) k' \<noteq> None" "file_path db k = file_path db k'"
    have "hm_get (tables db) j \<noteq> None" if "hm_get (tables db1) j \<noteq> None" for j
      using that same(1) [of j] t by (cases "j = key") auto
    then show "k = k'" using paths_apartD [OF Cons.prems(3), of k k'] l by blast
  qed
  have "table_ready (records_per_group (cfg_engine cfg)) (store_at db1 (file_path db1 k)) u"
    if "k \<in> set keys" "hm_get (tables db1) k = Some u" for k u
    using Cons.prems(4) [of k u] that same(1) [OF notin(2)] same(2) [OF apart] by (simp add: same(3))
  moreover have "hm_get (tables db1) k \<noteq> None" if "k \<in> set keys" for k
    using Cons.prems(2) [of k] same(1) [OF notin(2) [OF that]] that by simp
  ultimately obtain db' where IH: "for_each keys (flush_dirty cfg) db1 = Some (Ok (), db')" "file_path db' = file_path db1"
    "\<forall>k t. k \<in> set keys \<longrightarrow> hm_get (tables db1) k = Some t \<longrightarrow> on_disk st (store_at db' (file_path db1 k)) t"
    "\<forall>p. (\<forall>k \<in> set keys. file_path db1 k \<noteq> p) \<longrightarrow> store_at db' p = store_at db1 p"
    using Cons.IH [OF notin(1) _ apart1] by blast
  have mine: "store_at db' (file_path db key) = store_at db1 (file_path db key)" using IH(4) apart by (simp add: same(3))
  have "on_disk st (store_at db' (file_path db k)) u" if k: "k \<in> set (key # keys)" "hm_get (tables db) k = Some u" for k u
  proof (cases "k = key")
    case True
    then show ?thesis using k t one(3) by (simp add: mine)
  next
    case False
    then show ?thesis using k IH(3) same(1) [OF False] by (simp add: same(3))
  qed
  moreover have "store_at db' p = store_at db p" if "\<forall>k \<in> set (key # keys). file_path db k \<noteq> p" for p
    using IH(4) same(2) [of p] that by (auto simp: same(3))
  moreover have "for_each (key # keys) (flush_dirty cfg) db = Some (Ok (), db')" using one(1) IH(1) by (simp add: and_then_def)
  ultimately show ?case using IH(2) same(3) by (intro exI [of _ db']) simp
qed simp

lemma save_ready:
  assumes wf: "hm_wf (tables db)" and apart: "paths_apart db" and clients: "\<not> loaded_dirty db CLIENTS_KEY"
    and ready: "\<And>k t. hm_get (tables db) k = Some t \<Longrightarrow> table_ready (records_per_group (cfg_engine cfg)) (store_at db (file_path db k)) t"
  shows "\<exists>db'. save cfg pinned now db = Some (Ok (), db') \<and>
    (\<forall>k t. hm_get (tables db) k = Some t \<longrightarrow> on_disk st (store_at db' (file_path db k)) t) \<and>
    pending_write_count db' = 0"
proof -
  obtain db' where f: "for_each (hm_keys (tables db)) (flush_dirty cfg) db = Some (Ok (), db')"
    "\<forall>k t. k \<in> set (hm_keys (tables db)) \<longrightarrow> hm_get (tables db) k = Some t \<longrightarrow> on_disk st (store_at db' (file_path db k)) t"
    using flush_all_ready [of "hm_keys (tables db)" db cfg st] hm.keys_distinct [OF wf] apart ready unfolding hm.get_eq_None by blast
  let ?db = "db'\<lparr>pending_writes := 0, write_marks := [], last_flush := now\<rparr>"
  have "save cfg pinned now db = Some (Ok (), ?db)" using f(1) clients by (simp add: save_def and_then_def)
  moreover have "on_disk st (store_at ?db (file_path db k)) t" if "hm_get (tables db) k = Some t" for k t
    using f(2) that by (auto simp: store_at_def hm.keys_get)
  moreover have "pending_write_count ?db = 0" by (simp add: pending_write_count_def)
  ultimately show ?thesis by blast
qed

text \<open>
  C24. A write to a file marked durable is answered only when everything pending in memory is on disk: loading
  any table that was in memory gives the records and the dictionary it had there.
\<close>

theorem durable_write_reaches_disk:
  assumes "hm_get (file_attributes db) (account, name) = Some a" and "durable a"
    and "hm_wf (tables db)" and "paths_apart db" and "\<not> loaded_dirty db CLIENTS_KEY"
    and "\<And>k t. hm_get (tables db) k = Some t \<Longrightarrow> table_ready (records_per_group (cfg_engine cfg)) (store_at db (file_path db k)) t"
  shows "\<exists>db'. note_write_for cfg pinned now account name db = Some (Ok (), db') \<and>
    (\<forall>k t. hm_get (tables db) k = Some t \<longrightarrow> on_disk st (store_at db' (file_path db k)) t) \<and> pending_write_count db' = 0"
proof -
  have "is_table_durable_for_account cfg pinned account name db = Some (Ok True, db)"
    using assms(1,2) by (simp add: is_table_durable_for_account_def file_attributes_for_account_def and_then_def)
  then have "note_write_for cfg pinned now account name db = save cfg pinned now db"
    by (simp add: note_write_for_def and_then_def)
  with save_ready [OF assms(3-6), of pinned now st] show ?thesis by simp
qed


section \<open>Batching\<close>

text \<open>One write to a buffered file: a change of its table, then the note of it.\<close>

definition noted_write :: "Settings \<Rightarrow> table_key list \<Rightarrow> table_key \<Rightarrow> nat \<times> (Table \<Rightarrow> Table) \<Rightarrow> unit cmd" where
  "noted_write cfg pinned key w =
     and_then (with_table key (\<lambda>t. ((), snd w t))) (\<lambda>_. note_write_for cfg pinned (fst w) (fst key) (snd key))"

definition buffered :: "Settings \<Rightarrow> Database \<Rightarrow> table_key \<Rightarrow> bool" where
  "buffered cfg db key \<longleftrightarrow> \<not> durable_writes cfg \<and> (\<exists>a. hm_get (file_attributes db) key = Some a \<and> \<not> durable a)"

definition pending_of :: "Database \<Rightarrow> table_key \<Rightarrow> nat" where
  "pending_of db key = (case hm_get (write_marks db) key of None \<Rightarrow> 0 | Some m \<Rightarrow> mark_pending m)"

definition written_out :: "Database \<Rightarrow> table_key \<Rightarrow> bool" where
  "written_out db key \<longleftrightarrow> (\<forall>t. hm_get (tables db) key = Some t \<longrightarrow> \<not> records_dirty t \<and> \<not> dict_dirty t)"

lemma flush_table_out:
  assumes "flush_table cfg pinned now key db = Some (Ok u, db')" "key \<noteq> CLIENTS_KEY"
  shows "written_out db' key"
proof (cases "loaded_dirty db key")
  case True
  then obtain db1 where "flush_handle cfg key db = Some (Ok (), db1)" "tables db' = tables db1"
    using assms by (auto simp: flush_table_def and_then_def split: option.splits prod.splits sum.splits)
  then show ?thesis using flush_handle_clean by (auto simp: written_out_def)
next
  case False
  then have "tables db' = tables db" using assms(1) by (auto simp: flush_table_def)
  with False show ?thesis by (auto simp: written_out_def loaded_dirty_def table_is_dirty_def records_dirty_def)
qed

lemma noted_write_step:
  assumes run: "noted_write cfg pinned key w db = Some (Ok u, db')" and buf: "buffered cfg db key" and key: "key \<noteq> CLIENTS_KEY"
  shows "written_out db' key \<or> pending_of db' key = Suc (pending_of db key) \<and> pending_of db' key < flush_max_pending cfg \<and> buffered cfg db' key"
proof -
  obtain t where t: "hm_get (tables db) key = Some t" using run by (auto simp: noted_write_def with_table_def and_then_def split: option.splits)
  let ?db = "put_table key (snd w t) db" and ?now = "fst w"
  have attrs: "is_table_durable_for_account cfg pinned (fst key) (snd key) ?db = Some (Ok False, ?db)"
    using buf by (auto simp: buffered_def is_table_durable_for_account_def file_attributes_for_account_def and_then_def)
  have noted: "note_write_for cfg pinned ?now (fst key) (snd key) ?db = Some (Ok u, db')"
    using run t by (simp add: noted_write_def with_table_def and_then_def)
  let ?b = "bump_mark key ?now ?db"
  have pend: "pending_of ?b key = Suc (pending_of db key)" "buffered cfg ?b key"
    using buf by (auto simp: pending_of_def bump_mark_def WriteMark_fresh_def buffered_def Let_def split: option.splits)
  show ?thesis
  proof (cases "mark_due cfg key ?now ?b")
    case True
    then have "flush_table cfg pinned ?now key ?b = Some (Ok u, db')"
      using noted attrs by (simp add: note_write_for_def and_then_def)
    then show ?thesis using flush_table_out key by blast
  next
    case False
    then have "db' = ?b" using noted attrs by (simp add: note_write_for_def and_then_def)
    moreover have "pending_of ?b key < flush_max_pending cfg"
      using False by (auto simp: mark_due_def pending_of_def bump_mark_def Let_def split: option.splits)
    ultimately show ?thesis using pend by simp
  qed
qed


section \<open>Attributes\<close>

lemma rebuilt_listing_get:
  "hm_get (rebuilt_listing old names) n =
     (if n \<in> set names \<and> n \<noteq> ''DIR''
      then Some (attributes_to_record (case hm_get old n of Some r \<Rightarrow> attributes_of r | None \<Rightarrow> FileAttributes_default)) else None)"
proof -
  have "hm_get (fold (\<lambda>name m. if name = ''DIR'' then m
       else hm_insert name (attributes_to_record (case hm_get old name of Some r \<Rightarrow> attributes_of r | None \<Rightarrow> FileAttributes_default)) m) names m) n =
     (if n \<in> set names \<and> n \<noteq> ''DIR''
      then Some (attributes_to_record (case hm_get old n of Some r \<Rightarrow> attributes_of r | None \<Rightarrow> FileAttributes_default)) else hm_get m n)" for m
    by (induction names arbitrary: m) auto
  then show ?thesis by (simp add: rebuilt_listing_def hm.get_empty)
qed


text \<open>Nothing but setting and deleting changes what is cached about a file once it is there.\<close>

abbreviation attrs_are :: "(table_key, FileAttributes) hashmap \<Rightarrow> Database \<Rightarrow> bool" where
  "attrs_are f \<equiv> (\<lambda>db. file_attributes db = f)"

lemma attrs_listing [simp]: "listing_free (attrs_are f)"
  by (simp add: listing_free_def)

lemma keeps_attrs_flush [keeps_intro]: "keeps (attrs_are f) (flush_handle cfg key)"
  using flush_handle_same unfolding keeps_def same_but_def by (metis (no_types, lifting))

lemma keeps_attrs_evict [keeps_intro]: "keeps (attrs_are f) (evict_if_over_budget cfg pinned)"
  unfolding keeps_def
proof (intro allI impI)
  fix db r db' assume f: "file_attributes db = f" and run: "evict_if_over_budget cfg pinned db = Some (r, db')"
  show "file_attributes db' = f"
  proof (cases "length (tables db) \<le> max_loaded cfg")
    case False
    with run obtain lru skipped db1 where "evict_loop cfg pinned (lru_order db) [] db = Some (lru, skipped, db1)"
      "db' = db1\<lparr>lru_order := lru @ skipped\<rparr>" by (auto simp: evict_if_over_budget_def split: option.splits)
    then show ?thesis using evict_loop_shrinks shrinksD(2) f by fastforce
  qed (use f run in \<open>simp add: evict_if_over_budget_def\<close>)
qed

lemma keeps_attrs_init [keeps_intro]: "keeps (attrs_are f) (init_file cfg account name)"
proof -
  have "file_attributes (create_dir_all s db) = file_attributes db" for s db by (simp add: create_dir_all_def)
  then show ?thesis
    by (auto simp: keeps_def init_file_def Let_def split: option.splits prod.splits sum.splits if_splits)
qed

lemma keeps_attrs_table [keeps_intro]: "keeps (attrs_are f) (with_table key g)"
  by (auto simp: keeps_def with_table_def split: option.splits prod.splits)

lemma keeps_attrs_resolve [keeps_intro]: "keeps (attrs_are f) (get_table_mut cfg pinned account name)"
proof -
  have load: "keeps (attrs_are f) (load_or_create cfg key c)" for key c
  proof -
    have init: "keeps (attrs_are f) (and_then (init_file cfg (fst key) (snd key)) (\<lambda>meta. ret (Table_new\<lparr>data_meta := meta\<rparr>)))"
      by (intro keeps_intro)
    show ?thesis
      unfolding keeps_def
    proof (intro allI impI)
      fix db r db' assume f: "file_attributes db = f" "load_or_create cfg key c db = Some (r, db')"
      then show "file_attributes db' = f"
        using keepsD [OF init, of db r db'] by (simp add: load_or_create_def split: sum.splits if_splits)
    qed
  qed
  have "keeps (attrs_are f) (resolve_listed cfg pinned key c)" for key c
    unfolding resolve_listed_def
    by (intro keeps_intro load) (auto simp: invalidate_if_stale_def touch_lru_def forget_lru_def put_table_def split: option.split)
  then show ?thesis
    unfolding get_table_mut_def resolve_cached_def by (intro keeps_intro) simp_all
qed

lemma keeps_attrs_save [keeps_intro]: "keeps (attrs_are f) (save cfg pinned now)"
proof -
  have "keeps (attrs_are f) (load_clients_from_table cfg pinned)"
    unfolding load_clients_from_table_def by (intro keeps_intro) simp
  moreover have "keeps (attrs_are f) (flush_dirty cfg key)" for key unfolding flush_dirty_def by (intro keeps_intro)
  ultimately show ?thesis unfolding save_def by (auto intro!: keeps_intro split: prod.split)
qed

lemma reattach_attrs [simp]: "file_attributes (reattach key g db) = file_attributes db"
  by (auto simp: reattach_def Let_def put_store_def put_table_def split: prod.split option.split)

text \<open>
  Setting a file's attributes takes effect at once: when it succeeds, the write path sees the new
  attributes whatever else the change loaded, flushed or evicted.
\<close>

theorem set_attributes_take_effect:
  assumes "set_file_attributes_for_account cfg pinned now account name a what db = Some (Ok (), db')"
  shows "file_attributes_for_account cfg pinned account name db' = Some (Ok a, db')"
proof -
  obtain db1 where "save cfg pinned now db1 = Some (Ok (), db')" "hm_get (file_attributes db1) (account, name) = Some a"
    using assms unfolding set_file_attributes_for_account_def
    by (fastforce simp: and_then_Ok_iff if_distribR split: if_splits)
  then have "hm_get (file_attributes db') (account, name) = Some a"
    using keepsD [OF keeps_attrs_save, of cfg pinned now db1 "Ok ()" db' "file_attributes db1"] by simp
  then show ?thesis by (simp add: file_attributes_for_account_def)
qed

lemma with_table_get: "hm_get (tables db) key = Some t \<Longrightarrow> with_table key f db = Some (Ok (fst (f t)), put_table key (snd (f t)) db)"
  by (simp add: with_table_def case_prod_beta)

text \<open>
  Deleting a file leaves its entry in the account's listing file. The entry survives the next rebuild of
  the listing, so a file created later under the same name comes up as what the old one was: a queue, a
  durable file, one that mints its keys.
\<close>

theorem deleted_attributes_return:
  assumes del: "delete_table_for_account cfg account name db = Some (Ok (), db1)" and "name \<noteq> ''DIR''"
    and dir: "hm_get (tables db) (account, ''DIR'') = Some t" "hm_get (tbl_records t) name = Some (attributes_to_record a)" "attributes_ok a"
    and again: "create_listed cfg account name db1 = Some (Ok True, db2)" "sync_dir_file_for_account cfg pinned account db2 = Some (Ok (), db3)"
    and fresh: "\<not> table_stale cfg db2 (account, ''DIR'') t" "get_account_dir db2 account = Some d" "listing_fresh cfg db2 account d"
  shows "hm_get (tables db1) (account, ''DIR'') = Some t \<and> hm_get (file_attributes db1) (account, name) = None \<and>
    (\<exists>t3. hm_get (tables db3) (account, ''DIR'') = Some t3 \<and> map_option attributes_of (hm_get (tbl_records t3) name) = Some a)"
proof -
  have one: "hm_get (tables db1) (account, ''DIR'') = Some t \<and> hm_get (file_attributes db1) (account, name) = None"
  proof -
    obtain db0 where "account_has_table cfg account name db = Some (Ok True, db0)"
      "tables db1 = hm_remove (account, name) (tables db0)" "file_attributes db1 = hm_remove (account, name) (file_attributes db0)"
      using del by (auto simp: delete_table_for_account_def and_then_def remove_dir_all_def forget_lru_def split: if_splits option.splits prod.splits sum.splits)
    moreover have "keeps (\<lambda>x. hm_get (tables x) (account, ''DIR'') = Some t) (account_has_table cfg account name)"
      by (rule keeps_listing(3)) (simp add: listing_free_def)
    ultimately show ?thesis using dir(1) assms(2) by (auto dest: keepsD)
  qed
  have "keeps (\<lambda>x. hm_get (tables x) (account, ''DIR'') = Some t) (init_file cfg account name)"
    by (auto simp: keeps_def init_file_def create_dir_all_def Let_def split: option.splits prod.splits sum.splits if_splits)
  then have "keeps (\<lambda>x. hm_get (tables x) (account, ''DIR'') = Some t) (create_listed cfg account name)"
    unfolding create_listed_def by (intro keeps_intro) (simp_all add: listing_free_def listed_dirs_def)
  then have here: "hm_get (tables db2) (account, ''DIR'') = Some t" using again(1) one by (auto dest: keepsD)
  have listed: "name \<in> set (listing db2 account)" "''DIR'' \<in> set (listing db2 account)"
  proof -
    obtain db0 where "db2 = listed_dirs db0 account name" "''DIR'' \<in> set (listing db2 account)"
      using again(1) by (auto simp: create_listed_def and_then_Ok_iff if_distribR split: if_splits)
    then show "name \<in> set (listing db2 account)" "''DIR'' \<in> set (listing db2 account)" by (simp_all add: listed_dirs_def listing_def)
  qed
  have names: "list_tables_for_account cfg account db2 = Some (Ok (sort (listing db2 account)), db2)"
    using fresh by (simp add: list_tables_for_account_def account_tables_def outcome_of_def and_then_def ensure_available_known)
  have "get_table_mut cfg pinned account ''DIR'' db2 = Some (Ok (), touch_lru (account, ''DIR'') db2)"
    using fresh here listed by (intro get_table_loaded) auto
  moreover have "hm_get (tables (touch_lru (account, ''DIR'') db2)) (account, ''DIR'') = Some t" using here by (simp add: touch_lru_def)
  ultimately have "hm_get (tables db3) (account, ''DIR'') = Some (touch_all (t\<lparr>tbl_records := rebuilt_listing (tbl_records t) (sort (listing db2 account))\<rparr>))"
    using again(2) names by (auto simp: sync_dir_file_for_account_def and_then_def with_table_get)
  moreover have "hm_get (rebuilt_listing (tbl_records t) (sort (listing db2 account))) name = Some (attributes_to_record a)"
    using listed assms(2) dir attributes_round_trip [OF dir(3)] by (simp add: rebuilt_listing_get)
  ultimately show ?thesis using one attributes_round_trip [OF dir(3)] by (simp add: touch_all_def)
qed


section \<open>Instances\<close>

text \<open>A database of two accounts with one file each, and a table in memory for the second.\<close>

definition small_cfg :: "nat \<Rightarrow> Settings" where
  "small_cfg n = \<lparr>cfg_engine = small_engine, max_loaded = n, durable_writes = False, flush_interval = 250, flush_max_pending = 2,
     max_log_records = 100, dir_modified = \<lambda>_ _. Some 0, file_stamp = \<lambda>_. (None, 0), to_lowercase = to_ascii_lowercase\<rparr>"

definition small_database :: "(table_key, Table) hashmap \<Rightarrow> Database" where
  "small_database ts = \<lparr>storage_dir = ''db'', session_account = [],
     accounts_config = \<lparr>rec_fields = [\<lparr>field_values = [Value_text ''A'', Value_text ''B'']\<rparr>, \<lparr>field_values = [Value_text ''db/A'', Value_text ''db/B'']\<rparr>]\<rparr>,
     tables = ts, available_tables = [(''A'', [''F'', ''DIR'']), (''B'', [''F''])], available_stamps = [(''A'', Some 0), (''B'', Some 0)],
     lru_order = map fst ts, clients = ClientRegistry_default, registry_stamp = None, pending_writes = 0, last_flush = 0, write_marks = [],
     file_attributes = [((''A'', ''F''), FileAttributes_default), ((''B'', ''F''), FileAttributes_default\<lparr>durable := True\<rparr>)],
     disk_dirs = [([''db'', ''A'', ''F''], FileStore_new), ([''db'', ''B'', ''F''], FileStore_new)],
     disk_records = [], disk_registry = None, disk_certs = None\<rparr>"

lemma small_dirs [simp]:
  "get_account_dir (small_database ts) ''A'' = Some ''db/A''" "get_account_dir (small_database ts) ''B'' = Some ''db/B''"
  by (simp_all add: small_database_def get_account_dir_def get_at_def first_bytes_def first_text_def Value_text_def text_of_def from_utf8_lossy_valid utf8_valid_ascii is_ascii_def)

lemma small_paths [simp]:
  "file_path (small_database ts) (''A'', ''F'') = [''db'', ''A'', ''F'']" "file_path (small_database ts) (''B'', ''F'') = [''db'', ''B'', ''F'']"
  by (simp_all add: file_path_def file_dir_def account_storage_dir_def path_of_def path_start_def push_component_def)

lemma small_listing [simp]:
  "listing_fresh (small_cfg n) (small_database ts) ''A'' dir" "listing (small_database ts) ''A'' = [''F'', ''DIR'']"
  by (simp_all add: listing_fresh_def listing_def small_database_def small_cfg_def hm_contains_def hm_get_def)

lemma small_stores [simp]:
  "hm_contains (disk_dirs (small_database ts)) [''db'', ''A'', ''F'']" "hm_contains (disk_dirs (small_database ts)) [''db'', ''B'', ''F'']"
  "store_at (small_database ts) [''db'', ''A'', ''F''] = FileStore_new" "store_at (small_database ts) [''db'', ''B'', ''F''] = FileStore_new"
  by (simp_all add: small_database_def hm_contains_def hm_get_def store_at_def)

lemma small_cfg_simps [simp]:
  "cfg_engine (small_cfg n) = small_engine" "max_loaded (small_cfg n) = n" "durable_writes (small_cfg n) = False" "flush_max_pending (small_cfg n) = 2"
  "records_per_group small_engine = 16" "sizes_fit 0 16"
  by (simp_all add: small_cfg_def small_engine_def sizes_fit_def)

theorem recreate_damages_file_witness:
  "\<exists>fs. create_table_for_account (small_cfg 9) [] ''A'' ''F'' (small_database []) =
      Some (Err (FileExists ''A'' ''F''), put_store [''db'', ''A'', ''F''] fs (small_database []))"
  using recreate_damages_file [of "''A''" "small_database []" "''db/A''" "small_cfg 9" "''F''" "[]"] by auto

theorem file_name_escapes_account_witness:
  "\<exists>has_dir db'. create_listed (small_cfg 9) ''A'' (''../'' @ ''B'' @ ''/'' @ ''F'') (small_database []) = Some (Ok has_dir, db') \<and>
    ''../'' @ ''B'' @ ''/'' @ ''F'' \<in> set (listing db' ''A'') \<and>
    file_path db' (''A'', ''../'' @ ''B'' @ ''/'' @ ''F'') = file_path db' (''B'', ''F'') \<and>
    fs_dict (store_at db' (file_path db' (''B'', ''F''))) = Some []"
  by (rule file_name_escapes_account) (simp_all add: plain_component_def, simp_all add: small_database_def)

definition small_table :: Table where
  "small_table = insert_record ''k'' sample_record Table_new"

lemma small_table_ready: "table_ready 16 FileStore_new small_table"
  unfolding small_table_def by (rule table_ready_sample)

lemma small_tables:
  "hm_get (tables (small_database [((''B'', ''F''), small_table)])) k = (if k = (''B'', ''F'') then Some small_table else None)"
  "hm_wf (tables (small_database [((''B'', ''F''), small_table)]))"
  "paths_apart (small_database [((''B'', ''F''), small_table)])"
  by (simp_all add: small_database_def hm_get_def hm_wf_def paths_apart_def)

lemma small_table_simps [simp]: "\<not> has_claims small_table" "table_is_dirty small_table"
  using table_ready_sample(2) by (simp_all add: small_table_def has_claims_def insert_record_def mark_dirty_def Table_new_def)


theorem failed_eviction_drops_changes_witness:
  "\<exists>db'. evict_if_over_budget (small_cfg 0) []
      (put_store [''db'', ''B'', ''F''] (FileStore_new\<lparr>fs_data := [(group_path (group_of ''k'' 8), ''torn'')]\<rparr>)
        (small_database [((''B'', ''F''), small_table\<lparr>data_meta := \<lparr>meta_version = 1, meta_modulus = 8, meta_records = 0, meta_checksums = True\<rparr>\<rparr>)])) =
      Some (Ok (), db') \<and> hm_get (tables db') (''B'', ''F'') = None"
proof -
  let ?t = "small_table\<lparr>data_meta := \<lparr>meta_version = 1, meta_modulus = 8, meta_records = 0, meta_checksums = True\<rparr>\<rparr>"
  let ?fs = "FileStore_new\<lparr>fs_data := [(group_path (group_of ''k'' 8), ''torn'')]\<rparr>"
  let ?db = "put_store [''db'', ''B'', ''F''] ?fs (small_database [((''B'', ''F''), ?t)])"
  have t: "dirty_keys ?t = [''k'']" "\<not> dirty_all ?t" "\<not> legacy_data ?t" "tbl_indexes ?t = []" "\<not> tmp_swept ?t"
    "tbl_records ?t = [(''k'', sample_record)]"
    by (simp_all add: small_table_def insert_record_def mark_dirty_def Table_new_def hm_insert_def)
  have swept: "hm_get (sweep_tmp (fs_data ?fs)) (group_path (group_of ''k'' 8)) = Some ''torn''" unfolding sweep_tmp_get by (simp add: hm_get_def)
  have "target_loop 8 16 (Suc 0) = Some 8" by (subst target_loop.simps) simp
  then have "plan_modulus 8 (Suc 0) 16 = Some 8" by (simp add: plan_modulus_def target_modulus_def MIN_MODULUS_def)
  then have "\<exists>x e. flush_locked 16 sa ?fs ?t = Some (x, (rebuild_stale_indexes ?t)\<lparr>tmp_swept := True\<rparr>, Err e)" for sa
    using t swept by (simp add: flush_locked_def table_is_dirty_def Let_def flush_records_def records_dirty_def save_with_fsync_def
        source_of_map_def read_group_def read_trailer_def TRAILER_LEN_def)
  then obtain x e where fl: "flush_locked 16 (stamp_after small_engine) ?fs ?t = Some (x, (rebuild_stale_indexes ?t)\<lparr>tmp_swept := True\<rparr>, Err e)"
    by blast
  have B: "hm_get (tables ?db) (''B'', ''F'') = Some ?t" by (simp add: small_database_def hm_get_def)
  then obtain db1 f where fails: "flush_handle (small_cfg 0) (''B'', ''F'') ?db = Some (Err f, db1)"
    using fl by (simp add: flush_handle_def)
  have "length (tables ?db) = Suc (max_loaded (small_cfg 0))" "hm_wf (tables ?db)" "lru_order ?db = (''B'', ''F'') # []" "(''B'', ''F'') \<notin> set []"
    "\<not> has_claims ?t"
    using small_table_simps(1) by (simp_all add: small_database_def hm_wf_def has_claims_def)
  from failed_eviction_drops_changes [OF this(1-3) B this(4,5) fails] show ?thesis by blast
qed

theorem durable_write_reaches_disk_witness:
  "\<exists>db'. note_write_for (small_cfg 9) [] 7 ''B'' ''F'' (small_database [((''B'', ''F''), small_table)]) = Some (Ok (), db') \<and>
    on_disk (disk_stamp small_engine) (store_at db' [''db'', ''B'', ''F'']) small_table \<and> pending_write_count db' = 0"
proof -
  let ?db = "small_database [((''B'', ''F''), small_table)]"
  have ready: "table_ready (records_per_group (cfg_engine (small_cfg 9))) (store_at ?db (file_path ?db k)) t"
    if "hm_get (tables ?db) k = Some t" for k t
    using that small_table_ready by (simp add: small_tables split: if_splits)
  have "hm_get (file_attributes ?db) (''B'', ''F'') = Some (FileAttributes_default\<lparr>durable := True\<rparr>)"
    by (simp add: small_database_def hm_get_def)
  moreover have "\<not> loaded_dirty ?db CLIENTS_KEY" by (simp add: loaded_dirty_def small_tables CLIENTS_KEY_def)
  ultimately obtain db' where "note_write_for (small_cfg 9) [] 7 ''B'' ''F'' ?db = Some (Ok (), db')" "pending_write_count db' = 0"
    "\<forall>k t. hm_get (tables ?db) k = Some t \<longrightarrow> on_disk (disk_stamp small_engine) (store_at db' (file_path ?db k)) t"
    using durable_write_reaches_disk [where db = ?db and cfg = "small_cfg 9" and pinned = "[]" and now = 7 and st = "disk_stamp small_engine",
        OF _ _ small_tables(2,3) _ ready] by fastforce
  then show ?thesis using small_tables(1) [of "(''B'', ''F'')"] by (metis small_paths(2))
qed

definition small_burst :: "(nat \<times> (Table \<Rightarrow> Table)) list" where
  "small_burst = [(5, \<lambda>t. t)]"



definition small_listing_table :: Table where
  "small_listing_table = Table_new\<lparr>tbl_records := [(''F'', attributes_to_record (FileAttributes_default\<lparr>durable := True\<rparr>))], dirty_all := True\<rparr>"

theorem deleted_attributes_return_witness:
  "\<exists>db1 db2 db3 t3. delete_table_for_account (small_cfg 9) ''A'' ''F'' (small_database [((''A'', ''DIR''), small_listing_table)]) = Some (Ok (), db1) \<and>
    create_listed (small_cfg 9) ''A'' ''F'' db1 = Some (Ok True, db2) \<and> sync_dir_file_for_account (small_cfg 9) [] ''A'' db2 = Some (Ok (), db3) \<and>
    hm_get (tables db3) (''A'', ''DIR'') = Some t3 \<and> map_option attributes_of (hm_get (tbl_records t3) ''F'') = Some (FileAttributes_default\<lparr>durable := True\<rparr>)"
proof -
  let ?a = "FileAttributes_default\<lparr>durable := True\<rparr>" and ?db = "small_database [((''A'', ''DIR''), small_listing_table)]"
  define db1 where "db1 = remove_dir_all (file_dir ?db ''A'' ''F'') (forget_lru (''A'', ''F'') (?db\<lparr>tables := hm_remove (''A'', ''F'') (tables ?db),
      file_attributes := hm_remove (''A'', ''F'') (file_attributes ?db), available_tables := hm_insert ''A'' [''DIR''] (available_tables ?db)\<rparr>))"
  have del: "delete_table_for_account (small_cfg 9) ''A'' ''F'' ?db = Some (Ok (), db1)"
    by (simp add: delete_table_for_account_def and_then_def account_has_table_known [where dir = "''db/A''"] db1_def)
      (simp add: small_database_def hm_get_def)
  have dirs: "get_account_dir db1 = get_account_dir ?db" "file_path db1 = file_path ?db"
    by (rule file_path_cong; simp add: db1_def remove_dir_all_def forget_lru_def)+
  have fresh1: "listing_fresh (small_cfg 9) db1 ''A'' d" "listing db1 ''A'' = [''DIR'']" for d
    by (simp_all add: listing_fresh_def listing_def db1_def remove_dir_all_def forget_lru_def small_database_def small_cfg_def hm_contains_def hm_get_def hm_insert_def hm_remove_def)
  have tab1: "hm_get (tables db1) (''A'', ''DIR'') = Some small_listing_table"
    by (simp add: db1_def remove_dir_all_def forget_lru_def small_database_def hm_get_def hm_remove_def)
  define db0 where "db0 = (if hm_contains (disk_dirs db1) (path_of (file_dir db1 ''A'' ''F'')) then db1 else create_dir_all (file_dir db1 ''A'' ''F'') db1)"
  obtain fs meta where ini: "init_data_section 16 (store_at db0 (path_of (file_dir db1 ''A'' ''F''))) = Some (fs, Ok meta)"
    using init_data_section_cases [OF small_cfg_simps(6)] by blast
  define db2 where "db2 = listed_dirs (put_store (path_of (file_dir db1 ''A'' ''F'')) (fs\<lparr>fs_dict := Some []\<rparr>) db0) ''A'' ''F''"
  have same0: "listing db0 = listing db1" "tables db0 = tables db1" "available_tables db0 = available_tables db1" "accounts_config db0 = accounts_config db1"
    "storage_dir db0 = storage_dir db1" "available_stamps db0 = available_stamps db1"
    by (simp_all add: db0_def create_dir_all_def fun_eq_iff listing_def)
  have "create_listed (small_cfg 9) ''A'' ''F'' db1 = Some (Ok True, db2)"
    using ini fresh1 by (simp add: create_listed_def and_then_def ensure_available_known [where dir = "''db/A''"] dirs(1) init_file_def Let_def
        db0_def [symmetric] same0 db2_def) (simp add: listed_dirs_def listing_def same0 fresh1(2) [unfolded listing_def])
  moreover have dirs2: "get_account_dir db2 = get_account_dir ?db"
    using dirs(1) file_path_cong(1) [of db2 db1] by (simp add: db2_def listed_dirs_def put_store_def same0)
  have fresh2: "listing_fresh (small_cfg 9) db2 ''A'' d" "listing db2 ''A'' = [''DIR'', ''F'']" for d
    using fresh1 same0 by (simp_all add: db2_def listed_dirs_def put_store_def listing_fresh_def listing_def small_cfg_def hm_contains_def)
  have tab2: "hm_get (tables db2) (''A'', ''DIR'') = Some small_listing_table" using tab1 same0 by (simp add: db2_def listed_dirs_def)
  have stale: "\<not> table_stale (small_cfg 9) db2 (''A'', ''DIR'') small_listing_table"
    by (simp add: table_stale_def small_listing_table_def table_is_dirty_def)
  have "\<exists>db3. sync_dir_file_for_account (small_cfg 9) [] ''A'' db2 = Some (Ok (), db3)"
  proof -
    have "get_table_mut (small_cfg 9) [] ''A'' ''DIR'' db2 = Some (Ok (), touch_lru (''A'', ''DIR'') db2)"
      by (rule get_table_loaded [OF _ fresh2(1) _ tab2 stale]) (simp_all add: dirs2 fresh2)
    moreover have "hm_get (tables (touch_lru (''A'', ''DIR'') db2)) (''A'', ''DIR'') = Some small_listing_table" using tab2 by (simp add: touch_lru_def)
    ultimately show ?thesis
      using fresh2 by (simp add: sync_dir_file_for_account_def list_tables_for_account_def account_tables_def outcome_of_def and_then_def
          ensure_available_known [where dir = "''db/A''"] dirs2 with_table_get)
  qed
  ultimately obtain db3 where run: "create_listed (small_cfg 9) ''A'' ''F'' db1 = Some (Ok True, db2)"
    "sync_dir_file_for_account (small_cfg 9) [] ''A'' db2 = Some (Ok (), db3)" by blast
  have "get_account_dir db2 ''A'' = Some ''db/A''" by (simp add: dirs2)
  moreover have "hm_get (tables ?db) (''A'', ''DIR'') = Some small_listing_table" by (simp add: small_database_def hm_get_def)
  moreover have "hm_get (tbl_records small_listing_table) ''F'' = Some (attributes_to_record ?a)" by (simp add: small_listing_table_def hm_get_def)
  moreover have "attributes_ok ?a" by (simp add: attributes_ok_def FileAttributes_default_def)
  ultimately show ?thesis
    using deleted_attributes_return [OF del _ _ _ _ run stale _ fresh2(1)] del run by fastforce
qed

end
