(* ===== verification/Accounts.thy ===== *)
theory Accounts
  imports Catalog_Props
begin

text \<open>
  Accounts, sessions and authorized clients (\<^verbatim>\<open>db/engine/mod.rs\<close>): the account registry, moving between
  accounts, the commands that change who may connect, and what opening a database does with the
  certificate list of an older format. Thumbprints are put in lower case by the standard library, which
  is a parameter of the configuration.
\<close>

section \<open>Sessions\<close>

definition set_current_account :: "str \<Rightarrow> Database \<Rightarrow> Database" where
  "set_current_account account db = db\<lparr>session_account := account\<rparr>"

definition logout :: "Settings \<Rightarrow> table_key list \<Rightarrow> nat \<Rightarrow> unit cmd" where
  "logout cfg pinned now = and_then (ignored (save cfg pinned now)) (\<lambda>_. change (set_current_account []))"

definition logto :: "Settings \<Rightarrow> table_key list \<Rightarrow> nat \<Rightarrow> str \<Rightarrow> unit cmd" where
  "logto cfg pinned now account =
     and_then (asks (\<lambda>db. get_account_dir db account = None)) (\<lambda>unknown.
     and_then (if unknown then ignored (refresh_account_registry cfg) else ret ()) (\<lambda>_.
     and_then (asks (\<lambda>db. (get_account_dir db account = None, session_account db = account))) (\<lambda>(missing, here).
     if missing then fail (AccountNotFound account)
     else if here then ret ()
     else
       and_then (save cfg pinned now) (\<lambda>_.
       and_then (change (set_current_account account)) (\<lambda>_.
       ensure_available_tables cfg account)))))"

definition run_in_system_account :: "Settings \<Rightarrow> table_key list \<Rightarrow> nat \<Rightarrow> 'a cmd \<Rightarrow> 'a cmd" where
  "run_in_system_account cfg pinned now f =
     and_then (asks session_account) (\<lambda>original.
     and_then (if original = ''SYSTEM'' then ret () else logto cfg pinned now ''SYSTEM'') (\<lambda>_.
     and_then (outcome_of f) (\<lambda>result.
     and_then (if original = ''SYSTEM'' then ret ()
       else if original = [] then logout cfg pinned now else ignored (logto cfg pinned now original)) (\<lambda>_.
     of_result result))))"

section \<open>The account registry\<close>

definition SYS_ACCOUNTS_PATH_IDX :: nat where "SYS_ACCOUNTS_PATH_IDX = 0"

definition pad_fields :: "nat \<Rightarrow> Record \<Rightarrow> Record" where
  "pad_fields n r = r\<lparr>rec_fields := rec_fields r @ replicate (n - length (rec_fields r)) \<lparr>field_values = []\<rparr>\<rparr>"

definition push_value :: "nat \<Rightarrow> Value \<Rightarrow> Record \<Rightarrow> Record" where
  "push_value i v r = r\<lparr>rec_fields := (rec_fields r)[i := \<lparr>field_values = field_values (rec_fields r ! i) @ [v]\<rparr>]\<rparr>"

definition registry_add :: "str \<Rightarrow> str \<Rightarrow> Record \<Rightarrow> Record" where
  "registry_add name dir r = push_value 1 (Value_text dir) (push_value 0 (Value_text name) (pad_fields 2 r))"

definition remove_at :: "nat \<Rightarrow> 'a list \<Rightarrow> 'a list" where
  "remove_at i xs = take i xs @ drop (Suc i) xs"

definition drop_value :: "nat \<Rightarrow> nat \<Rightarrow> Record \<Rightarrow> Record" where
  "drop_value i pos r =
     (case get_at (rec_fields r) i of None \<Rightarrow> r
      | Some f \<Rightarrow> r\<lparr>rec_fields := (rec_fields r)[i := \<lparr>field_values = remove_at pos (field_values f)\<rparr>]\<rparr>)"

definition registry_remove :: "str \<Rightarrow> Record \<Rightarrow> Record" where
  "registry_remove name r =
     (case position_of (\<lambda>v. first_bytes v = name) (values_at r 0) of None \<Rightarrow> r
      | Some pos \<Rightarrow> drop_value 1 pos (drop_value 0 pos r))"

definition account_record :: "str \<Rightarrow> Record" where
  "account_record dir = push_value SYS_ACCOUNTS_PATH_IDX (Value_text dir) (pad_fields (SYS_ACCOUNTS_PATH_IDX + 1) Record_new)"

definition create_account :: "Settings \<Rightarrow> table_key list \<Rightarrow> nat \<Rightarrow> str \<Rightarrow> str option \<Rightarrow> unit cmd" where
  "create_account cfg pinned now name directory =
     and_then (ignored (refresh_account_registry cfg)) (\<lambda>_.
     and_then (asks (\<lambda>db. (get_account_dir db name \<noteq> None,
       case directory of Some d \<Rightarrow> d | None \<Rightarrow> storage_dir db @ ''/'' @ name, session_account db))) (\<lambda>(known, dir, previous).
     if known then fail (AccountExists name)
     else
       and_then (change (\<lambda>db. if hm_contains (disk_dirs db) (path_of dir) then db else create_dir_all dir db)) (\<lambda>_.
       and_then (change (set_current_account ''SYSTEM'')) (\<lambda>_.
       and_then (change (\<lambda>db. db\<lparr>accounts_config := registry_add name dir (accounts_config db)\<rparr>)) (\<lambda>_.
       and_then (persist_account_registry cfg) (\<lambda>_.
       and_then (run_in_system_account cfg pinned now
           (and_then (asks (\<lambda>db. ''$ACCOUNTS'' \<in> set (listing db ''SYSTEM''))) (\<lambda>listed.
            if \<not> listed then ret ()
            else
              and_then (asks session_account) (\<lambda>account.
              and_then (get_table_mut cfg pinned account ''$ACCOUNTS'') (\<lambda>_.
              and_then (with_table (account, ''$ACCOUNTS'') (\<lambda>t. ((), insert_record name (account_record dir) t))) (\<lambda>_.
              save cfg pinned now)))))) (\<lambda>_.
       and_then (ensure_dir_file_for_account cfg pinned name) (\<lambda>_.
       if previous \<noteq> [] \<and> previous \<noteq> ''SYSTEM'' then ignored (logto cfg pinned now previous)
       else if previous = [] then change (set_current_account []) else ret ()))))))))"

definition delete_account :: "Settings \<Rightarrow> table_key list \<Rightarrow> nat \<Rightarrow> str \<Rightarrow> unit cmd" where
  "delete_account cfg pinned now name =
     (if name = ''SYSTEM'' then fail (AccountProtected ''SYSTEM'')
      else
        and_then (ignored (refresh_account_registry cfg)) (\<lambda>_.
        and_then (asks (\<lambda>db. get_account_dir db name)) (\<lambda>dir.
        case dir of None \<Rightarrow> fail (AccountNotFound name)
        | Some dir \<Rightarrow>
          and_then (change (\<lambda>db. db\<lparr>accounts_config := registry_remove name (accounts_config db)\<rparr>)) (\<lambda>_.
          and_then (persist_account_registry cfg) (\<lambda>_.
          and_then (run_in_system_account cfg pinned now
              (and_then (asks session_account) (\<lambda>account.
               and_then (get_table_mut cfg pinned account ''$ACCOUNTS'') (\<lambda>_.
               and_then (with_table (account, ''$ACCOUNTS'') (\<lambda>t. ((), snd (remove_record name t)))) (\<lambda>_.
               save cfg pinned now))))) (\<lambda>_.
          change (\<lambda>db0. let db = remove_dir_all dir db0; gone = filter (\<lambda>k. fst k = name) (hm_keys (tables db)) in
            db\<lparr>tables := hm_retain (\<lambda>k. fst k \<noteq> name) (tables db),
               lru_order := fold remove1 gone (lru_order db),
               file_attributes := fold hm_remove gone (file_attributes db),
               available_tables := hm_remove name (available_tables db),
               available_stamps := hm_remove name (available_stamps db),
               session_account := (if session_account db = name then [] else session_account db)\<rparr>)))))))"

section \<open>Clients\<close>

definition client_record :: "(str \<Rightarrow> str) \<Rightarrow> str \<Rightarrow> ClientGrant \<Rightarrow> Record" where
  "client_record lower tp g = \<lparr>rec_fields = map (\<lambda>vs. \<lparr>field_values = vs\<rparr>)
     [[Value_text (lower tp)],
      map Value_text (cg_allowed_accounts g),
      [Value_text (if cg_is_admin g then ''Y'' else [])],
      if cg_is_admin g then [] else map (\<lambda>c. Value_text (capability_as_str c)) (cg_capabilities g),
      (case cg_expires_at g of Some e \<Rightarrow> [Value_text e] | None \<Rightarrow> []),
      if cg_is_admin g then [] else map (\<lambda>e. Value_text (enqueue_grant_as_string e)) (cg_enqueue_files g)]\<rparr>"

text \<open>\<^verbatim>\<open>certs.reg\<close>, the list an older format kept, is still written whenever a client is added or removed.\<close>

definition certs_record :: "ClientRegistry \<Rightarrow> Record" where
  "certs_record reg = \<lparr>rec_fields = [\<lparr>field_values = map Value_text (reg_certs reg)\<rparr>]\<rparr>"

definition save_certs :: "unit cmd" where
  "save_certs = change (\<lambda>db. db\<lparr>disk_certs := Some (flat_content (hm_insert ''certs'' (certs_record (clients db)) []))\<rparr>)"

definition clients_table :: "Settings \<Rightarrow> table_key list \<Rightarrow> (Table \<Rightarrow> 'a \<times> Table) \<Rightarrow> 'a cmd" where
  "clients_table cfg pinned f =
     and_then (asks session_account) (\<lambda>account.
     and_then (get_table_mut cfg pinned account ''$CLIENTS'') (\<lambda>_. with_table (account, ''$CLIENTS'') f))"

definition add_authorized_client :: "Settings \<Rightarrow> table_key list \<Rightarrow> nat \<Rightarrow> str \<Rightarrow> str \<Rightarrow> ClientGrant \<Rightarrow> unit cmd" where
  "add_authorized_client cfg pinned now name tp grant =
     run_in_system_account cfg pinned now
       (and_then (clients_table cfg pinned (\<lambda>t. ((), insert_record name (client_record (to_lowercase cfg) tp grant) t))) (\<lambda>_.
        and_then (save cfg pinned now) (\<lambda>_.
        and_then (load_clients_from_table cfg pinned) (\<lambda>_. save_certs))))"

text \<open>Giving a client one more account, and taking one away: the record, and whether it changed.\<close>

definition record_add_account :: "str \<Rightarrow> Record \<Rightarrow> Record \<times> bool" where
  "record_add_account account r0 =
     (let r = pad_fields (SYS_CLIENTS_ACCOUNTS_IDX + 1) r0 in
      if list_ex (\<lambda>v. first_bytes v = account) (values_at r SYS_CLIENTS_ACCOUNTS_IDX) then (r, False)
      else (push_value SYS_CLIENTS_ACCOUNTS_IDX (Value_text account) r, True))"

definition record_remove_account :: "str \<Rightarrow> Record \<Rightarrow> Record \<times> bool" where
  "record_remove_account account r =
     (if length (rec_fields r) \<le> SYS_CLIENTS_ACCOUNTS_IDX then (r, False)
      else
        let vs = values_at r SYS_CLIENTS_ACCOUNTS_IDX; kept = filter (\<lambda>v. first_bytes v \<noteq> account) vs in
        (r\<lparr>rec_fields := (rec_fields r)[SYS_CLIENTS_ACCOUNTS_IDX := \<lparr>field_values = kept\<rparr>]\<rparr>, length kept < length vs))"

text \<open>The record is changed in place, outside \<open>insert_record\<close>, and marked dirty when it changed.\<close>

definition edit_client :: "(Record \<Rightarrow> Record \<times> bool) \<Rightarrow> str \<Rightarrow> Table \<Rightarrow> bool \<times> Table" where
  "edit_client f name t =
     (case hm_get (tbl_records t) name of None \<Rightarrow> (False, t)
      | Some r \<Rightarrow>
        (case f r of (r', changed) \<Rightarrow>
           let t' = t\<lparr>tbl_records := hm_insert name r' (tbl_records t)\<rparr> in (changed, if changed then mark_dirty name t' else t')))"

definition change_client :: "Settings \<Rightarrow> table_key list \<Rightarrow> nat \<Rightarrow> (Record \<Rightarrow> Record \<times> bool) \<Rightarrow> str \<Rightarrow> bool cmd" where
  "change_client cfg pinned now f name =
     run_in_system_account cfg pinned now
       (and_then (clients_table cfg pinned (edit_client f name)) (\<lambda>success.
        if \<not> success then ret False
        else
          and_then (save cfg pinned now) (\<lambda>_.
          and_then (load_clients_from_table cfg pinned) (\<lambda>_. ret True))))"

definition add_client_account :: "Settings \<Rightarrow> table_key list \<Rightarrow> nat \<Rightarrow> str \<Rightarrow> str \<Rightarrow> bool cmd" where
  "add_client_account cfg pinned now name account = change_client cfg pinned now (record_add_account account) name"

definition remove_client_account :: "Settings \<Rightarrow> table_key list \<Rightarrow> nat \<Rightarrow> str \<Rightarrow> str \<Rightarrow> bool cmd" where
  "remove_client_account cfg pinned now name account = change_client cfg pinned now (record_remove_account account) name"

definition remove_authorized_client :: "Settings \<Rightarrow> table_key list \<Rightarrow> nat \<Rightarrow> str \<Rightarrow> bool cmd" where
  "remove_authorized_client cfg pinned now name =
     run_in_system_account cfg pinned now
       (and_then (clients_table cfg pinned (\<lambda>t. case remove_record name t of (previous, t') \<Rightarrow> (previous \<noteq> None, t'))) (\<lambda>found.
        if \<not> found then ret False
        else
          and_then (save cfg pinned now) (\<lambda>_.
          and_then (load_clients_from_table cfg pinned) (\<lambda>_.
          and_then (ignored save_certs) (\<lambda>_. ret True)))))"

section \<open>Opening a database\<close>

text \<open>
  One entry of \<^verbatim>\<open>certs.reg\<close> brought into \<open>$CLIENTS\<close>. Its key takes the first eight bytes of the thumbprint,
  and a shorter one is a panic, which is \<open>None\<close>.
\<close>

definition migrated_record :: "str \<Rightarrow> Record" where
  "migrated_record tp = push_value SYS_CLIENTS_ADMIN_IDX (Value_text ''Y'')
     (push_value SYS_CLIENTS_THUMBPRINT_IDX (Value_text tp) (pad_fields (SYS_CLIENTS_ADMIN_IDX + 1) Record_new))"

definition migrate_cert :: "(str \<Rightarrow> str) \<Rightarrow> bytes \<Rightarrow> Table \<Rightarrow> Table option" where
  "migrate_cert lower sv t =
     (if sv = [] then Some t
      else
        let tp = text_of sv; tp_lower = lower tp in
        if list_ex (\<lambda>(_, r). text_at r 0 = Some tp_lower) (tbl_records t) then Some t
        else if length tp < 8 \<or> \<not> utf8_valid (take 8 tp) then None
        else Some (insert_record (''migrated_'' @ take 8 tp) (migrated_record tp_lower) t))"

fun migrate_certs :: "(str \<Rightarrow> str) \<Rightarrow> bytes list \<Rightarrow> Table \<Rightarrow> Table option" where
  "migrate_certs lower [] t = Some t"
| "migrate_certs lower (sv # svs) t = (case migrate_cert lower sv t of None \<Rightarrow> None | Some t' \<Rightarrow> migrate_certs lower svs t')"

definition legacy_certs :: "bytes option \<Rightarrow> bytes list option" where
  "legacy_certs content =
     (case load_section [] content ''certs.reg'' of Inl _ \<Rightarrow> None
      | Inr mp \<Rightarrow>
        (case hm_get mp ''certs'' of None \<Rightarrow> None
         | Some r \<Rightarrow> map_option (\<lambda>f. concat (map sub_values (field_values f))) (get_at (rec_fields r) 0)))"

definition migrate_legacy_certs :: "Settings \<Rightarrow> table_key list \<Rightarrow> unit cmd" where
  "migrate_legacy_certs cfg pinned =
     and_then (asks (\<lambda>db. (disk_certs db = None, legacy_certs (disk_certs db), session_account db))) (\<lambda>(none, certs, account).
     if none then ret ()
     else
       and_then (case certs of None \<Rightarrow> ret ()
         | Some svs \<Rightarrow>
           and_then (get_table_mut cfg pinned account ''$CLIENTS'') (\<lambda>_.
           (\<lambda>db. case hm_get (tables db) (account, ''$CLIENTS'') of None \<Rightarrow> None
              | Some t \<Rightarrow> (case migrate_certs (to_lowercase cfg) svs t of None \<Rightarrow> None
                  | Some t' \<Rightarrow> Some (Ok (), put_table (account, ''$CLIENTS'') t' db))))) (\<lambda>_.
       change (\<lambda>db. db\<lparr>disk_certs := None\<rparr>)))"

definition ensure_system_account :: "Settings \<Rightarrow> table_key list \<Rightarrow> nat \<Rightarrow> unit cmd" where
  "ensure_system_account cfg pinned now =
     and_then (asks (\<lambda>db. get_account_dir db ''SYSTEM'' = None)) (\<lambda>missing.
     if missing then create_account cfg pinned now ''SYSTEM'' None else ret ())"

text \<open>The accounts the registry names, with their directories, for \<open>$ACCOUNTS\<close>.\<close>

definition accounts_to_list :: "Record \<Rightarrow> (str \<times> str) list" where
  "accounts_to_list r =
     (if length (rec_fields r) < 2 then []
      else List.map_filter (\<lambda>(i, v).
        case first_text v of None \<Rightarrow> None
        | Some name \<Rightarrow>
          if name = ''SYSTEM'' then None
          else map_option (Pair name) (case get_at (values_at r 1) i of None \<Rightarrow> None | Some d \<Rightarrow> first_text d))
        (enumerate 0 (values_at r 0)))"

definition ensure_system_files :: "Settings \<Rightarrow> table_key list \<Rightarrow> unit cmd" where
  "ensure_system_files cfg pinned =
     and_then (ensure_available_tables cfg ''SYSTEM'') (\<lambda>_.
     and_then (asks session_account) (\<lambda>account.
     and_then (account_has_table cfg ''SYSTEM'' ''DIR'') (\<lambda>has_dir.
     and_then (if has_dir then ret ()
       else and_then (create_table_for_account cfg pinned account ''DIR'') (\<lambda>_. sync_dir_file_for_account cfg pinned account)) (\<lambda>_.
     and_then (for_each [''$LOGS'', ''$ACCOUNTS'', ''$CLIENTS'', ''$SAVEDLISTS''] (\<lambda>f.
       and_then (account_has_table cfg ''SYSTEM'' f) (\<lambda>has.
       if has then ret () else create_table_for_account cfg pinned account f))) (\<lambda>_.
     and_then (asks (\<lambda>db. accounts_to_list (accounts_config db))) (\<lambda>accounts.
     and_then (get_table_mut cfg pinned account ''$ACCOUNTS'') (\<lambda>_.
     with_table (account, ''$ACCOUNTS'') (\<lambda>t. ((),
       touch_all (t\<lparr>tbl_records := fold (\<lambda>(name, dir) m. hm_insert name (account_record dir) m) accounts (tbl_records t)\<rparr>))))))))))"

definition self_heal_system_dictionaries :: "Settings \<Rightarrow> table_key list \<Rightarrow> nat \<Rightarrow> unit cmd" where
  "self_heal_system_dictionaries cfg pinned now =
     and_then (asks session_account) (\<lambda>account.
     if account = [] then ret ()
     else
       and_then (account_tables cfg account) (\<lambda>names.
       and_then (fold (\<lambda>name m. and_then m (\<lambda>updated.
           and_then (ensure_default_dictionaries cfg pinned name) (\<lambda>u. ret (updated \<or> u))))
         (filter (\<lambda>n. prefix ''$'' n \<or> n = ''DIR'') names) (ret False)) (\<lambda>updated.
       if updated then save cfg pinned now else ret ())))"

text \<open>The part of \<open>Database::new\<close> between the storage format check and the replay of the transaction log.\<close>

definition open_system :: "Settings \<Rightarrow> nat \<Rightarrow> unit cmd" where
  "open_system cfg now =
     and_then (load_account_registry cfg) (\<lambda>_.
     and_then (ensure_system_account cfg [] now) (\<lambda>_.
     run_in_system_account cfg [] now
       (and_then (ensure_system_files cfg []) (\<lambda>_.
        and_then (migrate_legacy_certs cfg []) (\<lambda>_.
        and_then (self_heal_system_dictionaries cfg [] now) (\<lambda>_.
        load_clients_from_table cfg []))))))"

section \<open>The error log\<close>

definition trim_log :: "nat \<Rightarrow> (str, Record) hashmap \<Rightarrow> (str, Record) hashmap" where
  "trim_log max_records m =
     (if length m \<le> max_records then m else fold hm_remove (take (length m - max_records) (sort (hm_keys m))) m)"

text \<open>The key and the detail line come from the clock.\<close>

definition log_error :: "Settings \<Rightarrow> table_key list \<Rightarrow> nat \<Rightarrow> str \<Rightarrow> str option \<Rightarrow> str \<Rightarrow> unit cmd" where
  "log_error cfg pinned now key detail message =
     run_in_system_account cfg pinned now
       (and_then (asks session_account) (\<lambda>account.
        and_then (get_table_mut cfg pinned account ''$LOGS'') (\<lambda>_.
        and_then (with_table (account, ''$LOGS'') (\<lambda>t.
          let r = \<lparr>rec_fields = [\<lparr>field_values = [Value_text message]\<rparr>, \<lparr>field_values = (case detail of Some d \<Rightarrow> [Value_text d] | None \<Rightarrow> [])\<rparr>]\<rparr>;
              t1 = touch_all (t\<lparr>tbl_records := hm_insert key r (tbl_records t)\<rparr>)
          in ((), t1\<lparr>tbl_records := trim_log (max_log_records cfg) (tbl_records t1)\<rparr>))) (\<lambda>_.
        save cfg pinned now))))"

end
