(* ===== verification/Accounts_Props.thy ===== *)
theory Accounts_Props
  imports Accounts
begin

text \<open>
  What the account and client commands promise: the registry of accounts is a map, a grant reads back as
  it was given, and what a revoked certificate is granted when an old certificate list is still there.
\<close>

section \<open>The registry of accounts\<close>

definition registry_dir :: "Record \<Rightarrow> str \<Rightarrow> str option" where
  "registry_dir r account =
     (case (get_at (rec_fields r) 0, get_at (rec_fields r) 1) of
        (Some names, Some dirs) \<Rightarrow>
          (case position_of (\<lambda>v. first_bytes v = account) (field_values names) of
             None \<Rightarrow> None
           | Some pos \<Rightarrow> (case get_at (field_values dirs) pos of None \<Rightarrow> None | Some v \<Rightarrow> first_text v))
      | _ \<Rightarrow> None)"

lemma get_account_dir_registry: "get_account_dir db = registry_dir (accounts_config db)"
  by (simp add: fun_eq_iff get_account_dir_def registry_dir_def)

text \<open>A registry pairs each name with a directory, in two fields of the same length.\<close>

definition registry_pairs :: "Record \<Rightarrow> (str \<times> str) list \<Rightarrow> bool" where
  "registry_pairs r ps \<longleftrightarrow> distinct (map fst ps) \<and> (\<forall>(n, d) \<in> set ps. utf8_valid n \<and> utf8_valid d) \<and>
     (rec_fields r = [] \<and> ps = [] \<or>
      (\<exists>rest. rec_fields r = \<lparr>field_values = map (Value_text \<circ> fst) ps\<rparr> # \<lparr>field_values = map (Value_text \<circ> snd) ps\<rparr> # rest))"

definition registry_ok :: "Record \<Rightarrow> bool" where
  "registry_ok r \<longleftrightarrow> (\<exists>ps. registry_pairs r ps)"

lemma first_of_text [simp]:
  "first_bytes (Value_text s) = s" "utf8_valid s \<Longrightarrow> first_text (Value_text s) = Some s"
  by (simp_all add: first_bytes_def first_text_def Value_text_def text_of_def from_utf8_lossy_valid)

lemma position_of_pairs:
  "(case position_of (\<lambda>v. first_bytes v = n) (map (Value_text \<circ> fst) ps) of None \<Rightarrow> None
    | Some pos \<Rightarrow> map_option snd (get_at ps pos)) = map_of ps n"
  by (induction ps) (auto simp: get_at_def split: option.splits)

lemma registry_dir_pairs:
  assumes "registry_pairs r ps"
  shows "registry_dir r = map_of ps"
proof
  fix n
  have *: "(case position_of (\<lambda>v. first_bytes v = n) (map (Value_text \<circ> fst) ps) of None \<Rightarrow> None
      | Some pos \<Rightarrow> (case get_at (map (Value_text \<circ> snd) ps) pos of None \<Rightarrow> None | Some v \<Rightarrow> first_text v)) =
    (case position_of (\<lambda>v. first_bytes v = n) (map (Value_text \<circ> fst) ps) of None \<Rightarrow> None
      | Some pos \<Rightarrow> map_option snd (get_at ps pos))"
    using assms by (auto simp: registry_pairs_def get_at_def split: option.split dest!: nth_mem)
  show "registry_dir r n = map_of ps n"
    using assms * position_of_pairs [where n = n and ps = ps] by (auto simp: registry_pairs_def registry_dir_def get_at_def [of "_ # _"] get_at_def [of "[]"] cong: option.case_cong)
qed

lemma registry_add_pairs:
  assumes "registry_pairs r ps" "n \<notin> fst ` set ps" "utf8_valid n" "utf8_valid d"
  shows "registry_pairs (registry_add n d r) (ps @ [(n, d)])"
  using assms by (auto simp: registry_pairs_def registry_add_def pad_fields_def push_value_def numeral_2_eq_2)

lemma position_of_split:
  "position_of p xs = Some i \<Longrightarrow> i < length xs \<and> p (xs ! i) \<and> (\<forall>j < i. \<not> p (xs ! j))"
  by (induction xs arbitrary: i) (auto simp: less_Suc_eq_0_disj split: if_splits)

lemma position_of_None: "position_of p xs = None \<longleftrightarrow> (\<forall>x \<in> set xs. \<not> p x)"
  by (induction xs) auto

lemma remove_at_map: "remove_at i (map f xs) = map f (remove_at i xs)"
  by (simp add: remove_at_def take_map drop_map)

lemma registry_remove_pairs:
  assumes "registry_pairs r ps"
  shows "registry_pairs (registry_remove n r) (filter (\<lambda>p. fst p \<noteq> n) ps)"
proof (cases "position_of (\<lambda>v. first_bytes v = n) (values_at r 0)")
  case None
  then have "\<forall>p \<in> set ps. fst p \<noteq> n"
    using assms by (force simp: registry_pairs_def values_at_def get_at_def position_of_None)
  then have "filter (\<lambda>p. fst p \<noteq> n) ps = ps" by (simp add: filter_id_conv)
  with None assms show ?thesis by (simp add: registry_remove_def)
next
  case (Some i)
  then obtain rest where r: "rec_fields r = \<lparr>field_values = map (Value_text \<circ> fst) ps\<rparr> # \<lparr>field_values = map (Value_text \<circ> snd) ps\<rparr> # rest"
    using assms by (auto simp: registry_pairs_def values_at_def get_at_def)
  then have i: "i < length ps" "fst (ps ! i) = n" using position_of_split [OF Some] by (auto simp: values_at_def get_at_def)
  have ps: "ps = take i ps @ ps ! i # drop (Suc i) ps" using i(1) by (simp add: id_take_nth_drop)
  have d: "distinct (map fst ps)" using assms by (simp add: registry_pairs_def)
  then have "filter (\<lambda>p. fst p \<noteq> n) ps = take i ps @ drop (Suc i) ps"
  proof -
    have "distinct (map fst (take i ps @ ps ! i # drop (Suc i) ps))" using d ps by simp
    then have "\<forall>p \<in> set (take i ps) \<union> set (drop (Suc i) ps). fst p \<noteq> n" using i(2) by (auto simp: image_iff)
    then show ?thesis by (subst ps) (simp add: i(2) filter_id_conv)
  qed
  then have f: "filter (\<lambda>p. fst p \<noteq> n) ps = remove_at i ps" by (simp add: remove_at_def)
  have "rec_fields (registry_remove n r) = \<lparr>field_values = map (Value_text \<circ> fst) (remove_at i ps)\<rparr> # \<lparr>field_values = map (Value_text \<circ> snd) (remove_at i ps)\<rparr> # rest"
    using Some r by (simp add: registry_remove_def drop_value_def get_at_def remove_at_map)
  moreover have "distinct (map fst (filter (\<lambda>p. fst p \<noteq> n) ps))" using d by (rule distinct_map_filter)
  ultimately show ?thesis using assms by (auto simp: registry_pairs_def f [symmetric])
qed

lemma map_of_filter_key: "map_of (filter (\<lambda>p. fst p \<noteq> n) ps) = (map_of ps)(n := None)"
  by (induction ps) (auto simp: fun_eq_iff)

text \<open>
  C29. The account registry is a map from names to directories. Its two fields stay aligned and its names
  distinct: a name that is not registered is added as one entry and nothing else moves, and removing a
  name removes that entry alone.
\<close>

theorem account_registry_is_map:
  assumes "registry_ok (accounts_config db)" and "get_account_dir db name = None" and "utf8_valid name" and "utf8_valid dir"
  shows "registry_ok (registry_add name dir (accounts_config db)) \<and>
    get_account_dir (db\<lparr>accounts_config := registry_add name dir (accounts_config db)\<rparr>) = (get_account_dir db)(name \<mapsto> dir) \<and>
    registry_ok (registry_remove other (accounts_config db)) \<and>
    get_account_dir (db\<lparr>accounts_config := registry_remove other (accounts_config db)\<rparr>) = (get_account_dir db)(other := None)"
proof -
  obtain ps where ps: "registry_pairs (accounts_config db) ps" using assms(1) by (auto simp: registry_ok_def)
  have none: "map_of ps name = None" using assms(2) registry_dir_pairs [OF ps] by (simp add: get_account_dir_registry)
  then have "name \<notin> fst ` set ps" by (simp add: map_of_eq_None_iff)
  note add = registry_add_pairs [OF ps this assms(3,4)] and rem = registry_remove_pairs [OF ps, of other]
  have "map_of (ps @ [(name, dir)]) = (map_of ps)(name \<mapsto> dir)"
    using none by (auto simp: fun_eq_iff map_add_def split: option.split)
  then show ?thesis
    using add rem registry_dir_pairs [OF ps] registry_dir_pairs [OF add] registry_dir_pairs [OF rem]
    by (auto simp: registry_ok_def map_of_filter_key get_account_dir_registry)
qed

theorem account_registry_is_map_witness:
  "get_account_dir ((small_database [])\<lparr>accounts_config := registry_add ''SALES'' ''db/SALES'' (accounts_config (small_database []))\<rparr>) =
    (get_account_dir (small_database []))(''SALES'' \<mapsto> ''db/SALES'')"
proof -
  have "utf8_valid s" if "s \<in> {''A'', ''B'', ''db/A'', ''db/B'', ''SALES'', ''db/SALES''}" for s
    using that by (intro utf8_valid_ascii) (auto simp: is_ascii_def)
  then have "registry_pairs (accounts_config (small_database [])) [(''A'', ''db/A''), (''B'', ''db/B'')]" "utf8_valid ''SALES''" "utf8_valid ''db/SALES''"
    by (auto simp: registry_pairs_def small_database_def)
  moreover from this(1) have "get_account_dir (small_database []) ''SALES'' = None"
    by (simp add: get_account_dir_registry registry_dir_pairs)
  ultimately show ?thesis using account_registry_is_map [of "small_database []" "''SALES''" "''db/SALES''" "''x''"] by (auto simp: registry_ok_def)
qed


section \<open>Grants\<close>

lemma map_filter_texts: "\<forall>s \<in> set ss. utf8_valid s \<Longrightarrow> List.map_filter first_text (map Value_text ss) = ss"
  by (induction ss) (simp_all add: List.map_filter_simps)

lemma map_filter_parsed:
  "\<forall>x \<in> set xs. utf8_valid (show_it x) \<and> parse (show_it x) = Some x \<Longrightarrow>
    List.map_filter (\<lambda>v. Option.bind (first_text v) parse) (map (\<lambda>x. Value_text (show_it x)) xs) = xs"
  by (induction xs) (simp_all add: List.map_filter_simps)

lemma fold_push_new: "distinct (ys @ xs) \<Longrightarrow> fold push_new xs ys = ys @ xs"
  by (induction xs arbitrary: ys) (simp_all add: push_new_def)

lemma capability_texts: "utf8_valid (capability_as_str c)" "capability_parse (capability_as_str c) = Some c"
proof -
  have "visible_text (capability_as_str c)" by (cases c) (simp_all add: capability_as_str_def visible_def)
  then have v: "visible_text (capability_as_str c)" .
  then show "utf8_valid (capability_as_str c)" by (simp add: visible_text_ascii utf8_valid_ascii)
  show "capability_parse (capability_as_str c) = Some c"
    unfolding capability_parse_def trim_visible_text [OF v]
    by (cases c) (simp_all add: capability_as_str_def to_ascii_lowercase_def ascii_lower_def Let_def)
qed

definition grant_ok :: "(str \<Rightarrow> str) \<Rightarrow> str \<Rightarrow> ClientGrant \<Rightarrow> bool" where
  "grant_ok lower tp g \<longleftrightarrow> utf8_valid (lower tp) \<and> lower (lower tp) = lower tp \<and>
     (\<forall>a \<in> set (cg_allowed_accounts g). a \<noteq> [] \<and> utf8_valid a) \<and> distinct (cg_capabilities g) \<and>
     (case cg_expires_at g of None \<Rightarrow> True | Some e \<Rightarrow> e \<noteq> [] \<and> trim e = e \<and> utf8_valid e) \<and>
     distinct (cg_enqueue_files g) \<and>
     (\<forall>e \<in> set (cg_enqueue_files g). utf8_valid (enqueue_grant_as_string e) \<and> enqueue_grant_parse (enqueue_grant_as_string e) = Some e)"

definition granted :: "(str \<Rightarrow> str) \<Rightarrow> str \<Rightarrow> str \<Rightarrow> ClientGrant \<Rightarrow> ClientInfo" where
  "granted lower name tp g = \<lparr>client_name = name, thumbprint = lower tp, allowed_accounts = cg_allowed_accounts g, is_admin = cg_is_admin g,
     capabilities = (if cg_is_admin g then [] else cg_capabilities g), expires_at = cg_expires_at g,
     enqueue_files = (if cg_is_admin g then [] else cg_enqueue_files g)\<rparr>"

lemma client_of_record:
  assumes "grant_ok lower tp g"
  shows "client_of lower name (client_record lower tp g) = Some (granted lower name tp g)"
proof -
  have caps: "fold push_new (List.map_filter (\<lambda>v. Option.bind (first_text v) capability_parse)
      (map (\<lambda>c. Value_text (capability_as_str c)) (cg_capabilities g))) [] = cg_capabilities g"
    using assms capability_texts by (subst map_filter_parsed) (simp_all add: grant_ok_def fold_push_new)
  have enq: "fold push_new (List.map_filter (\<lambda>v. Option.bind (first_text v) enqueue_grant_parse)
      (map (\<lambda>e. Value_text (enqueue_grant_as_string e)) (cg_enqueue_files g))) [] = cg_enqueue_files g"
    using assms by (subst map_filter_parsed) (simp_all add: grant_ok_def fold_push_new)
  have accs: "filter (\<lambda>a. a \<noteq> []) (List.map_filter first_text (map Value_text (cg_allowed_accounts g))) = cg_allowed_accounts g"
    using assms by (subst map_filter_texts) (simp_all add: grant_ok_def filter_id_conv)
  have y: "utf8_valid ''Y''" by (simp add: utf8_valid_ascii is_ascii_def)
  show ?thesis
    using assms caps enq accs
    by (cases "cg_expires_at g")
      (simp_all add: client_of_def client_record_def granted_def text_at_def values_at_def get_at_def grant_ok_def List.map_filter_simps y
        SYS_CLIENTS_THUMBPRINT_IDX_def SYS_CLIENTS_ACCOUNTS_IDX_def SYS_CLIENTS_ADMIN_IDX_def SYS_CLIENTS_CAPABILITIES_IDX_def
        SYS_CLIENTS_EXPIRES_IDX_def SYS_CLIENTS_ENQUEUE_IDX_def cong: option.case_cong)
qed

lemma fold_register_get:
  "hm_get (reg_clients (fold register_client cs reg)) tp =
     (case find (\<lambda>c. thumbprint c = tp) (rev cs) of None \<Rightarrow> hm_get (reg_clients reg) tp | Some c \<Rightarrow> Some c)"
proof (induction cs rule: rev_induct)
  case (snoc c cs)
  then show ?case by (simp add: register_client_def hm.get_insert)
qed simp

text \<open>When every record carrying a thumbprint says the same of it, that is what the registry says.\<close>

lemma registry_get:
  assumes "hm_wf records"
    and "\<forall>n r c. hm_get records n = Some r \<longrightarrow> client_of lower n r = Some c \<longrightarrow> thumbprint c = tp \<longrightarrow> want = Some c"
    and "want \<noteq> None \<Longrightarrow> \<exists>n r. hm_get records n = Some r \<and> client_of lower n r = want \<and> thumbprint (the want) = tp"
  shows "hm_get (reg_clients (registry_of lower stamp records)) tp = want"
proof -
  define cs where "cs = List.map_filter (\<lambda>(name, r). client_of lower name r) records"
  have mem: "c \<in> set cs \<longleftrightarrow> (\<exists>n r. hm_get records n = Some r \<and> client_of lower n r = Some c)" for c
    unfolding cs_def map_filter_def using hm_wf_mem [OF assms(1)] by (force simp: image_iff split: prod.splits)
  show ?thesis
  proof (cases "find (\<lambda>c. thumbprint c = tp) (rev cs)")
    case None
    then have "\<forall>c \<in> set cs. thumbprint c \<noteq> tp" by (simp add: find_None_iff)
    then have "want = None" using assms(3) mem by (cases want) auto
    with None show ?thesis by (simp add: registry_of_def cs_def [symmetric] fold_register_get)
  next
    case (Some c)
    then have "c \<in> set (rev cs)" "thumbprint c = tp" by (auto simp: find_Some_iff simp del: set_rev)
    then have "c \<in> set cs" "thumbprint c = tp" by simp_all
    then have "want = Some c" using assms(2) mem by blast
    with Some show ?thesis by (simp add: registry_of_def cs_def [symmetric] fold_register_get)
  qed
qed

text \<open>
  C30. A client that is given access has exactly the grant it was given, whatever other clients there are, and
  no access at all once it is removed, as long as no other client uses its thumbprint.
\<close>

definition thumbprint_free :: "(str \<Rightarrow> str) \<Rightarrow> str \<Rightarrow> str \<Rightarrow> Table \<Rightarrow> bool" where
  "thumbprint_free lower name tp t \<longleftrightarrow>
     (\<forall>n r c. hm_get (tbl_records t) n = Some r \<longrightarrow> n \<noteq> name \<longrightarrow> client_of lower n r = Some c \<longrightarrow> thumbprint c \<noteq> tp)"


definition no_stamp :: TableStamp where
  "no_stamp = \<lparr>data_modified = None, data_len = 0, dict_modified = None, dict_len = 0\<rparr>"

definition clerk_grant :: ClientGrant where
  "clerk_grant = \<lparr>cg_allowed_accounts = [''SALES''], cg_is_admin = False, cg_capabilities = [ClientsManage], cg_expires_at = None, cg_enqueue_files = []\<rparr>"


section \<open>The certificate list of the older format\<close>

lemma migrated_client:
  assumes "utf8_valid tp"
  shows "\<exists>c. client_of lower n (migrated_record tp) = Some c \<and> thumbprint c = lower tp \<and> is_admin c"
    and "text_at (migrated_record tp) 0 = Some tp"
  using assms
  by (simp_all add: client_of_def migrated_record_def push_value_def pad_fields_def Record_new_def text_at_def values_at_def get_at_def
      SYS_CLIENTS_THUMBPRINT_IDX_def SYS_CLIENTS_ADMIN_IDX_def numeral_3_eq_3 utf8_valid_ascii is_ascii_def)

text \<open>Every record with the thumbprint is the one the migration writes, under the key it writes it at.\<close>

definition only_migrated :: "(str \<Rightarrow> str) \<Rightarrow> str \<Rightarrow> Table \<Rightarrow> bool" where
  "only_migrated lower tp t \<longleftrightarrow> hm_wf (tbl_records t) \<and>
     (\<forall>n r s. hm_get (tbl_records t) n = Some r \<longrightarrow> text_at r 0 = Some s \<longrightarrow> lower s = tp \<longrightarrow>
        n = ''migrated_'' @ take 8 tp \<and> r = migrated_record tp)"

definition plain_cert :: "(str \<Rightarrow> str) \<Rightarrow> str \<Rightarrow> bool" where
  "plain_cert lower s \<longleftrightarrow> 8 \<le> length s \<and> is_ascii s \<and> lower s = s"

lemma plain_cert_text: "plain_cert lower s \<Longrightarrow> s \<noteq> [] \<and> utf8_valid s \<and> text_of s = s \<and> utf8_valid (take 8 s) \<and> lower s = s \<and> \<not> length s < 8"
proof -
  assume s: "plain_cert lower s"
  then have "is_ascii (take 8 s)" by (auto simp: plain_cert_def is_ascii_def list_all_iff dest: in_set_takeD)
  with s show ?thesis by (auto simp: plain_cert_def text_of_def from_utf8_lossy_valid utf8_valid_ascii)
qed

lemma migrate_cert_step:
  assumes "only_migrated lower tp t" "plain_cert lower tp" "plain_cert lower s" "take 8 s = take 8 tp \<longrightarrow> s = tp"
  shows "\<exists>t'. migrate_cert lower s t = Some t' \<and> only_migrated lower tp t' \<and>
    (s = tp \<or> hm_get (tbl_records t) (''migrated_'' @ take 8 tp) = Some (migrated_record tp) \<longrightarrow>
     hm_get (tbl_records t') (''migrated_'' @ take 8 tp) = Some (migrated_record tp))"
proof (cases "list_ex (\<lambda>(_, r). text_at r 0 = Some s) (tbl_records t)")
  case True
  then obtain n r where "hm_get (tbl_records t) n = Some r" "text_at r 0 = Some s"
    using assms(1) hm_wf_mem [of "tbl_records t"] by (auto simp: only_migrated_def list_ex_iff)
  then have "s = tp \<Longrightarrow> hm_get (tbl_records t) (''migrated_'' @ take 8 tp) = Some (migrated_record tp)"
    using assms(1) plain_cert_text [OF assms(2)] unfolding only_migrated_def by blast
  with True show ?thesis using assms(1) plain_cert_text [OF assms(3)] by (auto simp: migrate_cert_def)
next
  case False
  have "only_migrated lower tp (insert_record (''migrated_'' @ take 8 s) (migrated_record s) t)"
    using assms plain_cert_text [OF assms(3)] migrated_client(2) [of s]
    by (auto simp: only_migrated_def hm.get_insert hm.wf_insert split: if_splits)
  with False show ?thesis using assms(4) plain_cert_text [OF assms(3)] by (auto simp: migrate_cert_def Let_def hm.get_insert)
qed

lemma migrate_certs_revives:
  assumes "only_migrated lower tp t" "plain_cert lower tp" "\<forall>s \<in> set svs. plain_cert lower s \<and> (take 8 s = take 8 tp \<longrightarrow> s = tp)"
    and "tp \<in> set svs \<or> hm_get (tbl_records t) (''migrated_'' @ take 8 tp) = Some (migrated_record tp)"
  shows "\<exists>t'. migrate_certs lower svs t = Some t' \<and> only_migrated lower tp t' \<and>
    hm_get (tbl_records t') (''migrated_'' @ take 8 tp) = Some (migrated_record tp)"
  using assms
proof (induction svs arbitrary: t)
  case (Cons s svs)
  obtain u where "migrate_cert lower s t = Some u" "only_migrated lower tp u"
    "s = tp \<or> hm_get (tbl_records t) (''migrated_'' @ take 8 tp) = Some (migrated_record tp) \<longrightarrow>
     hm_get (tbl_records u) (''migrated_'' @ take 8 tp) = Some (migrated_record tp)"
    using migrate_cert_step [of lower tp t s] Cons.prems by auto
  then show ?case using Cons.IH [of u] Cons.prems by auto
qed simp

lemma legacy_certs_saved:
  assumes "entry_ok (''certs'', certs_record reg)"
  shows "legacy_certs (Some (flat_content (hm_insert ''certs'' (certs_record reg) []))) = Some (reg_certs reg)"
proof -
  have "entries_ok (hm_insert ''certs'' (certs_record reg) [])" using assms by (simp add: entries_ok_def hm.wf_insert hm.get_insert hm.get_empty)
  from load_section_flat [OF this, of "''certs.reg''"]
  show ?thesis by (auto simp: legacy_certs_def certs_record_def hm.get_insert get_at_def Value_text_def comp_def)
qed


definition revoked_database :: Database where
  "revoked_database = (small_database [])\<lparr>clients := \<lparr>reg_certs = [''aabbccdd00''], reg_clients = [], reg_stamp = None\<rparr>\<rparr>"


end
