(* ===== verification/Queue_Engine.thy ===== *)
theory Queue_Engine
  imports Accounts
begin

text \<open>
  The queue commands (\<^verbatim>\<open>db/engine/queue.rs\<close>): appending, claiming, acknowledging, returning and peeking,
  on the engine's state. What a command does under the guard of its file is a function on the table, and
  the command is that function between finding the file and counting the write. The clock of the queue, in
  milliseconds, is the argument \<open>millis\<close>; \<open>now\<close> is the clock of the flush interval. An
  \<^verbatim>\<open>expect\<close> on a queue that is not attached is \<open>None\<close>. Waking consumers that wait has no effect here.
\<close>

section \<open>Data\<close>

record QueueDelivery =
  qd_key :: str
  qd_record :: Record
  qd_deliveries :: nat
  qd_enqueued :: "nat option"
  qd_expires :: "nat option"
  qd_owner :: "str option"
  qd_due :: "nat option"

datatype Readiness = Ready | Reconcile | Unattached

record DeadLetter =
  dl_key :: str
  dl_record :: Record
  dl_deliveries :: nat

record QueueStats =
  qs_depth :: nat
  qs_in_flight :: nat
  qs_held :: nat
  qs_next_due :: "nat option"
  qs_oldest :: "nat option"
  qs_dead_letters :: nat
  qs_next_sequence :: nat
  qs_visibility :: nat
  qs_max_deliveries :: nat
  qs_dead_letter :: bool

section \<open>Finding the queue\<close>

definition is_table_queue_for_account :: "Settings \<Rightarrow> table_key list \<Rightarrow> str \<Rightarrow> str \<Rightarrow> bool cmd" where
  "is_table_queue_for_account cfg pinned account name =
     and_then (file_attributes_for_account cfg pinned account name) (\<lambda>a. ret (att_queue a \<noteq> None))"

definition queue_policy_for_account :: "Settings \<Rightarrow> table_key list \<Rightarrow> str \<Rightarrow> str \<Rightarrow> QueuePolicy cmd" where
  "queue_policy_for_account cfg pinned account name =
     and_then (file_attributes_for_account cfg pinned account name) (\<lambda>a.
     ret (case att_queue a of Some policy \<Rightarrow> policy | None \<Rightarrow> QueuePolicy_default))"

definition effective_policy :: "str \<Rightarrow> QueuePolicy \<Rightarrow> QueuePolicy" where
  "effective_policy name policy =
     (if is_dead_letter_name name then policy\<lparr>max_deliveries := 2 ^ 32 - 1\<rparr> else policy)"

definition directory_file_refusal :: "str \<Rightarrow> str \<Rightarrow> str \<Rightarrow> DbError" where
  "directory_file_refusal name what instead = InvalidRequest (quoted name @ '' is a directory file: '' @ what @ '' - '' @ instead)"

definition not_a_queue :: "str \<Rightarrow> DbError" where
  "not_a_queue name = InvalidRequest (name @ '' is not a queue file. Create it with CREATE.FILE '' @ name @
     '' QUEUE, or use SET.FILE to convert it'')"

definition queue_readiness :: "Table \<Rightarrow> Readiness" where
  "queue_readiness t =
     (case tbl_queue t of None \<Rightarrow> Unattached
      | Some q \<Rightarrow> if tracked q \<noteq> length (tbl_records t) then Reconcile else Ready)"

definition make_ready :: "directory \<Rightarrow> Table \<Rightarrow> Table" where
  "make_ready d t =
     (case queue_readiness t of Ready \<Rightarrow> t
      | Reconcile \<Rightarrow> reconcile_queue t
      | Unattached \<Rightarrow>
          t\<lparr>tbl_queue := Some (attach (tbl_records t) (case queue_read_state d of Some p \<Rightarrow> p | None \<Rightarrow> PersistedQueue_default))\<rparr>)"

definition queue_file :: "Settings \<Rightarrow> table_key list \<Rightarrow> str \<Rightarrow> str \<Rightarrow> QueuePolicy cmd" where
  "queue_file cfg pinned account name =
     and_then (file_attributes_for_account cfg pinned account name) (\<lambda>a.
     if is_directory a then
       fail (directory_file_refusal name ''its records are host files, with no order to claim from''
         ''create a separate queue file if the work needs claiming'')
     else case att_queue a of None \<Rightarrow> fail (not_a_queue name)
     | Some policy \<Rightarrow>
       and_then (get_table_mut cfg pinned account name) (\<lambda>_.
       and_then (asks (\<lambda>db. fs_state (store_at db (file_path db (account, name))))) (\<lambda>d.
       and_then (with_table (account, name) (\<lambda>t. ((), make_ready d t))) (\<lambda>_.
       ret policy))))"

section \<open>Under the guard\<close>

definition enqueue_in :: "nat \<Rightarrow> Record \<Rightarrow> nat option \<Rightarrow> QueueState \<Rightarrow> Table \<Rightarrow> str \<times> Table" where
  "enqueue_in millis r due_millis q t =
     (case queue_mint millis q of (sequence, q1) \<Rightarrow>
        let key = format_key sequence;
            q2 = (case due_millis of Some at \<Rightarrow> enqueue_held key at q1 | None \<Rightarrow> enqueue key q1)
        in (key, (insert_record key r t)\<lparr>tbl_queue := Some q2\<rparr>))"

text \<open>A record that has failed once too often is taken out of the order and of the table, in hand.\<close>

definition take_dead :: "str \<Rightarrow> QueueState \<Rightarrow> Table \<Rightarrow> DeadLetter \<times> Table" where
  "take_dead key q t =
     (\<lparr>dl_key = key, dl_record = (case hm_get (tbl_records t) key of Some r \<Rightarrow> r | None \<Rightarrow> Record_new), dl_deliveries = delivery_count key q\<rparr>,
      mark_dirty key (t\<lparr>tbl_queue := Some (forget key q), tbl_records := hm_remove key (tbl_records t)\<rparr>))"

fun take_all :: "str list \<Rightarrow> Table \<Rightarrow> DeadLetter list \<times> Table" where
  "take_all [] t = ([], t)"
| "take_all (key # keys) t =
     (case tbl_queue t of None \<Rightarrow> ([], t)
      | Some q \<Rightarrow>
        (case take_dead key q t of (letter, t1) \<Rightarrow>
          (case take_all keys t1 of (letters, t2) \<Rightarrow> (letter # letters, t2))))"

definition take_expired :: "nat \<Rightarrow> QueuePolicy \<Rightarrow> Table \<Rightarrow> DeadLetter list \<times> Table" where
  "take_expired millis policy t =
     (case tbl_queue t of None \<Rightarrow> ([], t)
      | Some q \<Rightarrow> (case expire millis policy q of (q1, expired) \<Rightarrow> take_all (dead expired) (t\<lparr>tbl_queue := Some q1\<rparr>)))"

definition claim_delivery :: "str \<Rightarrow> QueueState \<Rightarrow> Table \<Rightarrow> str \<times> nat \<Rightarrow> QueueDelivery" where
  "claim_delivery owner q t claimed =
     (case claimed of (key, n) \<Rightarrow>
        \<lparr>qd_key = key, qd_record = (case hm_get (tbl_records t) key of Some r \<Rightarrow> r | None \<Rightarrow> Record_new), qd_deliveries = n,
         qd_enqueued = key_enqueued_millis key, qd_expires = map_option expires_millis (claim_on key q), qd_owner = Some owner, qd_due = None\<rparr>)"

definition dequeue_in ::
  "nat \<Rightarrow> str \<Rightarrow> QueuePolicy \<Rightarrow> Table \<Rightarrow> ((QueueDelivery option \<times> DeadLetter list) \<times> Table) option" where
  "dequeue_in millis owner policy t0 =
     (case take_expired millis policy t0 of (letters, t) \<Rightarrow>
        (case tbl_queue t of None \<Rightarrow> None
         | Some q \<Rightarrow>
           (case claim owner millis policy q of (claimed, q1) \<Rightarrow>
              Some ((map_option (claim_delivery owner q1 t) claimed, letters), t\<lparr>tbl_queue := Some q1\<rparr>))))"

definition claim_refusal :: "str \<Rightarrow> str \<Rightarrow> ClaimError \<Rightarrow> DbError" where
  "claim_refusal key name e =
     InvalidRequest (case e of
       ClaimNotFound \<Rightarrow> ''No record '' @ key @ '' in queue '' @ name
     | NotClaimed \<Rightarrow> ''Record '' @ key @ '' in queue '' @ name @ '' is not claimed: the claim lapsed, or it was never dequeued''
     | HeldBy holder \<Rightarrow> ''Record '' @ key @ '' in queue '' @ name @ '' is claimed by '' @ holder)"

definition claim_check :: "str \<Rightarrow> str \<Rightarrow> str \<Rightarrow> QueueState \<Rightarrow> Table \<Rightarrow> unit DbResult" where
  "claim_check key owner name q t =
     (case verify key owner (hm_contains (tbl_records t) key) q of Inr _ \<Rightarrow> Ok () | Inl e \<Rightarrow> Err (claim_refusal key name e))"

definition ack_in :: "str \<Rightarrow> str \<Rightarrow> str \<Rightarrow> QueueState \<Rightarrow> Table \<Rightarrow> unit DbResult \<times> Table" where
  "ack_in key owner name q t =
     (case claim_check key owner name q t of Inl e \<Rightarrow> (Err e, t)
      | Inr _ \<Rightarrow> (Ok (), (snd (remove_record key t))\<lparr>tbl_queue := Some (forget key q)\<rparr>))"

definition nack_in ::
  "QueuePolicy \<Rightarrow> str \<Rightarrow> str \<Rightarrow> nat option \<Rightarrow> str \<Rightarrow> QueueState \<Rightarrow> Table \<Rightarrow> DeadLetter list DbResult \<times> Table" where
  "nack_in policy key owner due_millis name q t =
     (case claim_check key owner name q t of Inl e \<Rightarrow> (Err e, t)
      | Inr _ \<Rightarrow>
        (case release_until key policy due_millis q of
           (True, q1) \<Rightarrow> (case take_dead key q1 t of (letter, t1) \<Rightarrow> (Ok [letter], t1))
         | (False, q1) \<Rightarrow> (Ok [], t\<lparr>tbl_queue := Some q1\<rparr>)))"

definition delivery_in :: "str option \<Rightarrow> QueueState \<Rightarrow> Table \<Rightarrow> QueueDelivery option" where
  "delivery_in key q t =
     (case (case key of Some k \<Rightarrow> Some k | None \<Rightarrow> queue_head q) of None \<Rightarrow> None
      | Some wanted \<Rightarrow>
        (case hm_get (tbl_records t) wanted of None \<Rightarrow> None
         | Some r \<Rightarrow> Some \<lparr>qd_key = wanted, qd_record = r, qd_deliveries = delivery_count wanted q, qd_enqueued = key_enqueued_millis wanted,
             qd_expires = map_option expires_millis (claim_on wanted q), qd_owner = map_option claim_owner (claim_on wanted q),
             qd_due = held_until wanted q\<rparr>))"

definition adopt_letter :: "DeadLetter \<Rightarrow> Table \<Rightarrow> Table option" where
  "adopt_letter letter t =
     (case tbl_queue t of None \<Rightarrow> None
      | Some q \<Rightarrow> Some ((insert_record (dl_key letter) (dl_record letter) t)\<lparr>tbl_queue := Some (adopt (dl_key letter) (dl_deliveries letter) q)\<rparr>))"

fun adopt_letters :: "DeadLetter list \<Rightarrow> Table \<Rightarrow> Table option" where
  "adopt_letters [] t = Some t"
| "adopt_letters (l # ls) t = (case adopt_letter l t of None \<Rightarrow> None | Some t1 \<Rightarrow> adopt_letters ls t1)"

section \<open>The commands\<close>

text \<open>Work on a table whose queue is attached; the guard is a panic when it is not.\<close>

definition with_queue :: "table_key \<Rightarrow> (QueueState \<Rightarrow> Table \<Rightarrow> 'a DbResult \<times> Table) \<Rightarrow> 'a cmd" where
  "with_queue key f db =
     (case hm_get (tables db) key of None \<Rightarrow> None
      | Some t \<Rightarrow>
        (case tbl_queue t of None \<Rightarrow> None
         | Some q \<Rightarrow> (case f q t of (r, t') \<Rightarrow> Some (r, put_table key t' db))))"

definition dead_letter_attributes :: "QueuePolicy \<Rightarrow> FileAttributes" where
  "dead_letter_attributes policy = \<lparr>durable = True, att_queue = Some policy, att_directory = None, autokey = False\<rparr>"

definition create_dead_letter_file :: "Settings \<Rightarrow> table_key list \<Rightarrow> nat \<Rightarrow> str \<Rightarrow> str \<Rightarrow> unit cmd" where
  "create_dead_letter_file cfg pinned now account queue_name =
     and_then (queue_policy_for_account cfg pinned account queue_name) (\<lambda>policy.
     and_then (outcome_of (create_table_with cfg pinned now account (dead_letter_name queue_name) (dead_letter_attributes policy))) (\<lambda>r.
     case r of Inr _ \<Rightarrow> ret () | Inl (FileExists _ _) \<Rightarrow> ret () | Inl e \<Rightarrow> fail e))"

definition bury :: "Settings \<Rightarrow> table_key list \<Rightarrow> nat \<Rightarrow> str \<Rightarrow> str \<Rightarrow> DeadLetter list \<Rightarrow> unit cmd" where
  "bury cfg pinned now account queue_name letters =
     (if letters = [] then ret ()
      else
        let name = dead_letter_name queue_name in
        and_then (account_has_table cfg account name) (\<lambda>has.
        and_then (if has then ret () else create_dead_letter_file cfg pinned now account queue_name) (\<lambda>_.
        and_then (queue_file cfg pinned account name) (\<lambda>_.
        and_then (\<lambda>db. case hm_get (tables db) (account, name) of None \<Rightarrow> None
          | Some t \<Rightarrow> map_option (\<lambda>t'. (Ok (), put_table (account, name) t' db)) (adopt_letters letters t)) (\<lambda>_.
        note_write_for cfg ((account, name) # pinned) now account name)))))"

definition enqueue_due ::
  "Settings \<Rightarrow> table_key list \<Rightarrow> nat \<Rightarrow> nat \<Rightarrow> str \<Rightarrow> str \<Rightarrow> Record \<Rightarrow> nat option \<Rightarrow> str cmd" where
  "enqueue_due cfg pinned now millis account name r due_millis =
     and_then (queue_file cfg pinned account name) (\<lambda>_.
     and_then (with_queue (account, name) (\<lambda>q t. case enqueue_in millis r due_millis q t of (key, t') \<Rightarrow> (Ok key, t'))) (\<lambda>key.
     and_then (note_write_for cfg ((account, name) # pinned) now account name) (\<lambda>_.
     ret key)))"

definition dequeue ::
  "Settings \<Rightarrow> table_key list \<Rightarrow> nat \<Rightarrow> nat \<Rightarrow> str \<Rightarrow> str \<Rightarrow> str \<Rightarrow> duration option \<Rightarrow> QueueDelivery option cmd" where
  "dequeue cfg pinned now millis account name owner vis =
     and_then (queue_file cfg pinned account name) (\<lambda>file_policy.
     let policy = (effective_policy name file_policy)\<lparr>visibility := (case vis of Some v \<Rightarrow> v | None \<Rightarrow> visibility file_policy)\<rparr> in
     and_then (\<lambda>db. case hm_get (tables db) (account, name) of None \<Rightarrow> None
       | Some t \<Rightarrow> (case dequeue_in millis owner policy t of None \<Rightarrow> None
           | Some (answer, t') \<Rightarrow> Some (Ok answer, put_table (account, name) t' db))) (\<lambda>(delivery, letters).
     and_then (bury cfg ((account, name) # pinned) now account name letters) (\<lambda>_.
     and_then (if delivery = None then ret () else note_write_for cfg ((account, name) # pinned) now account name) (\<lambda>_.
     ret delivery))))"

definition ack :: "Settings \<Rightarrow> table_key list \<Rightarrow> nat \<Rightarrow> str \<Rightarrow> str \<Rightarrow> str \<Rightarrow> str \<Rightarrow> unit cmd" where
  "ack cfg pinned now account name key owner =
     and_then (queue_file cfg pinned account name) (\<lambda>_.
     and_then (with_queue (account, name) (ack_in key owner name)) (\<lambda>_.
     note_write_for cfg ((account, name) # pinned) now account name))"

definition nack_until ::
  "Settings \<Rightarrow> table_key list \<Rightarrow> nat \<Rightarrow> str \<Rightarrow> str \<Rightarrow> str \<Rightarrow> str \<Rightarrow> nat option \<Rightarrow> unit cmd" where
  "nack_until cfg pinned now account name key owner due_millis =
     and_then (queue_file cfg pinned account name) (\<lambda>file_policy.
     and_then (with_queue (account, name) (nack_in (effective_policy name file_policy) key owner due_millis name)) (\<lambda>letters.
     and_then (bury cfg ((account, name) # pinned) now account name letters) (\<lambda>_.
     note_write_for cfg ((account, name) # pinned) now account name)))"

definition peek ::
  "Settings \<Rightarrow> table_key list \<Rightarrow> nat \<Rightarrow> nat \<Rightarrow> str \<Rightarrow> str \<Rightarrow> str option \<Rightarrow> QueueDelivery option cmd" where
  "peek cfg pinned now millis account name key =
     and_then (queue_file cfg pinned account name) (\<lambda>file_policy.
     and_then (with_queue (account, name) (\<lambda>q t.
       if \<not> has_lapsed_claim millis q \<and> \<not> has_due_record millis q then (Ok (delivery_in key q t, []), t)
       else (case take_expired millis (effective_policy name file_policy) t of (letters, t') \<Rightarrow>
         (Ok (case tbl_queue t' of None \<Rightarrow> None | Some q' \<Rightarrow> delivery_in key q' t', letters), t')))) (\<lambda>(delivery, letters).
     and_then (bury cfg ((account, name) # pinned) now account name letters) (\<lambda>_.
     ret delivery)))"

section \<open>Statistics\<close>

text \<open>The frames a flat section yields before one of them does not read.\<close>

function leading_frames :: "bytes \<Rightarrow> (str \<times> Record) list" where
  "leading_frames bs =
     (if length bs < 8 then []
      else case read_frame [] bs of Inl e \<Rightarrow> []
        | Inr (kr, rest) \<Rightarrow> if length rest < length bs then kr # leading_frames rest else [])"
  by pat_completeness auto
termination by (relation "measure length") auto

declare leading_frames.simps [simp del]

definition file_record_count :: "Database \<Rightarrow> table_key \<Rightarrow> nat" where
  "file_record_count db key =
     (case hm_get (tables db) key of Some t \<Rightarrow> length (tbl_records t)
      | None \<Rightarrow>
        let fs = store_at db (file_path db key) in
        (case read_meta (fs_data fs) of Some meta \<Rightarrow> meta_records meta
         | None \<Rightarrow> (case fs_flat fs of None \<Rightarrow> 0 | Some bs \<Rightarrow> length (hm.insert_all (leading_frames bs) []))))"

definition stats_in :: "nat \<Rightarrow> str \<Rightarrow> QueuePolicy \<Rightarrow> QueueState \<Rightarrow> QueueStats" where
  "stats_in millis name policy q =
     \<lparr>qs_depth = queue_depth q, qs_in_flight = in_flight q, qs_held = held_count q, qs_next_due = next_due q,
      qs_oldest = oldest_unacknowledged_seconds millis q, qs_dead_letters = 0, qs_next_sequence = seq_peek (q_sequence q),
      qs_visibility = visibility_seconds policy, qs_max_deliveries = max_deliveries policy, qs_dead_letter = is_dead_letter_name name\<rparr>"

definition queue_statistics :: "Settings \<Rightarrow> table_key list \<Rightarrow> nat \<Rightarrow> nat \<Rightarrow> str \<Rightarrow> str \<Rightarrow> QueueStats cmd" where
  "queue_statistics cfg pinned now millis account name =
     and_then (queue_file cfg pinned account name) (\<lambda>policy.
     and_then (\<lambda>db. case hm_get (tables db) (account, name) of None \<Rightarrow> None
       | Some t \<Rightarrow> (case take_expired millis (effective_policy name policy) t of (letters, t') \<Rightarrow>
           (case tbl_queue t' of None \<Rightarrow> None
            | Some q \<Rightarrow> Some (Ok (stats_in millis name policy q, letters), put_table (account, name) t' db)))) (\<lambda>(stats, letters).
     and_then (bury cfg ((account, name) # pinned) now account name letters) (\<lambda>_.
     and_then (if is_dead_letter_name name then ret False else account_has_table cfg account (dead_letter_name name)) (\<lambda>has_dead.
     asks (\<lambda>db. stats\<lparr>qs_dead_letters := (if has_dead then file_record_count db (account, dead_letter_name name) else 0)\<rparr>)))))"

end
