(* ===== verification/Queue_Laws.thy ===== *)
theory Queue_Laws
  imports Queue
begin

text \<open>
  What the queue operations guarantee. The status of a key is the abstract state of a queue; the
  invariant \<open>queue_ok\<close> says the containers agree on it. Each operation keeps the invariant and its
  effect is stated on the status of every key. A step relation over the operations as the engine calls
  them gives the reachable states.
\<close>

section \<open>Status and invariant\<close>

datatype Status = Absent | Waiting | InFlight Claim | HeldUntil nat

definition status :: "QueueState \<Rightarrow> str \<Rightarrow> Status" where
  "status q k =
     (if k \<in> set (available q) then Waiting
      else case hm_get (claims q) k of
        Some c \<Rightarrow> InFlight c
      | None \<Rightarrow> (case hm_get (due q) k of
            Some t \<Rightarrow> (if (t, k) \<in> set (held q) then HeldUntil t else Absent)
          | None \<Rightarrow> Absent))"

definition queue_ok :: "QueueState \<Rightarrow> bool" where
  "queue_ok q \<longleftrightarrow> seq_ok (q_sequence q) \<and> bt_wf (available q) \<and> bt_wf (held q) \<and>
     hm_wf (claims q) \<and> hm_wf (deliveries q) \<and> hm_wf (due q) \<and>
     (\<forall>k \<in> set (available q). hm_get (claims q) k = None) \<and>
     (\<forall>(t, k) \<in> set (held q). hm_get (due q) k = Some t \<and> k \<notin> set (available q) \<and> hm_get (claims q) k = None)"

lemma queue_okD:
  assumes "queue_ok q"
  shows "seq_ok (q_sequence q)" "bt_wf (available q)" "bt_wf (held q)" "hm_wf (claims q)"
    "hm_wf (deliveries q)" "hm_wf (due q)"
    "k \<in> set (available q) \<Longrightarrow> hm_get (claims q) k = None"
    "(t, k) \<in> set (held q) \<Longrightarrow> hm_get (due q) k = Some t"
    "(t, k) \<in> set (held q) \<Longrightarrow> k \<notin> set (available q)"
    "(t, k) \<in> set (held q) \<Longrightarrow> hm_get (claims q) k = None"
  using assms by (auto simp: queue_ok_def)

lemma held_unique: "queue_ok q \<Longrightarrow> (t, k) \<in> set (held q) \<Longrightarrow> (t', k) \<in> set (held q) \<Longrightarrow> t' = t"
  by (metis option.inject queue_okD(8))

lemma queue_okI:
  assumes "seq_ok (q_sequence q)" "bt_wf (available q)" "bt_wf (held q)" "hm_wf (claims q)"
    "hm_wf (deliveries q)" "hm_wf (due q)"
    "\<And>k. k \<in> set (available q) \<Longrightarrow> hm_get (claims q) k = None"
    "\<And>t k. (t, k) \<in> set (held q) \<Longrightarrow> hm_get (due q) k = Some t \<and> k \<notin> set (available q) \<and> hm_get (claims q) k = None"
  shows "queue_ok q"
  using assms by (auto simp: queue_ok_def)

lemma status_iff:
  assumes "queue_ok q"
  shows "status q k = Waiting \<longleftrightarrow> k \<in> set (available q)"
    "status q k = InFlight c \<longleftrightarrow> hm_get (claims q) k = Some c"
    "status q k = HeldUntil t \<longleftrightarrow> (t, k) \<in> set (held q)"
  using queue_okD(7-10) [OF assms] held_unique [OF assms]
  by (auto simp: status_def split: option.splits)

lemma status_Absent:
  "queue_ok q \<Longrightarrow> status q k = Absent \<longleftrightarrow>
     k \<notin> set (available q) \<and> hm_get (claims q) k = None \<and> (\<forall>t. (t, k) \<notin> set (held q))"
  by (auto simp: status_def split: option.splits dest: queue_okD(8))

text \<open>A queue with the same containers has the same statuses.\<close>

lemma status_cong:
  "set (available q) = set (available q') \<Longrightarrow> hm_get (claims q) k = hm_get (claims q') k \<Longrightarrow>
   hm_get (due q) k = hm_get (due q') k \<Longrightarrow> set (held q) = set (held q') \<Longrightarrow> status q k = status q' k"
  by (simp add: status_def split: option.splits)

section \<open>One operation at a time\<close>

lemma unhold_ok:
  assumes "queue_ok q"
  shows "queue_ok (unhold key q)"
    and "set (held (unhold key q)) = {(t, k) \<in> set (held q). k \<noteq> key}"
    and "available (unhold key q) = available q" "claims (unhold key q) = claims q"
    and "deliveries (unhold key q) = deliveries q" "due (unhold key q) = due q"
    and "q_sequence (unhold key q) = q_sequence q"
proof -
  note ok = queue_okD [OF assms]
  show held: "set (held (unhold key q)) = {(t, k) \<in> set (held q). k \<noteq> key}"
    using ok(3,8) held_unique [OF assms] by (auto simp: unhold_def split: option.splits)
  show eqs: "available (unhold key q) = available q" "claims (unhold key q) = claims q"
    "deliveries (unhold key q) = deliveries q" "due (unhold key q) = due q"
    "q_sequence (unhold key q) = q_sequence q"
    by (auto simp: unhold_def split: option.splits)
  have "bt_wf (held (unhold key q))" using ok(3) by (auto simp: unhold_def split: option.splits)
  with ok show "queue_ok (unhold key q)" by (intro queue_okI) (auto simp: eqs held)
qed

text \<open>Taking a key out of the order and the claims, the first half of several operations.\<close>

lemma drop_key_ok:
  assumes "queue_ok q"
  shows "queue_ok (q\<lparr>claims := hm_remove key (claims q)\<rparr>)"
    "queue_ok (q\<lparr>claims := hm_remove key (claims q), available := bt_remove key (available q)\<rparr>)"
  using queue_okD [OF assms] by (auto intro!: queue_okI)

lemma hold_ok:
  assumes "queue_ok q" and "key \<notin> set (available q)" and "hm_get (claims q) key = None"
  shows "queue_ok (hold key t q)"
    and "status (hold key t q) k = (if k = key then HeldUntil t else status q k)"
    and "deliveries (hold key t q) = deliveries q"
proof -
  note u = unhold_ok [OF assms(1), of key]
  note uok = queue_okD [OF u(1)]
  show ok: "queue_ok (hold key t q)"
    using uok assms(2,3) by (intro queue_okI) (auto simp: hold_def Let_def u(2-6))
  show "status (hold key t q) k = (if k = key then HeldUntil t else status q k)"
    using assms(2,3) by (auto simp: status_def hold_def Let_def u(2-6) split: option.splits)
  show "deliveries (hold key t q) = deliveries q" by (simp add: hold_def Let_def u(5))
qed

lemma enqueue_ok:
  assumes "queue_ok q"
  shows "queue_ok (enqueue key q)"
    and "status (enqueue key q) k = (if k = key then Waiting else status q k)"
    and "deliveries (enqueue key q) = deliveries q"
proof -
  note u = unhold_ok [OF drop_key_ok(1) [OF assms, of key], of key]
  note uok = queue_okD [OF u(1)]
  show "queue_ok (enqueue key q)"
    using uok queue_okD(7) [OF assms] by (intro queue_okI) (auto simp: enqueue_def Let_def u(2-6))
  show "status (enqueue key q) k = (if k = key then Waiting else status q k)"
    by (auto simp: status_def enqueue_def Let_def u(2-6) split: option.splits)
  show "deliveries (enqueue key q) = deliveries q" by (simp add: enqueue_def Let_def u(5))
qed

lemma enqueue_held_ok:
  assumes "queue_ok q"
  shows "queue_ok (enqueue_held key t q)"
    and "status (enqueue_held key t q) k = (if k = key then HeldUntil t else status q k)"
    and "deliveries (enqueue_held key t q) = deliveries q"
proof -
  let ?q = "q\<lparr>claims := hm_remove key (claims q), available := bt_remove key (available q)\<rparr>"
  have pre: "key \<notin> set (available ?q)" "hm_get (claims ?q) key = None"
    using queue_okD(2) [OF assms] by auto
  note h = hold_ok [OF drop_key_ok(2) [OF assms, of key] pre]
  have "status ?q k = status q k" if "k \<noteq> key"
    using that queue_okD(2) [OF assms] by (simp add: status_def split: option.splits)
  with h show "queue_ok (enqueue_held key t q)"
    "status (enqueue_held key t q) k = (if k = key then HeldUntil t else status q k)"
    "deliveries (enqueue_held key t q) = deliveries q"
    by (auto simp: enqueue_held_def)
qed

lemma forget_ok:
  assumes "queue_ok q"
  shows "queue_ok (forget key q)"
    and "status (forget key q) k = (if k = key then Absent else status q k)"
    and "delivery_count k (forget key q) = (if k = key then 0 else delivery_count k q)"
proof -
  let ?q = "q\<lparr>available := bt_remove key (available q), claims := hm_remove key (claims q),
    deliveries := hm_remove key (deliveries q)\<rparr>"
  have "queue_ok ?q" using queue_okD [OF assms] by (auto intro!: queue_okI)
  note u = unhold_ok [OF this, of key]
  note uok = queue_okD [OF u(1)]
  show "queue_ok (forget key q)"
    using uok by (intro queue_okI) (auto simp: forget_def Let_def u(2-6))
  show "status (forget key q) k = (if k = key then Absent else status q k)"
    using queue_okD(2) [OF assms] by (auto simp: status_def forget_def Let_def u(2-6) split: option.splits)
  show "delivery_count k (forget key q) = (if k = key then 0 else delivery_count k q)"
    by (simp add: delivery_count_def forget_def Let_def u(5))
qed

lemma release_loop_spec:
  assumes "bt_wf hs" and "bt_wf av" and "release_loop now hs av = (hs', av', n)"
  shows "bt_wf hs' \<and> bt_wf av' \<and> set hs' = {(t, k) \<in> set hs. now < t} \<and>
    set av' = set av \<union> {k. \<exists>t \<le> now. (t, k) \<in> set hs} \<and> n = length (filter (\<lambda>(t, k). t \<le> now) hs)"
  using assms
proof (induction now hs av arbitrary: hs' av' n rule: release_loop.induct)
  case (2 now t k hs av)
  show ?case
  proof (cases "t \<le> now")
    case True
    obtain hs1 av1 n1 where r: "release_loop now hs (bt_insert k av) = (hs1, av1, n1)"
      by (metis prod_cases3)
    with True 2(4) have res: "hs' = hs1" "av' = av1" "n = n1 + 1" by auto
    have IH: "bt_wf hs1 \<and> bt_wf av1 \<and> set hs1 = {(t, k) \<in> set hs. now < t} \<and>
      set av1 = set (bt_insert k av) \<union> {k. \<exists>t \<le> now. (t, k) \<in> set hs} \<and> n1 = length (filter (\<lambda>(t, k). t \<le> now) hs)"
      by (rule 2(1) [OF True _ _ r]) (use 2(2,3) in auto)
    with IH True res show ?thesis by auto
  next
    case False
    have "now < fst y" if "y \<in> set ((t, k) # hs)" for y
      using False 2(2) that by (fastforce simp: less_prod_def)
    then have "\<forall>(t', k') \<in> set ((t, k) # hs). now < t'" by fastforce
    then have "filter (\<lambda>(t, k). t \<le> now) ((t, k) # hs) = []" by (auto simp: filter_empty_conv)
    with False 2(2-4) \<open>\<forall>(t', k') \<in> set ((t, k) # hs). now < t'\<close> show ?thesis by auto
  qed
qed auto

lemma release_due_ok:
  assumes "queue_ok q" and "release_due now q = (q', n)"
  shows "queue_ok q'"
    and "status q' k = (case status q k of HeldUntil t \<Rightarrow> if t \<le> now then Waiting else HeldUntil t | s \<Rightarrow> s)"
    and "deliveries q' = deliveries q" "claims q' = claims q" "due q' = due q" "q_sequence q' = q_sequence q"
    and "n = length (filter (\<lambda>(t, k). t \<le> now) (held q))"
proof -
  obtain hs av where r: "release_loop now (held q) (available q) = (hs, av, n)"
    and q': "q' = q\<lparr>held := hs, available := av, q_dirty := (q_dirty q \<or> 0 < n)\<rparr>"
    using assms(2) by (auto simp: release_due_def Let_def split: prod.splits)
  note ok = queue_okD [OF assms(1)]
  have spec: "bt_wf hs" "bt_wf av" "set hs = {(t, k) \<in> set (held q). now < t}"
    "set av = set (available q) \<union> {k. \<exists>t \<le> now. (t, k) \<in> set (held q)}"
    and n: "n = length (filter (\<lambda>(t, k). t \<le> now) (held q))"
    using release_loop_spec [OF ok(3,2) r] by auto
  show ok': "queue_ok q'"
  proof (rule queue_okI)
    fix t k assume "(t, k) \<in> set (held q')"
    then have m: "(t, k) \<in> set (held q)" "now < t" by (auto simp: q' spec)
    have "k \<notin> set av"
      using m(2) ok(9) [OF m(1)] by (auto simp: spec dest: held_unique [OF assms(1) m(1)])
    with ok(8,10) [OF m(1)] show "hm_get (due q') k = Some t \<and> k \<notin> set (available q') \<and> hm_get (claims q') k = None"
      by (simp add: q')
  qed (use ok spec in \<open>auto simp: q'\<close>)
  show "status q' k = (case status q k of HeldUntil t \<Rightarrow> if t \<le> now then Waiting else HeldUntil t | s \<Rightarrow> s)"
  proof (cases "status q k")
    case Absent
    then have "status q' k = Absent"
      unfolding status_Absent [OF assms(1)] status_Absent [OF ok'] by (auto simp: q' spec)
    with Absent show ?thesis by simp
  next
    case Waiting
    then have "status q' k = Waiting"
      unfolding status_iff [OF assms(1)] status_iff [OF ok'] by (simp add: q' spec)
    with Waiting show ?thesis by simp
  next
    case (InFlight c)
    then have "status q' k = InFlight c"
      unfolding status_iff [OF assms(1)] status_iff [OF ok'] by (simp add: q')
    with InFlight show ?thesis by simp
  next
    case (HeldUntil t)
    then have h: "(t, k) \<in> set (held q)" unfolding status_iff [OF assms(1)] .
    have "status q' k = (if t \<le> now then Waiting else HeldUntil t)"
    proof (cases "t \<le> now")
      case True
      with h have "status q' k = Waiting" unfolding status_iff [OF ok'] by (auto simp: q' spec)
      with True show ?thesis by simp
    next
      case False
      with h have "status q' k = HeldUntil t" unfolding status_iff [OF ok'] by (simp add: q' spec)
      with False show ?thesis by simp
    qed
    with HeldUntil show ?thesis by simp
  qed
  show "deliveries q' = deliveries q" "claims q' = claims q" "due q' = due q" "q_sequence q' = q_sequence q"
    by (simp_all add: q')
  show "n = length (filter (\<lambda>(t, k). t \<le> now) (held q))" by (rule n)
qed

lemma claim_ok:
  assumes "queue_ok q" and "claim owner now policy q = (r, q')"
  shows "queue_ok q'"
    and "r = None \<longleftrightarrow> available q = []"
    and "r = None \<Longrightarrow> q' = q"
    and "r = Some (key, n) \<Longrightarrow> status q key = Waiting \<and> (\<forall>k. status q k = Waiting \<longrightarrow> key \<le> k) \<and>
      n = (delivery_count key q + 1) mod 2 ^ 32 \<and>
      (\<forall>k. status q' k = (if k = key then InFlight \<lparr>claim_owner = owner,
          expires_millis = saturating_add now (visibility policy mod 2 ^ 64)\<rparr> else status q k)) \<and>
      (\<forall>k. delivery_count k q' = (if k = key then n else delivery_count k q))"
proof -
  note ok = queue_okD [OF assms(1)]
  show "queue_ok q'"
    using assms(2) ok by (auto simp: claim_def Let_def split: list.splits intro!: queue_okI)
  show "r = None \<longleftrightarrow> available q = []" "r = None \<Longrightarrow> q' = q"
    using assms(2) by (auto simp: claim_def Let_def split: list.splits)
  assume r: "r = Some (key, n)"
  then obtain ks where av: "available q = key # ks" and n: "n = (delivery_count key q + 1) mod 2 ^ 32"
    and q': "q' = q\<lparr>available := bt_remove key (available q), deliveries := hm_insert key n (deliveries q),
      claims := hm_insert key \<lparr>claim_owner = owner,
        expires_millis = saturating_add now (visibility policy mod 2 ^ 64)\<rparr> (claims q), q_dirty := True\<rparr>"
    using assms(2) by (auto simp: claim_def Let_def split: list.splits)
  have "key \<le> k" if "status q k = Waiting" for k
    using that bt.first_is_least [OF ok(2) av] by (simp add: status_iff(1) [OF assms(1)])
  moreover have "status q' k = (if k = key then InFlight \<lparr>claim_owner = owner,
      expires_millis = saturating_add now (visibility policy mod 2 ^ 64)\<rparr> else status q k)" for k
    using ok(2) by (auto simp: status_def q' split: option.splits)
  ultimately show "status q key = Waiting \<and> (\<forall>k. status q k = Waiting \<longrightarrow> key \<le> k) \<and>
      n = (delivery_count key q + 1) mod 2 ^ 32 \<and>
      (\<forall>k. status q' k = (if k = key then InFlight \<lparr>claim_owner = owner,
          expires_millis = saturating_add now (visibility policy mod 2 ^ 64)\<rparr> else status q k)) \<and>
      (\<forall>k. delivery_count k q' = (if k = key then n else delivery_count k q))"
    using n by (simp add: status_iff(1) [OF assms(1)] av delivery_count_def q')
qed

lemma release_until_ok:
  assumes "queue_ok q" and "status q key = InFlight c" and "release_until key policy due_millis q = (b, q')"
  shows "queue_ok q'"
    and "b \<longleftrightarrow> max_deliveries policy \<le> delivery_count key q"
    and "status q' k = (if k = key then (if b then Absent else case due_millis of Some t \<Rightarrow> HeldUntil t | None \<Rightarrow> Waiting)
      else status q k)"
    and "delivery_count k q' = delivery_count k q"
proof -
  note ok = queue_okD [OF assms(1)]
  let ?q = "q\<lparr>claims := hm_remove key (claims q), q_dirty := True\<rparr>"
  have c: "hm_get (claims q) key = Some c" using assms(2) by (simp add: status_iff [OF assms(1)])
  then have free: "key \<notin> set (available q)" "\<And>t. (t, key) \<notin> set (held q)" using ok(7,10) by fastforce+
  have okq: "queue_ok ?q" using ok by (auto intro!: queue_okI)
  have stq: "status ?q k = (if k = key then Absent else status q k)"
    using free by (auto simp: status_def split: option.splits)
  have cnt: "delivery_count k ?q = delivery_count k q" for k by (simp add: delivery_count_def)
  have pre: "key \<notin> set (available ?q)" "hm_get (claims ?q) key = None" using free by simp_all
  note h = hold_ok [OF okq pre]
  show b: "b \<longleftrightarrow> max_deliveries policy \<le> delivery_count key q"
    using assms(3) cnt by (auto simp: release_until_def Let_def split: if_splits)
  show "queue_ok q'"
  proof (cases due_millis)
    case None
    with assms(3) okq ok free show ?thesis
      by (auto simp: release_until_def Let_def split: if_splits intro!: queue_okI)
  next
    case (Some t)
    with assms(3) okq h(1) show ?thesis by (auto simp: release_until_def Let_def split: if_splits)
  qed
  have wait: "status (?q\<lparr>available := bt_insert key (available ?q)\<rparr>) k = (if k = key then Waiting else status ?q k)"
    by (auto simp: status_def split: option.splits)
  show "status q' k = (if k = key then (if b then Absent else case due_millis of Some t \<Rightarrow> HeldUntil t | None \<Rightarrow> Waiting)
      else status q k)"
    using assms(3) stq h(2) wait
    by (auto simp: release_until_def Let_def split: if_splits option.splits)
  show "delivery_count k q' = delivery_count k q"
    using assms(3) h(3) by (auto simp: release_until_def delivery_count_def Let_def split: if_splits option.splits)
qed

text \<open>The sweep of one lapsed claim is a release without delay.\<close>

lemma expire_key_release:
  "expire_key policy key (q, out) =
    (let (b, q') = release_until key policy None q
     in (q', if b then out\<lparr>dead := dead out @ [key]\<rparr> else out\<lparr>returned := returned out @ [key]\<rparr>))"
  by (simp add: expire_key_def release_until_def Let_def)

lemma fold_expire_ok:
  assumes "queue_ok q" and "distinct ks" and "\<forall>k \<in> set ks. \<exists>c. status q k = InFlight c"
    and "fold (expire_key policy) ks (q, out) = (q', out')"
  shows "queue_ok q' \<and>
    (\<forall>k. status q' k = (if k \<in> set ks then (if max_deliveries policy \<le> delivery_count k q then Absent else Waiting)
       else status q k)) \<and>
    (\<forall>k. delivery_count k q' = delivery_count k q) \<and>
    dead out' = dead out @ filter (\<lambda>k. max_deliveries policy \<le> delivery_count k q) ks \<and>
    returned out' = returned out @ filter (\<lambda>k. \<not> max_deliveries policy \<le> delivery_count k q) ks"
  using assms
proof (induction ks arbitrary: q out)
  case (Cons key ks)
  obtain b q1 where r: "release_until key policy None q = (b, q1)" by (cases "release_until key policy None q")
  obtain c where "status q key = InFlight c" using Cons.prems(3) by auto
  note rel = release_until_ok [OF Cons.prems(1) this r]
  let ?out = "if b then out\<lparr>dead := dead out @ [key]\<rparr> else out\<lparr>returned := returned out @ [key]\<rparr>"
  have f: "fold (expire_key policy) ks (q1, ?out) = (q', out')"
    using Cons.prems(4) by (simp add: expire_key_release r)
  have "\<forall>k \<in> set ks. \<exists>c. status q1 k = InFlight c" using Cons.prems(2,3) rel(3) by auto
  from Cons.IH [OF rel(1) _ this f] Cons.prems(2) rel(2-4) show ?case by auto
qed simp

lemma expire_ok:
  assumes "queue_ok q" and "expire now policy q = (q', out)"
  shows "queue_ok q'"
    and "status q' k = (case status q k of
        HeldUntil t \<Rightarrow> (if t \<le> now then Waiting else HeldUntil t)
      | InFlight c \<Rightarrow> (if has_lapsed c now then (if max_deliveries policy \<le> delivery_count k q then Absent else Waiting)
          else InFlight c)
      | s \<Rightarrow> s)"
    and "delivery_count k q' = delivery_count k q"
    and "set (dead out) = {k. \<exists>c. status q k = InFlight c \<and> has_lapsed c now \<and> max_deliveries policy \<le> delivery_count k q}"
    and "set (returned out) = {k. \<exists>c. status q k = InFlight c \<and> has_lapsed c now \<and> delivery_count k q < max_deliveries policy}"
    and "bt_wf (dead out)"
proof -
  obtain q1 n where q1: "release_due now q = (q1, n)" by (cases "release_due now q")
  note rd = release_due_ok [OF assms(1) q1]
  let ?l = "map fst (filter (\<lambda>(_, c). has_lapsed c now) (claims q1))"
  obtain q2 o2 where f: "fold (expire_key policy) ?l (q1, \<lparr>returned = [], dead = []\<rparr>) = (q2, o2)"
    by (cases "fold (expire_key policy) ?l (q1, \<lparr>returned = [], dead = []\<rparr>)")
  have res: "q' = q2" "out = \<lparr>returned = sort (returned o2), dead = sort (dead o2)\<rparr>"
    using assms(2) f q1 by (auto simp: expire_def Let_def)
  have wf: "hm_wf (claims q1)" by (rule queue_okD(4) [OF rd(1)])
  have fl: "status q1 k = InFlight c \<longleftrightarrow> status q k = InFlight c" for k c
    using status_iff(2) [OF assms(1)] status_iff(2) [OF rd(1)] rd(4) by simp
  have dist: "distinct ?l" using wf by (simp add: hm_wf_def distinct_map_filter)
  have l: "k \<in> set ?l \<longleftrightarrow> (\<exists>c. status q k = InFlight c \<and> has_lapsed c now)" for k
    using hm_wf_mem [OF wf] by (force simp: fl [symmetric] status_iff(2) [OF rd(1)])
  have cnt: "delivery_count k q1 = delivery_count k q" for k by (simp add: delivery_count_def rd(3))
  have "\<forall>k \<in> set ?l. \<exists>c. status q1 k = InFlight c" using l fl by blast
  note ex = fold_expire_ok [OF rd(1) dist this f, unfolded cnt]
  show "queue_ok q'" using ex res by simp
  show "delivery_count k q' = delivery_count k q" using ex res cnt by simp
  show "set (dead out) = {k. \<exists>c. status q k = InFlight c \<and> has_lapsed c now \<and> max_deliveries policy \<le> delivery_count k q}"
    "set (returned out) = {k. \<exists>c. status q k = InFlight c \<and> has_lapsed c now \<and> delivery_count k q < max_deliveries policy}"
    using ex res l by (auto simp del: set_map)
  have "dead out = sort (filter (\<lambda>k. max_deliveries policy \<le> delivery_count k q) ?l)" using ex res by simp
  then show "bt_wf (dead out)" using dist by (simp add: bt_wf_def strict_sorted_iff)
  show "status q' k = (case status q k of
        HeldUntil t \<Rightarrow> (if t \<le> now then Waiting else HeldUntil t)
      | InFlight c \<Rightarrow> (if has_lapsed c now then (if max_deliveries policy \<le> delivery_count k q then Absent else Waiting)
          else InFlight c)
      | s \<Rightarrow> s)"
  proof (cases "k \<in> set ?l")
    case True
    then obtain c where "status q k = InFlight c" "has_lapsed c now" using l by blast
    with True ex res show ?thesis by (simp del: set_map)
  next
    case False
    then have "status q' k = status q1 k" using ex res by (simp del: set_map)
    with False rd(2) [of k] show ?thesis unfolding l by (auto split: Status.splits)
  qed
qed

lemma adopt_ok:
  assumes "queue_ok q" and "status q key = Absent \<or> status q key = Waiting"
  shows "queue_ok (adopt key n q)"
    and "status (adopt key n q) k = (if k = key then Waiting else status q k)"
    and "delivery_count k (adopt key n q) = (if k = key \<and> 0 < n then n else delivery_count k q)"
proof -
  note ok = queue_okD [OF assms(1)]
  have "hm_get (claims q) key = None" "\<And>t. (t, key) \<notin> set (held q)"
    using assms status_iff [OF assms(1)] status_Absent [OF assms(1)] ok(7,9) by auto
  then show "queue_ok (adopt key n q)" using ok by (auto simp: adopt_def intro!: queue_okI)
qed (auto simp: status_def adopt_def delivery_count_def split: option.splits)

section \<open>Rebuilding the state from the records\<close>

lemma collect_map_wf [simp]: "hm_wf (collect_map kvs)"
  by (simp add: collect_map_def hm.wf_insert_all)

lemma fold_attach_key:
  "\<lbrakk>due q = dm; bt_wf (available q); bt_wf (held q); seq_ok (q_sequence q)\<rbrakk> \<Longrightarrow>
   (let q' = fold (attach_key dm) ks q in
      set (available q') = set (available q) \<union> {k \<in> set ks. hm_get dm k = None} \<and>
      set (held q') = set (held q) \<union> {(t, k). k \<in> set ks \<and> hm_get dm k = Some t} \<and>
      bt_wf (available q') \<and> bt_wf (held q') \<and> due q' = dm \<and> claims q' = claims q \<and>
      deliveries q' = deliveries q \<and> q_sequence q' = fold raise_past ks (q_sequence q))"
proof (induction ks arbitrary: q)
  case (Cons k ks)
  let ?q = "attach_key dm k q"
  have pre: "due ?q = dm" "bt_wf (available ?q)" "bt_wf (held ?q)" "seq_ok (q_sequence ?q)"
    and sets: "set (available ?q) = set (available q) \<union> {k' \<in> {k}. hm_get dm k' = None}"
      "set (held ?q) = set (held q) \<union> {(t, k'). k' = k \<and> hm_get dm k' = Some t}"
    and eqs: "claims ?q = claims q" "deliveries ?q = deliveries q" "q_sequence ?q = raise_past k (q_sequence q)"
    using Cons.prems by (auto simp: attach_key_def Let_def split: option.splits)
  from Cons.IH [OF pre] show ?case by (auto simp: Let_def sets eqs)
qed (simp add: Let_def)

text \<open>What a queue file remembers about the records that are still there.\<close>

definition remembered :: "(str, 'r) hashmap \<Rightarrow> (str \<times> nat) list \<Rightarrow> str \<Rightarrow> nat option" where
  "remembered records kvs = hm_get (collect_map (filter (\<lambda>(key, _). hm_contains records key) kvs))"

lemma attach_ok:
  assumes "next_sequence p \<le> u64_max"
  shows "queue_ok (attach records p)"
    and "status (attach records p) k = (if hm_contains records k then
        (case remembered records (p_due p) k of Some t \<Rightarrow> HeldUntil t | None \<Rightarrow> Waiting) else Absent)"
    and "delivery_count k (attach records p) = (case remembered records (p_deliveries p) k of Some n \<Rightarrow> n | None \<Rightarrow> 0)"
    and "q_sequence (attach records p) = fold raise_past (hm_keys records) (restored (next_sequence p))"
proof -
  let ?dm = "collect_map (filter (\<lambda>(key, _). hm_contains records key) (p_due p))"
  let ?dl = "collect_map (filter (\<lambda>(key, _). hm_contains records key) (p_deliveries p))"
  let ?q = "\<lparr>q_sequence = restored (next_sequence p), available = [], claims = [],
    deliveries = ?dl, due = ?dm, held = [], q_dirty = False\<rparr>"
  let ?q' = "attach records p"
  have q': "?q' = fold (attach_key ?dm) (hm_keys records) ?q" by (simp add: attach_def Let_def)
  have "seq_ok (restored (next_sequence p))" using assms by (simp add: seq_ok_def restored_def)
  with fold_attach_key [of ?q ?dm "hm_keys records"] have a:
    "set (available ?q') = {k \<in> set (hm_keys records). hm_get ?dm k = None}"
    "set (held ?q') = {(t, k). k \<in> set (hm_keys records) \<and> hm_get ?dm k = Some t}"
    "bt_wf (available ?q')" "bt_wf (held ?q')" "due ?q' = ?dm" "claims ?q' = []" "deliveries ?q' = ?dl"
    and seq: "q_sequence ?q' = fold raise_past (hm_keys records) (restored (next_sequence p))"
    unfolding q' by (simp_all add: Let_def)
  have "seq_ok (q_sequence ?q')"
    unfolding seq using fold_raise_past assms by (simp add: seq_ok_def restored_def)
  then show "queue_ok ?q'" by (intro queue_okI) (auto simp: a)
  show "status ?q' k = (if hm_contains records k then
        (case remembered records (p_due p) k of Some t \<Rightarrow> HeldUntil t | None \<Rightarrow> Waiting) else Absent)"
    by (auto simp: status_def a remembered_def hm_keys_iff hm_contains_def split: option.splits)
  show "delivery_count k ?q' = (case remembered records (p_deliveries p) k of Some n \<Rightarrow> n | None \<Rightarrow> 0)"
    by (simp add: delivery_count_def a remembered_def)
  show "q_sequence ?q' = fold raise_past (hm_keys records) (restored (next_sequence p))" by (rule seq)
qed

lemma fold_reconcile_key:
  "\<lbrakk>bt_wf (available q); seq_ok (q_sequence q)\<rbrakk> \<Longrightarrow>
   (let q' = fold (reconcile_key hks) ks q in
      set (available q') = set (available q) \<union> {k \<in> set ks. \<not> hm_contains (claims q) k \<and> k \<notin> set hks} \<and>
      bt_wf (available q') \<and> held q' = held q \<and> due q' = due q \<and> claims q' = claims q \<and>
      deliveries q' = deliveries q \<and> q_sequence q' = fold raise_past ks (q_sequence q))"
proof (induction ks arbitrary: q)
  case (Cons k ks)
  let ?q = "reconcile_key hks k q"
  have pre: "bt_wf (available ?q)" "seq_ok (q_sequence ?q)"
    and sets: "set (available ?q) = set (available q) \<union> {k' \<in> {k}. \<not> hm_contains (claims q) k' \<and> k' \<notin> set hks}"
    and eqs: "held ?q = held q" "due ?q = due q" "claims ?q = claims q" "deliveries ?q = deliveries q"
      "q_sequence ?q = raise_past k (q_sequence q)"
    using Cons.prems by (auto simp: reconcile_key_def Let_def)
  from Cons.IH [OF pre] show ?case by (auto simp: Let_def sets eqs)
qed (simp add: Let_def)

lemma reconcile_ok:
  assumes "queue_ok q"
  shows "queue_ok (reconcile records q)"
    and "status (reconcile records q) k = (if hm_contains records k then
        (case status q k of Absent \<Rightarrow> Waiting | s \<Rightarrow> s) else Absent)"
    and "delivery_count k (reconcile records q) = (if hm_contains records k then delivery_count k q else 0)"
proof -
  note ok = queue_okD [OF assms]
  let ?in = "hm_contains records" and ?r = "reconcile records q"
  define hs where "hs = filter (\<lambda>(_, key). hm_contains records key) (held q)"
  define hks where "hks = map snd hs"
  define q0 where "q0 = q\<lparr>held := hs, due := hm_retain (hm_contains records) (due q),
    available := filter (\<lambda>key. hm_contains records key \<and> \<not> hm_contains (claims q) key \<and> key \<notin> set hks) (available q)\<rparr>"
  define qf where "qf = fold (reconcile_key hks) (hm_keys records) q0"
  have r: "?r = qf\<lparr>claims := hm_retain ?in (claims qf), deliveries := hm_retain ?in (deliveries qf), q_dirty := True\<rparr>"
    by (simp add: reconcile_def Let_def qf_def q0_def hks_def hs_def)
  have keys: "k \<in> set (hm_keys records) \<longleftrightarrow> ?in k" for k by (simp add: hm_keys_iff hm_contains_def)
  have hk: "k \<in> set hks \<longleftrightarrow> ?in k \<and> (\<exists>t. (t, k) \<in> set (held q))" for k by (force simp: hks_def hs_def)
  have pre: "bt_wf (available q0)" "seq_ok (q_sequence q0)" using ok(1,2) by (simp_all add: q0_def)
  note fr = fold_reconcile_key [OF pre, of hks "hm_keys records", unfolded Let_def, folded qf_def]
  have f: "bt_wf (available qf)" "held qf = hs" "due qf = hm_retain ?in (due q)" "claims qf = claims q"
    "deliveries qf = deliveries q" and seq: "q_sequence qf = fold raise_past (hm_keys records) (q_sequence q)"
    using fr by (simp_all add: q0_def)
  have "set (available qf) = set (available q0) \<union> {k \<in> set (hm_keys records). \<not> hm_contains (claims q0) k \<and> k \<notin> set hks}"
    using fr by blast
  then have av: "k \<in> set (available qf) \<longleftrightarrow> ?in k \<and> hm_get (claims q) k = None \<and> (\<forall>t. (t, k) \<notin> set (held q))" for k
    using hk by (auto simp: q0_def keys hm_contains_def)
  have hq: "(t, k) \<in> set hs \<longleftrightarrow> (t, k) \<in> set (held q) \<and> ?in k" for t k by (auto simp: hs_def)
  have sok: "seq_ok (q_sequence qf)" unfolding seq using fold_raise_past [OF ok(1)] by blast
  show "queue_ok ?r"
    using ok sok f(1) unfolding r by (intro queue_okI) (auto simp: f(2-5) av hq, auto simp: hs_def)
  show "status ?r k = (if ?in k then (case status q k of Absent \<Rightarrow> Waiting | s \<Rightarrow> s) else Absent)"
    using ok(7-10) unfolding r by (auto simp: status_def f(2-5) av hq split: option.splits)
  show "delivery_count k ?r = (if ?in k then delivery_count k q else 0)"
    unfolding r by (simp add: delivery_count_def f(5))
qed

section \<open>The age of the oldest record\<close>

text \<open>
  The reference definition: over every record that is waiting or in flight, the time it has been
  waiting since, which is its due time when it had one and the millisecond of its key otherwise.
\<close>

definition waiting_since :: "QueueState \<Rightarrow> str \<Rightarrow> nat option" where
  "waiting_since q k = (case hm_get (due q) k of Some t \<Rightarrow> Some t | None \<Rightarrow> key_millis k)"

definition live_times :: "QueueState \<Rightarrow> nat set" where
  "live_times q = {t. \<exists>k. (k \<in> set (available q) \<or> hm_contains (claims q) k) \<and> waiting_since q k = Some t}"

lemma waiting_since_iff:
  "waiting_since q k = Some t \<longleftrightarrow> hm_get (due q) k = Some t \<or> hm_get (due q) k = None \<and> key_millis k = Some t"
  by (auto simp: waiting_since_def split: option.splits)

text \<open>The minimum of a finite set that may be empty.\<close>

definition opt_Min :: "nat set \<Rightarrow> nat option" where
  "opt_Min A = (if A = {} then None else Some (Min A))"

lemma list_min_set: "list_min xs = opt_Min (set xs)"
  by (simp add: list_min_def opt_Min_def)

text \<open>In ascending key order, the first minted key carries the smallest time.\<close>

lemma find_map_first:
  "bt_wf ks \<Longrightarrow> find_map key_millis ks = (let ts = {t. \<exists>k \<in> set ks. key_millis k = Some t}
     in if ts = {} then None else Some (Min ts))"
proof (induction ks)
  case (Cons k ks)
  show ?case
  proof (cases "key_millis k")
    case None
    then have "{t. \<exists>k' \<in> set (k # ks). key_millis k' = Some t} = {t. \<exists>k' \<in> set ks. key_millis k' = Some t}"
      by auto
    with None Cons show ?thesis by simp
  next
    case (Some t)
    let ?ts = "{t. \<exists>k' \<in> set (k # ks). key_millis k' = Some t}"
    have "finite ?ts"
    proof -
      have "?ts \<subseteq> (\<lambda>k. the (key_millis k)) ` set (k # ks)" by force
      then show ?thesis by (rule finite_subset) simp
    qed
    moreover have "t \<le> u" if "u \<in> ?ts" for u
    proof -
      from that obtain k' where k': "k' \<in> set (k # ks)" "key_millis k' = Some u" by blast
      obtain m n where mn: "key_sequence k = Some m" "t = m div SUB_MILLISECOND"
        "key_sequence k' = Some n" "u = n div SUB_MILLISECOND"
        using Some k'(2) by (auto simp: key_millis_def)
      have "k \<le> k'" using Cons.prems k'(1) by auto
      then have "m \<le> n" using key_sequence_less_iff [OF mn(1,3)] by (auto simp: le_less)
      then show ?thesis by (simp add: mn div_le_mono)
    qed
    moreover have "t \<in> ?ts" using Some by auto
    ultimately have "Min ?ts = t" by (intro Min_eqI) auto
    with Some \<open>t \<in> ?ts\<close> show ?thesis by (auto simp: Let_def)
  qed
qed simp

lemma set_options: "set (List.map_filter (\<lambda>x. x) os) = {t. Some t \<in> set os}"
  by (induction os) (auto simp: List.map_filter_simps split: option.splits)

lemma opt_Min_Un:
  assumes "finite A" "finite B" "finite C"
  shows "opt_Min {t. Some t \<in> {opt_Min A, opt_Min B, opt_Min C}} = opt_Min (A \<union> B \<union> C)"
proof -
  have eq: "{t. Some t \<in> {opt_Min A, opt_Min B, opt_Min C}} =
    (if A = {} then {} else {Min A}) \<union> (if B = {} then {} else {Min B}) \<union> (if C = {} then {} else {Min C})"
    by (auto simp: opt_Min_def)
  show ?thesis
    unfolding eq using assms by (auto simp: opt_Min_def Min_Un min.assoc min.commute min.left_commute)
qed

lemma oldest_reference:
  assumes "queue_ok q"
  shows "oldest_unacknowledged_seconds now q = map_option (\<lambda>t. (now - t) div 1000) (opt_Min (live_times q))"
proof -
  note ok = queue_okD [OF assms]
  let ?av = "filter (\<lambda>key. \<not> hm_contains (due q) key) (available q)"
  let ?A = "{t. \<exists>k \<in> set ?av. key_millis k = Some t}"
  let ?dl = "map snd (filter (\<lambda>(key, _). key \<in> set (available q) \<or> hm_contains (claims q) key) (due q))"
  let ?cl = "List.map_filter key_millis (filter (\<lambda>key. \<not> hm_contains (due q) key) (hm_keys (claims q)))"
  have "?A \<subseteq> (\<lambda>k. the (key_millis k)) ` set ?av" by force
  then have fin: "finite ?A" by (rule finite_subset) simp
  have w: "find_map key_enqueued_millis ?av = opt_Min ?A"
    using find_map_first [of ?av] ok(2) by (simp add: opt_Min_def Let_def key_enqueued_millis_def [abs_def])
  have c: "List.map_filter key_enqueued_millis xs = List.map_filter key_millis xs" for xs
    by (simp add: key_enqueued_millis_def [abs_def])
  have B: "set ?dl = {t. \<exists>k. (k \<in> set (available q) \<or> hm_contains (claims q) k) \<and> hm_get (due q) k = Some t}"
    using hm_wf_mem [OF ok(6)] by (force simp: image_iff)
  have C: "set ?cl = {t. \<exists>k. hm_contains (claims q) k \<and> hm_get (due q) k = None \<and> key_millis k = Some t}"
    by (auto simp: List.map_filter_def hm_keys_iff hm_contains_def image_iff) force
  have live: "live_times q = ?A \<union> set ?dl \<union> set ?cl"
    unfolding B C live_times_def waiting_since_iff by (auto simp: hm_contains_def)
  have "opt_Min (set (List.map_filter (\<lambda>x. x) [opt_Min ?A, opt_Min (set ?dl), opt_Min (set ?cl)])) = opt_Min (live_times q)"
    unfolding live set_options list.set opt_Min_Un [OF fin finite_set finite_set, symmetric] by simp
  then show ?thesis
    unfolding oldest_unacknowledged_seconds_def Let_def w c list_min_set
    by (simp only: saturating_sub_def map_option_case)
qed

end
