(* ===== verification/Queue_Props.thy ===== *)
theory Queue_Props
  imports Queue_Laws
begin

text \<open>
  The properties of a queue: the step relation of a live queue as the engine drives it, with its
  invariants by rule induction; what a claim, a sweep, a rebuild and a restart do to every key; the
  \<open>queue\<close> file's round trip; and the places where the code and its comments part.
\<close>

section \<open>The queue file\<close>

definition persisted_ok :: "PersistedQueue \<Rightarrow> bool" where
  "persisted_ok p \<longleftrightarrow> next_sequence p \<le> u64_max \<and>
     (\<forall>(k, n) \<in> set (p_deliveries p). utf8_valid k \<and> newline \<notin> set k \<and> n \<le> u32_max) \<and>
     (\<forall>(k, n) \<in> set (p_due p). utf8_valid k \<and> newline \<notin> set k \<and> n \<le> u64_max)"

lemma show_nat_no_colon: "CHR '':'' \<notin> set (show_nat n)"
  by (rule show_radix_avoids) simp_all

lemma parse_entry_line:
  "parse (show_nat n) = Some n \<Longrightarrow> parse_entry parse (k @ CHR '':'' # show_nat n) = Some (k, n)"
  by (simp add: parse_entry_def rsplit_once_append show_nat_no_colon trim_show_radix del: show_radix.simps)

lemma read_next_line:
  "n \<le> u64_max \<Longrightarrow> read_state_line (key_value ''next'' (show_nat n)) st = st\<lparr>next_sequence := n\<rparr>"
  by (simp add: read_state_line_def key_value_def strip_prefix_def trim_show_radix from_str_radix_show
      del: show_radix.simps)

lemma read_deliveries_line:
  "n \<le> u32_max \<Longrightarrow> read_state_line (entry_line ''deliveries'' (k, n)) st = st\<lparr>p_deliveries := p_deliveries st @ [(k, n)]\<rparr>"
  by (simp add: read_state_line_def entry_line_def key_value_def strip_prefix_def parse_entry_line from_str_radix_show
      del: show_radix.simps)

lemma read_due_line:
  "n \<le> u64_max \<Longrightarrow> read_state_line (entry_line ''due'' (k, n)) st = st\<lparr>p_due := p_due st @ [(k, n)]\<rparr>"
  by (simp add: read_state_line_def entry_line_def key_value_def strip_prefix_def parse_entry_line from_str_radix_show
      del: show_radix.simps)

lemma read_deliveries_lines:
  "\<forall>(k, n) \<in> set es. n \<le> u32_max \<Longrightarrow>
     fold read_state_line (map (entry_line ''deliveries'') es) st = st\<lparr>p_deliveries := p_deliveries st @ es\<rparr>"
  by (induction es arbitrary: st) (auto simp: read_deliveries_line)

lemma read_due_lines:
  "\<forall>(k, n) \<in> set es. n \<le> u64_max \<Longrightarrow>
     fold read_state_line (map (entry_line ''due'') es) st = st\<lparr>p_due := p_due st @ es\<rparr>"
  by (induction es arbitrary: st) (auto simp: read_due_line)

lemma entry_line_text:
  assumes "utf8_valid k" "newline \<notin> set k" "visible_text name"
  shows "plain_line (entry_line name (k, n))" "utf8_valid (entry_line name (k, n) @ s) = utf8_valid s"
proof -
  have vis: "visible_text (show_nat n)" by simp
  then have "newline \<notin> set (show_nat n)" "last (show_nat n) \<noteq> carriage_return"
    using plain_visible_text [OF vis] by (auto simp: plain_line_def)
  moreover have "newline \<notin> set name" using plain_visible_text [OF assms(3)] by (simp add: plain_line_def)
  ultimately show "plain_line (entry_line name (k, n))"
    using assms(2) by (auto simp: plain_line_def entry_line_def key_value_def simp del: show_radix.simps)
  have asc: "is_ascii (name @ [CHR ''=''])" "is_ascii (CHR '':'' # show_nat n)"
    using visible_text_ascii [OF assms(3)] visible_text_ascii [OF vis] by simp_all
  have "entry_line name (k, n) @ s = (name @ [CHR ''='']) @ k @ (CHR '':'' # show_nat n) @ s"
    by (simp add: entry_line_def key_value_def)
  then show "utf8_valid (entry_line name (k, n) @ s) = utf8_valid s"
    using assms(1) asc by (simp only: utf8_valid_append [OF utf8_valid_ascii] utf8_valid_append)
qed

lemma utf8_valid_unlines: "\<forall>l \<in> set ls. \<forall>s. utf8_valid (l @ s) = utf8_valid s \<Longrightarrow> utf8_valid (unlines ls)"
  by (induction ls) (auto simp: utf8_valid_ascii_Cons)

lemma queue_state_round_trip:
  assumes "persisted_ok p"
  shows "queue_read_state (queue_write_state d p) =
    Some (p\<lparr>p_deliveries := sort (p_deliveries p), p_due := sort (p_due p)\<rparr>)"
proof -
  let ?head = "key_value ''next'' (show_nat (next_sequence p))"
  let ?dl = "map (entry_line ''deliveries'') (sort (p_deliveries p))" and ?du = "map (entry_line ''due'') (sort (p_due p))"
  let ?ls = "?head # ?dl @ ?du"
  have hv: "visible_text ?head" by (simp add: visible_def del: show_radix.simps)
  have e: "\<forall>l \<in> set (?dl @ ?du). plain_line l \<and> (\<forall>s. utf8_valid (l @ s) = utf8_valid s)"
    using assms by (auto simp: persisted_ok_def entry_line_text visible_def)
  have "lines (unlines ?ls) = ?ls"
    by (rule lines_unlines) (use e plain_visible_text [OF hv] in auto)
  moreover have "utf8_valid (unlines ?ls)"
    using e by (intro utf8_valid_unlines) (auto simp: utf8_valid_append [OF utf8_valid_ascii [OF visible_text_ascii [OF hv]]])
  moreover have "fold read_state_line ?ls PersistedQueue_default = p\<lparr>p_deliveries := sort (p_deliveries p), p_due := sort (p_due p)\<rparr>"
  proof -
    have b: "\<forall>(k, n) \<in> set (sort (p_deliveries p)). n \<le> u32_max" "\<forall>(k, n) \<in> set (sort (p_due p)). n \<le> u64_max"
      "next_sequence p \<le> u64_max" using assms by (auto simp: persisted_ok_def)
    show ?thesis
      by (simp add: read_next_line [OF b(3)] read_deliveries_lines [OF b(1)] read_due_lines [OF b(2)]
          PersistedQueue_default_def del: show_radix.simps)
  qed
  ultimately show ?thesis
    by (simp add: queue_read_state_def queue_write_state_def state_read_write state_body_def
        del: unlines_simps show_radix.simps)
qed

section \<open>A live queue\<close>

text \<open>
  The steps the engine takes on one live queue file, with its one policy. Every command sweeps or
  checks first and then acts; a sweep forgets the records it found dead before the guard is released.
\<close>

inductive live_step :: "QueuePolicy \<Rightarrow> QueueState \<Rightarrow> QueueState \<Rightarrow> bool" for policy :: QueuePolicy where
  step_enqueue: "queue_mint now q = (n, q1) \<Longrightarrow> n < u64_max \<Longrightarrow> live_step policy q (enqueue (format_key n) q1)"
| step_enqueue_held: "queue_mint now q = (n, q1) \<Longrightarrow> n < u64_max \<Longrightarrow> live_step policy q (enqueue_held (format_key n) t q1)"
| step_sweep: "expire now policy q = (q1, out) \<Longrightarrow> live_step policy q (fold forget (dead out) q1)"
| step_claim: "claim owner now (policy\<lparr>visibility := v\<rparr>) q = (r, q1) \<Longrightarrow> live_step policy q q1"
| step_ack: "verify key owner True q = Ok () \<Longrightarrow> live_step policy q (forget key q)"
| step_nack: "verify key owner True q = Ok () \<Longrightarrow> release_until key policy due_millis q = (b, q1) \<Longrightarrow>
    live_step policy q (if b then forget key q1 else q1)"
| step_reconcile: "live_step policy q (reconcile (records :: (str, Record) hashmap) q)"
| step_flush: "live_step policy q (queue_clear_dirty q)"

inductive_cases live_stepE: "live_step policy q q'"

definition live_reachable :: "QueuePolicy \<Rightarrow> QueueState \<Rightarrow> bool" where
  "live_reachable policy q \<longleftrightarrow>
     (\<exists>(records :: (str, Record) hashmap) p. next_sequence p \<le> u64_max \<and> p_deliveries p = [] \<and> (live_step policy)\<^sup>*\<^sup>* (attach records p) q)"

text \<open>
  The invariant: the containers agree, a key the queue does not track has no delivery count, a record
  that can be claimed has a delivery left, and the counter is past every minted key that is tracked.
\<close>

definition live_ok :: "QueuePolicy \<Rightarrow> QueueState \<Rightarrow> bool" where
  "live_ok policy q \<longleftrightarrow> queue_ok q \<and>
     (\<forall>k. status q k = Absent \<longrightarrow> delivery_count k q = 0) \<and>
     (\<forall>k. (case status q k of Waiting \<Rightarrow> delivery_count k q < max_deliveries policy
        | HeldUntil _ \<Rightarrow> delivery_count k q < max_deliveries policy
        | InFlight _ \<Rightarrow> delivery_count k q \<le> max_deliveries policy | Absent \<Rightarrow> True)) \<and>
     (\<forall>k n. status q k \<noteq> Absent \<longrightarrow> key_sequence k = Some n \<longrightarrow> n < u64_max \<longrightarrow> n < seq_next (q_sequence q))"

lemma live_okI:
  assumes "queue_ok q" and "\<And>k. status q k = Absent \<Longrightarrow> delivery_count k q = 0"
    and "\<And>k. status q k = Waiting \<Longrightarrow> delivery_count k q < max_deliveries policy"
    and "\<And>k t. status q k = HeldUntil t \<Longrightarrow> delivery_count k q < max_deliveries policy"
    and "\<And>k c. status q k = InFlight c \<Longrightarrow> delivery_count k q \<le> max_deliveries policy"
    and "\<And>k n. status q k \<noteq> Absent \<Longrightarrow> key_sequence k = Some n \<Longrightarrow> n < u64_max \<Longrightarrow> n < seq_next (q_sequence q)"
  shows "live_ok policy q"
  using assms by (auto simp: live_ok_def split: Status.split)

lemma live_okD:
  assumes "live_ok policy q"
  shows "queue_ok q" "status q k = Absent \<Longrightarrow> delivery_count k q = 0"
    "status q k = Waiting \<Longrightarrow> delivery_count k q < max_deliveries policy"
    "status q k = HeldUntil t \<Longrightarrow> delivery_count k q < max_deliveries policy"
    "status q k = InFlight c \<Longrightarrow> delivery_count k q \<le> max_deliveries policy"
    "status q k \<noteq> Absent \<Longrightarrow> key_sequence k = Some n \<Longrightarrow> n < u64_max \<Longrightarrow> n < seq_next (q_sequence q)"
proof -
  have "case status q k of Waiting \<Rightarrow> delivery_count k q < max_deliveries policy
        | HeldUntil _ \<Rightarrow> delivery_count k q < max_deliveries policy
        | InFlight _ \<Rightarrow> delivery_count k q \<le> max_deliveries policy | Absent \<Rightarrow> True"
    using assms by (simp add: live_ok_def)
  then show "status q k = Waiting \<Longrightarrow> delivery_count k q < max_deliveries policy"
    "status q k = HeldUntil t \<Longrightarrow> delivery_count k q < max_deliveries policy"
    "status q k = InFlight c \<Longrightarrow> delivery_count k q \<le> max_deliveries policy" by simp_all
qed (use assms in \<open>auto simp: live_ok_def\<close>)

text \<open>The counter only moves up, and each operation's effect on it.\<close>

lemma sequence_kept [simp]:
  "q_sequence (enqueue k q) = q_sequence q" "q_sequence (hold k t q) = q_sequence q"
  "q_sequence (enqueue_held k t q) = q_sequence q" "q_sequence (forget k q) = q_sequence q"
  "q_sequence (snd (claim owner now p q)) = q_sequence q"
  "q_sequence (snd (release_until k p d q)) = q_sequence q"
  by (auto simp: enqueue_def hold_def enqueue_held_def forget_def unhold_def claim_def release_until_def Let_def
      split: option.splits list.splits)

lemma mint_queue:
  assumes "queue_ok q" and "queue_mint now q = (n, q1)"
  shows "queue_ok q1" "status q1 k = status q k" "delivery_count k q1 = delivery_count k q"
    "seq_next (q_sequence q) \<le> n" "n < u64_max \<Longrightarrow> seq_next (q_sequence q1) = n + 1"
proof -
  obtain s where m: "mint now (q_sequence q) = (n, s)" and q1: "q1 = q\<lparr>q_sequence := s\<rparr>"
    using assms(2) by (auto simp: queue_mint_def split: prod.splits)
  note spec = mint_spec [OF queue_okD(1) [OF assms(1)] m]
  show "queue_ok q1" using queue_okD [OF assms(1)] spec(3) by (auto simp: q1 intro!: queue_okI)
  show "seq_next (q_sequence q) \<le> n" "n < u64_max \<Longrightarrow> seq_next (q_sequence q1) = n + 1" using spec by (simp_all add: q1)
qed (use assms in \<open>auto simp: queue_mint_def status_def delivery_count_def split: prod.splits option.splits\<close>)

text \<open>The key a live queue mints is one it does not track.\<close>

lemma minted_absent:
  assumes "live_ok policy q" and "queue_mint now q = (n, q1)" and "n < u64_max"
  shows "status q (format_key n) = Absent"
proof (rule ccontr)
  assume "status q (format_key n) \<noteq> Absent"
  from live_okD(6) [OF assms(1) this _ assms(3)] have "n < seq_next (q_sequence q)" using assms(3) by simp
  with mint_queue(4) [OF live_okD(1) [OF assms(1)] assms(2)] show False by simp
qed

lemma live_enqueue:
  assumes "live_ok policy q" and "queue_mint now q = (n, q1)" and "n < u64_max" and "0 < max_deliveries policy"
    and q2: "q2 = enqueue (format_key n) q1 \<or> q2 = enqueue_held (format_key n) t q1"
  shows "live_ok policy q2"
proof -
  note m = mint_queue [OF live_okD(1) [OF assms(1)] assms(2)] and L = live_okD [OF assms(1)]
  let ?k = "format_key n"
  have absent: "delivery_count ?k q = 0" using L(2) minted_absent [OF assms(1-3)] by simp
  have st: "status q2 k = (if k = ?k then status q2 ?k else status q k)" "status q2 ?k \<in> {Waiting, HeldUntil t}"
    "delivery_count k q2 = delivery_count k q" "queue_ok q2" "seq_next (q_sequence q2) = n + 1" for k
    using q2 enqueue_ok [OF m(1)] enqueue_held_ok [OF m(1)] m(2,3) m(5) [OF assms(3)]
    by (auto simp: delivery_count_def)
  show ?thesis
  proof (rule live_okI)
    fix k i assume k: "status q2 k \<noteq> Absent" "key_sequence k = Some i" "i < u64_max"
    show "i < seq_next (q_sequence q2)"
    proof (cases "k = ?k")
      case True
      with k(2) assms(3) have "i = n" by simp
      then show ?thesis by (simp add: st(5))
    next
      case False
      with k st(1) [of k] have "i < seq_next (q_sequence q)" using L(6) by auto
      then show ?thesis using m(4) by (simp add: st(5))
    qed
  qed (use st absent assms(4) L in \<open>metis empty_iff insert_iff Status.distinct Status.inject\<close>)+
qed

lemma fold_forget_ok:
  assumes "queue_ok q"
  shows "queue_ok (fold forget ks q) \<and> q_sequence (fold forget ks q) = q_sequence q \<and>
    (\<forall>k. status (fold forget ks q) k = (if k \<in> set ks then Absent else status q k)) \<and>
    (\<forall>k. delivery_count k (fold forget ks q) = (if k \<in> set ks then 0 else delivery_count k q))"
  using assms
proof (induction ks arbitrary: q)
  case (Cons x ks)
  from Cons.IH [OF forget_ok(1) [OF Cons.prems, of x]] forget_ok(2,3) [OF Cons.prems, where key = x] show ?case by simp
qed simp

text \<open>A step that tracks no new key and keeps the counter keeps the invariant if its counts do.\<close>

lemma live_ok_shrink:
  assumes "live_ok policy q" and "queue_ok q'" and "q_sequence q' = q_sequence q"
    and "\<And>k. status q' k = Absent \<and> delivery_count k q' = 0 \<or>
      status q k \<noteq> Absent \<and> delivery_count k q' \<le> max_deliveries policy \<and>
      ((\<exists>c. status q' k = InFlight c) \<or> status q' k \<noteq> Absent \<and> delivery_count k q' < max_deliveries policy) \<or>
      status q' k = status q k \<and> delivery_count k q' = delivery_count k q"
  shows "live_ok policy q'"
proof (rule live_okI)
  fix k n assume k: "status q' k \<noteq> Absent" "key_sequence k = Some n" "n < u64_max"
  then have "status q k \<noteq> Absent" using assms(4) [of k] by auto
  with live_okD(6) [OF assms(1) _ k(2,3)] show "n < seq_next (q_sequence q')" by (simp add: assms(3))
next
  fix k assume "status q' k = Absent"
  then show "delivery_count k q' = 0" using assms(4) [of k] live_okD(2) [OF assms(1)] by auto
next
  fix k assume "status q' k = Waiting"
  then show "delivery_count k q' < max_deliveries policy" using assms(4) [of k] live_okD(3) [OF assms(1)] by auto
next
  fix k t assume "status q' k = HeldUntil t"
  then show "delivery_count k q' < max_deliveries policy"
    using assms(4) [of k] live_okD(4) [OF assms(1)] by (metis Status.distinct(5,11))
next
  fix k c assume "status q' k = InFlight c"
  then show "delivery_count k q' \<le> max_deliveries policy"
    using assms(4) [of k] live_okD(5) [OF assms(1)] by (metis Status.distinct(3) less_imp_le)
qed (rule assms(2))

lemma expire_sequence: "expire now policy q = (q', out) \<Longrightarrow> q_sequence q' = q_sequence q"
proof -
  have "q_sequence (fst (fold (expire_key policy) ks st)) = q_sequence (fst st)" for ks st
    by (induction ks arbitrary: st) (auto simp: expire_key_def Let_def split: prod.splits)
  from this [of _ "(fst (release_due now q), \<lparr>returned = [], dead = []\<rparr>)"]
  show "expire now policy q = (q', out) \<Longrightarrow> q_sequence q' = q_sequence q"
    by (auto simp: expire_def Let_def release_due_def split: prod.splits) (metis fst_conv)
qed

lemma live_sweep:
  assumes "live_ok policy q" and "expire now policy q = (q1, out)"
  shows "live_ok policy (fold forget (dead out) q1)"
proof -
  note L = live_okD [OF assms(1)]
  note x = expire_ok [OF L(1) assms(2)]
  note f = fold_forget_ok [OF x(1), of "dead out"]
  show ?thesis
  proof (rule live_ok_shrink [OF assms(1)])
    fix k
    show "status (fold forget (dead out) q1) k = Absent \<and> delivery_count k (fold forget (dead out) q1) = 0 \<or>
      status q k \<noteq> Absent \<and> delivery_count k (fold forget (dead out) q1) \<le> max_deliveries policy \<and>
      ((\<exists>c. status (fold forget (dead out) q1) k = InFlight c) \<or> status (fold forget (dead out) q1) k \<noteq> Absent \<and>
        delivery_count k (fold forget (dead out) q1) < max_deliveries policy) \<or>
      status (fold forget (dead out) q1) k = status q k \<and> delivery_count k (fold forget (dead out) q1) = delivery_count k q"
      using f x(2) [of k] x(3) [of k] x(4) L(4) [of k]
      by (cases "status q k") (auto split: if_splits)
  qed (use f expire_sequence [OF assms(2)] in auto)
qed

lemma live_claim:
  assumes "live_ok policy q" and "max_deliveries policy \<le> u32_max"
    and "claim owner now (policy\<lparr>visibility := v\<rparr>) q = (r, q1)"
  shows "live_ok policy q1"
proof (cases r)
  case None
  with claim_ok(3) [OF live_okD(1) [OF assms(1)] assms(3)] assms(1) show ?thesis by simp
next
  case (Some kn)
  obtain key n where kn: "kn = (key, n)" by (cases kn)
  note c = claim_ok(1,4) [OF live_okD(1) [OF assms(1)] assms(3)]
  from c(2) Some kn have facts: "status q key = Waiting" "n = (delivery_count key q + 1) mod 2 ^ 32"
    "\<And>k. k \<noteq> key \<Longrightarrow> status q1 k = status q k" "\<And>k. k \<noteq> key \<Longrightarrow> delivery_count k q1 = delivery_count k q"
    "\<exists>c. status q1 key = InFlight c" "delivery_count key q1 = n" by auto
  have "delivery_count key q < max_deliveries policy" by (rule live_okD(3) [OF assms(1) facts(1)])
  moreover from this assms(2) have "delivery_count key q + 1 < 2 ^ 32" by (simp add: u32_max_def)
  then have "n = delivery_count key q + 1" unfolding facts(2) by (rule mod_less)
  ultimately have n: "n \<le> max_deliveries policy" by simp
  have seq: "q_sequence q1 = q_sequence q" using sequence_kept(5) [of owner now "policy\<lparr>visibility := v\<rparr>" q] assms(3) by simp
  show ?thesis
  proof (rule live_ok_shrink [OF assms(1) c(1) seq])
    fix k
    show "status q1 k = Absent \<and> delivery_count k q1 = 0 \<or>
      status q k \<noteq> Absent \<and> delivery_count k q1 \<le> max_deliveries policy \<and>
      ((\<exists>c. status q1 k = InFlight c) \<or> status q1 k \<noteq> Absent \<and> delivery_count k q1 < max_deliveries policy) \<or>
      status q1 k = status q k \<and> delivery_count k q1 = delivery_count k q"
      using facts n by (cases "k = key") auto
  qed
qed

lemma live_forget:
  assumes "live_ok policy q" shows "live_ok policy (forget key q)"
  using forget_ok [OF live_okD(1) [OF assms], where key = key]
  by (intro live_ok_shrink [OF assms]) auto

lemma verify_claimed: "queue_ok q \<Longrightarrow> verify key owner present q = Ok () \<Longrightarrow> present \<and> (\<exists>c. status q key = InFlight c \<and> claim_owner c = owner)"
  by (auto simp: verify_def status_iff split: if_splits option.splits)

lemma live_nack:
  assumes "live_ok policy q" and "verify key owner True q = Ok ()" and "release_until key policy d q = (b, q1)"
  shows "live_ok policy (if b then forget key q1 else q1)"
proof -
  obtain c where c: "status q key = InFlight c" using verify_claimed [OF live_okD(1) [OF assms(1)] assms(2)] by blast
  note r = release_until_ok [OF live_okD(1) [OF assms(1)] c assms(3)]
  note f = forget_ok [OF r(1), where key = key]
  have seq: "q_sequence q1 = q_sequence q" using sequence_kept(6) [of key policy d q] assms(3) by simp
  show ?thesis
  proof (cases b)
    case True
    then show ?thesis using r f seq c by (auto intro!: live_ok_shrink [OF assms(1)] split: if_splits)
  next
    case False
    then have "delivery_count key q < max_deliveries policy" using r(2) by simp
    with False r seq c show ?thesis by (auto intro!: live_ok_shrink [OF assms(1)] split: option.splits if_splits)
  qed
qed

lemma reconcile_sequence: "q_sequence (reconcile records q) = fold raise_past (hm_keys records) (q_sequence q)"
proof -
  have "q_sequence (fold (reconcile_key hks) ks q) = fold raise_past ks (q_sequence q)" for hks ks q
    by (induction ks arbitrary: q) (simp_all add: reconcile_key_def Let_def)
  then show ?thesis by (simp add: reconcile_def Let_def)
qed

lemma live_reconcile:
  assumes "live_ok policy q" and "0 < max_deliveries policy"
  shows "live_ok policy (reconcile records q)"
proof (rule live_okI)
  note L = live_okD [OF assms(1)]
  note r = reconcile_ok [OF L(1), where records = records]
  note f = fold_raise_past [OF queue_okD(1) [OF L(1)], of "hm_keys records"]
  show "queue_ok (reconcile records q)" by (rule r(1))
  fix k
  show "status (reconcile records q) k = Absent \<Longrightarrow> delivery_count k (reconcile records q) = 0"
    using r(2) [of k] r(3) [of k] by (auto split: Status.splits if_splits)
  show "status (reconcile records q) k = Waiting \<Longrightarrow> delivery_count k (reconcile records q) < max_deliveries policy"
    using r(2) [of k] r(3) [of k] L(2,3) [of k] assms(2) by (auto split: Status.splits if_splits)
  show "status (reconcile records q) k = HeldUntil t \<Longrightarrow> delivery_count k (reconcile records q) < max_deliveries policy" for t
    using r(2) [of k] r(3) [of k] L(4) [of k t] by (auto split: Status.splits if_splits)
  show "status (reconcile records q) k = InFlight c \<Longrightarrow> delivery_count k (reconcile records q) \<le> max_deliveries policy" for c
    using r(2) [of k] r(3) [of k] L(5) [of k c] by (auto split: Status.splits if_splits)
  fix n assume k: "status (reconcile records q) k \<noteq> Absent" "key_sequence k = Some n" "n < u64_max"
  then have "k \<in> set (hm_keys records)" using r(2) [of k] by (auto simp: hm_keys_iff hm_contains_def split: if_splits)
  with f k(2,3) show "n < seq_next (q_sequence (reconcile records q))" by (simp add: reconcile_sequence)
qed

lemma live_attach:
  assumes "next_sequence p \<le> u64_max" and "p_deliveries p = []" and "0 < max_deliveries policy"
  shows "live_ok policy (attach records p)"
proof (rule live_okI)
  note a = attach_ok [OF assms(1), where records = records]
  have ok: "seq_ok (restored (next_sequence p))" using assms(1) by (simp add: seq_ok_def restored_def)
  note f = fold_raise_past [OF ok, of "hm_keys records"]
  have zero: "delivery_count k (attach records p) = 0" for k
    using a(3) [of k] assms(2) by (simp add: remembered_def collect_map_def hm.insert_all_simps)
  show "queue_ok (attach records p)" by (rule a(1))
  fix k n assume k: "status (attach records p) k \<noteq> Absent" "key_sequence k = Some n" "n < u64_max"
  then have "k \<in> set (hm_keys records)" using a(2) [of k] by (auto simp: hm_keys_iff hm_contains_def split: if_splits)
  with f k(2,3) show "n < seq_next (q_sequence (attach records p))" by (simp add: a(4))
qed (use attach_ok(3) [OF assms(1), where records = records] assms(2,3) in
    \<open>simp_all add: remembered_def collect_map_def hm.insert_all_simps\<close>)

lemma live_flush: "live_ok policy q \<Longrightarrow> live_ok policy (queue_clear_dirty q)"
proof -
  assume L: "live_ok policy q"
  have st: "status (queue_clear_dirty q) k = status q k" "delivery_count k (queue_clear_dirty q) = delivery_count k q" for k
    by (auto simp: queue_clear_dirty_def status_def delivery_count_def split: option.splits)
  have "queue_ok (queue_clear_dirty q)"
    using queue_okD [OF live_okD(1) [OF L]]
    by (intro queue_okI) (auto simp: queue_clear_dirty_def seq_clear_dirty_def seq_ok_def)
  moreover have "seq_next (q_sequence (queue_clear_dirty q)) = seq_next (q_sequence q)"
    by (simp add: queue_clear_dirty_def seq_clear_dirty_def)
  ultimately show ?thesis using live_okD [OF L] by (intro live_okI) (auto simp: st)
qed

definition policy_ok :: "QueuePolicy \<Rightarrow> bool" where
  "policy_ok policy \<longleftrightarrow> 0 < max_deliveries policy \<and> max_deliveries policy \<le> u32_max"

lemma live_step_ok:
  assumes "live_step policy q q'" and "policy_ok policy" and "live_ok policy q"
  shows "live_ok policy q'"
  using assms
proof (induction rule: live_step.induct)
  case (step_enqueue now q n q1)
  then show ?case using live_enqueue [OF step_enqueue(4) step_enqueue(1,2)] by (simp add: policy_ok_def)
next
  case (step_enqueue_held now q n q1 t)
  then show ?case using live_enqueue [OF step_enqueue_held(4) step_enqueue_held(1,2)] by (auto simp: policy_ok_def)
next
  case (step_claim owner now v q r q1)
  then show ?case using live_claim by (auto simp: policy_ok_def)
next
  case (step_reconcile q records)
  then show ?case using live_reconcile by (auto simp: policy_ok_def)
qed (auto intro: live_sweep live_forget live_nack [where b = True, simplified] live_nack [where b = False, simplified] live_flush)

lemma live_reachable_ok:
  assumes "live_reachable policy q" and "policy_ok policy"
  shows "live_ok policy q"
proof -
  obtain records :: "(str, Record) hashmap" and p where p: "next_sequence p \<le> u64_max" "p_deliveries p = []"
    and run: "(live_step policy)\<^sup>*\<^sup>* (attach records p) q"
    using assms(1) by (auto simp: live_reachable_def)
  from run show ?thesis
  proof (induction rule: rtranclp_induct)
    case base
    show ?case by (rule live_attach [OF p]) (use assms(2) in \<open>simp add: policy_ok_def\<close>)
  next
    case (step q1 q2)
    then show ?case using live_step_ok assms(2) by blast
  qed
qed

section \<open>Properties\<close>


definition one_record :: QueueState where
  "one_record = attach [(''a'', Record_new)] PersistedQueue_default"


text \<open>
  C18. A claim hands out the oldest waiting record and nothing else: the key it returns is the least
  one nobody holds, it was claimed by nobody before and is claimed by this consumer after, its count
  goes up by one, and the status and count of every other record stay as they were. There is no
  claim exactly when nothing waits, and then nothing changes.
\<close>

theorem claim_takes_oldest:
  assumes "queue_ok q"
  shows "case claim owner now policy q of
      (None, q') \<Rightarrow> q' = q \<and> (\<forall>k. status q k \<noteq> Waiting)
    | (Some (key, n), q') \<Rightarrow> queue_ok q' \<and> status q key = Waiting \<and> (\<forall>k. status q k = Waiting \<longrightarrow> key \<le> k) \<and>
        n = (delivery_count key q + 1) mod 2 ^ 32 \<and>
        (\<forall>k. status q' k = (if k = key then InFlight \<lparr>claim_owner = owner,
            expires_millis = saturating_add now (visibility policy mod 2 ^ 64)\<rparr> else status q k)) \<and>
        (\<forall>k. delivery_count k q' = (if k = key then n else delivery_count k q))"
proof -
  obtain r q' where c: "claim owner now policy q = (r, q')" by (cases "claim owner now policy q")
  note ok = claim_ok [OF assms c]
  show ?thesis
  proof (cases r)
    case None
    with c ok(2,3) show ?thesis by (simp add: status_iff(1) [OF assms])
  next
    case (Some kn)
    with c ok(1,4) show ?thesis by (cases kn) simp
  qed
qed

definition sample_queue :: QueueState where
  "sample_queue = \<lparr>q_sequence = Sequence_new, available = [''a'', ''b''], claims = [(''c'', \<lparr>claim_owner = ''w'', expires_millis = 5\<rparr>)],
     deliveries = [(''c'', 1)], due = [(''d'', 9)], held = [(9, ''d'')], q_dirty = False\<rparr>"

lemma sample_queue_ok: "queue_ok sample_queue"
  by (simp add: queue_ok_def sample_queue_def seq_ok_def Sequence_new_def hm_wf_def hm_get_def)

theorem claim_takes_oldest_witness:
  "fst (claim ''me'' 3 QueuePolicy_default sample_queue) = Some (''a'', 1) \<and>
   status (snd (claim ''me'' 3 QueuePolicy_default sample_queue)) ''a'' =
     InFlight \<lparr>claim_owner = ''me'', expires_millis = 60003\<rparr> \<and>
   status (snd (claim ''me'' 3 QueuePolicy_default sample_queue)) ''b'' = Waiting"
proof -
  have c: "fst (claim ''me'' 3 QueuePolicy_default sample_queue) = Some (''a'', 1)"
    by (simp add: claim_def sample_queue_def delivery_count_def hm_get_def)
  obtain q' where q': "claim ''me'' 3 QueuePolicy_default sample_queue = (Some (''a'', 1), q')"
    using c by (cases "claim ''me'' 3 QueuePolicy_default sample_queue") simp
  have b: "status sample_queue ''b'' = Waiting" by (simp add: status_def sample_queue_def)
  have t: "saturating_add 3 (visibility QueuePolicy_default mod 2 ^ 64) = 60003"
    by (simp add: QueuePolicy_default_def DEFAULT_VISIBILITY_def from_secs_def saturating_add_def u64_max_def)
  show ?thesis
    using claim_takes_oldest [OF sample_queue_ok, of "''me''" 3 QueuePolicy_default] b unfolding q' t by simp
qed

text \<open>
  C19. A sweep puts every record exactly where it belongs: a held record that is due waits, a claim that
  has lapsed puts its record back, or names it dead if its deliveries are used up, and nothing else
  moves. After it no claim is lapsed and no held record is due.
\<close>

theorem sweep_exact:
  assumes "queue_ok q" and "expire now policy q = (q', out)"
  shows "queue_ok q' \<and>
    (\<forall>k. status q' k = (case status q k of
        HeldUntil t \<Rightarrow> (if t \<le> now then Waiting else HeldUntil t)
      | InFlight c \<Rightarrow> (if has_lapsed c now then (if max_deliveries policy \<le> delivery_count k q then Absent else Waiting)
          else InFlight c)
      | s \<Rightarrow> s)) \<and>
    set (dead out) = {k. \<exists>c. status q k = InFlight c \<and> has_lapsed c now \<and> max_deliveries policy \<le> delivery_count k q} \<and>
    \<not> has_lapsed_claim now q' \<and> \<not> has_due_record now q'"
proof -
  note x = expire_ok [OF assms]
  have "\<not> has_lapsed_claim now q'"
  proof
    assume "has_lapsed_claim now q'"
    then obtain k c where kc: "(k, c) \<in> set (claims q')" "has_lapsed c now" by (auto simp: has_lapsed_claim_def list_ex_iff)
    then have "status q' k = InFlight c"
      using hm_wf_mem [OF queue_okD(4) [OF x(1)]] by (simp add: status_iff [OF x(1)])
    with kc(2) x(2) [of k] show False by (auto split: Status.splits if_splits)
  qed
  moreover have "\<not> has_due_record now q'"
  proof
    assume "has_due_record now q'"
    then obtain t k where tk: "(t, k) \<in> set (held q')" "t \<le> now"
      by (auto simp: has_due_record_def split: list.splits)
    then have "status q' k = HeldUntil t" by (simp add: status_iff [OF x(1)])
    with tk(2) x(2) [of k] show False by (auto split: Status.splits if_splits)
  qed
  ultimately show ?thesis using x(1,2,4) by simp
qed

theorem sweep_exact_witness:
  "\<exists>q' out. expire 7 QueuePolicy_default sample_queue = (q', out) \<and> queue_ok q' \<and>
    (\<forall>k. status q' k = (case status sample_queue k of
        HeldUntil t \<Rightarrow> (if t \<le> 7 then Waiting else HeldUntil t)
      | InFlight c \<Rightarrow> (if has_lapsed c 7 then (if max_deliveries QueuePolicy_default \<le> delivery_count k sample_queue then Absent else Waiting)
          else InFlight c)
      | s \<Rightarrow> s)) \<and>
    set (dead out) = {k. \<exists>c. status sample_queue k = InFlight c \<and> has_lapsed c 7 \<and>
      max_deliveries QueuePolicy_default \<le> delivery_count k sample_queue} \<and>
    \<not> has_lapsed_claim 7 q' \<and> \<not> has_due_record 7 q'"
proof -
  obtain q' out where e: "expire 7 QueuePolicy_default sample_queue = (q', out)"
    by (cases "expire 7 QueuePolicy_default sample_queue")
  show ?thesis using sweep_exact [OF sample_queue_ok e] e by blast
qed

text \<open>
  Reconciling brings the order back in line with the records and does no more: a record the queue
  did not know waits, one that vanished is forgotten with its count, and every other record keeps its
  claim, its due time and its count.
\<close>

theorem reconcile_exact:
  assumes "queue_ok q"
  shows "queue_ok (reconcile records q) \<and>
    (\<forall>k. status (reconcile records q) k =
       (if hm_contains records k then (case status q k of Absent \<Rightarrow> Waiting | s \<Rightarrow> s) else Absent)) \<and>
    (\<forall>k. delivery_count k (reconcile records q) = (if hm_contains records k then delivery_count k q else 0))"
  using reconcile_ok [OF assms] by blast

theorem reconcile_exact_witness:
  "queue_ok (reconcile [(''a'', ()), (''z'', ())] sample_queue) \<and>
    (\<forall>k. status (reconcile [(''a'', ()), (''z'', ())] sample_queue) k =
       (if hm_contains [(''a'', ()), (''z'', ())] k then (case status sample_queue k of Absent \<Rightarrow> Waiting | s \<Rightarrow> s) else Absent)) \<and>
    (\<forall>k. delivery_count k (reconcile [(''a'', ()), (''z'', ())] sample_queue) =
       (if hm_contains [(''a'', ()), (''z'', ())] k then delivery_count k sample_queue else 0))"
  by (rule reconcile_exact) (rule sample_queue_ok)

text \<open>
  A queue's book survives its file: the counter comes back, and so does every delivery count and
  every due time, in sorted order, for all keys that hold no line break.
\<close>

theorem queue_file_round_trip:
  assumes "persisted_ok p"
  shows "queue_read_state (queue_write_state d p) =
    Some (p\<lparr>p_deliveries := sort (p_deliveries p), p_due := sort (p_due p)\<rparr>)"
  using assms by (rule queue_state_round_trip)

theorem queue_file_round_trip_witness:
  "queue_read_state (queue_write_state [] \<lparr>next_sequence = 7, p_deliveries = [(''k:1'', 2)], p_due = []\<rparr>) =
    Some (\<lparr>next_sequence = 7, p_deliveries = [(''k:1'', 2)], p_due = []\<rparr>
      \<lparr>p_deliveries := sort (p_deliveries \<lparr>next_sequence = 7, p_deliveries = [(''k:1'', 2)], p_due = []\<rparr>),
       p_due := sort (p_due \<lparr>next_sequence = 7, p_deliveries = [(''k:1'', 2)], p_due = []\<rparr>)\<rparr>)"
  by (rule queue_file_round_trip) (simp add: persisted_ok_def u64_max_def u32_max_def utf8_valid_ascii)

text \<open>
  The age a queue reports is the age of the record that has waited longest among all that wait or
  are claimed, each measured from its due time if it was held back and from the millisecond in its key
  otherwise, although the code stops at the first minted key it meets.
\<close>

theorem oldest_age_exact:
  assumes "queue_ok q"
  shows "oldest_unacknowledged_seconds now q = map_option (\<lambda>t. (now - t) div 1000) (opt_Min (live_times q))"
  using assms by (rule oldest_reference)

theorem oldest_age_exact_witness:
  "oldest_unacknowledged_seconds 9000 sample_queue = map_option (\<lambda>t. (9000 - t) div 1000) (opt_Min (live_times sample_queue))"
  by (rule oldest_age_exact) (rule sample_queue_ok)

lemma remembered_id:
  assumes "hm_wf m" and "\<forall>k. hm_get m k \<noteq> None \<longrightarrow> hm_contains records k"
  shows "remembered records m = hm_get m"
proof -
  have "filter (\<lambda>(key, _). hm_contains records key) m = m"
  proof (rule filter_True, safe)
    fix k v assume "(k, v) \<in> set m"
    then have "hm_get m k = Some v" using hm_wf_mem [OF assms(1)] by simp
    with assms(2) show "hm_contains records k" by auto
  qed
  moreover have "hm_get (collect_map m) = hm_get m"
  proof -
    have "distinct (map fst m)" using assms(1) by (simp add: hm_wf_def)
    from hm.get_insert_all [OF this, of "[]"] show ?thesis
      by (auto simp: collect_map_def hm_get_def [abs_def] map_add_def split: option.splits)
  qed
  ultimately show ?thesis by (simp add: remembered_def)
qed

lemma restart_ok:
  assumes "queue_ok q" and "\<forall>k. hm_get (deliveries q) k \<noteq> None \<longrightarrow> hm_contains records k"
    and "\<forall>k. hm_get (due q) k \<noteq> None \<longrightarrow> hm_contains records k"
  shows "queue_ok (attach records (to_persisted q)) \<and>
    (\<forall>k. status (attach records (to_persisted q)) k = (if hm_contains records k then
        (case hm_get (due q) k of Some t \<Rightarrow> HeldUntil t | None \<Rightarrow> Waiting) else Absent)) \<and>
    (\<forall>k. delivery_count k (attach records (to_persisted q)) = delivery_count k q) \<and>
    seq_next (q_sequence q) \<le> seq_next (q_sequence (attach records (to_persisted q)))"
proof -
  note ok = queue_okD [OF assms(1)]
  have n: "next_sequence (to_persisted q) \<le> u64_max" using ok(1) by (simp add: to_persisted_def seq_peek_def seq_ok_def)
  note a = attach_ok [OF n, where records = records]
  have d: "remembered records (p_due (to_persisted q)) = hm_get (due q)"
    "remembered records (p_deliveries (to_persisted q)) = hm_get (deliveries q)"
    using remembered_id ok(5,6) assms(2,3) by (simp_all add: to_persisted_def)
  have "seq_ok (restored (next_sequence (to_persisted q)))" using n by (simp add: seq_ok_def restored_def)
  from fold_raise_past [OF this, of "hm_keys records"]
  have "seq_next (q_sequence q) \<le> seq_next (q_sequence (attach records (to_persisted q)))"
    unfolding a(4) by (simp add: restored_def to_persisted_def seq_peek_def)
  then show ?thesis using a(1-3) by (simp add: d delivery_count_def)
qed

text \<open>
  A restart releases every claim and keeps what belongs to a record. Rebuilding a queue from what
  it persisted, over the records it tracks, gives every record its delivery count back and every held
  or once held record its due time; all others wait, claimed or not.
\<close>

theorem restart_keeps_records:
  assumes "queue_ok q" and "\<forall>k. hm_get (deliveries q) k \<noteq> None \<longrightarrow> hm_contains records k"
    and "\<forall>k. hm_get (due q) k \<noteq> None \<longrightarrow> hm_contains records k"
  shows "queue_ok (attach records (to_persisted q)) \<and>
    (\<forall>k. status (attach records (to_persisted q)) k = (if hm_contains records k then
        (case hm_get (due q) k of Some t \<Rightarrow> HeldUntil t | None \<Rightarrow> Waiting) else Absent)) \<and>
    (\<forall>k. delivery_count k (attach records (to_persisted q)) = delivery_count k q) \<and>
    seq_next (q_sequence q) \<le> seq_next (q_sequence (attach records (to_persisted q)))"
  using assms by (rule restart_ok)

theorem restart_keeps_records_witness:
  "queue_ok (attach [(''a'', ()), (''b'', ()), (''c'', ()), (''d'', ())] (to_persisted sample_queue)) \<and>
    (\<forall>k. status (attach [(''a'', ()), (''b'', ()), (''c'', ()), (''d'', ())] (to_persisted sample_queue)) k =
      (if hm_contains [(''a'', ()), (''b'', ()), (''c'', ()), (''d'', ())] k then
        (case hm_get (due sample_queue) k of Some t \<Rightarrow> HeldUntil t | None \<Rightarrow> Waiting) else Absent)) \<and>
    (\<forall>k. delivery_count k (attach [(''a'', ()), (''b'', ()), (''c'', ()), (''d'', ())] (to_persisted sample_queue)) = delivery_count k sample_queue) \<and>
    seq_next (q_sequence sample_queue) \<le> seq_next (q_sequence (attach [(''a'', ()), (''b'', ()), (''c'', ()), (''d'', ())] (to_persisted sample_queue)))"
  by (rule restart_keeps_records [OF sample_queue_ok])
    (auto simp: sample_queue_def hm_get_def hm_contains_def split: if_splits)

text \<open>
  A restart lets a record past its delivery limit. A record on its last delivery whose consumer
  still holds it is released by the restart like any other, with its count at the limit, and the next
  claim hands it out once more instead of it being dead lettered.
\<close>

theorem restart_exceeds_limit:
  assumes "queue_ok q" and "available q = []" and "due q = []" and "status q key = InFlight c"
    and "delivery_count key q = max_deliveries policy" and "max_deliveries policy < u32_max"
    and "\<forall>k. hm_get (deliveries q) k \<noteq> None \<longrightarrow> k = key"
  shows "fst (claim owner now policy (attach [(key, r)] (to_persisted q))) = Some (key, max_deliveries policy + 1)"
proof -
  let ?q = "attach [(key, r)] (to_persisted q)"
  have in_iff: "hm_contains [(key, r)] k \<longleftrightarrow> k = key" for k by (simp add: hm_contains_def hm_get_def)
  have R: "queue_ok ?q" "\<And>k. status ?q k = (if k = key then Waiting else Absent)" "delivery_count key ?q = max_deliveries policy"
    using restart_ok [OF assms(1), of "[(key, r)]", unfolded in_iff, OF assms(7)] assms(3,5) by auto
  have "k \<in> set (available ?q) \<longleftrightarrow> k = key" for k
    unfolding status_iff(1) [OF R(1), symmetric] R(2) by simp
  then have "set (available ?q) = {key}" by auto
  then have "available ?q = [key]"
    by (intro bt.determined [OF queue_okD(2) [OF R(1)]]) simp_all
  then show ?thesis using R(3) assms(6) by (simp add: claim_def u32_max_def)
qed

definition last_delivery :: QueueState where
  "last_delivery = \<lparr>q_sequence = Sequence_new, available = [], claims = [(''k'', \<lparr>claim_owner = ''w'', expires_millis = 5\<rparr>)],
     deliveries = [(''k'', 5)], due = [], held = [], q_dirty = False\<rparr>"

theorem restart_exceeds_limit_witness:
  "fst (claim ''w'' 9 QueuePolicy_default (attach [(''k'', ())] (to_persisted last_delivery))) =
     Some (''k'', max_deliveries QueuePolicy_default + 1)"
proof (rule restart_exceeds_limit)
  show "queue_ok last_delivery"
    by (simp add: queue_ok_def last_delivery_def seq_ok_def Sequence_new_def hm_wf_def)
  show "status last_delivery ''k'' = InFlight \<lparr>claim_owner = ''w'', expires_millis = 5\<rparr>"
    by (simp add: status_def last_delivery_def hm_get_def)
qed (auto simp: last_delivery_def delivery_count_def hm_get_def QueuePolicy_default_def DEFAULT_MAX_DELIVERIES_def
    u32_max_def split: if_splits)

text \<open>
  The ownership check does not look at the clock. Its comment says it also checks that the claim
  has not lapsed, but a claim of any age passes for its owner as long as no sweep has run: an
  acknowledgement after the timeout is accepted.
\<close>

theorem verify_ignores_expiry:
  "verify key owner True (q\<lparr>claims := hm_insert key \<lparr>claim_owner = owner, expires_millis = t\<rparr> (claims q)\<rparr>) = Ok () \<and>
   has_lapsed \<lparr>claim_owner = owner, expires_millis = t\<rparr> (t + 1000)"
  by (simp add: verify_def has_lapsed_def)

end
