(* ===== verification/Queue_Engine_Props.thy ===== *)
theory Queue_Engine_Props
  imports Queue_Engine Queue_Props "HOL-Library.Multiset"
begin

text \<open>
  What the queue commands promise together: a record that was enqueued is in the queue, acknowledged or
  among the dead letters, once, whatever commands run in between. And three situations in which they do
  not: ordinary writes that leave the number of records as it was, and a dead-letter file that cannot be used.
\<close>

section \<open>Maps as multisets\<close>

lemma mset_hm_insert: "hm_get m k = None \<Longrightarrow> mset (hm_insert k v m) = add_mset (k, v) (mset m)"
  by (induction m) (auto simp: hm_get_def hm_insert_def split: if_splits)

lemma mset_hm_remove: "hm_wf m \<Longrightarrow> hm_get m k = Some v \<Longrightarrow> mset m = add_mset (k, v) (mset (hm_remove k m))"
  by (induction m) (auto simp: hm_get_def hm_remove_def hm_wf_def split: if_splits)


section \<open>Order and records agree\<close>

lemma mark_dirty_queue [simp]: "tbl_queue (mark_dirty k t) = tbl_queue t"
  by (simp add: mark_dirty_def)

definition seq_covers :: "QueueState \<Rightarrow> Table \<Rightarrow> bool" where
  "seq_covers q t \<longleftrightarrow> (\<forall>k n. hm_contains (tbl_records t) k \<longrightarrow> key_sequence k = Some n \<longrightarrow> n < u64_max \<longrightarrow> n < seq_next (q_sequence q))"

definition in_step :: "QueueState \<Rightarrow> Table \<Rightarrow> bool" where
  "in_step q t \<longleftrightarrow> queue_ok q \<and> hm_wf (tbl_records t) \<and> (\<forall>k. status q k \<noteq> Absent \<longleftrightarrow> hm_contains (tbl_records t) k) \<and> seq_covers q t"

definition synced :: "Table \<Rightarrow> bool" where
  "synced t \<longleftrightarrow> (\<exists>q. tbl_queue t = Some q \<and> in_step q t)"

lemma in_stepD:
  assumes "in_step q t"
  shows "queue_ok q" "hm_wf (tbl_records t)" "status q k = Absent \<longleftrightarrow> hm_get (tbl_records t) k = None" "seq_covers q t"
  using assms unfolding in_step_def hm_contains_def by (blast, blast, metis, blast)

lemma in_stepI:
  assumes "queue_ok q" "hm_wf (tbl_records t)" "\<And>k. status q k = Absent \<longleftrightarrow> hm_get (tbl_records t) k = None" "seq_covers q t"
  shows "in_step q t"
  using assms by (auto simp: in_step_def hm_contains_def)

lemma syncedI: "tbl_queue t = Some q \<Longrightarrow> in_step q t \<Longrightarrow> synced t"
  by (auto simp: synced_def)

lemma synced_at: "synced t \<Longrightarrow> tbl_queue t = Some q \<Longrightarrow> in_step q t"
  by (auto simp: synced_def)

lemma in_step_table [simp]: "in_step q (t\<lparr>tbl_queue := x\<rparr>) = in_step q t" "in_step q (mark_dirty k t) = in_step q t"
  by (simp_all add: in_step_def seq_covers_def)

text \<open>A step of the order that neither tracks a new key nor drops one keeps the two in step.\<close>

lemma in_step_same:
  assumes "in_step q t" "queue_ok q'" "q_sequence q' = q_sequence q" "\<And>k. status q' k = Absent \<longleftrightarrow> status q k = Absent"
  shows "in_step q' t"
  using assms by (auto simp: in_step_def seq_covers_def)

text \<open>What left a queue with a letter, or entered with a key.\<close>

abbreviation letter_entry :: "DeadLetter \<Rightarrow> str \<times> Record" where
  "letter_entry l \<equiv> (dl_key l, dl_record l)"

lemma enqueue_in_step:
  assumes "in_step q t" and "enqueue_in millis r due_millis q t = (key, t')" and "key \<noteq> format_key u64_max"
  shows "synced t' \<and> mset (tbl_records t') = add_mset (key, r) (mset (tbl_records t))"
proof -
  obtain n q1 where m: "queue_mint millis q = (n, q1)" by (cases "queue_mint millis q")
  define q2 where "q2 = (case due_millis of Some at \<Rightarrow> enqueue_held key at q1 | None \<Rightarrow> enqueue key q1)"
  have key: "key = format_key n" and t': "t' = (insert_record key r t)\<lparr>tbl_queue := Some q2\<rparr>"
    using assms(2) m by (auto simp: enqueue_in_def q2_def Let_def)
  note I = in_stepD [OF assms(1)] and mq = mint_queue [OF in_stepD(1) [OF assms(1)] m]
  have "n \<le> u64_max" using m mint_spec(2) [OF queue_okD(1) [OF I(1)]] by (auto simp: queue_mint_def split: prod.splits)
  then have n: "n < u64_max" using assms(3) key by (cases "n = u64_max") auto
  have fresh: "hm_get (tbl_records t) key = None"
  proof (rule ccontr)
    assume "hm_get (tbl_records t) key \<noteq> None"
    then have "n < seq_next (q_sequence q)" using I(4) n by (auto simp: seq_covers_def hm_contains_def key)
    with mq(4) show False by simp
  qed
  have q2: "queue_ok q2" "status q2 k = Absent \<longleftrightarrow> k \<noteq> key \<and> status q k = Absent" "q_sequence q2 = q_sequence q1" for k
    using enqueue_ok(1,2) [OF mq(1)] enqueue_held_ok(1,2) [OF mq(1)] mq(2)
    by (auto simp: q2_def split: option.splits if_splits)
  have "seq_covers q2 t'"
    using I(4) n mq(4,5) by (fastforce simp: seq_covers_def hm_contains_def t' q2(3) key split: if_splits)
  then have "in_step q2 t'"
    using q2 I(2,3) by (intro in_stepI) (auto simp: t' hm.wf_insert)
  then show ?thesis using fresh by (auto simp: t' mset_hm_insert intro: syncedI)
qed

lemma take_dead_step:
  assumes "queue_ok q" "hm_wf (tbl_records t)" "hm_get (tbl_records t) key = Some r" "take_dead key q t = (letter, t')"
  shows "dl_key letter = key \<and> tbl_queue t' = Some (forget key q) \<and> tbl_records t' = hm_remove key (tbl_records t) \<and>
    mset (tbl_records t) = add_mset (letter_entry letter) (mset (tbl_records t'))"
  using assms by (auto simp: take_dead_def mset_hm_remove)

lemma take_all_step:
  assumes "tbl_queue t = Some q" "queue_ok q" "hm_wf (tbl_records t)" "distinct ks" "\<forall>k \<in> set ks. hm_get (tbl_records t) k \<noteq> None"
    and "take_all ks t = (letters, t')"
  shows "tbl_queue t' = Some (fold forget ks q) \<and> hm_wf (tbl_records t') \<and> map dl_key letters = ks \<and>
    (\<forall>k. hm_get (tbl_records t') k = (if k \<in> set ks then None else hm_get (tbl_records t) k)) \<and>
    mset (tbl_records t) = mset (map letter_entry letters) + mset (tbl_records t')"
  using assms
proof (induction ks arbitrary: t q letters)
  case (Cons k ks)
  obtain l t1 where l: "take_dead k q t = (l, t1)" by (cases "take_dead k q t")
  obtain ls where ls: "take_all ks t1 = (ls, t')" "letters = l # ls" using Cons.prems(1,6) l by (auto split: prod.splits)
  obtain r where r: "hm_get (tbl_records t) k = Some r" using Cons.prems(5) by auto
  note d = take_dead_step [OF Cons.prems(2,3) r l]
  have "\<forall>k' \<in> set ks. hm_get (tbl_records t1) k' \<noteq> None" using d Cons.prems(4,5) by auto
  from Cons.IH [OF _ forget_ok(1) [OF Cons.prems(2)] _ _ this ls(1)] d Cons.prems(3,4)
  show ?case by (auto simp: hm.wf_remove ls(2))
qed simp

lemma take_expired_step:
  assumes "in_step q t" "tbl_queue t = Some q" "take_expired millis policy t = (letters, t')"
  shows "synced t' \<and> mset (tbl_records t) = mset (map letter_entry letters) + mset (tbl_records t')"
proof -
  note I = in_stepD [OF assms(1)]
  obtain q1 out where x: "expire millis policy q = (q1, out)" by (cases "expire millis policy q")
  note e = expire_ok [OF I(1) x]
  have ks: "distinct (dead out)" using e(6) by (simp add: bt_wf_def strict_sorted_iff)
  have tracked: "\<forall>k \<in> set (dead out). hm_get (tbl_records (t\<lparr>tbl_queue := Some q1\<rparr>)) k \<noteq> None"
    using e(4) I(3) by (auto simp flip: I(3))
  have "take_all (dead out) (t\<lparr>tbl_queue := Some q1\<rparr>) = (letters, t')" using assms(2,3) x by (simp add: take_expired_def)
  note d = take_all_step [OF _ e(1) _ ks tracked this]
  note f = fold_forget_ok [OF e(1), of "dead out"]
  have absent: "status q1 k = Absent \<longleftrightarrow> status q k = Absent \<or> k \<in> set (dead out)" for k
    using e(2) [of k] e(4) by (auto split: Status.splits if_splits)
  have "in_step (fold forget (dead out) q1) t'"
  proof (rule in_stepI)
    show "status (fold forget (dead out) q1) k = Absent \<longleftrightarrow> hm_get (tbl_records t') k = None" for k
      using f d I(2,3) absent [of k] by auto
    show "seq_covers (fold forget (dead out) q1) t'"
      using f d I(2,4) expire_sequence [OF x] by (auto simp: seq_covers_def hm_contains_def split: if_splits)
  qed (use f d I(2) in auto)
  then show ?thesis using d I(2) by (auto intro: syncedI)
qed

lemma dequeue_in_step:
  assumes "synced t" "dequeue_in millis owner policy t = Some ((delivery, letters), t')"
  shows "synced t' \<and> mset (tbl_records t) = mset (map letter_entry letters) + mset (tbl_records t') \<and>
    (\<forall>d. delivery = Some d \<longrightarrow> hm_get (tbl_records t') (qd_key d) = Some (qd_record d) \<and>
      (\<exists>q c. tbl_queue t' = Some q \<and> status q (qd_key d) = InFlight c \<and> claim_owner c = owner))"
proof -
  obtain q where q: "tbl_queue t = Some q" "in_step q t" using assms(1) by (auto simp: synced_def)
  obtain t1 where t1: "take_expired millis policy t = (letters, t1)"
    using assms(2) by (auto simp: dequeue_in_def split: prod.splits option.splits)
  note s = take_expired_step [OF q(2,1) t1]
  then obtain q1 where q1: "tbl_queue t1 = Some q1" "in_step q1 t1" by (auto simp: synced_def)
  obtain claimed q2 where c: "claim owner millis policy q1 = (claimed, q2)" by (cases "claim owner millis policy q1")
  have d: "delivery = map_option (claim_delivery owner q2 t1) claimed" "t' = t1\<lparr>tbl_queue := Some q2\<rparr>"
    using assms(2) t1 q1(1) c by (auto simp: dequeue_in_def)
  note ck = claim_ok [OF in_stepD(1) [OF q1(2)] c]
  have seq: "q_sequence q2 = q_sequence q1" using sequence_kept(5) [of owner millis policy q1] c by simp
  show ?thesis
  proof (cases claimed)
    case None
    then have "q2 = q1" using ck(3) by simp
    with None d s q1 show ?thesis by (auto intro: syncedI)
  next
    case (Some kn)
    obtain key n where kn: "kn = (key, n)" by (cases kn)
    from ck(4) Some kn have facts: "status q1 key = Waiting" "\<And>k. k \<noteq> key \<Longrightarrow> status q2 k = status q1 k"
      "\<exists>cl. status q2 key = InFlight cl \<and> claim_owner cl = owner" by auto
    have "in_step q2 t1"
    proof (rule in_step_same [OF q1(2) ck(1) seq])
      show "status q2 k = Absent \<longleftrightarrow> status q1 k = Absent" for k using facts by (cases "k = key") auto
    qed
    moreover obtain r where "hm_get (tbl_records t1) key = Some r"
      using facts(1) in_stepD(3) [OF q1(2), of key] by (cases "hm_get (tbl_records t1) key") auto
    ultimately show ?thesis using d s Some kn facts(3) by (auto simp: claim_delivery_def intro: syncedI)
  qed
qed

lemma claim_check_claimed:
  assumes "in_step q t" "claim_check key owner name q t = Ok ()"
  shows "\<exists>c r. status q key = InFlight c \<and> claim_owner c = owner \<and> hm_get (tbl_records t) key = Some r"
  using assms verify_claimed [OF in_stepD(1) [OF assms(1)]]
  by (fastforce simp: claim_check_def hm_contains_def split: sum.splits)

lemma ack_in_step:
  assumes "in_step q t" "ack_in key owner name q t = (Ok (), t')"
  shows "\<exists>r. synced t' \<and> mset (tbl_records t) = add_mset (key, r) (mset (tbl_records t'))"
proof -
  have ok: "claim_check key owner name q t = Ok ()" and t': "t' = (snd (remove_record key t))\<lparr>tbl_queue := Some (forget key q)\<rparr>"
    using assms(2) by (auto simp: ack_in_def split: sum.splits)
  obtain r where r: "hm_get (tbl_records t) key = Some r" using claim_check_claimed [OF assms(1) ok] by blast
  note I = in_stepD [OF assms(1)] and f = forget_ok [OF in_stepD(1) [OF assms(1)], where key = key]
  have recs: "tbl_records t' = hm_remove key (tbl_records t)" by (simp add: t' remove_record_def Let_def)
  have "in_step (forget key q) t'"
    using f I by (intro in_stepI) (auto simp: recs hm.wf_remove seq_covers_def hm_contains_def split: if_splits)
  then have "synced t'" by (auto simp: t' intro: syncedI)
  then show ?thesis using mset_hm_remove [OF I(2) r] by (auto simp: recs)
qed

lemma nack_in_step:
  assumes "in_step q t" "nack_in policy key owner due_millis name q t = (Ok letters, t')" "tbl_queue t = Some q"
  shows "synced t' \<and> mset (tbl_records t) = mset (map letter_entry letters) + mset (tbl_records t')"
proof -
  have ok: "claim_check key owner name q t = Ok ()" using assms(2) by (auto simp: nack_in_def split: sum.splits)
  from claim_check_claimed [OF assms(1) this] obtain c r where c: "status q key = InFlight c" and r: "hm_get (tbl_records t) key = Some r" by blast
  obtain b q1 where b: "release_until key policy due_millis q = (b, q1)" by (cases "release_until key policy due_millis q")
  note I = in_stepD [OF assms(1)] and R = release_until_ok [OF in_stepD(1) [OF assms(1)] c b]
  have seq: "q_sequence q1 = q_sequence q" using sequence_kept(6) [of key policy due_millis q] b by simp
  show ?thesis
  proof (cases b)
    case False
    then have "letters = []" "t' = t\<lparr>tbl_queue := Some q1\<rparr>" using assms(2) ok b by (auto simp: nack_in_def)
    moreover have "in_step q1 t"
      using R c seq False by (intro in_step_same [OF assms(1)]) (auto split: option.splits if_splits)
    ultimately show ?thesis by (auto intro: syncedI)
  next
    case True
    obtain l where l: "take_dead key q1 t = (l, t')" "letters = [l]" using assms(2) ok b True by (auto simp: nack_in_def split: prod.splits)
    note d = take_dead_step [OF R(1) I(2) r l(1)] and f = forget_ok [OF R(1), where key = key]
    have "in_step (forget key q1) t'"
      using f d R(3) I seq by (intro in_stepI) (auto simp: hm.wf_remove seq_covers_def hm_contains_def split: if_splits)
    then show ?thesis using d l by (auto intro: syncedI)
  qed
qed

section \<open>Runs\<close>

text \<open>
  What any number of connections do to one queue file, one guard after another: the records that entered
  it, and those that left it for good, acknowledged or carried away as dead letters. The file counts as
  a dead-letter file or not as its name says, so every sweep of a run has the same policy.
\<close>

inductive queue_run :: "QueuePolicy \<Rightarrow> Table \<Rightarrow> (str \<times> Record) list \<Rightarrow> (str \<times> Record) list \<Rightarrow> Table \<Rightarrow> bool"
  for policy :: QueuePolicy and t0 :: Table where
  start: "queue_run policy t0 [] [] t0"
| enqueued: "queue_run policy t0 ins outs t \<Longrightarrow> tbl_queue t = Some q \<Longrightarrow> enqueue_in millis r due_millis q t = (key, t') \<Longrightarrow>
    key \<noteq> format_key u64_max \<Longrightarrow> queue_run policy t0 ((key, r) # ins) outs t'"
| dequeued: "queue_run policy t0 ins outs t \<Longrightarrow>
    dequeue_in millis owner (policy\<lparr>visibility := v\<rparr>) t = Some ((delivery, letters), t') \<Longrightarrow>
    queue_run policy t0 ins (map letter_entry letters @ outs) t'"
| acked: "queue_run policy t0 ins outs t \<Longrightarrow> tbl_queue t = Some q \<Longrightarrow> hm_get (tbl_records t) key = Some r \<Longrightarrow>
    ack_in key owner name q t = (Ok (), t') \<Longrightarrow> queue_run policy t0 ins ((key, r) # outs) t'"
| nacked: "queue_run policy t0 ins outs t \<Longrightarrow> tbl_queue t = Some q \<Longrightarrow>
    nack_in policy key owner due_millis name q t = (Ok letters, t') \<Longrightarrow>
    queue_run policy t0 ins (map letter_entry letters @ outs) t'"
| swept: "queue_run policy t0 ins outs t \<Longrightarrow> take_expired millis policy t = (letters, t') \<Longrightarrow>
    queue_run policy t0 ins (map letter_entry letters @ outs) t'"

text \<open>
  C11. No queue command loses or repeats a record. However the commands of any number of consumers follow one
  another, the records that were there or were enqueued are, each once, either still in the file or
  acknowledged or a dead letter with their bytes unchanged; the order keeps tracking exactly the records; and
  a claim hands out a record of the file, to one owner.
\<close>

theorem queue_loses_nothing:
  assumes "synced t" and "queue_run policy t ins outs t'"
  shows "synced t' \<and> mset (tbl_records t') + mset outs = mset (tbl_records t) + mset ins \<and>
    (\<forall>millis owner d letters t2. dequeue_in millis owner policy t' = Some ((Some d, letters), t2) \<longrightarrow>
      (qd_key d, qd_record d) \<in> set (tbl_records t2) \<and>
      (\<exists>q c. tbl_queue t2 = Some q \<and> status q (qd_key d) = InFlight c \<and> claim_owner c = owner))"
proof -
  have run: "synced t' \<and> mset (tbl_records t') + mset outs = mset (tbl_records t) + mset ins"
    using assms(2,1)
  proof induction
    case (enqueued ins outs u q millis r due_millis key u')
    then show ?case using enqueue_in_step [OF synced_at, of u q millis r due_millis key u'] by simp
  next
    case (dequeued ins outs u millis owner v delivery letters u')
    then show ?case using dequeue_in_step [OF _ dequeued(2)] by (simp add: ac_simps)
  next
    case (acked ins outs u q key r owner name u')
    then obtain r' where r': "synced u'" "mset (tbl_records u) = add_mset (key, r') (mset (tbl_records u'))"
      using ack_in_step [OF synced_at] by blast
    then have "(key, r') \<in> set (tbl_records u)" by (metis set_mset_mset union_single_eq_member)
    moreover have "hm_wf (tbl_records u)" using acked by (intro in_stepD(2) [OF synced_at]) auto
    ultimately have "r' = r" using acked(3) by (simp add: hm_wf_mem)
    with r' acked show ?case by simp
  next
    case (nacked ins outs u q key owner due_millis name letters u')
    then have "in_step q u" by (intro synced_at) auto
    from nack_in_step [OF this nacked(3,2)] nacked show ?case by (simp add: ac_simps)
  next
    case (swept ins outs u millis letters u')
    then obtain q where "tbl_queue u = Some q" "in_step q u" by (auto simp: synced_def)
    with swept show ?case using take_expired_step [OF _ _ swept(2)] by (simp add: ac_simps)
  qed simp
  have "(qd_key d, qd_record d) \<in> set (tbl_records t2) \<and> (\<exists>q c. tbl_queue t2 = Some q \<and> status q (qd_key d) = InFlight c \<and> claim_owner c = owner)"
    if "dequeue_in millis owner policy t' = Some ((Some d, letters), t2)" for millis owner d letters t2
  proof -
    note s = dequeue_in_step [OF conjunct1 [OF run] that]
    then have "synced t2" "hm_get (tbl_records t2) (qd_key d) = Some (qd_record d)" by auto
    moreover from this(1) have "hm_wf (tbl_records t2)" using in_stepD(2) by (auto simp: synced_def)
    ultimately show ?thesis using s by (simp add: hm_wf_mem)
  qed
  with run show ?thesis by blast
qed

text \<open>An empty queue, and a record that entered it and was claimed.\<close>

definition empty_queue :: Table where
  "empty_queue = Table_new\<lparr>tbl_queue := Some (attach ([] :: (str, Record) hashmap) PersistedQueue_default)\<rparr>"

lemma empty_queue_synced: "synced empty_queue"
proof -
  have "next_sequence PersistedQueue_default \<le> u64_max" by (simp add: PersistedQueue_default_def u64_max_def)
  note a = attach_ok [OF this, where records = "[] :: (str, Record) hashmap"]
  show ?thesis
    by (rule syncedI [OF _ in_stepI]) (use a in \<open>auto simp: empty_queue_def Table_new_def hm.wf_empty hm.get_empty hm_contains_def seq_covers_def\<close>)
qed

theorem queue_loses_nothing_witness:
  "\<exists>key t'. queue_run QueuePolicy_default empty_queue [(key, sample_record)] [] t' \<and> synced t' \<and>
    mset (tbl_records t') = {#(key, sample_record)#}"
proof -
  obtain q where q: "tbl_queue empty_queue = Some q" by (simp add: empty_queue_def)
  obtain key t' where e: "enqueue_in 7 sample_record None q empty_queue = (key, t')" by (cases "enqueue_in 7 sample_record None q empty_queue")
  have "key = format_key 7000000"
    using e q by (auto simp: enqueue_in_def empty_queue_def attach_def queue_mint_def mint_def restored_def PersistedQueue_default_def
        collect_map_def hm.insert_all_simps hm_keys_def SUB_MILLISECOND_def saturating_add_def saturating_mul_def u64_max_def Let_def split: prod.splits)
  moreover have "format_key 7000000 \<noteq> format_key u64_max"
    using key_sequence_less_iff(2) [OF key_sequence_format key_sequence_format, of 7000000 u64_max] by (simp add: u64_max_def)
  ultimately have "queue_run QueuePolicy_default empty_queue [(key, sample_record)] [] t'"
    using queue_run.enqueued [OF queue_run.start q e] by simp
  from queue_loses_nothing [OF empty_queue_synced this] this
  show ?thesis by (auto simp: empty_queue_def Table_new_def)
qed

section \<open>A queue that ordinary writes changed\<close>

lemma expire_idle:
  assumes "\<not> has_lapsed_claim millis q" "\<not> has_due_record millis q"
  shows "expire millis policy q = (q, \<lparr>returned = [], dead = []\<rparr>)"
proof -
  have "release_loop millis (held q) (available q) = (held q, available q, 0)"
    using assms(2) by (cases "held q") (auto simp: has_due_record_def)
  then have "release_due millis q = (q, 0)" by (simp add: release_due_def)
  moreover have "filter (\<lambda>(_, c). has_lapsed c millis) (claims q) = []"
    using assms(1) by (auto simp: has_lapsed_claim_def list_ex_iff filter_empty_conv)
  ultimately show ?thesis by (simp add: expire_def)
qed

lemma tracked_count:
  assumes "in_step q t"
  shows "tracked q = length (tbl_records t)"
proof -
  note I = in_stepD [OF assms] and ok = queue_okD [OF in_stepD(1) [OF assms]]
  let ?h = "map snd (held q)"
  have d: "distinct (available q)" "distinct (hm_keys (claims q))" "distinct ?h"
    using ok(2-4) held_unique [OF I(1)] by (auto simp: bt_wf_def strict_sorted_iff hm_wf_def hm_keys_def distinct_map inj_on_def)
  have keys: "set (hm_keys (claims q)) = {k. hm_get (claims q) k \<noteq> None}" by (auto simp: hm.keys_get)
  have disj: "set (available q) \<inter> set (hm_keys (claims q)) = {}" "set ?h \<inter> (set (available q) \<union> set (hm_keys (claims q))) = {}"
    using ok(7,9,10) by (auto simp: keys)
  have "set (hm_keys (tbl_records t)) = set (available q) \<union> set (hm_keys (claims q)) \<union> set ?h"
  proof -
    have "k \<in> set (hm_keys (tbl_records t)) \<longleftrightarrow> status q k \<noteq> Absent" for k using I(3) [of k] by (simp add: hm.keys_get domIff)
    moreover have "k \<in> set ?h \<longleftrightarrow> (\<exists>at. (at, k) \<in> set (held q))" for k by force
    ultimately show ?thesis using status_Absent [OF I(1)] by (auto simp: keys simp del: set_map)
  qed
  then have "length (tbl_records t) = card (set (available q) \<union> set (hm_keys (claims q)) \<union> set ?h)"
    using I(2) by (metis distinct_card hm_keys_def hm_wf_def length_map)
  also have "\<dots> = tracked q"
    using d disj by (simp add: card_Un_disjoint Int_commute tracked_def distinct_card hm_keys_def del: set_map)
  finally show ?thesis by simp
qed

text \<open>
  A queue is brought back in line with its records only when their number differs. One \<^verbatim>\<open>DELETE\<close> of the
  oldest record and one \<^verbatim>\<open>WRITE\<close> of another between two queue commands leave the number as it was: the next
  consumer is handed the deleted key with an empty record, and the new record is not in the order.
\<close>

theorem swapped_record_goes_unseen:
  assumes "synced t" and "tbl_queue t = Some q" and "available q = gone # rest" and "hm_get (tbl_records t) fresh = None"
    and "\<not> has_lapsed_claim millis q" and "\<not> has_due_record millis q"
  shows "let t1 = insert_record fresh r (snd (remove_record gone t)) in
    make_ready d t1 = t1 \<and>
    (\<exists>delivery t2 q2. dequeue_in millis owner policy t1 = Some ((Some delivery, []), t2) \<and>
      qd_key delivery = gone \<and> qd_record delivery = Record_new \<and> hm_get (tbl_records t1) gone = None \<and>
      hm_get (tbl_records t1) fresh = Some r \<and> tbl_queue t2 = Some q2 \<and> status q2 fresh = Absent)"
proof -
  let ?t1 = "insert_record fresh r (snd (remove_record gone t))"
  note I = in_stepD [OF synced_at [OF assms(1,2)]]
  have recs: "tbl_records ?t1 = hm_insert fresh r (hm_remove gone (tbl_records t))" by (simp add: remove_record_def Let_def)
  have tq: "tbl_queue ?t1 = Some q" using assms(2) by (simp add: insert_record_def remove_record_def Let_def)
  have "status q gone = Waiting" using status_iff(1) [OF I(1), of gone] assms(3) by simp
  then have gone: "hm_get (tbl_records t) gone \<noteq> None" using I(3) [of gone] by auto
  then have ne: "fresh \<noteq> gone" using assms(4) by auto
  obtain v where v: "hm_get (tbl_records t) gone = Some v" using gone by auto
  have "length (tbl_records ?t1) = length (tbl_records t)"
    using mset_hm_insert [of "hm_remove gone (tbl_records t)" fresh r] mset_hm_remove [OF I(2) v] assms(4) ne recs
    by (metis (no_types, lifting) fun_upd_other hm.get_remove size_add_mset size_mset)
  then have ready: "make_ready d ?t1 = ?t1" using tq tracked_count [OF synced_at [OF assms(1,2)]] by (simp add: make_ready_def queue_readiness_def)
  obtain claimed q2 where c: "claim owner millis policy q = (claimed, q2)" by (cases "claim owner millis policy q")
  then obtain n where n: "claimed = Some (gone, n)" using assms(3) by (auto simp: claim_def Let_def)
  have "take_expired millis policy ?t1 = ([], ?t1)" using tq expire_idle [OF assms(5,6)] by (simp add: take_expired_def)
  then have "dequeue_in millis owner policy ?t1 = Some ((Some (claim_delivery owner q2 ?t1 (gone, n)), []), ?t1\<lparr>tbl_queue := Some q2\<rparr>)"
    using tq c n by (simp add: dequeue_in_def)
  moreover have "status q2 fresh = Absent"
    using claim_ok(4) [OF I(1) c] n ne I(3) [of fresh] assms(4) by auto
  moreover have "hm_get (tbl_records ?t1) gone = None" "hm_get (tbl_records ?t1) fresh = Some r" unfolding recs using ne by simp_all
  moreover from this(1) have "qd_key (claim_delivery owner q2 ?t1 (gone, n)) = gone" "qd_record (claim_delivery owner q2 ?t1 (gone, n)) = Record_new"
    by (simp_all add: claim_delivery_def del: insert_record_simps)
  moreover have "tbl_queue (?t1\<lparr>tbl_queue := Some q2\<rparr>) = Some q2" by simp
  ultimately show ?thesis unfolding Let_def using ready by blast
qed

definition one_waiting :: Table where
  "one_waiting = Table_new\<lparr>tbl_records := [(''job'', sample_record)], tbl_queue := Some (attach [(''job'', sample_record)] PersistedQueue_default)\<rparr>"

lemma one_waiting_queue:
  "tbl_queue one_waiting = Some \<lparr>q_sequence = \<lparr>seq_next = 0, seq_dirty = False\<rparr>, available = [''job''], claims = [], deliveries = [], due = [],
     held = [], q_dirty = False\<rparr>"
proof -
  have "key_sequence ''job'' = None" by (simp add: key_sequence_def KEY_DIGITS_def)
  then show ?thesis
    by (simp add: one_waiting_def attach_def PersistedQueue_default_def collect_map_def hm.insert_all_simps hm_keys_def attach_key_def
        raise_past_def restored_def Let_def hm.get_empty)
qed

lemma one_waiting_synced: "synced one_waiting"
proof (rule syncedI [OF one_waiting_queue in_stepI])
  show "status \<lparr>q_sequence = \<lparr>seq_next = 0, seq_dirty = False\<rparr>, available = [''job''], claims = [], deliveries = [], due = [], held = [], q_dirty = False\<rparr> k = Absent \<longleftrightarrow>
    hm_get (tbl_records one_waiting) k = None" for k
    by (auto simp: status_def one_waiting_def hm_get_def)
  show "seq_covers \<lparr>q_sequence = \<lparr>seq_next = 0, seq_dirty = False\<rparr>, available = [''job''], claims = [], deliveries = [], due = [], held = [], q_dirty = False\<rparr> one_waiting"
    by (auto simp: seq_covers_def one_waiting_def hm_contains_def hm_get_def key_sequence_def KEY_DIGITS_def split: if_splits)
qed (auto simp: queue_ok_def one_waiting_def hm_wf_def seq_ok_def bt_wf_def)

theorem swapped_record_goes_unseen_witness:
  "\<exists>delivery t2. dequeue_in 9 ''worker'' QueuePolicy_default (insert_record ''late'' sample_record (snd (remove_record ''job'' one_waiting))) =
      Some ((Some delivery, []), t2) \<and> qd_key delivery = ''job'' \<and> qd_record delivery = Record_new"
proof -
  from swapped_record_goes_unseen [OF one_waiting_synced one_waiting_queue, of "''job''" "[]" "''late''" 9 sample_record "[]" "''worker''" QueuePolicy_default]
  show ?thesis by (auto simp: Let_def has_lapsed_claim_def has_due_record_def one_waiting_def hm_get_def)
qed

section \<open>A dead-letter file that cannot be used\<close>

lemma attributes_cached:
  "hm_get (file_attributes db) (account, name) = Some a \<Longrightarrow> file_attributes_for_account cfg pinned account name db = Some (Ok a, db)"
  by (simp add: file_attributes_for_account_def)

lemma queue_file_ready:
  assumes "hm_get (file_attributes db) (account, name) = Some a" "\<not> is_directory a" "att_queue a = Some policy"
    and "get_account_dir db account = Some dir" "listing_fresh cfg db account dir" "name \<in> set (listing db account)"
    and "hm_get (tables db) (account, name) = Some t" "\<not> table_stale cfg db (account, name) t" "synced t"
  shows "queue_file cfg pinned account name db = Some (Ok policy, put_table (account, name) t (touch_lru (account, name) db))"
proof -
  obtain q where q: "tbl_queue t = Some q" "in_step q t" using assms(9) by (auto simp: synced_def)
  have "make_ready d t = t" for d using q tracked_count by (simp add: make_ready_def queue_readiness_def)
  moreover have "hm_get (tables (touch_lru (account, name) db)) (account, name) = Some t" using assms(7) by (simp add: touch_lru_def)
  ultimately show ?thesis
    using assms(2,3) by (simp add: queue_file_def with_table_def and_then_def attributes_cached [OF assms(1)] get_table_loaded [OF assms(4-8)])
qed

lemma queue_file_refused:
  assumes "hm_get (file_attributes db) (account, name) = Some a" "\<not> is_directory a" "att_queue a = None"
  shows "queue_file cfg pinned account name db = Some (Err (not_a_queue name), db)"
  using assms(2,3) by (simp add: queue_file_def and_then_def attributes_cached [OF assms(1)])

lemma listing_kept [simp]:
  "listing (put_table k t (touch_lru k' db)) = listing db"
  "get_account_dir (put_table k t (touch_lru k' db)) = get_account_dir db"
  "listing_fresh cfg (put_table k t (touch_lru k' db)) account dir = listing_fresh cfg db account dir"
  "file_attributes (touch_lru k' db) = file_attributes db"
  using file_path_cong [of "put_table k t (touch_lru k' db)" db]
  by (simp_all add: put_table_def touch_lru_def listing_def listing_fresh_def fun_eq_iff)

text \<open>
  The record leaves its queue before the dead-letter file is written. When that file cannot take it, here
  because a file of that name exists and is no queue, the consumer is answered an error and the record is in
  neither file; the change is pending in the queue's table, so the next flush makes the loss permanent.
\<close>

theorem failed_burial_loses_record:
  assumes queue: "hm_get (file_attributes db) (account, name) = Some a" "\<not> is_directory a" "att_queue a = Some policy"
    and dead: "hm_get (file_attributes db) (account, dead_letter_name name) = Some ad" "\<not> is_directory ad" "att_queue ad = None"
    and listed: "get_account_dir db account = Some dir" "listing_fresh cfg db account dir" "name \<in> set (listing db account)"
      "dead_letter_name name \<in> set (listing db account)"
    and loaded: "hm_get (tables db) (account, name) = Some t" "\<not> table_stale cfg db (account, name) t" "synced t" "tbl_queue t = Some q"
    and claimed: "claim_check key owner name q t = Ok ()" "max_deliveries policy \<le> delivery_count key q" "\<not> is_dead_letter_name name"
  shows "\<exists>db' t'. nack_until cfg pinned now account name key owner due_millis db = Some (Err (not_a_queue (dead_letter_name name)), db') \<and>
    hm_get (tables db') (account, name) = Some t' \<and> hm_get (tbl_records t) key \<noteq> None \<and> hm_get (tbl_records t') key = None \<and> records_dirty t' \<and>
    (\<forall>k. k \<noteq> (account, name) \<longrightarrow> hm_get (tables db') k = hm_get (tables db) k)"
proof -
  let ?key = "(account, name)" and ?dead = "dead_letter_name name"
  have there: "hm_get (tbl_records t) key \<noteq> None" using claim_check_claimed [OF synced_at [OF loaded(3,4)] claimed(1)] by auto
  have "max_deliveries policy \<le> delivery_count key (q\<lparr>claims := hm_remove key (claims q), q_dirty := True\<rparr>)"
    using claimed(2) by (simp add: delivery_count_def)
  then obtain q1 where q1: "release_until key policy due_millis q = (True, q1)" by (simp add: release_until_def)
  obtain letter t' where l: "take_dead key q1 t = (letter, t')" by (cases "take_dead key q1 t")
  then have t': "hm_get (tbl_records t') key = None" "records_dirty t'"
    by (auto simp: take_dead_def mark_dirty_def records_dirty_def List.insert_def split: if_splits)
  let ?d1 = "put_table ?key t (touch_lru ?key db)" and ?db = "put_table ?key t' (put_table ?key t (touch_lru ?key db))"
  have db: "?db = put_table ?key t' (touch_lru ?key db)" by (simp add: put_table_def hm_insert_def update_triv)
  have nack: "with_queue ?key (nack_in (effective_policy name policy) key owner due_millis name) ?d1 = Some (Ok [letter], ?db)"
    using loaded(4) claimed(1,3) q1 l by (simp add: with_queue_def nack_in_def effective_policy_def)
  have "bury cfg (?key # pinned) now account name [letter] ?db = Some (Err (not_a_queue ?dead), ?db)"
    unfolding db bury_def Let_def
    using listed dead account_has_table_known [of "put_table ?key t' (touch_lru ?key db)" account dir cfg ?dead]
      queue_file_refused [of "put_table ?key t' (touch_lru ?key db)" account ?dead ad cfg "?key # pinned"]
    by (simp add: and_then_def)
  then have "nack_until cfg pinned now account name key owner due_millis db = Some (Err (not_a_queue ?dead), ?db)"
    by (simp add: nack_until_def and_then_def queue_file_ready [OF queue listed(1-3) loaded(1-3)] nack)
  then show ?thesis using t' there by (auto simp: touch_lru_def)
qed

definition last_chance :: QueueState where
  "last_chance = \<lparr>q_sequence = Sequence_new, available = [], claims = [(''job'', \<lparr>claim_owner = ''w'', expires_millis = 100\<rparr>)],
     deliveries = [(''job'', 5)], due = [], held = [], q_dirty = True\<rparr>"

definition last_chance_table :: Table where
  "last_chance_table = Table_new\<lparr>tbl_records := [(''job'', sample_record)], tbl_queue := Some last_chance\<rparr>"

lemma last_chance_synced: "synced last_chance_table"
proof (rule syncedI [OF _ in_stepI])
  show "tbl_queue last_chance_table = Some last_chance" by (simp add: last_chance_table_def)
  show "status last_chance k = Absent \<longleftrightarrow> hm_get (tbl_records last_chance_table) k = None" for k
    by (auto simp: status_def last_chance_def last_chance_table_def hm_get_def)
  show "seq_covers last_chance last_chance_table"
    by (auto simp: seq_covers_def last_chance_table_def hm_contains_def hm_get_def key_sequence_def KEY_DIGITS_def split: if_splits)
qed (auto simp: queue_ok_def last_chance_def last_chance_table_def hm_wf_def seq_ok_def bt_wf_def Sequence_new_def)

definition queue_database :: Database where
  "queue_database = (small_database [((''A'', ''F''), last_chance_table)])\<lparr>available_tables := [(''A'', [''F'', ''F.DEAD''])],
     file_attributes := [((''A'', ''F''), FileAttributes_default\<lparr>att_queue := Some QueuePolicy_default\<rparr>), ((''A'', ''F.DEAD''), FileAttributes_default)]\<rparr>"

theorem failed_burial_loses_record_witness:
  "\<exists>db' t'. nack_until (small_cfg 9) [] 7 ''A'' ''F'' ''job'' ''w'' None queue_database = Some (Err (not_a_queue ''F.DEAD''), db') \<and>
    hm_get (tables db') (''A'', ''F'') = Some t' \<and> hm_get (tbl_records t') ''job'' = None"
proof -
  have dead: "dead_letter_name ''F'' = ''F.DEAD''" "\<not> is_dead_letter_name ''F''"
    by (simp_all add: dead_letter_name_def is_dead_letter_name_def DEAD_LETTER_SUFFIX_def suffix_def)
  have "\<not> table_stale (small_cfg 9) queue_database (''A'', ''F'') last_chance_table"
    by (simp add: table_stale_def table_is_dirty_def queue_dirty_def last_chance_table_def last_chance_def queue_is_dirty_def)
  moreover have "get_account_dir queue_database ''A'' = Some ''db/A''"
    using small_dirs(1) by (simp add: queue_database_def get_account_dir_def)
  moreover have "listing_fresh (small_cfg 9) queue_database ''A'' ''db/A''"
    using small_listing(1) [of 9 "[((''A'', ''F''), last_chance_table)]" "''db/A''"]
    by (simp add: listing_fresh_def queue_database_def hm_contains_def hm_get_def)
  moreover have "claim_check ''job'' ''w'' ''F'' last_chance last_chance_table = Ok ()"
    by (simp add: claim_check_def verify_def last_chance_table_def last_chance_def hm_contains_def hm_get_def)
  ultimately show ?thesis
    using failed_burial_loses_record [of queue_database "''A''" "''F''" "FileAttributes_default\<lparr>att_queue := Some QueuePolicy_default\<rparr>"
        QueuePolicy_default FileAttributes_default "''db/A''" "small_cfg 9" last_chance_table last_chance "''job''" "''w''" "[]" 7 None] last_chance_synced dead
    by (simp add: queue_database_def hm_get_def is_directory_def FileAttributes_default_def listing_def small_database_def last_chance_table_def
        last_chance_def QueuePolicy_default_def DEFAULT_MAX_DELIVERIES_def delivery_count_def) blast
qed

end
