(* ===== verification/Base64.thy ===== *)
theory Base64
  imports Rust_Text
begin

unbundle bit_operations_syntax

text \<open>
  \<^verbatim>\<open>db/base64.rs\<close>: the encoding a record's bytes travel in when they have to cross a JSON
  boundary. \<open>base64_encode\<close> works on chunks of three bytes packed into a \<open>u32\<close>,
  \<open>base64_decode\<close> on chunks of four characters. Shown: decoding undoes encoding for every byte
  string, what a decoded text must look like, and where the decoder accepts more than its comment
  says.
\<close>

definition ALPHABET :: str where
  "ALPHABET = ''ABCDEFGHIJKLMNOPQRSTUVWXYZabcdefghijklmnopqrstuvwxyz0123456789+/''"

definition PAD :: char where "PAD = CHR ''=''"

definition byte32 :: "byte \<Rightarrow> 32 word" where
  "byte32 c = word_of_nat (of_char c)"

definition encode_chunk :: "bytes \<Rightarrow> str" where
  "encode_chunk chunk =
     (let b0 = byte32 (chunk ! 0);
          b1 = (if 1 < length chunk then byte32 (chunk ! 1) else 0);
          b2 = (if 2 < length chunk then byte32 (chunk ! 2) else 0);
          triple = push_bit 16 b0 OR push_bit 8 b1 OR b2
      in [ALPHABET ! unat (drop_bit 18 triple AND 0x3F),
          ALPHABET ! unat (drop_bit 12 triple AND 0x3F),
          if 1 < length chunk then ALPHABET ! unat (drop_bit 6 triple AND 0x3F) else PAD,
          if 2 < length chunk then ALPHABET ! unat (triple AND 0x3F) else PAD])"

definition base64_encode :: "bytes \<Rightarrow> str" where
  "base64_encode bs = concat (map encode_chunk (chunks 3 bs))"

definition six_of :: "char \<Rightarrow> 32 word option" where
  "six_of c =
     (let n = of_char c in
      if 65 \<le> n \<and> n \<le> 90 then Some (word_of_nat (n - 65))
      else if 97 \<le> n \<and> n \<le> 122 then Some (word_of_nat (n - 97 + 26))
      else if 48 \<le> n \<and> n \<le> 57 then Some (word_of_nat (n - 48 + 52))
      else if c = CHR ''+'' then Some 62
      else if c = CHR ''/'' then Some 63
      else None)"

text \<open>The inner loop over one chunk: position, characters from there on, triple and count so far.\<close>

fun decode_sixes :: "nat \<Rightarrow> str \<Rightarrow> 32 word \<Rightarrow> nat \<Rightarrow> (32 word \<times> nat) option" where
  "decode_sixes i [] triple taken = Some (triple, taken)"
| "decode_sixes i (c # cs) triple taken =
     (if c = PAD then
        (if i < 2 \<or> list_ex (\<lambda>p. p \<noteq> PAD) (c # cs) then None else Some (triple, taken))
      else (case six_of c of
              None \<Rightarrow> None
            | Some six \<Rightarrow> decode_sixes (i + 1) cs (triple OR push_bit (18 - 6 * i) six) (taken + 1)))"

definition as_u8 :: "32 word \<Rightarrow> byte" where
  "as_u8 w = char_of (unat w)"

definition decode_chunk :: "str \<Rightarrow> bytes option" where
  "decode_chunk chunk =
     (case decode_sixes 0 chunk 0 0 of
        None \<Rightarrow> None
      | Some (triple, taken) \<Rightarrow>
          if taken = 4 then Some [as_u8 (drop_bit 16 triple), as_u8 (drop_bit 8 triple), as_u8 triple]
          else if taken = 3 then Some [as_u8 (drop_bit 16 triple), as_u8 (drop_bit 8 triple)]
          else if taken = 2 then Some [as_u8 (drop_bit 16 triple)]
          else None)"

text \<open>The outer loop: the first chunk that does not decode refuses the whole text.\<close>

fun decode_chunks :: "str list \<Rightarrow> bytes option" where
  "decode_chunks [] = Some []"
| "decode_chunks (c # cs) =
     (case decode_chunk c of
        None \<Rightarrow> None
      | Some bs \<Rightarrow> (case decode_chunks cs of None \<Rightarrow> None | Some rest \<Rightarrow> Some (bs @ rest)))"

definition base64_decode :: "str \<Rightarrow> bytes option" where
  "base64_decode s = (if length s mod 4 \<noteq> 0 then None else decode_chunks (chunks 4 s))"

section \<open>Bits of a packed triple\<close>

lemma bit_byte32: "bit (byte32 c) i \<Longrightarrow> i < 8"
proof -
  assume "bit (byte32 c) i"
  then have "bit (of_char c :: nat) i" by (simp add: byte32_def bit_simps)
  moreover have "(of_char c :: nat) = take_bit 8 (of_char c)"
    by (simp add: take_bit_eq_mod)
  ultimately show ?thesis by (metis bit_take_bit_iff)
qed

lemma as_u8_byte32: "as_u8 (byte32 c) = c"
proof -
  have "unat (byte32 c) = of_char c"
    by (simp add: byte32_def unat_of_nat order.strict_trans [OF nat_of_char_less_256])
  then show ?thesis by (simp add: as_u8_def)
qed

lemma as_u8_take_bit: "as_u8 w = as_u8 (take_bit 8 w)"
proof -
  have "unat (take_bit 8 w) = take_bit 8 (unat w)" by (rule unsigned_take_bit_eq)
  then have "unat (take_bit 8 w) = unat w mod 256" by (simp only: take_bit_eq_mod) simp
  then show ?thesis by (simp add: as_u8_def)
qed

lemma as_u8_eqI: "take_bit 8 w = byte32 c \<Longrightarrow> as_u8 w = c"
  using as_u8_take_bit as_u8_byte32 by metis

definition pack :: "byte \<Rightarrow> byte \<Rightarrow> byte \<Rightarrow> 32 word" where
  "pack a b c = push_bit 16 (byte32 a) OR push_bit 8 (byte32 b) OR byte32 c"

lemma unpack:
  "as_u8 (drop_bit 16 (pack a b c)) = a"
  "as_u8 (drop_bit 8 (pack a b c)) = b"
  "as_u8 (pack a b c) = c"
  by (rule as_u8_eqI, rule bit_word_eqI, auto simp: pack_def bit_simps dest: bit_byte32)+


text \<open>
  Cutting a 24-bit triple into sextets and putting the first \<open>k\<close> of them back: nothing is lost
  when the bits below them are clear.
\<close>

definition sextet :: "nat \<Rightarrow> 32 word \<Rightarrow> 32 word" where
  "sextet n t = drop_bit n t AND 63"

lemma bit_sextet:
  fixes t :: "32 word"
  shows "bit (push_bit n (sextet n t)) i \<longleftrightarrow> n \<le> i \<and> i < n + 6 \<and> bit t i"
proof -
  have "(63 :: 32 word) = mask 6" by (simp add: mask_eq_decr_exp)
  then have "sextet n t = take_bit 6 (drop_bit n t)" by (simp add: sextet_def take_bit_eq_mask)
  then show ?thesis by (auto simp: bit_simps dest: bit_imp_le_length)
qed

lemma bit_pack: "bit (pack a b c) i \<Longrightarrow> i < 24"
  by (auto simp: pack_def bit_simps dest: bit_byte32)

lemma bit_pack_low:
  "bit (pack a b CHR 0x00) i \<Longrightarrow> 8 \<le> i"
  "bit (pack a CHR 0x00 CHR 0x00) i \<Longrightarrow> 16 \<le> i"
proof -
  have z: "byte32 CHR 0x00 = 0" by (simp add: byte32_def)
  show "bit (pack a b CHR 0x00) i \<Longrightarrow> 8 \<le> i" "bit (pack a CHR 0x00 CHR 0x00) i \<Longrightarrow> 16 \<le> i"
    by (auto simp: pack_def bit_simps z)
qed

lemma join_sextets:
  fixes t :: "32 word"
  assumes "\<And>i. bit t i \<Longrightarrow> i < 24"
  shows "push_bit 18 (sextet 18 t) OR push_bit 12 (sextet 12 t) OR
      push_bit 6 (sextet 6 t) OR push_bit 0 (sextet 0 t) = t"
    and "(\<And>i. bit t i \<Longrightarrow> 8 \<le> i) \<Longrightarrow> push_bit 18 (sextet 18 t) OR
      push_bit 12 (sextet 12 t) OR push_bit 6 (sextet 6 t) = t"
    and "(\<And>i. bit t i \<Longrightarrow> 16 \<le> i) \<Longrightarrow> push_bit 18 (sextet 18 t) OR
      push_bit 12 (sextet 12 t) = t"
proof -
  show "push_bit 18 (sextet 18 t) OR push_bit 12 (sextet 12 t) OR
      push_bit 6 (sextet 6 t) OR push_bit 0 (sextet 0 t) = t"
    by (rule bit_word_eqI) (unfold bit_or_iff bit_sextet, use assms in force)
  show "push_bit 18 (sextet 18 t) OR push_bit 12 (sextet 12 t) OR
      push_bit 6 (sextet 6 t) = t" if "\<And>i. bit t i \<Longrightarrow> 8 \<le> i"
    by (rule bit_word_eqI) (unfold bit_or_iff bit_sextet, use assms that in force)
  show "push_bit 18 (sextet 18 t) OR push_bit 12 (sextet 12 t) = t"
    if "\<And>i. bit t i \<Longrightarrow> 16 \<le> i"
    by (rule bit_word_eqI) (unfold bit_or_iff bit_sextet, use assms that in force)
qed

section \<open>The alphabet\<close>

lemma ALPHABET_codes: "ALPHABET = map char_of ([65..<91] @ [97..<123] @ [48..<58] @ [43, 47 :: nat])"
  by (simp add: ALPHABET_def upt_rec_numeral char_of_def bit_0)

lemma ALPHABET_code:
  assumes "n < 64"
  shows "of_char (ALPHABET ! n) =
    (if n < 26 then 65 + n else if n < 52 then 71 + n else if n < 62 then n - 4 else if n = 62 then 43 else 47 :: nat)"
proof -
  have "([65..<91] @ [97..<123] @ [48..<58] @ [43, 47 :: nat]) ! n =
    (if n < 26 then 65 + n else if n < 52 then 71 + n else if n < 62 then n - 4 else if n = 62 then 43 else 47)"
  proof -
    consider "n < 26" | "26 \<le> n" "n < 52" | "52 \<le> n" "n < 62" | "n = 62" | "n = 63"
      using assms by linarith
    then show ?thesis
      by cases (auto simp add: nth_append simp del: upt.simps upt_rec_numeral)
  qed
  then show ?thesis using assms by (simp add: ALPHABET_codes del: upt_rec_numeral map_append)
qed

lemma ALPHABET_nth:
  assumes "n < 64"
  shows "six_of (ALPHABET ! n) = Some (word_of_nat n)" "ALPHABET ! n \<noteq> PAD"
proof -
  have c: "of_char (ALPHABET ! n) = m \<longleftrightarrow> ALPHABET ! n = char_of m" if "m < 256" for m :: nat
    using that by (metis char_of_char mod_less of_char_of)
  have p: "PAD = char_of (61 :: nat)" "CHR ''+'' = char_of (43 :: nat)" "CHR ''/'' = char_of (47 :: nat)"
    by (simp_all add: PAD_def char_of_def bit_0)
  show "six_of (ALPHABET ! n) = Some (word_of_nat n)" 
    unfolding six_of_def Let_def p using ALPHABET_code [OF assms] assms c [of 43] c [of 47]
    by (cases "n = 63"; cases "n = 62") (auto split: if_splits)
  show "ALPHABET ! n \<noteq> PAD"
    using ALPHABET_code [OF assms] assms c [of 61] by (auto simp: p split: if_splits)
qed
lemma sextet_less: "unat (sextet n t) < 64"
proof -
  have "drop_bit n t AND 63 \<le> (63 :: 32 word)" by (rule word_and_le1)
  then have "unat (drop_bit n t AND 63) \<le> unat (63 :: 32 word)" by (simp add: word_le_nat_alt)
  then show ?thesis by (simp add: sextet_def)
qed

lemma ALPHABET_sextet:
  "six_of (ALPHABET ! unat (sextet n t)) = Some (sextet n t)" "ALPHABET ! unat (sextet n t) \<noteq> PAD"
  using ALPHABET_nth [OF sextet_less [of n t]] by simp_all

section \<open>Round trip\<close>

lemma encode_chunk_pack:
  "encode_chunk [a, b, c] =
     [ALPHABET ! unat (sextet 18 (pack a b c)), ALPHABET ! unat (sextet 12 (pack a b c)),
      ALPHABET ! unat (sextet 6 (pack a b c)), ALPHABET ! unat (sextet 0 (pack a b c))]"
  "encode_chunk [a, b] =
     [ALPHABET ! unat (sextet 18 (pack a b CHR 0x00)),
      ALPHABET ! unat (sextet 12 (pack a b CHR 0x00)),
      ALPHABET ! unat (sextet 6 (pack a b CHR 0x00)), PAD]"
  "encode_chunk [a] =
     [ALPHABET ! unat (sextet 18 (pack a CHR 0x00 CHR 0x00)),
      ALPHABET ! unat (sextet 12 (pack a CHR 0x00 CHR 0x00)), PAD, PAD]"
proof -
  have z: "byte32 CHR 0x00 = 0" by (simp add: byte32_def)
  show "encode_chunk [a, b, c] =
     [ALPHABET ! unat (sextet 18 (pack a b c)), ALPHABET ! unat (sextet 12 (pack a b c)),
      ALPHABET ! unat (sextet 6 (pack a b c)), ALPHABET ! unat (sextet 0 (pack a b c))]"
    by (simp add: encode_chunk_def Let_def pack_def sextet_def)
  show "encode_chunk [a, b] =
     [ALPHABET ! unat (sextet 18 (pack a b CHR 0x00)),
      ALPHABET ! unat (sextet 12 (pack a b CHR 0x00)),
      ALPHABET ! unat (sextet 6 (pack a b CHR 0x00)), PAD]"
    by (simp add: encode_chunk_def Let_def pack_def sextet_def z)
  show "encode_chunk [a] =
     [ALPHABET ! unat (sextet 18 (pack a CHR 0x00 CHR 0x00)),
      ALPHABET ! unat (sextet 12 (pack a CHR 0x00 CHR 0x00)), PAD, PAD]"
    by (simp add: encode_chunk_def Let_def pack_def sextet_def z)
qed

lemma length_encode_chunk: "length (encode_chunk c) = 4"
  by (simp add: encode_chunk_def Let_def)

lemma join_pack:
  "push_bit 18 (sextet 18 (pack a b c)) OR (push_bit 12 (sextet 12 (pack a b c)) OR
     (push_bit 6 (sextet 6 (pack a b c)) OR sextet 0 (pack a b c))) = pack a b c"
  "push_bit 18 (sextet 18 (pack a b CHR 0x00)) OR (push_bit 12 (sextet 12 (pack a b CHR 0x00)) OR
     push_bit 6 (sextet 6 (pack a b CHR 0x00))) = pack a b CHR 0x00"
  "push_bit 18 (sextet 18 (pack a CHR 0x00 CHR 0x00)) OR push_bit 12 (sextet 12 (pack a CHR 0x00 CHR 0x00)) =
     pack a CHR 0x00 CHR 0x00"
  using join_sextets(1) [where t = "pack a b c", OF bit_pack]
    join_sextets(2) [where t = "pack a b CHR 0x00", OF bit_pack bit_pack_low(1)]
    join_sextets(3) [where t = "pack a CHR 0x00 CHR 0x00", OF bit_pack bit_pack_low(2)]
  by (simp_all add: or.assoc)

lemma decode_encode_chunk:
  assumes "c \<noteq> []" "length c \<le> 3"
  shows "decode_chunk (encode_chunk c) = Some c"
proof -
  consider x where "c = [x]" | x y where "c = [x, y]" | x y z where "c = [x, y, z]"
    using assms by (cases c rule: remdups_adj.cases) (auto simp: length_Suc_conv neq_Nil_conv le_Suc_eq)
  then show ?thesis
    by cases (simp_all add: encode_chunk_pack ALPHABET_sextet decode_chunk_def or.assoc join_pack unpack)
qed

lemma decode_chunks_encode:
  "\<forall>c \<in> set cs. c \<noteq> [] \<and> length c \<le> 3 \<Longrightarrow> decode_chunks (map encode_chunk cs) = Some (concat cs)"
  by (induction cs) (simp_all add: decode_encode_chunk)

lemma base64_decode_encode: "base64_decode (base64_encode bs) = Some bs"
proof -
  let ?cs = "map encode_chunk (chunks 3 bs)"
  have "chunks 4 (concat ?cs) = ?cs"
    by (rule chunks_concat) (auto simp: length_encode_chunk)
  moreover have "length (concat ?cs) mod 4 = 0"
    by (induction "chunks 3 bs") (auto simp: length_concat length_encode_chunk comp_def sum_list_triv)
  moreover have "decode_chunks ?cs = Some bs"
    by (subst decode_chunks_encode) (auto simp: concat_chunks dest: chunks_lengths)
  ultimately show ?thesis by (simp add: base64_encode_def base64_decode_def)
qed

section \<open>Properties\<close>

text \<open>
  Every byte string survives the JSON boundary: decoding the base64 text of any bytes, of any
  length and with any byte values, gives back exactly those bytes.
\<close>

theorem base64_round_trip: "base64_decode (base64_encode bs) = Some bs"
  by (rule base64_decode_encode)

lemma decode_sixes_chars:
  "decode_sixes i cs t n = Some r \<Longrightarrow> c \<in> set cs \<Longrightarrow> c = PAD \<or> six_of c \<noteq> None"
proof (induction i cs t n rule: decode_sixes.induct)
  case (2 i x xs t n)
  show ?case
  proof (cases "x = PAD")
    case True
    with 2(2,3) show ?thesis by (auto simp: list_ex_iff split: if_splits)
  next
    case False
    with 2(2) obtain six where six: "six_of x = Some six"
      and r: "decode_sixes (i + 1) xs (t OR push_bit (18 - 6 * i) six) (n + 1) = Some r"
      by (auto split: option.splits)
    from 2(3) consider "c = x" | "c \<in> set xs" by auto
    then show ?thesis by cases (use six 2(1) [OF False six r] in auto)
  qed
qed simp

lemma decode_chunk_shape:
  assumes "decode_chunk c = Some bs"
  shows "bs \<noteq> [] \<and> length bs \<le> 3 \<and> (\<forall>x \<in> set c. x = PAD \<or> six_of x \<noteq> None)"
  using assms by (auto simp: decode_chunk_def split: option.splits if_splits dest: decode_sixes_chars)

lemma decode_chunks_shape:
  "decode_chunks cs = Some bs \<Longrightarrow>
     length bs \<le> 3 * length cs \<and> length cs \<le> length bs \<and>
     (\<forall>c \<in> set cs. \<forall>x \<in> set c. x = PAD \<or> six_of x \<noteq> None)"
proof (induction cs arbitrary: bs)
  case (Cons c cs)
  then obtain b rest where b: "decode_chunk c = Some b" and rest: "decode_chunks cs = Some rest"
    and bs: "bs = b @ rest" by (auto split: option.splits)
  have n: "0 < length b" "length b \<le> 3" "length rest \<le> 3 * length cs" "length cs \<le> length rest"
    using decode_chunk_shape [OF b] Cons.IH [OF rest] by simp_all
  then have "length b + length rest \<le> 3 * (length cs + 1)" by presburger
  moreover have "length cs + 1 \<le> length b + length rest" using n by presburger
  ultimately show ?case using Cons.IH [OF rest] decode_chunk_shape [OF b]
    by (simp add: bs ball_Un)
qed simp

text \<open>
  A text that decodes is made of the 64 letters and the padding sign only, its length is a
  multiple of four, and each group of four characters stands for one to three bytes: anything
  else is refused rather than guessed at.
\<close>

theorem base64_decode_strict:
  assumes "base64_decode s = Some bs"
  shows "4 dvd length s \<and> (\<forall>c \<in> set s. c = PAD \<or> six_of c \<noteq> None) \<and>
    length s div 4 \<le> length bs \<and> length bs \<le> 3 * (length s div 4)"
proof -
  from assms have dvd: "4 dvd length s" and dec: "decode_chunks (chunks 4 s) = Some bs"
    by (auto simp: base64_decode_def mod_eq_0_iff_dvd split: if_splits)
  have "set s = (\<Union>c \<in> set (chunks 4 s). set c)"
    using arg_cong [OF concat_chunks [of 4 s], of set] by simp
  with decode_chunks_shape [OF dec] dvd length_chunks [of 4 s] show ?thesis by auto
qed

theorem base64_decode_strict_witness:
  "base64_decode ''Zg=='' = Some ''f'' \<and> 4 dvd length ''Zg=='' \<and>
   length ''f'' \<le> 3 * (length ''Zg=='' div 4)"
proof -
  have d: "base64_decode ''Zg=='' = Some ''f''"
    by (simp add: base64_decode_def chunks.simps decode_chunk_def PAD_def six_of_def as_u8_def char_of_def bit_0)
  show ?thesis using base64_decode_strict [OF d] d by simp
qed

text \<open>
  The decoder checks padding inside a group of four characters only. A padded group in the
  middle of a text is accepted, and so are stray bits under the padding, so two different texts
  decode to the same bytes: \<open>Zg==\<close> and \<open>Zh==\<close> are both the letter f, and \<open>Zg==Zg==\<close> is
  read as two of them although padding is said to be only ever the last one or two characters.
\<close>

theorem base64_decode_not_canonical:
  "base64_decode ''Zg==Zg=='' = Some ''ff'' \<and>
   base64_decode ''Zh=='' = Some ''f'' \<and> base64_encode ''f'' = ''Zg==''"
proof (intro conjI)
  show "base64_decode ''Zg==Zg=='' = Some ''ff''"
    by (simp add: base64_decode_def chunks.simps decode_chunk_def PAD_def six_of_def as_u8_def char_of_def bit_0)
  show "base64_decode ''Zh=='' = Some ''f''"
    by (simp add: base64_decode_def chunks.simps decode_chunk_def PAD_def six_of_def as_u8_def char_of_def bit_0)
  show "base64_encode ''f'' = ''Zg==''"
    by (simp add: base64_encode_def chunks.simps encode_chunk_def byte32_def ALPHABET_def PAD_def)
qed

end
