(* ===== verification/Record_Json.thy ===== *)
theory Record_Json
  imports Dictionary Write Base64
begin

text \<open>
  Records on the wire (\<^verbatim>\<open>db/engine/mod.rs\<close>): a record becomes a JSON object keyed by the camelCase
  names of its dictionary, and an object becomes a record again.

  \<open>Json\<close> is \<open>serde_json::Value\<close>. An object is the list of its entries in iteration order, which for
  that crate's map is the order of the names; \<open>obj_insert\<close> keeps it. A number is one of the three kinds
  the crate tells apart, a fractional one held as the text it prints as. The text of any other value
  (\<open>other.to_string()\<close>) is the crate's printer, a parameter \<open>json_text\<close>. The conversions are those of
  \<open>Dictionary\<close>, over any pair of scaling functions.
\<close>

section \<open>JSON values\<close>

datatype Number = PosInt nat | NegInt int | Float str

datatype Json = JNull | JBool bool | JNumber Number | JString str | JArray "Json list" | JObject "(str \<times> Json) list"

type_synonym object = "(str \<times> Json) list"

fun obj_insert :: "str \<Rightarrow> Json \<Rightarrow> object \<Rightarrow> object" where
  "obj_insert k v [] = [(k, v)]"
| "obj_insert k v ((k', v') # m) =
     (if k < k' then (k, v) # (k', v') # m else if k = k' then (k, v) # m else (k', v') # obj_insert k v m)"

fun number_text :: "Number \<Rightarrow> str" where
  "number_text (PosInt n) = show_radix 10 n"
| "number_text (NegInt i) = show_i64 i"
| "number_text (Float s) = s"

fun as_object :: "Json \<Rightarrow> object option" where
  "as_object (JObject m) = Some m"
| "as_object _ = None"

fun as_str :: "Json \<Rightarrow> str option" where
  "as_str (JString s) = Some s"
| "as_str _ = None"

section \<open>Bytes\<close>

definition BINARY_JSON_KEY :: str where "BINARY_JSON_KEY = ''$base64''"

definition binary_json :: "bytes \<Rightarrow> Json" where
  "binary_json sub = JObject (obj_insert BINARY_JSON_KEY (JString (base64_encode sub)) [])"

definition is_binary_json :: "Json \<Rightarrow> bool" where
  "is_binary_json v = (case as_object v of Some m \<Rightarrow> map_of m BINARY_JSON_KEY \<noteq> None | None \<Rightarrow> False)"

definition binary_from_json :: "Json \<Rightarrow> bytes option" where
  "binary_from_json v =
     Option.bind (as_object v) (\<lambda>m. Option.bind (map_of m BINARY_JSON_KEY) (\<lambda>x. Option.bind (as_str x) base64_decode))"

definition bytes_to_json :: "bytes \<Rightarrow> Json" where
  "bytes_to_json bs = (if utf8_valid bs then JString bs else binary_json bs)"

definition bytes_from_json :: "Json \<Rightarrow> bytes option" where
  "bytes_from_json v =
     (case v of JString s \<Rightarrow> Some s | _ \<Rightarrow> if is_binary_json v then binary_from_json v else None)"

section \<open>From a record to an object\<close>

record RecordSchemaField =
  field_idx :: nat
  camel_key :: str
  schema_conversion :: "str option"

fun camel_from :: "bool \<Rightarrow> str \<Rightarrow> str" where
  "camel_from capitalize_next [] = []"
| "camel_from capitalize_next (c # s) =
     (if c = CHR ''.'' then camel_from True s
      else if capitalize_next then ascii_upper c # camel_from False s
      else ascii_lower c # camel_from False s)"

definition to_camel_case :: "str \<Rightarrow> str" where
  "to_camel_case s = camel_from False s"

definition schema_field :: "str \<times> Record \<Rightarrow> RecordSchemaField option" where
  "schema_field e =
     (case e of (dict_key, dict_rec) \<Rightarrow>
        map_option (\<lambda>idx. \<lparr>field_idx = idx, camel_key = to_camel_case dict_key,
            schema_conversion = conversion_code_from_dict_record dict_rec\<rparr>) (attribute_index dict_rec))"

definition record_schema :: "Table \<Rightarrow> RecordSchemaField list" where
  "record_schema t = List.map_filter schema_field (tbl_dictionary t)"

definition convert_out :: "(str \<Rightarrow> nat \<Rightarrow> str option) \<Rightarrow> str option \<Rightarrow> str \<Rightarrow> str" where
  "convert_out scale_out conv s = (case conv of Some code \<Rightarrow> apply_conversion scale_out s code | None \<Rightarrow> s)"

definition emit :: "(str \<Rightarrow> nat \<Rightarrow> str option) \<Rightarrow> str option \<Rightarrow> bytes \<Rightarrow> Json" where
  "emit scale_out conv sub = (if utf8_valid sub then JString (convert_out scale_out conv sub) else binary_json sub)"

definition emit_value :: "(str \<Rightarrow> nat \<Rightarrow> str option) \<Rightarrow> str option \<Rightarrow> Value \<Rightarrow> Json" where
  "emit_value scale_out conv v =
     (case sub_values v of [] \<Rightarrow> JString [] | [sub] \<Rightarrow> emit scale_out conv sub
      | subs \<Rightarrow> JArray (map (emit scale_out conv) subs))"

definition serialize_field :: "(str \<Rightarrow> nat \<Rightarrow> str option) \<Rightarrow> Field option \<Rightarrow> str option \<Rightarrow> Json" where
  "serialize_field scale_out fld conv =
     (case fld of None \<Rightarrow> JString []
      | Some f \<Rightarrow>
        (case field_values f of
           [] \<Rightarrow> JString []
         | [v] \<Rightarrow> if length (sub_values v) \<le> 1 then emit scale_out conv (first_bytes v)
                  else JArray [emit_value scale_out conv v]
         | vs \<Rightarrow> JArray (map (emit_value scale_out conv) vs)))"

definition serialize_record_with_schema ::
  "(str \<Rightarrow> nat \<Rightarrow> str option) \<Rightarrow> RecordSchemaField list \<Rightarrow> Record \<Rightarrow> Json" where
  "serialize_record_with_schema scale_out schema r =
     JObject (fold (\<lambda>f. obj_insert (camel_key f) (serialize_field scale_out (get_at (rec_fields r) (field_idx f)) (schema_conversion f)))
       schema [])"

definition serialize_record_in :: "(str \<Rightarrow> nat \<Rightarrow> str option) \<Rightarrow> Table \<Rightarrow> Record \<Rightarrow> Json" where
  "serialize_record_in scale_out t r = serialize_record_with_schema scale_out (record_schema t) r"

section \<open>From an object to a record\<close>

datatype RecordDecodeError = NotAnObject | UnknownFields "str list" | UndecodableValue str

definition scalar_text :: "(Json \<Rightarrow> str) \<Rightarrow> (str \<Rightarrow> nat \<Rightarrow> str option) \<Rightarrow> Json \<Rightarrow> str option \<Rightarrow> str" where
  "scalar_text json_text scale_in v conv =
     (let s = (case v of JString s \<Rightarrow> s | JNumber n \<Rightarrow> number_text n | JBool b \<Rightarrow> (if b then ''1'' else ''0'') | other \<Rightarrow> json_text other)
      in case conv of Some code \<Rightarrow> apply_iconv scale_in s code | None \<Rightarrow> s)"

definition scalar_bytes :: "(Json \<Rightarrow> str) \<Rightarrow> (str \<Rightarrow> nat \<Rightarrow> str option) \<Rightarrow> str option \<Rightarrow> Json \<Rightarrow> SubValue option" where
  "scalar_bytes json_text scale_in conv v =
     (if is_binary_json v then binary_from_json v else Some (scalar_text json_text scale_in v conv))"

fun collect_option :: "'a option list \<Rightarrow> 'a list option" where
  "collect_option [] = Some []"
| "collect_option (x # xs) = Option.bind x (\<lambda>y. map_option ((#) y) (collect_option xs))"

definition value_from_json :: "(Json \<Rightarrow> str) \<Rightarrow> (str \<Rightarrow> nat \<Rightarrow> str option) \<Rightarrow> str option \<Rightarrow> Json \<Rightarrow> Value option" where
  "value_from_json json_text scale_in conv v =
     (case v of
        JArray subs \<Rightarrow> map_option (\<lambda>ss. \<lparr>sub_values = ss\<rparr>) (collect_option (map (scalar_bytes json_text scale_in conv) subs))
      | other \<Rightarrow> map_option (\<lambda>s. \<lparr>sub_values = [s]\<rparr>) (scalar_bytes json_text scale_in conv other))"

definition deserialize_field :: "(Json \<Rightarrow> str) \<Rightarrow> (str \<Rightarrow> nat \<Rightarrow> str option) \<Rightarrow> Json \<Rightarrow> str option \<Rightarrow> Value list option" where
  "deserialize_field json_text scale_in v conv =
     (case v of
        JArray vs \<Rightarrow> collect_option (map (value_from_json json_text scale_in conv) vs)
      | other \<Rightarrow> map_option (\<lambda>s. [\<lparr>sub_values = [s]\<rparr>]) (scalar_bytes json_text scale_in conv other))"

text \<open>The two maps from a name, as it is in the dictionary or in camelCase, to its attribute and its conversion.\<close>

definition attr_map_step :: "str \<times> Record \<Rightarrow> (str, nat) hashmap \<Rightarrow> (str, nat) hashmap" where
  "attr_map_step e m =
     (case e of (dict_key, dict_rec) \<Rightarrow>
        (case attribute_index dict_rec of None \<Rightarrow> m
         | Some idx \<Rightarrow> hm_insert dict_key idx (hm_insert (to_camel_case dict_key) idx m)))"

definition attr_map :: "Table \<Rightarrow> (str, nat) hashmap" where
  "attr_map t = fold attr_map_step (tbl_dictionary t) []"

definition conv_map_step :: "Table \<Rightarrow> str \<times> Record \<Rightarrow> (str, str) hashmap \<Rightarrow> (str, str) hashmap" where
  "conv_map_step t e m =
     (case e of (dict_key, dict_rec) \<Rightarrow>
        (case attribute_index dict_rec of None \<Rightarrow> m
         | Some idx \<Rightarrow> (case conversion_code t dict_key of None \<Rightarrow> m
             | Some code \<Rightarrow> hm_insert dict_key code (hm_insert (to_camel_case dict_key) code m))))"

definition conv_map :: "Table \<Rightarrow> (str, str) hashmap" where
  "conv_map t = fold (conv_map_step t) (tbl_dictionary t) []"

definition extend_fields :: "nat \<Rightarrow> Field list \<Rightarrow> Field list" where
  "extend_fields n fs = fs @ replicate (n - length fs) \<lparr>field_values = []\<rparr>"

fun store_fields ::
  "(Json \<Rightarrow> str) \<Rightarrow> (str \<Rightarrow> nat \<Rightarrow> str option) \<Rightarrow> Table \<Rightarrow> (str \<times> Json \<times> nat) list \<Rightarrow> Field list \<Rightarrow> (Field list, RecordDecodeError) result" where
  "store_fields json_text scale_in t [] fs = Ok fs"
| "store_fields json_text scale_in t ((key, v, idx) # rest) fs =
     (let padded = extend_fields (Suc idx) fs in
      case deserialize_field json_text scale_in v (hm_get (conv_map t) key) of
        None \<Rightarrow> Err (UndecodableValue key)
      | Some vs \<Rightarrow> store_fields json_text scale_in t rest (padded[idx := (padded ! idx)\<lparr>field_values := vs\<rparr>]))"

definition resolved :: "Table \<Rightarrow> object \<Rightarrow> (str \<times> Json \<times> nat) list" where
  "resolved t m = List.map_filter (\<lambda>(key, v). map_option (\<lambda>idx. (key, v, idx)) (hm_get (attr_map t) key)) m"

definition unknown :: "Table \<Rightarrow> object \<Rightarrow> str list" where
  "unknown t m = map fst (filter (\<lambda>(key, v). hm_get (attr_map t) key = None) m)"

definition deserialize_record_in ::
  "(Json \<Rightarrow> str) \<Rightarrow> (str \<Rightarrow> nat \<Rightarrow> str option) \<Rightarrow> Table \<Rightarrow> Json \<Rightarrow> (Record, RecordDecodeError) result" where
  "deserialize_record_in json_text scale_in t data =
     (case as_object data of None \<Rightarrow> Err NotAnObject
      | Some m \<Rightarrow>
        if unknown t m \<noteq> [] then Err (UnknownFields (unknown t m))
        else map_sum id (\<lambda>fs. \<lparr>rec_fields = fs\<rparr>) (store_fields json_text scale_in t (resolved t m) []))"

definition unknown_fields :: "Json \<Rightarrow> (Record, RecordDecodeError) result" where
  "unknown_fields data =
     (case as_object data of None \<Rightarrow> Err NotAnObject
      | Some m \<Rightarrow> if m = [] then Ok Record_new else Err (UnknownFields (map fst m)))"

text \<open>The same against a file by name, which the cache may not have: its table is then \<open>None\<close>.\<close>

definition serialize_record_for_account :: "(str \<Rightarrow> nat \<Rightarrow> str option) \<Rightarrow> Table option \<Rightarrow> Record \<Rightarrow> Json" where
  "serialize_record_for_account scale_out handle r =
     (case handle of Some t \<Rightarrow> serialize_record_in scale_out t r | None \<Rightarrow> JObject [])"

definition deserialize_record_for_account ::
  "(Json \<Rightarrow> str) \<Rightarrow> (str \<Rightarrow> nat \<Rightarrow> str option) \<Rightarrow> Table option \<Rightarrow> Json \<Rightarrow> (Record, RecordDecodeError) result" where
  "deserialize_record_for_account json_text scale_in handle data =
     (case handle of Some t \<Rightarrow> deserialize_record_in json_text scale_in t data | None \<Rightarrow> unknown_fields data)"

fun join_str :: "str \<Rightarrow> str list \<Rightarrow> str" where
  "join_str sep [] = []"
| "join_str sep [p] = p"
| "join_str sep (p # ps) = p @ sep @ join_str sep ps"

fun decode_error_display :: "RecordDecodeError \<Rightarrow> str" where
  "decode_error_display NotAnObject = ''Invalid structured data: expected an object of field names''"
| "decode_error_display (UnknownFields names) =
     (let named = join_str '', '' (map quoted names);
          has = (if length names = 1 then ''has'' else ''have'');
          them = (if length names = 1 then ''it'' else ''them'')
      in ''Invalid structured data: '' @ named @ '' '' @ has @ '' no dictionary entry in this file, so there is nowhere to store '' @
         them @ ''. Add '' @ them @ '' with SET.DICT, or leave '' @ them @ '' out of the write'')"
| "decode_error_display (UndecodableValue fld) =
     ''Invalid structured data: the value of '' @ quoted fld @ '' is a '' @ BINARY_JSON_KEY @ '' envelope whose payload is not base64''"

section \<open>Objects\<close>

lemma map_of_obj_insert [simp]: "map_of (obj_insert k v m) k' = (if k' = k then Some v else map_of m k')"
  by (induction k v m rule: obj_insert.induct) auto

lemma set_obj_insert: "e \<in> set (obj_insert k v m) \<Longrightarrow> e = (k, v) \<or> e \<in> set m"
  by (induction k v m rule: obj_insert.induct) (auto split: if_splits)

lemma sorted_obj_insert: "sorted_wrt (<) (map fst m) \<Longrightarrow> sorted_wrt (<) (map fst (obj_insert k v m))"
proof (induction k v m rule: obj_insert.induct)
  case (2 k v k' v' m)
  have "k' < a" if "(a, b) \<in> set (obj_insert k v m)" "\<not> k < k'" "k \<noteq> k'" for a b
    using set_obj_insert [OF that(1)] 2(2) that(2,3) by force
  with 2 show ?case by (auto 0 3)
qed simp

lemma fold_obj_insert_keys:
  "map_of (fold (\<lambda>f. obj_insert (g f) (h f)) fs m) k = None \<longleftrightarrow> map_of m k = None \<and> k \<notin> g ` set fs"
  by (induction fs arbitrary: m) auto

lemma fold_obj_insert_mem: "e \<in> set (fold (\<lambda>f. obj_insert (g f) (h f)) fs m) \<Longrightarrow> e \<in> set m \<or> (\<exists>f \<in> set fs. e = (g f, h f))"
  by (induction fs arbitrary: m) (auto dest: set_obj_insert)

section \<open>One field\<close>

definition convert_in :: "(str \<Rightarrow> nat \<Rightarrow> str option) \<Rightarrow> str option \<Rightarrow> str \<Rightarrow> str" where
  "convert_in scale_in conv s = (case conv of Some code \<Rightarrow> apply_iconv scale_in s code | None \<Rightarrow> s)"

text \<open>A field survives a conversion when the way back undoes the way out on each of its texts, and on the empty one.\<close>

definition survives :: "(str \<Rightarrow> nat \<Rightarrow> str option) \<Rightarrow> (str \<Rightarrow> nat \<Rightarrow> str option) \<Rightarrow> str option \<Rightarrow> Field \<Rightarrow> bool" where
  "survives scale_out scale_in conv f \<longleftrightarrow>
     convert_in scale_in conv [] = [] \<and>
     list_all (\<lambda>sub. utf8_valid sub \<longrightarrow> convert_in scale_in conv (convert_out scale_out conv sub) = sub)
       ([] # concat (map sub_values (field_values f)))"

definition field_at :: "Record \<Rightarrow> nat \<Rightarrow> Field" where
  "field_at r i = (case get_at (rec_fields r) i of Some f \<Rightarrow> f | None \<Rightarrow> \<lparr>field_values = []\<rparr>)"

text \<open>What of a field arrives: an empty list of values or sub-values is one empty text.\<close>

definition wire_value :: "Value \<Rightarrow> Value" where
  "wire_value v = (if sub_values v = [] then \<lparr>sub_values = [[]]\<rparr> else v)"

definition wire_values :: "Field \<Rightarrow> Value list" where
  "wire_values f = (if field_values f = [] then [\<lparr>sub_values = [[]]\<rparr>] else map wire_value (field_values f))"

lemma not_binary_text [simp]: "\<not> is_binary_json (JString s)"
  by (simp add: is_binary_json_def)

lemma binary_json_simps [simp]: "is_binary_json (binary_json b)" "binary_from_json (binary_json b) = Some b"
  by (simp_all add: is_binary_json_def binary_json_def binary_from_json_def base64_decode_encode)

lemma scalar_bytes_text [simp]: "scalar_bytes jt si conv (JString s) = Some (convert_in si conv s)"
  by (simp add: scalar_bytes_def scalar_text_def convert_in_def)

lemma scalar_bytes_binary [simp]: "scalar_bytes jt si conv (binary_json b) = Some b"
  by (simp add: scalar_bytes_def)

lemma scalar_bytes_emit:
  "(utf8_valid sub \<Longrightarrow> convert_in si conv (convert_out so conv sub) = sub) \<Longrightarrow> scalar_bytes jt si conv (emit so conv sub) = Some sub"
  by (simp add: emit_def)

lemma emit_not_array: "emit so conv sub \<noteq> JArray xs"
  by (simp add: emit_def binary_json_def)

lemma collect_option_map: "(\<And>x. x \<in> set xs \<Longrightarrow> f x = Some (g x)) \<Longrightarrow> collect_option (map f xs) = Some (map g xs)"
  by (induction xs) auto

lemma value_from_scalar:
  "(\<And>xs. v \<noteq> JArray xs) \<Longrightarrow> value_from_json jt si conv v = map_option (\<lambda>s. \<lparr>sub_values = [s]\<rparr>) (scalar_bytes jt si conv v)"
  by (simp add: value_from_json_def split: Json.splits)

lemma deserialize_scalar:
  "(\<And>xs. v \<noteq> JArray xs) \<Longrightarrow> deserialize_field jt si v conv = map_option (\<lambda>s. [\<lparr>sub_values = [s]\<rparr>]) (scalar_bytes jt si conv v)"
  by (simp add: deserialize_field_def split: Json.splits)

lemma value_round_trip:
  assumes "\<And>sub. sub \<in> set (sub_values v) \<Longrightarrow> utf8_valid sub \<Longrightarrow> convert_in si conv (convert_out so conv sub) = sub"
    and "convert_in si conv [] = []"
  shows "value_from_json jt si conv (emit_value so conv v) = Some (wire_value v)"
proof -
  consider "sub_values v = []" | sub where "sub_values v = [sub]" | a b subs where "sub_values v = a # b # subs"
    by (metis list.exhaust)
  then show ?thesis
  proof cases
    case 1
    then show ?thesis by (simp add: emit_value_def value_from_scalar assms(2) wire_value_def)
  next
    case 2
    then have "v = \<lparr>sub_values = [sub]\<rparr>" by simp
    with 2 assms(1) [of sub] show ?thesis
      by (simp add: emit_value_def value_from_scalar emit_not_array scalar_bytes_emit wire_value_def)
  next
    case 3
    have "collect_option (map (scalar_bytes jt si conv) (map (emit so conv) (sub_values v))) = Some (sub_values v)"
      using collect_option_map [of "sub_values v" "scalar_bytes jt si conv \<circ> emit so conv" id] assms(1)
      by (simp add: scalar_bytes_emit)
    with 3 show ?thesis by (simp add: emit_value_def value_from_json_def wire_value_def)
  qed
qed

lemma field_round_trip:
  assumes "survives so si conv f"
  shows "deserialize_field jt si (serialize_field so (Some f) conv) conv = Some (wire_values f)"
proof -
  have e: "convert_in si conv [] = []" using assms by (simp add: survives_def)
  have s: "convert_in si conv (convert_out so conv sub) = sub"
    if "v \<in> set (field_values f)" "sub \<in> set (sub_values v)" "utf8_valid sub" for v sub
    using assms that by (auto simp: survives_def list_all_iff)
  have e2: "convert_in si conv (convert_out so conv []) = []" using assms by (simp add: survives_def)
  have vs: "deserialize_field jt si (JArray (map (emit_value so conv) (field_values f))) conv = Some (map wire_value (field_values f))"
    using collect_option_map [of "field_values f" "value_from_json jt si conv \<circ> emit_value so conv" wire_value] value_round_trip [OF _ e] s
    by (simp add: deserialize_field_def)
  consider "field_values f = []" | v where "field_values f = [v]" "length (sub_values v) \<le> 1"
    | "field_values f \<noteq> []" "serialize_field so (Some f) conv = JArray (map (emit_value so conv) (field_values f))"
  proof -
    have "field_values f = [] \<or> (\<exists>v. field_values f = [v] \<and> length (sub_values v) \<le> 1) \<or>
      field_values f \<noteq> [] \<and> serialize_field so (Some f) conv = JArray (map (emit_value so conv) (field_values f))"
      by (cases "field_values f"; cases "tl (field_values f)") (simp_all add: serialize_field_def)
    with that show thesis by blast
  qed
  then show ?thesis
  proof cases
    case 1
    then show ?thesis by (simp add: serialize_field_def deserialize_scalar e wire_values_def)
  next
    case 2
    then consider "sub_values v = []" | sub where "sub_values v = [sub]" by (cases "sub_values v") auto
    then show ?thesis
    proof cases
      case 1
      with 2 show ?thesis
        by (simp add: serialize_field_def first_bytes_def deserialize_scalar emit_not_array scalar_bytes_emit e2 wire_values_def wire_value_def)
    next
      case two: 2
      then have "v = \<lparr>sub_values = [sub]\<rparr>" by simp
      with 2 s [of v sub] show ?thesis
        by (simp add: serialize_field_def first_bytes_def deserialize_scalar emit_not_array scalar_bytes_emit wire_values_def wire_value_def)
    qed
  next
    case 3
    then show ?thesis by (simp add: vs wire_values_def)
  qed
qed

lemma missing_field_serializes: "serialize_field so None conv = serialize_field so (Some \<lparr>field_values = []\<rparr>) conv"
  by (simp add: serialize_field_def)

lemma field_at_round_trip:
  assumes "survives so si conv (field_at r i)"
  shows "deserialize_field jt si (serialize_field so (get_at (rec_fields r) i) conv) conv = Some (wire_values (field_at r i))"
  using field_round_trip [OF assms] by (cases "get_at (rec_fields r) i") (simp_all add: field_at_def missing_field_serializes)

lemma wire_values_bytes [simp]: "field_to_bytes \<lparr>field_values = wire_values f\<rparr> = field_to_bytes f"
proof -
  have "value_to_bytes (wire_value v) = value_to_bytes v" for v by (simp add: wire_value_def value_to_bytes_def)
  then show ?thesis by (simp add: wire_values_def field_to_bytes_def comp_def) (simp add: value_to_bytes_def)
qed

section \<open>Names\<close>

text \<open>
  Names are coherent when the camelCase name of an entry is no other entry's name or camelCase name,
  unless the two say the same of the field.
\<close>

definition says :: "Record \<Rightarrow> nat option \<times> str option" where
  "says e = (attribute_index e, conversion_code_from_dict_record e)"

definition coherent :: "Table \<Rightarrow> bool" where
  "coherent t \<longleftrightarrow> hm_wf (tbl_dictionary t) \<and>
     list_all (\<lambda>(k, e). list_all (\<lambda>(k', e'). attribute_index e = None \<or> attribute_index e' = None \<or>
         to_camel_case k \<notin> {k', to_camel_case k'} \<or> says e = says e') (tbl_dictionary t)) (tbl_dictionary t)"

definition in_dictionary :: "Table \<Rightarrow> nat \<Rightarrow> bool" where
  "in_dictionary t i \<longleftrightarrow> list_ex (\<lambda>(k, e). attribute_index e = Some i) (tbl_dictionary t)"

lemma fold_contributions:
  assumes "\<And>e m. e \<in> set es \<Longrightarrow> hm_get (step e m) key = (case contrib e of Some x \<Rightarrow> Some x | None \<Rightarrow> hm_get m key)"
    and "\<And>e. e \<in> set es \<Longrightarrow> contrib e = None \<or> contrib e = Some x"
  shows "hm_get (fold step es m) key = (if \<exists>e \<in> set es. contrib e = Some x then Some x else hm_get m key)"
  using assms
proof (induction es arbitrary: m)
  case (Cons e es)
  have "hm_get (fold step es (step e m)) key = (if \<exists>e \<in> set es. contrib e = Some x then Some x else hm_get (step e m) key)"
    using Cons.prems by (intro Cons.IH) auto
  with Cons.prems [of e] Cons.prems(1) [of e m] show ?case by (auto split: option.splits)
qed simp

lemma coherentD:
  assumes "coherent t" "(k, e) \<in> set (tbl_dictionary t)" "(k', e') \<in> set (tbl_dictionary t)"
    and "attribute_index e = Some i" "attribute_index e' = Some i'" "to_camel_case k = k' \<or> to_camel_case k = to_camel_case k'"
  shows "i' = i \<and> conversion_code_from_dict_record e' = conversion_code_from_dict_record e"
proof -
  from assms(1,2) have "list_all (\<lambda>(k', e'). attribute_index e = None \<or> attribute_index e' = None \<or>
      to_camel_case k \<notin> {k', to_camel_case k'} \<or> says e = says e') (tbl_dictionary t)"
    unfolding coherent_def list_all_iff by blast
  with assms(3) have "attribute_index e = None \<or> attribute_index e' = None \<or> to_camel_case k \<notin> {k', to_camel_case k'} \<or> says e = says e'"
    unfolding list_all_iff by blast
  with assms(4-6) show ?thesis by (auto simp: says_def)
qed

lemma attr_map_camel:
  assumes "coherent t" "(k, e) \<in> set (tbl_dictionary t)" "attribute_index e = Some idx"
  shows "hm_get (attr_map t) (to_camel_case k) = Some idx"
proof -
  let ?c = "\<lambda>x. if to_camel_case k \<in> {fst x, to_camel_case (fst x)} then attribute_index (snd x) else None"
  have "?c x = None \<or> ?c x = Some idx" if "x \<in> set (tbl_dictionary t)" for x
    using coherentD [OF assms(1,2), of "fst x" "snd x" idx] assms(3) that by (cases "attribute_index (snd x)") auto
  then have "hm_get (attr_map t) (to_camel_case k) = (if \<exists>x \<in> set (tbl_dictionary t). ?c x = Some idx then Some idx else hm_get [] (to_camel_case k))"
    unfolding attr_map_def by (intro fold_contributions) (auto simp: attr_map_step_def split: option.splits prod.splits)
  moreover have "\<exists>x \<in> set (tbl_dictionary t). ?c x = Some idx" using assms(2,3) by (intro bexI [of _ "(k, e)"]) simp_all
  ultimately show ?thesis by simp
qed

lemma conv_map_camel:
  assumes "coherent t" "(k, e) \<in> set (tbl_dictionary t)" "attribute_index e = Some idx"
  shows "hm_get (conv_map t) (to_camel_case k) = conversion_code_from_dict_record e"
proof -
  let ?conv = "conversion_code_from_dict_record e"
  let ?c = "\<lambda>x. if to_camel_case k \<in> {fst x, to_camel_case (fst x)} \<and> attribute_index (snd x) \<noteq> None
    then conversion_code_from_dict_record (snd x) else None"
  have code: "conversion_code t (fst x) = conversion_code_from_dict_record (snd x)" if "x \<in> set (tbl_dictionary t)" for x
    using that assms(1) hm_wf_mem [of "tbl_dictionary t" "fst x" "snd x"] by (simp add: conversion_code_def coherent_def)
  have same: "?c x = None \<or> ?c x = ?conv" if "x \<in> set (tbl_dictionary t)" for x
    using coherentD [OF assms(1,2), of "fst x" "snd x" idx] assms(3) that by (cases "attribute_index (snd x)") auto
  have step: "hm_get (conv_map_step t x m) (to_camel_case k) = (case ?c x of Some y \<Rightarrow> Some y | None \<Rightarrow> hm_get m (to_camel_case k))"
    if "x \<in> set (tbl_dictionary t)" for x m
    using code [OF that] by (auto simp: conv_map_step_def split: option.splits prod.splits)
  show ?thesis
  proof (cases ?conv)
    case None
    with same have "?c x = None \<or> ?c x = Some []" if "x \<in> set (tbl_dictionary t)" for x using that by metis
    with step have "hm_get (conv_map t) (to_camel_case k) =
        (if \<exists>x \<in> set (tbl_dictionary t). ?c x = Some [] then Some [] else hm_get [] (to_camel_case k))"
      unfolding conv_map_def by (intro fold_contributions) auto
    moreover have "\<not> (\<exists>x \<in> set (tbl_dictionary t). ?c x = Some [])" using same None by fastforce
    ultimately show ?thesis using None by simp
  next
    case (Some code)
    with same have "?c x = None \<or> ?c x = Some code" if "x \<in> set (tbl_dictionary t)" for x using that by metis
    with step have "hm_get (conv_map t) (to_camel_case k) =
        (if \<exists>x \<in> set (tbl_dictionary t). ?c x = Some code then Some code else hm_get [] (to_camel_case k))"
      unfolding conv_map_def by (intro fold_contributions) auto
    moreover have "\<exists>x \<in> set (tbl_dictionary t). ?c x = Some code"
      using assms(2,3) Some by (intro bexI [of _ "(k, e)"]) simp_all
    ultimately show ?thesis using Some by simp
  qed
qed

section \<open>A whole record\<close>

lemma length_extend_fields [simp]: "length (extend_fields n fs) = max n (length fs)"
  by (simp add: extend_fields_def)

definition values_in :: "Field list \<Rightarrow> nat \<Rightarrow> Value list" where
  "values_in fs i = (if i < length fs then field_values (fs ! i) else [])"

lemma values_in_extend [simp]: "values_in (extend_fields n fs) i = values_in fs i"
  by (auto simp: values_in_def extend_fields_def nth_append)

lemma store_fields_ok:
  assumes "\<And>key v idx. (key, v, idx) \<in> set L \<Longrightarrow> deserialize_field jt si v (hm_get (conv_map t) key) = Some (w idx)"
  shows "\<exists>fs'. store_fields jt si t L fs = Ok fs' \<and>
    (\<forall>i. values_in fs' i = (if i \<in> (\<lambda>(key, v, idx). idx) ` set L then w i else values_in fs i))"
  using assms
proof (induction L arbitrary: fs)
  case (Cons x L)
  obtain key v idx where x: "x = (key, v, idx)" by (cases x)
  let ?p = "extend_fields (Suc idx) fs"
  let ?fs = "?p[idx := (?p ! idx)\<lparr>field_values := w idx\<rparr>]"
  have "deserialize_field jt si v' (hm_get (conv_map t) k') = Some (w i')" if "(k', v', i') \<in> set L" for k' v' i'
    using Cons.prems that by simp
  from Cons.IH [OF this, of ?fs] obtain fs' where fs': "store_fields jt si t L ?fs = Ok fs'"
    "\<forall>i. values_in fs' i = (if i \<in> (\<lambda>(key, v, idx). idx) ` set L then w i else values_in ?fs i)" by blast
  have "deserialize_field jt si v (hm_get (conv_map t) key) = Some (w idx)" using Cons.prems x by simp
  with fs'(1) x have "store_fields jt si t (x # L) fs = Ok fs'" by (simp add: Let_def)
  moreover have "values_in ?fs i = (if i = idx then w idx else values_in fs i)" for i
    using values_in_extend [of "Suc idx" fs i] by (auto simp: values_in_def nth_list_update split: if_splits)
  ultimately show ?case using fs'(2) x by auto
qed simp

lemma schema_mem:
  "f \<in> set (record_schema t) \<longleftrightarrow>
    (\<exists>k e. (k, e) \<in> set (tbl_dictionary t) \<and> attribute_index e = Some (field_idx f) \<and> camel_key f = to_camel_case k \<and>
       schema_conversion f = conversion_code_from_dict_record e)"
proof
  assume "f \<in> set (record_schema t)"
  then show "\<exists>k e. (k, e) \<in> set (tbl_dictionary t) \<and> attribute_index e = Some (field_idx f) \<and> camel_key f = to_camel_case k \<and>
       schema_conversion f = conversion_code_from_dict_record e"
    by (clarsimp simp: record_schema_def List.map_filter_def schema_field_def) blast
next
  assume "\<exists>k e. (k, e) \<in> set (tbl_dictionary t) \<and> attribute_index e = Some (field_idx f) \<and> camel_key f = to_camel_case k \<and>
       schema_conversion f = conversion_code_from_dict_record e"
  then obtain k e where ke: "(k, e) \<in> set (tbl_dictionary t)" "attribute_index e = Some (field_idx f)" "camel_key f = to_camel_case k"
    "schema_conversion f = conversion_code_from_dict_record e" by blast
  then have "schema_field (k, e) = Some f" by (simp add: schema_field_def)
  with ke(1) show "f \<in> set (record_schema t)"
    by (simp add: record_schema_def List.map_filter_def image_iff) (metis option.sel option.discI)
qed

definition record_survives :: "(str \<Rightarrow> nat \<Rightarrow> str option) \<Rightarrow> (str \<Rightarrow> nat \<Rightarrow> str option) \<Rightarrow> Table \<Rightarrow> Record \<Rightarrow> bool" where
  "record_survives scale_out scale_in t r \<longleftrightarrow>
     list_all (\<lambda>f. survives scale_out scale_in (schema_conversion f) (field_at r (field_idx f))) (record_schema t)"

text \<open>Every entry of a serialized record is that of one field of the schema, under a name the way back resolves to it.\<close>

lemma serialized_entry:
  assumes c: "coherent t" and s: "record_survives so si t r"
    and m: "serialize_record_in so t r = JObject m" "(key, v) \<in> set m"
  shows "\<exists>f \<in> set (record_schema t). hm_get (attr_map t) key = Some (field_idx f) \<and>
    deserialize_field jt si v (hm_get (conv_map t) key) = Some (wire_values (field_at r (field_idx f)))"
proof -
  from m obtain f where f: "f \<in> set (record_schema t)" "key = camel_key f"
    "v = serialize_field so (get_at (rec_fields r) (field_idx f)) (schema_conversion f)"
    using fold_obj_insert_mem by (fastforce simp: serialize_record_in_def serialize_record_with_schema_def)
  from f(1) obtain k e where ke: "(k, e) \<in> set (tbl_dictionary t)" "attribute_index e = Some (field_idx f)" "camel_key f = to_camel_case k"
    "schema_conversion f = conversion_code_from_dict_record e" by (auto simp: schema_mem)
  have "survives so si (schema_conversion f) (field_at r (field_idx f))"
    using s f(1) by (simp add: record_survives_def list_all_iff)
  from field_at_round_trip [OF this] have "deserialize_field jt si v (hm_get (conv_map t) key) = Some (wire_values (field_at r (field_idx f)))"
    using conv_map_camel [OF c ke(1,2)] ke(3,4) f(2,3) by simp
  with attr_map_camel [OF c ke(1,2)] f ke(3) show ?thesis by auto
qed

lemma in_dictionary_schema: "in_dictionary t i \<longleftrightarrow> (\<exists>f \<in> set (record_schema t). field_idx f = i)"
proof
  assume "in_dictionary t i"
  then obtain k e where "(k, e) \<in> set (tbl_dictionary t)" "attribute_index e = Some i" by (auto simp: in_dictionary_def list_ex_iff)
  then have "\<lparr>field_idx = i, camel_key = to_camel_case k, schema_conversion = conversion_code_from_dict_record e\<rparr> \<in> set (record_schema t)"
    unfolding schema_mem by auto
  then show "\<exists>f \<in> set (record_schema t). field_idx f = i" by force
next
  assume "\<exists>f \<in> set (record_schema t). field_idx f = i"
  then obtain k e where "(k, e) \<in> set (tbl_dictionary t)" "attribute_index e = Some i" by (auto simp: schema_mem)
  then show "in_dictionary t i" unfolding in_dictionary_def list_ex_iff by (intro bexI [of _ "(k, e)"]) simp_all
qed

lemma serialized_names: "serialize_record_in so t r = JObject m \<Longrightarrow> f \<in> set (record_schema t) \<Longrightarrow> \<exists>v. (camel_key f, v) \<in> set m"
  using fold_obj_insert_keys [of camel_key
      "\<lambda>f. serialize_field so (get_at (rec_fields r) (field_idx f)) (schema_conversion f)" "record_schema t" "[]" "camel_key f"]
  by (auto simp: serialize_record_in_def serialize_record_with_schema_def map_of_eq_None_iff)

lemma resolved_indexes:
  assumes c: "coherent t" and s: "record_survives so si t r" and m: "serialize_record_in so t r = JObject m"
  shows "(\<lambda>(key, v, idx). idx) ` set (resolved t m) = {i. in_dictionary t i}"
proof (intro set_eqI iffI)
  fix i assume "i \<in> (\<lambda>(key, v, idx). idx) ` set (resolved t m)"
  then obtain key v where "(key, v) \<in> set m" "hm_get (attr_map t) key = Some i"
    by (auto simp: resolved_def List.map_filter_def)
  with serialized_entry [OF c s m, of key v] show "i \<in> {i. in_dictionary t i}" by (auto simp: in_dictionary_schema)
next
  fix i assume "i \<in> {i. in_dictionary t i}"
  then obtain f where f: "f \<in> set (record_schema t)" "field_idx f = i" by (auto simp: in_dictionary_schema)
  from serialized_names [OF m f(1)] obtain v where v: "(camel_key f, v) \<in> set m" by blast
  from f obtain k e where "(k, e) \<in> set (tbl_dictionary t)" "attribute_index e = Some i" "camel_key f = to_camel_case k"
    by (auto simp: schema_mem)
  then have "hm_get (attr_map t) (camel_key f) = Some i" using attr_map_camel [OF c] by simp
  with v show "i \<in> (\<lambda>(key, v, idx). idx) ` set (resolved t m)"
    by (force simp: resolved_def List.map_filter_def image_iff)
qed

lemma field_to_bytes_values: "field_to_bytes (field_at r i) = join_with VM (map value_to_bytes (values_in (rec_fields r) i))"
  by (simp add: field_at_def get_at_def values_in_def field_to_bytes_def)

section \<open>Properties\<close>


text \<open>A record whose second attribute has two values, one of them not text, and whose third has no name.\<close>

definition pair_record :: Record where
  "pair_record = \<lparr>rec_fields = [\<lparr>field_values = [Value_text ''a'']\<rparr>,
     \<lparr>field_values = [Value_bytes [CHR 0xFF], Value_text ''b'']\<rparr>, \<lparr>field_values = [Value_text ''c'']\<rparr>]\<rparr>"

lemma pair_entries:
  "attribute_index (from_attributes [''2'', [], [], [], ''ACCTS'', ''V'']) = Some 1" "attribute_index (from_attributes [''1'']) = Some 0"
  "conversion_code_from_dict_record (from_attributes [''2'', [], [], [], ''ACCTS'', ''V'']) = None"
  "conversion_code_from_dict_record (from_attributes [''1'']) = None"
proof -
  have plain: "text_of s = s" if "is_ascii s" for s using that by (simp add: text_of_valid utf8_valid_ascii)
  show "attribute_index (from_attributes [''2'', [], [], [], ''ACCTS'', ''V'']) = Some 1" "attribute_index (from_attributes [''1'']) = Some 0"
    by (simp_all add: from_attributes_def Value_text_def attribute_index_def dict_text_def
        get_at_def DICT_FIELD_IDX_def first_text_def plain from_str_radix_def to_digit_def u64_max_def Let_def)
  show "conversion_code_from_dict_record (from_attributes [''2'', [], [], [], ''ACCTS'', ''V'']) = None"
    "conversion_code_from_dict_record (from_attributes [''1'']) = None"
    by (simp_all add: conversion_code_from_dict_record_def get_at_def DICT_CONV_IDX_def from_attributes_def)
qed


text \<open>
  When two names of a dictionary are the same attribute, an object that carries both stores the value
  of the later name, and the write is accepted: an edit of the earlier one is lost.
\<close>

theorem synonym_overwrites_edit:
  assumes "hm_get (attr_map t) k = Some i" "hm_get (attr_map t) k' = Some i" "hm_get (conv_map t) k = None" "hm_get (conv_map t) k' = None"
    and "k < k'"
  shows "\<exists>r. deserialize_record_in jt si t (JObject (obj_insert k (JString edited) (obj_insert k' (JString stale) []))) = Ok r \<and>
    field_values (field_at r i) = [Value_text stale]"
proof -
  let ?m = "[(k, JString edited), (k', JString stale)]"
  have m: "obj_insert k (JString edited) (obj_insert k' (JString stale) []) = ?m" using assms(5) by simp
  have r: "unknown t ?m = []" "resolved t ?m = [(k, JString edited, i), (k', JString stale, i)]"
    using assms(1,2) by (simp_all add: unknown_def resolved_def List.map_filter_simps)
  show ?thesis unfolding m
    using assms(3,4) by (simp add: deserialize_record_in_def r deserialize_scalar convert_in_def Let_def field_at_def get_at_def Value_text_def)
qed

end
