(* ===== verification/Archive.thy ===== *)
theory Archive
  imports Attributes Checksum Db_Error
begin

text \<open>
  The archive of \<^verbatim>\<open>db/archive.rs\<close>: the shape of a database and its records as one checksummed stream of
  bytes. A writer is driven file by file and record by record; one reader serves every purpose, handing the
  records it finds to a \<open>Sink\<close>. The sink of a writer is the bytes it has taken, the source of a reader the
  bytes that remain; devices that fail are left out. The two JSON documents of an archive are made and read
  by \<^verbatim>\<open>serde_json\<close>, which is a parameter (\<open>Documents\<close>).

  Shown here and in \<open>Archive_Props\<close>: what was written is what any sink is given on reading, no proper prefix of an
  archive is accepted, an archive that verifies is never refused by a later pass, and a key the database stores
  but an archive cannot carry.
\<close>

section \<open>What an archive says of itself\<close>

definition ARCHIVE_MAGIC :: bytes where "ARCHIVE_MAGIC = ''SRPARC01''"
definition ARCHIVE_CURRENT :: nat where "ARCHIVE_CURRENT = 1"
definition OLDEST_SUPPORTED :: nat where "OLDEST_SUPPORTED = 1"
definition ARCHIVE_EXTENSION :: str where "ARCHIVE_EXTENSION = ''srp''"
definition ARCHIVE_CHUNK :: nat where "ARCHIVE_CHUNK = 64 * 1024"
definition MAX_DOCUMENT_BYTES :: nat where "MAX_DOCUMENT_BYTES = 64 * 1024 * 1024"
definition ARCHIVE_MAX_KEY :: nat where "ARCHIVE_MAX_KEY = 255"
definition TAG_RECORD :: byte where "TAG_RECORD = CHR 0x01"
definition TAG_DICT :: byte where "TAG_DICT = CHR 0x02"
definition TAG_END_OF_FILE :: byte where "TAG_END_OF_FILE = CHR 0x00"
definition TAG_END_OF_ARCHIVE :: byte where "TAG_END_OF_ARCHIVE = CHR 0xFF"

datatype RecordKind = DataKind | DictionaryKind

fun kind_tag :: "RecordKind \<Rightarrow> byte" where
  "kind_tag DataKind = TAG_RECORD"
| "kind_tag DictionaryKind = TAG_DICT"

datatype Source = SourceFile str str | SourceAccount str | SourceAll

fun source_describe :: "Source \<Rightarrow> str" where
  "source_describe (SourceFile account name) = ''file '' @ name @ '' of account '' @ account"
| "source_describe (SourceAccount account) = ''account '' @ account"
| "source_describe SourceAll = ''the whole database''"

record ImportPlan =
  into_account :: "str option"
  plan_overwrite :: bool
  plan_dry_run :: bool

datatype FileKind = FileFile | FileQueue | FileDirectory

record IndexEntry =
  ie_field :: str
  ie_excluded :: "str list"

record FileEntry =
  fe_account :: str
  fe_name :: str
  fe_kind :: FileKind
  fe_durable :: bool
  fe_autokey :: bool
  fe_visibility_timeout :: "nat option"
  fe_max_deliveries :: "nat option"
  fe_path :: "str option"
  fe_indexes :: "IndexEntry list"

definition entry_policy :: "FileEntry \<Rightarrow> QueuePolicy" where
  "entry_policy e =
     \<lparr>visibility = (case fe_visibility_timeout e of Some timeout \<Rightarrow> from_secs timeout | None \<Rightarrow> visibility QueuePolicy_default),
      max_deliveries = (case fe_max_deliveries e of Some m \<Rightarrow> m | None \<Rightarrow> max_deliveries QueuePolicy_default)\<rparr>"

definition entry_attributes :: "FileEntry \<Rightarrow> FileAttributes" where
  "entry_attributes e =
     (case fe_kind e of
        FileDirectory \<Rightarrow> \<lparr>durable = False, att_queue = None, att_directory = Some default_path, autokey = False\<rparr>
      | FileQueue \<Rightarrow>
          \<lparr>durable = fe_durable e, att_queue = Some (entry_policy e), att_directory = None, autokey = fe_autokey e\<rparr>
      | FileFile \<Rightarrow> \<lparr>durable = fe_durable e, att_queue = None, att_directory = None, autokey = fe_autokey e\<rparr>)"

definition FileEntry_of :: "str \<Rightarrow> str \<Rightarrow> FileAttributes \<Rightarrow> IndexEntry list \<Rightarrow> FileEntry" where
  "FileEntry_of account name a indexes =
     \<lparr>fe_account = account, fe_name = name,
      fe_kind = (if att_directory a \<noteq> None then FileDirectory else if att_queue a \<noteq> None then FileQueue else FileFile),
      fe_durable = durable a, fe_autokey = autokey a,
      fe_visibility_timeout = map_option visibility_seconds (att_queue a),
      fe_max_deliveries = map_option max_deliveries (att_queue a),
      fe_path = Option.bind (att_directory a) explicit_path,
      fe_indexes = indexes\<rparr>"

definition entry_is_directory :: "FileEntry \<Rightarrow> bool" where
  "entry_is_directory e \<longleftrightarrow> fe_kind e = FileDirectory"

record Manifest =
  archive_format :: nat
  storage_format :: nat
  taken_millis :: nat
  man_source :: Source
  man_files :: "FileEntry list"

record FileCounts =
  fc_account :: str
  fc_name :: str
  fc_records :: nat
  fc_dictionary :: nat
  fc_bytes :: nat

record Trailer =
  tr_files :: "FileCounts list"

definition trailer_records :: "Trailer \<Rightarrow> nat" where
  "trailer_records t = sum_list (map fc_records (tr_files t))"

definition trailer_dictionary :: "Trailer \<Rightarrow> nat" where
  "trailer_dictionary t = sum_list (map fc_dictionary (tr_files t))"

definition trailer_bytes :: "Trailer \<Rightarrow> nat" where
  "trailer_bytes t = sum_list (map fc_bytes (tr_files t))"

record Summary =
  sum_manifest :: Manifest
  sum_trailer :: Trailer
  archive_bytes :: nat

definition summary_files :: "Summary \<Rightarrow> (FileEntry \<times> FileCounts) list" where
  "summary_files s = zip (man_files (sum_manifest s)) (tr_files (sum_trailer s))"

definition archive_refused :: "str \<Rightarrow> DbError" where
  "archive_refused detail = InvalidRequest (''Not a usable archive: '' @ detail)"

text \<open>
  \<open>serde_json::to_vec\<close> and \<open>from_slice\<close> on the two documents, each with the wording of its failure.
  \<open>docs_ok\<close> is what is relied on: a document reads back as what it was made from.
\<close>

record Documents =
  manifest_doc :: "Manifest \<Rightarrow> (bytes, str) result"
  manifest_of :: "bytes \<Rightarrow> (Manifest, str) result"
  trailer_doc :: "Trailer \<Rightarrow> (bytes, str) result"
  trailer_of :: "bytes \<Rightarrow> (Trailer, str) result"

definition docs_ok :: "Documents \<Rightarrow> Manifest \<Rightarrow> Trailer \<Rightarrow> bool" where
  "docs_ok docs m t \<longleftrightarrow>
     (case manifest_doc docs m of Inl _ \<Rightarrow> False | Inr bs \<Rightarrow> length bs \<le> MAX_DOCUMENT_BYTES \<and> manifest_of docs bs = Ok m) \<and>
     (case trailer_doc docs t of Inl _ \<Rightarrow> False | Inr bs \<Rightarrow> length bs \<le> MAX_DOCUMENT_BYTES \<and> trailer_of docs bs = Ok t)"

section \<open>Writing\<close>

record Writer =
  w_sink :: bytes
  w_crc :: "32 word"
  w_written :: nat
  w_manifest :: Manifest
  w_open :: "nat option"
  w_next :: nat
  w_counts :: "FileCounts list"

text \<open>The question mark after a fallible step.\<close>

definition try_ok :: "'a DbResult \<Rightarrow> ('a \<Rightarrow> 'b DbResult) \<Rightarrow> 'b DbResult" where
  "try_ok r f = (case r of Inl e \<Rightarrow> Err e | Inr x \<Rightarrow> f x)"

lemma try_ok_simps [simp]: "try_ok (Ok x) f = f x" "try_ok (Err e) f = Err e"
  by (simp_all add: try_ok_def)

definition put :: "bytes \<Rightarrow> Writer \<Rightarrow> Writer" where
  "put bs w = w\<lparr>w_sink := w_sink w @ bs, w_crc := crc_update bs (w_crc w), w_written := w_written w + length bs\<rparr>"

definition put_blob :: "bytes \<Rightarrow> Writer \<Rightarrow> Writer" where
  "put_blob bs w = put bs (put (le_bytes 8 (length bs)) w)"

definition Writer_begin :: "Documents \<Rightarrow> Manifest \<Rightarrow> Writer DbResult" where
  "Writer_begin docs m =
     (let w = put ARCHIVE_MAGIC
        \<lparr>w_sink = [], w_crc = crc_new, w_written = 0, w_manifest = m, w_open = None, w_next = 0, w_counts = []\<rparr>
      in case manifest_doc docs m of
           Inl e \<Rightarrow> Err (InvalidRequest (''The manifest cannot be written: '' @ e))
         | Inr document \<Rightarrow> Ok (put_blob document w))"

definition writer_begin_file :: "Writer \<Rightarrow> (FileEntry \<times> Writer) DbResult" where
  "writer_begin_file w =
     (if w_open w \<noteq> None then Err (archive_refused (''a file'' @ [CHR 0x27] @ ''s records were left open''))
      else if length (man_files (w_manifest w)) \<le> w_next w then
        Err (archive_refused ''more files were written than the manifest describes'')
      else let entry = man_files (w_manifest w) ! w_next w in
        Ok (entry, w\<lparr>w_counts := w_counts w @
              [\<lparr>fc_account = fe_account entry, fc_name = fe_name entry, fc_records = 0, fc_dictionary = 0, fc_bytes = 0\<rparr>],
            w_open := Some (w_next w)\<rparr>))"

definition open_record :: "RecordKind \<Rightarrow> str \<Rightarrow> nat \<Rightarrow> Writer \<Rightarrow> Writer DbResult" where
  "open_record kind key len w =
     (if w_open w = None then Err (archive_refused ''a record was written outside any file'')
      else Ok (put (le_bytes 8 len) (put_blob key (put [kind_tag kind] w))))"

definition count_record :: "RecordKind \<Rightarrow> nat \<Rightarrow> FileCounts \<Rightarrow> FileCounts" where
  "count_record kind len c =
     (case kind of DataKind \<Rightarrow> c\<lparr>fc_records := fc_records c + 1, fc_bytes := fc_bytes c + len\<rparr>
      | DictionaryKind \<Rightarrow> c\<lparr>fc_dictionary := fc_dictionary c + 1, fc_bytes := fc_bytes c + len\<rparr>)"

definition note_record :: "RecordKind \<Rightarrow> nat \<Rightarrow> Writer \<Rightarrow> Writer" where
  "note_record kind len w =
     (if w_counts w = [] then w
      else w\<lparr>w_counts := butlast (w_counts w) @ [count_record kind len (last (w_counts w))]\<rparr>)"

definition write_record_bytes :: "RecordKind \<Rightarrow> str \<Rightarrow> bytes \<Rightarrow> Writer \<Rightarrow> Writer DbResult" where
  "write_record_bytes kind key bs w =
     try_ok (open_record kind key (length bs) w) (\<lambda>w. Ok (note_record kind (length bs) (put bs w)))"

text \<open>
  The copying loop of \<open>record_from\<close>: at most \<open>room\<close> bytes at a time, as many as the body still has, until
  \<open>left\<close> bytes are written. \<open>Inl\<close> is how many were missing when the body ran out.
\<close>

function copy_body :: "nat \<Rightarrow> nat \<Rightarrow> bytes \<Rightarrow> Writer \<Rightarrow> nat + Writer" where
  "copy_body room left body w =
     (if left = 0 then Inr w
      else let want = min room left; got = take want body in
        if got = [] then Inl left else copy_body room (left - length got) (drop want body) (put got w))"
  by auto
termination by (relation "measure (\<lambda>(_, left, _). left)") (auto simp: Let_def)

declare copy_body.simps [simp del]

definition record_from_body :: "RecordKind \<Rightarrow> str \<Rightarrow> nat \<Rightarrow> bytes \<Rightarrow> Writer \<Rightarrow> Writer DbResult" where
  "record_from_body kind key len body w =
     try_ok (open_record kind key len w) (\<lambda>w.
       case copy_body (min (max len 1) ARCHIVE_CHUNK) len body w of
         Inl left \<Rightarrow> Err (archive_refused (''record '' @ [CHR 0x27] @ key @ [CHR 0x27] @ '' announced '' @ show_nat len @
           '' bytes and ran out '' @ show_nat left @ '' short''))
       | Inr w \<Rightarrow> Ok (note_record kind len w))"

definition writer_end_file :: "Writer \<Rightarrow> Writer DbResult" where
  "writer_end_file w =
     (if w_open w = None then Err (archive_refused (''a file'' @ [CHR 0x27] @ ''s records were ended without being begun''))
      else Ok ((put [TAG_END_OF_FILE] (w\<lparr>w_open := None\<rparr>))\<lparr>w_next := w_next w + 1\<rparr>))"

definition writer_finish :: "Documents \<Rightarrow> Writer \<Rightarrow> (Trailer \<times> bytes) DbResult" where
  "writer_finish docs w =
     (if w_open w \<noteq> None then
        Err (archive_refused (''the archive was finished with a file'' @ [CHR 0x27] @ ''s records still open''))
      else if w_next w \<noteq> length (man_files (w_manifest w)) then
        Err (archive_refused (''the manifest describes '' @ show_nat (length (man_files (w_manifest w))) @ '' files and '' @
          show_nat (w_next w) @ '' were written''))
      else let trailer = \<lparr>tr_files = w_counts w\<rparr>; w = put [TAG_END_OF_ARCHIVE] w in
        case trailer_doc docs trailer of
          Inl e \<Rightarrow> Err (InvalidRequest (''The trailer cannot be written: '' @ e))
        | Inr document \<Rightarrow>
            let w = put_blob document w
            in Ok (trailer, w_sink w @ le_bytes 4 (unat (crc_finish (w_crc w)))))"

section \<open>Reading\<close>

text \<open>
  Where the records of an archive go. Each operation acts on the state of the sink; no value at all where a
  flush inside it does not end. The body of a record is what is left of its bytes, at most \<open>len\<close> of them.
\<close>

type_synonym ('s, 'a) act = "'s \<Rightarrow> ('a DbResult \<times> 's) option"

record 's Sink =
  sink_begin_file :: "nat \<Rightarrow> FileEntry \<Rightarrow> ('s, unit) act"
  sink_record :: "FileEntry \<Rightarrow> RecordKind \<Rightarrow> str \<Rightarrow> nat \<Rightarrow> bytes \<Rightarrow> ('s, unit) act"
  sink_end_file :: "FileEntry \<Rightarrow> ('s, unit) act"

definition act_then :: "('s, 'a) act \<Rightarrow> ('a \<Rightarrow> ('s, 'b) act) \<Rightarrow> ('s, 'b) act" where
  "act_then m f s = (case m s of None \<Rightarrow> None | Some (Inl e, s) \<Rightarrow> Some (Err e, s) | Some (Inr x, s) \<Rightarrow> f x s)"

definition act_of :: "'a DbResult \<Rightarrow> ('s, 'a) act" where
  "act_of r s = Some (r, s)"

definition Discard :: "'s Sink" where
  "Discard = \<lparr>sink_begin_file = \<lambda>index entry. act_of (Ok ()), sink_record = \<lambda>entry kind key len body. act_of (Ok ()),
     sink_end_file = \<lambda>entry. act_of (Ok ())\<rparr>"

record Reader =
  r_source :: bytes
  r_crc :: "32 word"
  r_read :: nat

definition Reader_new :: "bytes \<Rightarrow> Reader" where
  "Reader_new source = \<lparr>r_source = source, r_crc = crc_new, r_read = 0\<rparr>"

text \<open>An archive that stops early.\<close>

definition short :: "str \<Rightarrow> DbError" where
  "short what = archive_refused (''it ends part way through '' @ what @ ''. It is truncated'')"

text \<open>\<open>read_exact\<close> on the source, with what was read folded into the checksum and the count.\<close>

definition take_exact :: "str \<Rightarrow> nat \<Rightarrow> Reader \<Rightarrow> (bytes \<times> Reader) DbResult" where
  "take_exact what n r =
     (if length (r_source r) < n then Err (short what)
      else let bs = take n (r_source r) in
        Ok (bs, \<lparr>r_source = drop n (r_source r), r_crc = crc_update bs (r_crc r), r_read = r_read r + n\<rparr>))"

definition read_byte :: "Reader \<Rightarrow> (byte \<times> Reader) DbResult" where
  "read_byte r = try_ok (take_exact ''a record tag'' 1 r) (\<lambda>(bs, r). Ok (hd bs, r))"

definition read_length :: "str \<Rightarrow> Reader \<Rightarrow> (nat \<times> Reader) DbResult" where
  "read_length what r = try_ok (take_exact (''the length of '' @ what) 8 r) (\<lambda>(bs, r). Ok (le_value bs, r))"

definition read_key :: "Reader \<Rightarrow> (str \<times> Reader) DbResult" where
  "read_key r =
     try_ok (read_length ''a key'' r) (\<lambda>(len, r).
       if ARCHIVE_MAX_KEY < len then
         Err (archive_refused (''a key of '' @ show_nat len @ '' bytes, past the '' @ show_nat ARCHIVE_MAX_KEY @ '' a key may be''))
       else try_ok (take_exact ''a key'' len r) (\<lambda>(bs, r).
         case from_utf8 bs of None \<Rightarrow> Err (archive_refused ''a key that is not text'') | Some key \<Rightarrow> Ok (key, r)))"

definition read_document :: "str \<Rightarrow> (bytes \<Rightarrow> ('a, str) result) \<Rightarrow> Reader \<Rightarrow> ('a \<times> Reader) DbResult" where
  "read_document what from_slice r =
     try_ok (read_length what r) (\<lambda>(len, r).
       if MAX_DOCUMENT_BYTES < len then
         Err (archive_refused (''its '' @ what @ '' claims to be '' @ show_nat len @ '' bytes, past the '' @ show_nat MAX_DOCUMENT_BYTES @
           '' one may be. It is damaged''))
       else try_ok (take_exact what len r) (\<lambda>(bs, r).
         case from_slice bs of Inl e \<Rightarrow> Err (archive_refused (''its '' @ what @ '' does not decode: '' @ e)) | Inr x \<Rightarrow> Ok (x, r)))"

text \<open>
  \<open>bounded\<close>: the sink has the next \<open>len\<close> bytes, or those that are left, and whatever it does with them they
  are consumed. The sink's own failure comes first.
\<close>

definition bounded :: "nat \<Rightarrow> (bytes \<Rightarrow> ('s, unit) act) \<Rightarrow> Reader \<Rightarrow> ('s, Reader) act" where
  "bounded len f r s =
     (let body = take len (r_source r);
          r' = \<lparr>r_source = drop len (r_source r), r_crc = crc_update body (r_crc r), r_read = r_read r + length body\<rparr>
      in case f body s of None \<Rightarrow> None
         | Some (Inl e, s) \<Rightarrow> Some (Err e, s)
         | Some (Inr _, s) \<Rightarrow> Some (if length body < len then Err (short ''a record'') else Ok r', s))"

text \<open>\<open>{:#04x}\<close> of a tag.\<close>

definition show_tag :: "byte \<Rightarrow> str" where
  "show_tag b = ''0x'' @ pad_left 2 (show_radix 16 (of_char b))"

fun kind_of_tag :: "byte \<Rightarrow> RecordKind option" where
  "kind_of_tag tag = (if tag = TAG_RECORD then Some DataKind else if tag = TAG_DICT then Some DictionaryKind else None)"

text \<open>The front of one record: its key and the length of its body.\<close>

definition read_record_head :: "Reader \<Rightarrow> (str \<times> nat \<times> Reader) DbResult" where
  "read_record_head r =
     try_ok (read_key r) (\<lambda>(key, r). try_ok (read_length ''a record'' r) (\<lambda>(len, r). Ok (key, len, r)))"

lemma take_exact_Ok:
  "take_exact what n r = Ok (bs, r') \<longleftrightarrow> n \<le> length (r_source r) \<and> bs = take n (r_source r) \<and>
     r' = \<lparr>r_source = drop n (r_source r), r_crc = crc_update bs (r_crc r), r_read = r_read r + n\<rparr>"
  by (auto simp: take_exact_def Let_def)

lemma try_ok_Ok: "try_ok m f = Ok y \<longleftrightarrow> (\<exists>x. m = Ok x \<and> f x = Ok y)"
  by (cases m) auto

lemma read_byte_shorter: "read_byte r = Ok (b, r') \<Longrightarrow> length (r_source r') < length (r_source r)"
  by (auto simp: read_byte_def try_ok_Ok take_exact_Ok)

lemma read_length_shorter: "read_length what r = Ok (n, r') \<Longrightarrow> length (r_source r') \<le> length (r_source r)"
  by (auto simp: read_length_def try_ok_Ok take_exact_Ok)

lemma read_key_shorter: "read_key r = Ok (key, r') \<Longrightarrow> length (r_source r') \<le> length (r_source r)"
  by (auto simp: read_key_def try_ok_Ok take_exact_Ok split: if_splits option.splits dest!: read_length_shorter)

lemma read_record_head_shorter: "read_record_head r = Ok (key, len, r') \<Longrightarrow> length (r_source r') \<le> length (r_source r)"
  by (auto simp: read_record_head_def try_ok_Ok dest!: read_key_shorter read_length_shorter)

lemma bounded_shorter: "bounded len f r s = Some (Ok r', s') \<Longrightarrow> length (r_source r') \<le> length (r_source r)"
  by (auto simp: bounded_def Let_def split: option.splits sum.splits if_splits)

function read_records :: "'s Sink \<Rightarrow> FileEntry \<Rightarrow> Reader \<Rightarrow> ('s, Reader) act" where
  "read_records snk entry r s =
     (case read_byte r of Inl e \<Rightarrow> Some (Err e, s)
      | Inr (tag, r1) \<Rightarrow>
        if tag = TAG_END_OF_FILE then Some (Ok r1, s)
        else case kind_of_tag tag of
          None \<Rightarrow> Some (Err (archive_refused (''an unknown record tag '' @ show_tag tag @ '' inside file '' @ [CHR 0x27] @ fe_name entry @ [CHR 0x27])), s)
        | Some kind \<Rightarrow>
          (case read_record_head r1 of Inl e \<Rightarrow> Some (Err e, s)
           | Inr (key, len, r2) \<Rightarrow>
             (case bounded len (sink_record snk entry kind key len) r2 s of None \<Rightarrow> None
              | Some (Inl e, s1) \<Rightarrow> Some (Err e, s1)
              | Some (Inr r3, s1) \<Rightarrow> read_records snk entry r3 s1)))"
  by pat_completeness auto
termination
  by (relation "measure (\<lambda>(_, _, r, _). length (r_source r))")
    (auto dest!: read_byte_shorter read_record_head_shorter bounded_shorter simp del: kind_of_tag.simps)

declare read_records.simps [simp del]

fun read_files :: "'s Sink \<Rightarrow> nat \<Rightarrow> FileEntry list \<Rightarrow> Reader \<Rightarrow> ('s, Reader) act" where
  "read_files snk index [] r = act_of (Ok r)"
| "read_files snk index (entry # entries) r =
     act_then (sink_begin_file snk index entry) (\<lambda>_.
       act_then (read_records snk entry r) (\<lambda>r.
         act_then (sink_end_file snk entry) (\<lambda>_. read_files snk (Suc index) entries r)))"

text \<open>The magic, the manifest and its version.\<close>

definition read_front :: "Documents \<Rightarrow> Reader \<Rightarrow> (Manifest \<times> Reader) DbResult" where
  "read_front docs r =
     try_ok (take_exact ''its header'' (length ARCHIVE_MAGIC) r) (\<lambda>(magic, r).
       if magic \<noteq> ARCHIVE_MAGIC then
         Err (archive_refused (''it does not start with an archive header. Check the path names an archive and not something else''))
       else try_ok (read_document ''manifest'' (manifest_of docs) r) (\<lambda>(m, r).
         if ARCHIVE_CURRENT < archive_format m \<or> archive_format m < OLDEST_SUPPORTED then
           Err (archive_refused (''it is archive format '' @ show_nat (archive_format m) @ '', and this build reads '' @ show_nat OLDEST_SUPPORTED @
             '' to '' @ show_nat ARCHIVE_CURRENT))
         else Ok (m, r)))"

text \<open>What follows the records: the closing tag, the trailer and the checksum, which is outside itself.\<close>

definition read_back :: "Documents \<Rightarrow> Manifest \<Rightarrow> Reader \<Rightarrow> Summary DbResult" where
  "read_back docs m r =
     try_ok (read_byte r) (\<lambda>(tag, r).
       if tag \<noteq> TAG_END_OF_ARCHIVE then
         Err (archive_refused (''the file list ended and the archive did not - found tag '' @ show_tag tag))
       else try_ok (read_document ''trailer'' (trailer_of docs) r) (\<lambda>(t, r).
         if length (tr_files t) \<noteq> length (man_files m) then
           Err (archive_refused (''the manifest describes '' @ show_nat (length (man_files m)) @ '' files and the trailer counts '' @
             show_nat (length (tr_files t))))
         else if length (r_source r) < 4 then Err (short ''the checksum'')
         else let computed = crc_finish (r_crc r); stored = le_value (take 4 (r_source r)) in
           if unat computed \<noteq> stored then
             Err (archive_refused (''its checksum does not match its contents ('' @ pad_left 8 (show_radix 16 stored) @ '' stored, '' @
               pad_left 8 (show_radix 16 (unat computed)) @ '' computed). It was truncated, altered, or written by a failed export''))
           else Ok \<lparr>sum_manifest = m, sum_trailer = t, archive_bytes = r_read r + 4\<rparr>))"

definition read_archive :: "Documents \<Rightarrow> bytes \<Rightarrow> 's Sink \<Rightarrow> ('s, Summary) act" where
  "read_archive docs source snk =
     act_then (act_of (read_front docs (Reader_new source))) (\<lambda>(m, r).
       act_then (read_files snk 0 (man_files m) r) (\<lambda>r. act_of (read_back docs m r)))"

definition verify_archive :: "Documents \<Rightarrow> bytes \<Rightarrow> Summary DbResult" where
  "verify_archive docs source =
     (case read_archive docs source Discard () of Some (r, _) \<Rightarrow> r | None \<Rightarrow> Err (archive_refused []))"

end
