(* ===== verification/Protocol.thy ===== *)
theory Protocol
  imports Record_Json Query Transact Archive
begin

text \<open>
  The wire protocol (\<^verbatim>\<open>server/models.rs\<close>) and how a request is read (\<^verbatim>\<open>server/handler.rs\<close>): the error
  codes and what each failure of the engine is classified as, \<open>Request\<close> and \<open>Response\<close>, and the functions
  that take a request's fields, check them and answer either what was asked for or the refusal to send.
  A \<open>Response\<close> carries its JSON payloads as \<open>Json\<close>; the text of a JSON value that is neither text nor number
  is the parameter \<open>json_text\<close>, as in \<open>Record_Json\<close>.
\<close>

section \<open>Error codes\<close>

datatype ErrorCode =
    MissingFieldCode | InvalidDataCode | InvalidQueryCode | InvalidJsonCode | UnknownCommandCode | AdminRequiredCode
  | AccessDeniedCode | DeauthorizedCode | AccountNotSpecifiedCode | AccountNotFoundCode | AccountExistsCode | AccountProtectedCode
  | FileNotFoundCode | FileExistsCode | RecordNotFoundCode | SelectListNotFoundCode | ClientNotFoundCode | IndexNotFoundCode
  | IndexExistsCode | InvalidFieldCode | InvalidRequestCode | PreconditionFailedCode | TransactionScopeCode | CorruptDataCode
  | PermissionDeniedCode | IoErrorCode | UnavailableCode

definition ErrorCode_ALL :: "ErrorCode list" where
  "ErrorCode_ALL =
     [MissingFieldCode, InvalidDataCode, InvalidQueryCode, InvalidJsonCode, UnknownCommandCode, AdminRequiredCode,
      AccessDeniedCode, DeauthorizedCode, AccountNotSpecifiedCode, AccountNotFoundCode, AccountExistsCode, AccountProtectedCode,
      FileNotFoundCode, FileExistsCode, RecordNotFoundCode, SelectListNotFoundCode, ClientNotFoundCode, IndexNotFoundCode,
      IndexExistsCode, InvalidFieldCode, InvalidRequestCode, PreconditionFailedCode, TransactionScopeCode, CorruptDataCode,
      PermissionDeniedCode, IoErrorCode, UnavailableCode]"

fun code_as_str :: "ErrorCode \<Rightarrow> str" where
  "code_as_str MissingFieldCode = ''MISSING_FIELD''"
| "code_as_str InvalidDataCode = ''INVALID_DATA''"
| "code_as_str InvalidQueryCode = ''INVALID_QUERY''"
| "code_as_str InvalidJsonCode = ''INVALID_JSON''"
| "code_as_str UnknownCommandCode = ''UNKNOWN_COMMAND''"
| "code_as_str AdminRequiredCode = ''ADMIN_REQUIRED''"
| "code_as_str AccessDeniedCode = ''ACCESS_DENIED''"
| "code_as_str DeauthorizedCode = ''DEAUTHORIZED''"
| "code_as_str AccountNotSpecifiedCode = ''ACCOUNT_NOT_SPECIFIED''"
| "code_as_str AccountNotFoundCode = ''ACCOUNT_NOT_FOUND''"
| "code_as_str AccountExistsCode = ''ACCOUNT_EXISTS''"
| "code_as_str AccountProtectedCode = ''ACCOUNT_PROTECTED''"
| "code_as_str FileNotFoundCode = ''FILE_NOT_FOUND''"
| "code_as_str FileExistsCode = ''FILE_EXISTS''"
| "code_as_str RecordNotFoundCode = ''RECORD_NOT_FOUND''"
| "code_as_str SelectListNotFoundCode = ''SELECT_LIST_NOT_FOUND''"
| "code_as_str ClientNotFoundCode = ''CLIENT_NOT_FOUND''"
| "code_as_str IndexNotFoundCode = ''INDEX_NOT_FOUND''"
| "code_as_str IndexExistsCode = ''INDEX_EXISTS''"
| "code_as_str InvalidFieldCode = ''INVALID_FIELD''"
| "code_as_str InvalidRequestCode = ''INVALID_REQUEST''"
| "code_as_str PreconditionFailedCode = ''PRECONDITION_FAILED''"
| "code_as_str TransactionScopeCode = ''TRANSACTION_SCOPE''"
| "code_as_str CorruptDataCode = ''CORRUPT_DATA''"
| "code_as_str PermissionDeniedCode = ''PERMISSION_DENIED''"
| "code_as_str IoErrorCode = ''IO_ERROR''"
| "code_as_str UnavailableCode = ''UNAVAILABLE''"

definition code_from_wire :: "str \<Rightarrow> ErrorCode option" where
  "code_from_wire code = List.find (\<lambda>c. code_as_str c = code) ErrorCode_ALL"

definition code_of_io :: "IoError \<Rightarrow> ErrorCode" where
  "code_of_io e =
     (case io_kind e of PermissionDenied \<Rightarrow> PermissionDeniedCode | InvalidData \<Rightarrow> CorruptDataCode
      | InvalidInput \<Rightarrow> InvalidDataCode | _ \<Rightarrow> IoErrorCode)"

fun code_of :: "DbError \<Rightarrow> ErrorCode" where
  "code_of NoAccount = AccountNotSpecifiedCode"
| "code_of (AccountNotFound _) = AccountNotFoundCode"
| "code_of (AccountExists _) = AccountExistsCode"
| "code_of (AccountProtected _) = AccountProtectedCode"
| "code_of (FileNotFound _ _) = FileNotFoundCode"
| "code_of (FileExists _ _) = FileExistsCode"
| "code_of (IndexExists _ _) = IndexExistsCode"
| "code_of (IndexNotFound _ _) = IndexNotFoundCode"
| "code_of (InvalidField _ _) = InvalidFieldCode"
| "code_of (InvalidRequest _) = InvalidRequestCode"
| "code_of (TransactionScope _) = TransactionScopeCode"
| "code_of (PreconditionFailed _) = PreconditionFailedCode"
| "code_of (IncompatibleStorage _ _) = UnavailableCode"
| "code_of (Io e) = code_of_io e"

section \<open>Requests and responses\<close>

record ChangeSpec =
  spec_op :: "str option"
  spec_file :: "str option"
  spec_key :: "str option"
  spec_data :: "Json option"
  spec_structured :: "Json option"
  spec_is_dict :: "bool option"

record Request =
  req_command :: str
  req_account :: "str option"
  req_target_account :: "str option"
  req_file :: "str option"
  req_key :: "str option"
  req_data :: "Json option"
  req_structured :: "Json option"
  req_is_dict :: "bool option"
  req_query_node :: "QueryNode option"
  req_query_string :: "str option"
  req_sort_specs :: "SortSpec list option"
  req_explode :: "str list option"
  req_list_name :: "str option"
  req_batch_size :: "nat option"
  req_thumbprint :: "str option"
  req_name :: "str option"
  req_accounts_list :: "str list option"
  req_is_admin :: "bool option"
  req_days :: "nat option"
  req_capabilities :: "str list option"
  req_enqueue_files :: "str list option"
  req_durable :: "bool option"
  req_field :: "str option"
  req_values :: "str list option"
  req_limit :: "nat option"
  req_queue :: "bool option"
  req_visibility_timeout :: "nat option"
  req_max_deliveries :: "nat option"
  req_delay_seconds :: "nat option"
  req_due :: "nat option"
  req_wait_seconds :: "nat option"
  req_directory :: "bool option"
  req_path :: "str option"
  req_length :: "nat option"
  req_changes :: "ChangeSpec list option"
  req_autokey :: "bool option"
  req_if_absent :: "bool option"
  req_overwrite :: "bool option"
  req_dry_run :: "bool option"
  req_if_match :: "str option"

record Response =
  status :: str
  message :: "str option"
  code :: "ErrorCode option"
  resp_record :: "Json option"
  results :: "(str \<times> Json) list option"
  resp_keys :: "str list option"
  resp_count :: "nat option"
  positions :: "ValuePosition option list option"
  claim :: "Json option"
  resp_key :: "str option"
  resp_version :: "str option"
  resp_length :: "nat option"
  resp_archive :: "Json option"

definition Response_default :: Response where
  "Response_default = \<lparr>status = [], message = None, code = None, resp_record = None, results = None, resp_keys = None,
     resp_count = None, positions = None, claim = None, resp_key = None, resp_version = None, resp_length = None, resp_archive = None\<rparr>"

definition resp_ok :: Response where "resp_ok = Response_default\<lparr>status := ''OK''\<rparr>"

definition error_reply :: "ErrorCode \<Rightarrow> str \<Rightarrow> Response" where
  "error_reply c msg = Response_default\<lparr>status := ''ERROR'', message := Some msg, code := Some c\<rparr>"

definition db_error :: "DbError \<Rightarrow> Response" where
  "db_error e = error_reply (code_of e) (error_display e)"

definition db_error_in :: "str \<Rightarrow> DbError \<Rightarrow> Response" where
  "db_error_in ctx e = error_reply (code_of e) (ctx @ '': '' @ error_display e)"

definition decode_error :: "RecordDecodeError \<Rightarrow> Response" where
  "decode_error e = error_reply InvalidDataCode (decode_error_display e)"

definition write_error :: "DbError \<Rightarrow> Response" where
  "write_error e = (case e of PreconditionFailed _ \<Rightarrow> db_error e | InvalidRequest _ \<Rightarrow> db_error e | _ \<Rightarrow> db_error_in ''Save error'' e)"

definition queue_empty :: Response where
  "queue_empty = Response_default\<lparr>status := ''EMPTY'', resp_count := Some 0\<rparr>"

type_synonym 'a read = "('a, Response) result"

definition missing :: "str \<Rightarrow> 'a read" where "missing msg = Err (error_reply MissingFieldCode msg)"
definition refuse :: "ErrorCode \<Rightarrow> str \<Rightarrow> 'a read" where "refuse c msg = Err (error_reply c msg)"

section \<open>Who is asking\<close>

definition is_record_command :: "str \<Rightarrow> bool" where
  "is_record_command command \<longleftrightarrow> command \<in> set [''READ'', ''WRITE'', ''DELETE'', ''QUERY'', ''TRANSACT'', ''ENQUEUE'', ''DEQUEUE'', ''ACK'', ''NACK'', ''PEEK'']"

definition needs_no_current_account :: "str \<Rightarrow> bool" where
  "needs_no_current_account command \<longleftrightarrow> command \<in> set [''GET.NEXT'', ''CREATE.ACCOUNT'', ''DELETE.ACCOUNT'', ''CREATE.TEST.ACCOUNT'',
     ''AUTHORIZE.CONN'', ''DEAUTHORIZE.CONN'', ''ADD.CLIENT.ACCOUNT'', ''REMOVE.CLIENT.ACCOUNT'', ''GENERATE.CERT'', ''LIST.CONNS'', ''SERVER.STATS'']"

definition capability_required :: "Capability \<Rightarrow> str" where
  "capability_required c = ''Not authorized: this command requires ADMIN or the '' @ quoted (capability_as_str c) @ '' capability''"

definition allowed_account :: "Request \<Rightarrow> ClientInfo \<Rightarrow> str option" where
  "allowed_account req client =
     (case req_account req of
        Some acc \<Rightarrow> if may_reach client acc then Some acc else None
      | None \<Rightarrow> (case allowed_accounts client of [acc] \<Rightarrow> Some acc | _ \<Rightarrow> None))"

definition access_denied :: "str \<Rightarrow> str" where
  "access_denied acc = ''Access denied for account '' @ acc @ '': Not in allowed list''"

definition transfer_account :: "Request \<Rightarrow> ClientInfo \<Rightarrow> str read" where
  "transfer_account req client =
     (case allowed_account req client of Some acc \<Rightarrow> Ok acc
      | None \<Rightarrow>
        (case req_account req of Some acc \<Rightarrow> refuse AccessDeniedCode (access_denied acc)
         | None \<Rightarrow> refuse AccountNotSpecifiedCode ''Account not specified''))"

definition enqueue_grant_target :: "str \<Rightarrow> Request \<Rightarrow> ClientInfo \<Rightarrow> str option" where
  "enqueue_grant_target command req client =
     (if command \<notin> set [''ENQUEUE'', ''FILE.STATS''] then None
      else case (req_account req, req_file req) of
          (Some account, Some fname) \<Rightarrow> if \<not> may_reach client account \<and> may_enqueue client account fname then Some account else None
        | _ \<Rightarrow> None)"

section \<open>What is asked for\<close>

definition requested_file :: "Request \<Rightarrow> str read" where
  "requested_file req = (case req_file req of Some name \<Rightarrow> Ok name | None \<Rightarrow> missing ''File not specified'')"

definition index_target :: "Request \<Rightarrow> (str \<times> str) read" where
  "index_target req =
     (case map_option trim (req_file req) of
        Some fname \<Rightarrow> (if fname = [] then missing ''File not specified'' else
          (case map_option trim (req_field req) of
             Some fld \<Rightarrow> (if fld = [] then missing ''Field not specified'' else Ok (fname, fld))
           | None \<Rightarrow> missing ''Field not specified''))
      | None \<Rightarrow> missing ''File not specified'')"

definition DEFAULT_CLIENT_CERT_DAYS :: nat where "DEFAULT_CLIENT_CERT_DAYS = 365"

definition max_client_cert_days :: "nat option \<Rightarrow> nat" where
  "max_client_cert_days configured =
     (case configured of Some days \<Rightarrow> (if 0 < days then days else DEFAULT_CLIENT_CERT_DAYS) | None \<Rightarrow> DEFAULT_CLIENT_CERT_DAYS)"

definition requested_cert_days :: "nat option \<Rightarrow> nat option \<Rightarrow> nat read" where
  "requested_cert_days requested configured =
     (let ceiling = max_client_cert_days configured in
      case requested of
        None \<Rightarrow> Ok (min DEFAULT_CLIENT_CERT_DAYS ceiling)
      | Some days \<Rightarrow>
          if days = 0 then refuse InvalidRequestCode ''A certificate lifetime of 0 days is not a certificate; ask for at least 1''
          else if ceiling < days then
            refuse InvalidRequestCode (''A lifetime of '' @ show_nat days @ '' days exceeds this deployment'' @ [CHR 0x27] @ ''s maximum of '' @
              show_nat ceiling @ ''; raise max_client_cert_days to allow it'')
          else Ok days)"

fun requested_each :: "(str \<Rightarrow> 'a option) \<Rightarrow> (str \<Rightarrow> Response) \<Rightarrow> str list \<Rightarrow> 'a list \<Rightarrow> 'a list read" where
  "requested_each parse refusal [] granted = Ok granted"
| "requested_each parse refusal (name # names) granted =
     (case parse name of
        Some x \<Rightarrow> requested_each parse refusal names (if x \<in> set granted then granted else granted @ [x])
      | None \<Rightarrow> Err (refusal name))"

definition requested_capabilities :: "str list option \<Rightarrow> Capability list read" where
  "requested_capabilities names =
     requested_each capability_parse
       (\<lambda>name. error_reply InvalidDataCode (''Unknown capability '' @ quoted name @ ''. Known capabilities: '' @
          join_str '', '' (map capability_as_str Capability_ALL)))
       (case names of Some ns \<Rightarrow> ns | None \<Rightarrow> []) []"

definition requested_enqueue_files :: "str list option \<Rightarrow> EnqueueGrant list read" where
  "requested_enqueue_files requested =
     requested_each enqueue_grant_parse
       (\<lambda>txt. error_reply InvalidDataCode (quoted txt @ '' is not an enqueue grant; write it as <ACCOUNT>/<FILE>''))
       (case requested of Some ts \<Rightarrow> ts | None \<Rightarrow> []) []"

definition requested_wait :: "Request \<Rightarrow> duration option read" where
  "requested_wait req =
     (case req_wait_seconds req of None \<Rightarrow> Ok None
      | Some seconds \<Rightarrow>
          if seconds = 0 then Ok None
          else if MAX_WAIT_SECONDS < seconds then
            refuse InvalidDataCode (''wait_seconds can be at most '' @ show_nat MAX_WAIT_SECONDS @ ''; wait again if nothing came'')
          else Ok (Some (from_secs seconds)))"

definition held_too_far :: Response where
  "held_too_far = error_reply InvalidDataCode (''A record can be held back for at most '' @ show_nat MAX_DELAY_SECONDS @ '' seconds ('' @
     show_nat (MAX_DELAY_SECONDS div 86400) @ '' days); a queue is for work that is going to be done'')"

definition requested_due :: "Request \<Rightarrow> nat \<Rightarrow> nat option read" where
  "requested_due req now_millis =
     (case (req_delay_seconds req, req_due req) of
        (Some _, Some _) \<Rightarrow> refuse InvalidRequestCode ''delay_seconds and due both say when the record may be claimed; name one''
      | (None, None) \<Rightarrow> Ok None
      | (Some seconds, None) \<Rightarrow>
          if seconds = 0 then Ok None
          else if MAX_DELAY_SECONDS < seconds then Err held_too_far
          else Ok (Some (saturating_add now_millis (seconds * 1000)))
      | (None, Some due_at) \<Rightarrow>
          if saturating_add now_millis (MAX_DELAY_SECONDS * 1000) < due_at then Err held_too_far else Ok (Some due_at))"

definition requested_condition :: "Request \<Rightarrow> WriteCondition read" where
  "requested_condition req =
     (case (req_if_absent req = Some True, req_if_match req) of
        (True, Some _) \<Rightarrow> refuse InvalidRequestCode (''if_absent and if_match contradict each other: one says the key holds nothing, '' @
            ''the other says which record it holds'')
      | (True, None) \<Rightarrow> Ok IfAbsent
      | (False, Some v) \<Rightarrow>
          if v = [] then refuse InvalidDataCode ''if_match needs the version a READ reported; an empty one matches nothing'' else Ok (IfMatch v)
      | (False, None) \<Rightarrow> Ok Always)"

section \<open>What a file is to be\<close>

definition current_is_new :: "FileAttributes \<Rightarrow> bool" where
  "current_is_new current \<longleftrightarrow> current = FileAttributes_default"

definition or_else :: "'a option \<Rightarrow> 'a \<Rightarrow> 'a" where
  "or_else x d = (case x of Some y \<Rightarrow> y | None \<Rightarrow> d)"

definition visibility_refusal :: Response where
  "visibility_refusal = error_reply InvalidDataCode (''visibility_timeout must be between 1 and '' @ show_nat MAX_VISIBILITY_SECONDS @ '' seconds'')"

definition directory_attributes :: "Request \<Rightarrow> FileAttributes \<Rightarrow> bool \<Rightarrow> FileAttributes read" where
  "directory_attributes req current wants_autokey =
     (if req_queue req = Some True \<or> req_visibility_timeout req \<noteq> None \<or> req_max_deliveries req \<noteq> None then
        refuse InvalidRequestCode ''A directory file cannot be a queue: its records are host files, with no order to claim from''
      else if wants_autokey then
        refuse InvalidRequestCode (''A directory file cannot mint keys: its keys are the names of host files, which is what a caller '' @
          ''opens them by'')
      else if req_durable req = Some False then
        refuse InvalidRequestCode ''A directory file has no buffered writes to make durable: a record is on disk when the write returns''
      else
        Ok \<lparr>durable = False, att_queue = None,
            att_directory = Some \<lparr>policy_path = (case req_path req of Some path \<Rightarrow> path
              | None \<Rightarrow> (case att_directory current of Some policy \<Rightarrow> policy_path policy | None \<Rightarrow> []))\<rparr>,
            autokey = False\<rparr>)"

definition queue_attributes :: "Request \<Rightarrow> FileAttributes \<Rightarrow> FileAttributes read" where
  "queue_attributes req current =
     (let existing = or_else (att_queue current) QueuePolicy_default in
      case (case req_visibility_timeout req of None \<Rightarrow> Ok (visibility existing)
            | Some seconds \<Rightarrow> if 1 \<le> seconds \<and> seconds \<le> MAX_VISIBILITY_SECONDS then Ok (from_secs seconds) else Err visibility_refusal) of
        Inl resp \<Rightarrow> Err resp
      | Inr vis \<Rightarrow>
        (case (case req_max_deliveries req of None \<Rightarrow> Ok (max_deliveries existing)
               | Some n \<Rightarrow> if 1 \<le> n \<and> n \<le> MAX_DELIVERY_LIMIT then Ok n
                   else refuse InvalidDataCode (''max_deliveries must be between 1 and '' @ show_nat MAX_DELIVERY_LIMIT)) of
           Inl resp \<Rightarrow> Err resp
         | Inr n \<Rightarrow>
           Ok \<lparr>durable = or_else (req_durable req) (if att_queue current \<noteq> None then durable current else True),
               att_queue = Some \<lparr>visibility = vis, max_deliveries = n\<rparr>, att_directory = None, autokey = False\<rparr>))"

definition requested_attributes :: "Request \<Rightarrow> FileAttributes \<Rightarrow> FileAttributes read" where
  "requested_attributes req current =
     (let wants_directory = or_else (req_directory req) (is_directory current \<or> req_path req \<noteq> None);
          wants_autokey = or_else (req_autokey req) (autokey current);
          wants_queue = or_else (req_queue req) (att_queue current \<noteq> None \<or> req_visibility_timeout req \<noteq> None \<or> req_max_deliveries req \<noteq> None)
      in
      if wants_directory \<noteq> is_directory current \<and> \<not> current_is_new current then
        refuse InvalidRequestCode (''A file'' @ [CHR 0x27] @ ''s type is fixed when it is created: create a new file of the type you want and move the records'')
      else if wants_directory then directory_attributes req current wants_autokey
      else if req_path req \<noteq> None then
        refuse InvalidRequestCode (''path names where a directory file'' @ [CHR 0x27] @ ''s records live; give directory as well, or leave both out'')
      else if \<not> wants_queue then
        Ok \<lparr>durable = or_else (req_durable req) (durable current), att_queue = None, att_directory = None, autokey = wants_autokey\<rparr>
      else if wants_autokey then
        refuse InvalidRequestCode (''A queue file already mints the key of every record it stores: use ENQUEUE, or create a separate '' @
          ''autokey file for records that are not claimed'')
      else queue_attributes req current)"

definition nothing_to_set :: "Request \<Rightarrow> bool" where
  "nothing_to_set req \<longleftrightarrow> req_durable req = None \<and> req_queue req = None \<and> req_autokey req = None \<and> req_visibility_timeout req = None \<and>
     req_max_deliveries req = None \<and> req_directory req = None \<and> req_path req = None"

section \<open>Backups\<close>

definition given :: "str option \<Rightarrow> str option" where
  "given x = (case x of Some s \<Rightarrow> (if trim s = [] then None else Some s) | None \<Rightarrow> None)"

definition export_source :: "str \<Rightarrow> Request \<Rightarrow> str \<Rightarrow> Source read" where
  "export_source command0 req acc =
     (let command =
        (if command0 = ''EXPORT.BYTES'' then
           (if given (req_file req) \<noteq> None then ''EXPORT.FILE''
            else if given (req_target_account req) \<noteq> None then ''EXPORT.ACCOUNT'' else ''EXPORT.ALL'')
         else command0)
      in if command = ''EXPORT.FILE'' then map_sum id (SourceFile acc) (requested_file req)
         else if command = ''EXPORT.ACCOUNT'' then
           (let account = or_else (given (req_target_account req)) acc in
            if account = [] then refuse AccountNotSpecifiedCode ''Account not specified'' else Ok (SourceAccount account))
         else Ok SourceAll)"

definition import_plan :: "Request \<Rightarrow> ImportPlan" where
  "import_plan req = \<lparr>into_account = given (req_target_account req), plan_overwrite = or_else (req_overwrite req) False,
     plan_dry_run = or_else (req_dry_run req) False\<rparr>"

section \<open>Dictionary entries\<close>

definition DEFAULT_DICT_WIDTH :: int where "DEFAULT_DICT_WIDTH = int DEFAULT_FIELD_WIDTH"
definition DICT_JUSTIFICATIONS :: "str list" where "DICT_JUSTIFICATIONS = [''L'', ''R'']"
definition DICT_ASSOC_DEPTHS :: "str list" where "DICT_ASSOC_DEPTHS = [ASSOC_VALUE, ASSOC_SUB_VALUE]"

definition json_get :: "Json \<Rightarrow> str \<Rightarrow> Json option" where
  "json_get v name = Option.bind (as_object v) (\<lambda>m. map_of m name)"

definition spec_text :: "Json \<Rightarrow> str \<Rightarrow> str option" where
  "spec_text spec name =
     (case json_get spec name of Some (JString s) \<Rightarrow> Some (trim s) | Some (JNumber n) \<Rightarrow> Some (number_text n) | _ \<Rightarrow> None)"

text \<open>The crate's negative integers are negative 64-bit numbers.\<close>

fun number_as_i64 :: "Number \<Rightarrow> int option" where
  "number_as_i64 (PosInt n) = (if n < 2 ^ 63 then Some (int n) else None)"
| "number_as_i64 (NegInt i) = (if - (2 ^ 63) \<le> i \<and> i < 0 then Some i else None)"
| "number_as_i64 (Float _) = None"

definition spec_number :: "(Json \<Rightarrow> str) \<Rightarrow> Json \<Rightarrow> str \<Rightarrow> (int option, str) result" where
  "spec_number json_text spec name =
     (case json_get spec name of
        None \<Rightarrow> Ok None
      | Some v \<Rightarrow>
        (case v of
           JNull \<Rightarrow> Ok None
         | JNumber n \<Rightarrow> (case number_as_i64 n of Some i \<Rightarrow> Ok (Some i) | None \<Rightarrow> Err (number_text n))
         | JString s \<Rightarrow> (if trim s = [] then Ok None else case parse_i64 (trim s) of Some i \<Rightarrow> Ok (Some i) | None \<Rightarrow> Err s)
         | other \<Rightarrow> Err (json_text other)))"

definition at_least_one :: "(int option, str) result \<Rightarrow> str \<Rightarrow> (int, str) result \<Rightarrow> (int, str) result" where
  "at_least_one n what absent =
     (case n of
        Inr (Some i) \<Rightarrow> if 1 \<le> i then Ok i else Err (what @ '' must be 1 or greater'')
      | Inr None \<Rightarrow> absent
      | Inl s \<Rightarrow> Err (what @ '' is not a whole number: '' @ s))"

definition upper_text :: "str option \<Rightarrow> str \<Rightarrow> str" where
  "upper_text x d = (case x of Some s \<Rightarrow> (if s = [] then d else to_uppercase s) | None \<Rightarrow> d)"

definition drop_trailing_empty :: "str list \<Rightarrow> str list" where
  "drop_trailing_empty xs = rev (dropWhile (\<lambda>a. a = []) (rev xs))"

definition entry_record :: "str \<Rightarrow> Json \<Rightarrow> int \<Rightarrow> int \<Rightarrow> (Record, str) result" where
  "entry_record key spec fld width =
     (let heading = (case spec_text spec ''heading'' of Some h \<Rightarrow> (if h = [] then key else h) | None \<Rightarrow> key);
          justification = upper_text (spec_text spec ''justification'') (DICT_JUSTIFICATIONS ! 0);
          conv = or_else (spec_text spec ''conversion'') [];
          assoc = or_else (spec_text spec ''association'') [];
          depth = upper_text (spec_text spec ''associationDepth'') []
      in
      if justification \<notin> set DICT_JUSTIFICATIONS then
        Err (''Justification must be '' @ DICT_JUSTIFICATIONS ! 0 @ '' or '' @ DICT_JUSTIFICATIONS ! 1)
      else if assoc = key then Err ''A dictionary entry cannot be associated with itself''
      else if depth \<noteq> [] \<and> depth \<notin> set DICT_ASSOC_DEPTHS then
        Err (''Association depth must be '' @ DICT_ASSOC_DEPTHS ! 0 @ '' (value) or '' @ DICT_ASSOC_DEPTHS ! 1 @ '' (sub-value)'')
      else if assoc = [] \<and> depth \<noteq> [] then Err ''Association depth given without a controlling field''
      else
        Ok (from_attributes (drop_trailing_empty
          [show_i64 fld, heading, justification, show_i64 width, assoc,
           if assoc \<noteq> [] \<and> depth = [] then DICT_ASSOC_DEPTHS ! 0 else depth, [], conv])))"

definition dictionary_record :: "(Json \<Rightarrow> str) \<Rightarrow> str \<Rightarrow> Json \<Rightarrow> (Record, str) result" where
  "dictionary_record json_text key spec =
     (case at_least_one (spec_number json_text spec ''field'') ''Attribute number'' (Err ''Attribute number not specified'') of
        Inl e \<Rightarrow> Err e
      | Inr fld \<Rightarrow>
        (case at_least_one (spec_number json_text spec ''width'') ''Display width'' (Ok DEFAULT_DICT_WIDTH) of
           Inl e \<Rightarrow> Err e
         | Inr width \<Rightarrow> entry_record key spec fld width))"

definition json_i64 :: "int option \<Rightarrow> Json" where
  "json_i64 x = (case x of None \<Rightarrow> JNull | Some i \<Rightarrow> JNumber (if 0 \<le> i then PosInt (nat i) else NegInt i))"

definition json_object :: "(str \<times> Json) list \<Rightarrow> Json" where
  "json_object entries = JObject (fold (\<lambda>(k, v). obj_insert k v) entries [])"

definition dictionary_entry :: "Record \<Rightarrow> Json" where
  "dictionary_entry r =
     (let attribute = get_field_display_string r;
          num = (\<lambda>idx. json_i64 (parse_i64 (trim (attribute idx))))
      in json_object
        [(''field'', num DICT_FIELD_IDX), (''heading'', JString (attribute DICT_NAME_IDX)),
         (''justification'', JString (attribute DICT_JUSTIFY_IDX)), (''width'', num DICT_WIDTH_IDX),
         (''association'', JString (attribute DICT_ASSOC_IDX)), (''associationDepth'', JString (attribute DICT_ASSOC_DEPTH_IDX)),
         (''conversion'', JString (attribute DICT_CONV_IDX)), (''definition'', JString (to_display_string r))])"

end
