(* ===== verification/Handler.thy ===== *)
theory Handler
  imports Protocol Queue_Engine
begin

text \<open>
  The commands of the server (\<^verbatim>\<open>server/handler.rs\<close>) on the engine's state. A handler is a command that
  answers a \<open>Response\<close>, whatever happened: an early return of the source is the response it returns. What
  the process gives a handler, its clock, the number scaling and text printing of its libraries, the digest
  behind record versions and the name of the next temporary file, is the record \<open>Service\<close>; \<open>pins\<close> are the
  tables other connections hold.

  Which command may run, and on what, is \<open>authorize\<close> over the actions a request can come to: one per arm of
  the dispatch, carrying what the arm goes on with.
\<close>

record Service =
  svc_settings :: Settings
  pins :: "table_key list"
  tick :: nat
  wall :: nat
  json_text :: "Json \<Rightarrow> str"
  scale_out :: "str \<Rightarrow> nat \<Rightarrow> str option"
  scale_in :: "str \<Rightarrow> nat \<Rightarrow> str option"
  digest :: "bytes \<Rightarrow> bytes"
  max_record_bytes :: nat
  tmp_name :: str
  log_key :: str
  log_detail :: "str option"
  cert_config :: "nat option option"

definition reply_with :: "'a cmd \<Rightarrow> (DbError \<Rightarrow> Response) \<Rightarrow> ('a \<Rightarrow> Response cmd) \<Rightarrow> Response cmd" where
  "reply_with m refused f = and_then (outcome_of m) (\<lambda>r. case r of Inl e \<Rightarrow> ret (refused e) | Inr x \<Rightarrow> f x)"

definition read_then :: "'a read \<Rightarrow> ('a \<Rightarrow> Response cmd) \<Rightarrow> Response cmd" where
  "read_then r f = (case r of Inl resp \<Rightarrow> ret resp | Inr x \<Rightarrow> f x)"

definition resolve_file :: "Service \<Rightarrow> str \<Rightarrow> str \<Rightarrow> unit cmd" where
  "resolve_file svc acc name = get_table_mut (svc_settings svc) (pins svc) acc name"

definition table_of :: "table_key \<Rightarrow> Table cmd" where
  "table_of key = with_table key (\<lambda>t. (t, t))"

section \<open>Records of a request\<close>

definition record_from :: "Service \<Rightarrow> Table \<Rightarrow> Json option \<Rightarrow> Json option \<Rightarrow> Record read" where
  "record_from svc t data structured =
     (let decode = (\<lambda>v. case deserialize_record_in (json_text svc) (scale_in svc) t v of Inl e \<Rightarrow> Err (decode_error e) | Inr r \<Rightarrow> Ok r) in
      case structured of Some v \<Rightarrow> decode v
      | None \<Rightarrow>
        (case data of
           Some (JString s) \<Rightarrow> Ok (from_display_string s)
         | Some (JObject m) \<Rightarrow> decode (JObject m)
         | Some _ \<Rightarrow> refuse InvalidDataCode ''Invalid data type in data field: expected string or object''
         | None \<Rightarrow> missing ''Data not specified''))"

definition queued_record :: "Service \<Rightarrow> str \<Rightarrow> Request \<Rightarrow> (str \<times> Record) read cmd" where
  "queued_record svc acc req =
     (case requested_file req of Inl resp \<Rightarrow> ret (Err resp)
      | Inr fname \<Rightarrow>
        and_then (outcome_of (resolve_file svc acc fname)) (\<lambda>r.
        case r of Inl e \<Rightarrow> ret (Err (db_error e))
        | Inr _ \<Rightarrow> and_then (table_of (acc, fname)) (\<lambda>t.
            ret (map_sum id (\<lambda>x. (fname, x)) (record_from svc t (req_data req) (req_structured req))))))"

section \<open>Queue commands\<close>

datatype Settle = Ack | Nack

definition json_nat :: "nat \<Rightarrow> Json" where "json_nat n = JNumber (PosInt n)"

definition optional_entry :: "str \<Rightarrow> Json option \<Rightarrow> (str \<times> Json) list" where
  "optional_entry k v = (case v of None \<Rightarrow> [] | Some x \<Rightarrow> [(k, x)])"

definition claim_json :: "str \<Rightarrow> QueueDelivery \<Rightarrow> Json" where
  "claim_json fname d = json_object
     ([(''queue'', JString fname), (''key'', JString (qd_key d)), (''deliveries'', json_nat (qd_deliveries d))] @
      optional_entry ''enqueued'' (map_option json_nat (qd_enqueued d)) @ optional_entry ''expires'' (map_option json_nat (qd_expires d)) @
      optional_entry ''owner'' (map_option JString (qd_owner d)) @ optional_entry ''due'' (map_option json_nat (qd_due d)))"

definition enqueue_record :: "Service \<Rightarrow> str \<Rightarrow> Request \<Rightarrow> Response cmd" where
  "enqueue_record svc acc req =
     read_then (requested_due req (wall svc)) (\<lambda>due_at.
     and_then (queued_record svc acc req) (\<lambda>r.
     read_then r (\<lambda>(fname, x).
     reply_with (enqueue_due (svc_settings svc) (pins svc) (tick svc) (wall svc) acc fname x due_at) (db_error_in ''Enqueue error'') (\<lambda>key.
     ret (resp_ok\<lparr>claim := Some (claim_json fname
       \<lparr>qd_key = key, qd_record = Record_new, qd_deliveries = 0, qd_enqueued = key_enqueued_millis key, qd_expires = None,
        qd_owner = None, qd_due = due_at\<rparr>)\<rparr>)))))"

definition requested_visibility :: "Request \<Rightarrow> duration option read" where
  "requested_visibility req =
     (case req_visibility_timeout req of None \<Rightarrow> Ok None
      | Some seconds \<Rightarrow> if seconds = 0 \<or> MAX_VISIBILITY_SECONDS < seconds then Err visibility_refusal else Ok (Some (from_secs seconds)))"

definition delivery_reply :: "Service \<Rightarrow> str \<Rightarrow> str \<Rightarrow> QueueDelivery \<Rightarrow> Response cmd" where
  "delivery_reply svc acc fname d =
     asks (\<lambda>db. resp_ok\<lparr>resp_record := Some (serialize_record_for_account (scale_out svc) (hm_get (tables db) (acc, fname)) (qd_record d)),
       claim := Some (claim_json fname d)\<rparr>)"

definition dequeue_record :: "Service \<Rightarrow> str \<Rightarrow> Request \<Rightarrow> str \<Rightarrow> Response cmd" where
  "dequeue_record svc acc req owner =
     read_then (requested_file req) (\<lambda>fname.
     read_then (requested_visibility req) (\<lambda>vis.
     read_then (requested_wait req) (\<lambda>_.
     reply_with (dequeue (svc_settings svc) (pins svc) (tick svc) (wall svc) acc fname owner vis) (db_error_in ''Dequeue error'') (\<lambda>d.
     case d of Some delivery \<Rightarrow> delivery_reply svc acc fname delivery | None \<Rightarrow> ret queue_empty))))"

definition settle_claim :: "Service \<Rightarrow> str \<Rightarrow> Request \<Rightarrow> str \<Rightarrow> Settle \<Rightarrow> Response cmd" where
  "settle_claim svc acc req owner how =
     read_then (requested_file req) (\<lambda>fname.
     case req_key req of None \<Rightarrow> ret (error_reply MissingFieldCode ''Key not specified'')
     | Some key \<Rightarrow>
       read_then (requested_due req (wall svc)) (\<lambda>due_at.
       if how = Ack \<and> (due_at \<noteq> None \<or> req_delay_seconds req = Some 0) then
         ret (error_reply InvalidRequestCode ''ACK consumes the record, so it has nothing to delay; a delay belongs on NACK'')
       else
         reply_with (case how of
             Ack \<Rightarrow> ack (svc_settings svc) (pins svc) (tick svc) acc fname key owner
           | Nack \<Rightarrow> nack_until (svc_settings svc) (pins svc) (tick svc) acc fname key owner due_at) db_error (\<lambda>_.
         ret resp_ok)))"

definition peek_record :: "Service \<Rightarrow> str \<Rightarrow> Request \<Rightarrow> Response cmd" where
  "peek_record svc acc req =
     read_then (requested_file req) (\<lambda>fname.
     reply_with (peek (svc_settings svc) (pins svc) (tick svc) (wall svc) acc fname (req_key req)) (db_error_in ''Peek error'') (\<lambda>d.
     case d of Some delivery \<Rightarrow> delivery_reply svc acc fname delivery
     | None \<Rightarrow> ret (if req_key req \<noteq> None then error_reply RecordNotFoundCode ''Record not found'' else queue_empty)))"

section \<open>Directory files\<close>

definition is_table_directory_for_account :: "Service \<Rightarrow> str \<Rightarrow> str \<Rightarrow> bool cmd" where
  "is_table_directory_for_account svc acc name =
     and_then (file_attributes_for_account (svc_settings svc) (pins svc) acc name) (\<lambda>a. ret (is_directory a))"

definition not_a_directory_file :: "str \<Rightarrow> str \<Rightarrow> DbError" where
  "not_a_directory_file account name = InvalidRequest (quoted name @ '' in account '' @ quoted account @
     '' is not a directory file; create one with CREATE.FILE '' @ name @ '' DIRECTORY'')"

definition directory_root :: "Service \<Rightarrow> str \<Rightarrow> str \<Rightarrow> str cmd" where
  "directory_root svc acc name =
     and_then (file_attributes_for_account (svc_settings svc) (pins svc) acc name) (\<lambda>a.
     case att_directory a of None \<Rightarrow> fail (not_a_directory_file acc name)
     | Some policy \<Rightarrow> asks (\<lambda>db. directory_root_from db acc name policy))"

definition put_root :: "path \<Rightarrow> host_dir option \<Rightarrow> Database \<Rightarrow> Database" where
  "put_root p d db = db\<lparr>disk_records := (case d of None \<Rightarrow> hm_remove p (disk_records db) | Some h \<Rightarrow> hm_insert p h (disk_records db))\<rparr>"

definition with_root :: "Service \<Rightarrow> str \<Rightarrow> str \<Rightarrow> (host_dir option \<Rightarrow> 'a DbResult \<times> host_dir option) \<Rightarrow> 'a cmd" where
  "with_root svc acc name f =
     and_then (directory_root svc acc name) (\<lambda>root db.
     case f (hm_get (disk_records db) (path_of root)) of (r, d) \<Rightarrow> Some (r, put_root (path_of root) d db))"

definition directory_has_no_dictionary :: "str \<Rightarrow> bool \<Rightarrow> unit read" where
  "directory_has_no_dictionary name is_dict =
     (if \<not> is_dict then Ok ()
      else refuse InvalidRequestCode (quoted name @ '' is a directory file: its records are host files with no fields, so it has no dictionary '' @
        ''to read or write''))"

definition directory_takes_no_condition :: "str \<Rightarrow> WriteCondition \<Rightarrow> unit read" where
  "directory_takes_no_condition name c =
     (if is_unconditional c then Ok ()
      else refuse InvalidRequestCode (quoted name @ '' is a directory file: its records are host files that anything on the machine can change, so a '' @
        ''version taken from one promises nothing''))"

definition requested_key :: "Request \<Rightarrow> str read" where
  "requested_key req = (case req_key req of Some key \<Rightarrow> Ok key | None \<Rightarrow> missing ''Key not specified'')"

definition directory_read :: "Service \<Rightarrow> str \<Rightarrow> str \<Rightarrow> Request \<Rightarrow> Response cmd" where
  "directory_read svc acc name req =
     read_then (directory_has_no_dictionary name (or_else (req_is_dict req) False)) (\<lambda>_.
     read_then (requested_key req) (\<lambda>key.
     reply_with (with_root svc acc name (\<lambda>root. (dir_read root key (max_record_bytes svc), root))) db_error (\<lambda>r.
     ret (case r of Some bs \<Rightarrow> resp_ok\<lparr>resp_record := Some (bytes_to_json bs)\<rparr> | None \<Rightarrow> error_reply RecordNotFoundCode ''Record not found''))))"

definition directory_bytes :: "Request \<Rightarrow> bytes read" where
  "directory_bytes req =
     (if req_structured req \<noteq> None then
        refuse InvalidDataCode (''A directory file'' @ [CHR 0x27] @ ''s record is its bytes, not fields: send them in data, as a string or a '' @
          ''{'' @ [CHR 0x22] @ ''$base64'' @ [CHR 0x22] @ '': '' @ [CHR 0x22] @ ''...'' @ [CHR 0x22] @ ''} envelope'')
      else case req_data req of None \<Rightarrow> missing ''Data not specified''
      | Some v \<Rightarrow>
        (case bytes_from_json v of Some bs \<Rightarrow> Ok bs
         | None \<Rightarrow> refuse InvalidDataCode (''A directory file'' @ [CHR 0x27] @ ''s record is its bytes: send a string, or a {'' @
             [CHR 0x22] @ ''$base64'' @ [CHR 0x22] @ '': '' @ [CHR 0x22] @ ''...'' @ [CHR 0x22] @ ''} envelope holding valid base64'')))"

definition directory_write :: "Service \<Rightarrow> str \<Rightarrow> str \<Rightarrow> Request \<Rightarrow> Response cmd" where
  "directory_write svc acc name req =
     read_then (directory_has_no_dictionary name (or_else (req_is_dict req) False)) (\<lambda>_.
     read_then (requested_key req) (\<lambda>key.
     read_then (directory_bytes req) (\<lambda>bs.
     reply_with (with_root svc acc name (\<lambda>root. write_directory_record (tmp_name svc) root key bs (max_record_bytes svc))) db_error (\<lambda>_.
     ret resp_ok))))"

definition directory_delete :: "Service \<Rightarrow> str \<Rightarrow> str \<Rightarrow> str \<Rightarrow> bool \<Rightarrow> WriteCondition \<Rightarrow> Response cmd" where
  "directory_delete svc acc name key is_dict c =
     read_then (directory_has_no_dictionary name is_dict) (\<lambda>_.
     read_then (directory_takes_no_condition name c) (\<lambda>_.
     reply_with (with_root svc acc name (\<lambda>root. dir_remove root key)) db_error (\<lambda>removed.
     ret (if removed then resp_ok else error_reply RecordNotFoundCode ''Record not found''))))"

definition clause_named :: "Request \<Rightarrow> str option" where
  "clause_named req =
     (if req_query_node req \<noteq> None then Some ''query_node''
      else if given (req_query_string req) \<noteq> None then Some ''query_string''
      else if or_else (req_sort_specs req) [] \<noteq> [] then Some ''sort_specs''
      else if or_else (req_explode req) [] \<noteq> [] then Some ''explode'' else None)"

definition directory_row :: "DirectoryRecord \<Rightarrow> str \<times> Json" where
  "directory_row r = (dr_key r, json_object [(''size'', json_nat (dr_bytes r))])"

definition directory_listing :: "Service \<Rightarrow> str \<Rightarrow> str \<Rightarrow> Request \<Rightarrow> DirectoryRecord list read cmd" where
  "directory_listing svc acc name req =
     (case directory_has_no_dictionary name (or_else (req_is_dict req) False) of Inl resp \<Rightarrow> ret (Err resp)
      | Inr _ \<Rightarrow>
        (case clause_named req of
           Some clause \<Rightarrow> ret (refuse InvalidRequestCode (quoted name @ '' is a directory file: its records are host files with no fields, so '' @ clause @
             '' has nothing to read - the keys come back in name order''))
         | None \<Rightarrow> and_then (outcome_of (with_root svc acc name directory_records)) (\<lambda>r. ret (map_sum db_error id r))))"

section \<open>Record commands\<close>

definition read_command :: "Service \<Rightarrow> Table \<Rightarrow> Request \<Rightarrow> Response" where
  "read_command svc t req =
     (if req_file req = None then error_reply MissingFieldCode ''File not specified''
      else case req_key req of None \<Rightarrow> error_reply MissingFieldCode ''Key not specified''
      | Some key \<Rightarrow>
        (case hm_get (section_of (or_else (req_is_dict req) False) t) key of
           Some r \<Rightarrow> resp_ok\<lparr>resp_record := Some (serialize_record_in (scale_out svc) t r), resp_version := Some (version (digest svc) r)\<rparr>
         | None \<Rightarrow> error_reply RecordNotFoundCode ''Record not found''))"

definition ready_or_resolve :: "Service \<Rightarrow> str \<Rightarrow> str \<Rightarrow> unit cmd" where
  "ready_or_resolve svc acc name db =
     (case table_ready_for_read (svc_settings svc) (acc, name) db of
        (True, db') \<Rightarrow> Some (Ok (), db') | (False, db') \<Rightarrow> resolve_file svc acc name db')"

definition read_record :: "Service \<Rightarrow> str \<Rightarrow> Request \<Rightarrow> Response cmd" where
  "read_record svc acc req =
     read_then (requested_file req) (\<lambda>name.
     and_then (is_table_directory_for_account svc acc name) (\<lambda>dir.
     if dir then directory_read svc acc name req
     else reply_with (ready_or_resolve svc acc name) db_error (\<lambda>_.
       and_then (table_of (acc, name)) (\<lambda>t. ret (read_command svc t req)))))"

text \<open>\<open>Database::write_record_in\<close> and \<open>delete_record_in\<close> around the work on the table.\<close>

definition mints_here :: "Service \<Rightarrow> str \<Rightarrow> str \<Rightarrow> str option \<Rightarrow> bool \<Rightarrow> bool cmd" where
  "mints_here svc acc name key is_dict =
     (if is_dict \<or> key \<noteq> None then ret False
      else and_then (file_attributes_for_account (svc_settings svc) ((acc, name) # pins svc) acc name) (\<lambda>a. ret (autokey a)))"

definition write_in_file ::
  "Service \<Rightarrow> str \<Rightarrow> str \<Rightarrow> str option \<Rightarrow> Record \<Rightarrow> bool \<Rightarrow> WriteCondition \<Rightarrow> Written cmd" where
  "write_in_file svc acc name key r is_dict c =
     and_then (mints_here svc acc name key is_dict) (\<lambda>mints.
     and_then (asks (\<lambda>db. read_autokey (fs_state (store_at db (file_path db (acc, name)))))) (\<lambda>persisted.
     and_then (with_table (acc, name) (write_record_in (digest svc) mints persisted (wall svc) name key r is_dict c)) (\<lambda>w.
     and_then (of_result w) (\<lambda>written.
     and_then (note_write_for (svc_settings svc) ((acc, name) # pins svc) (tick svc) acc name) (\<lambda>_. ret written)))))"

definition delete_in_file :: "Service \<Rightarrow> str \<Rightarrow> str \<Rightarrow> str \<Rightarrow> bool \<Rightarrow> WriteCondition \<Rightarrow> bool cmd" where
  "delete_in_file svc acc name key is_dict c =
     and_then (with_table (acc, name) (delete_record_in (digest svc) name key is_dict c)) (\<lambda>d.
     and_then (of_result d) (\<lambda>removed.
     and_then (note_write_for (svc_settings svc) ((acc, name) # pins svc) (tick svc) acc name) (\<lambda>_. ret removed)))"

definition write_record :: "Service \<Rightarrow> str \<Rightarrow> Request \<Rightarrow> Response cmd" where
  "write_record svc acc req =
     read_then (requested_file req) (\<lambda>name.
     read_then (requested_condition req) (\<lambda>c.
     and_then (is_table_directory_for_account svc acc name) (\<lambda>dir.
     if dir then read_then (directory_takes_no_condition name c) (\<lambda>_. directory_write svc acc name req)
     else
       reply_with (resolve_file svc acc name) db_error (\<lambda>_.
       if req_key req = Some [] then ret (error_reply MissingFieldCode ''Key not specified'')
       else
         and_then (table_of (acc, name)) (\<lambda>t.
         read_then (record_from svc t (req_data req) (req_structured req)) (\<lambda>r.
         reply_with (write_in_file svc acc name (req_key req) r (or_else (req_is_dict req) False) c) write_error (\<lambda>w.
         ret (resp_ok\<lparr>resp_key := (if minted w then Some (written_key w) else None), resp_version := Some (written_version w)\<rparr>))))))))"

definition delete_record :: "Service \<Rightarrow> str \<Rightarrow> Request \<Rightarrow> Response cmd" where
  "delete_record svc acc req =
     read_then (requested_file req) (\<lambda>name.
     read_then (requested_condition req) (\<lambda>c.
     read_then (requested_key req) (\<lambda>key.
     and_then (is_table_directory_for_account svc acc name) (\<lambda>dir.
     if dir then directory_delete svc acc name key (or_else (req_is_dict req) False) c
     else
       reply_with (resolve_file svc acc name) db_error (\<lambda>_.
       reply_with (delete_in_file svc acc name key (or_else (req_is_dict req) False) c) write_error (\<lambda>_. ret resp_ok))))))"

section \<open>A set of changes\<close>

definition at_change :: "nat \<Rightarrow> str \<Rightarrow> str" where
  "at_change position what = ''Change '' @ show_nat (position + 1) @ '': '' @ what"

definition spec_text_of :: "str option \<Rightarrow> str option" where
  "spec_text_of x = (case x of Some s \<Rightarrow> (if s = [] then None else Some s) | None \<Rightarrow> None)"

text \<open>The files a set has resolved already keep their handle, so they are not resolved again.\<close>

definition resolve_once :: "Service \<Rightarrow> str \<Rightarrow> str list \<Rightarrow> str \<Rightarrow> unit cmd" where
  "resolve_once svc acc handles fname =
     (if fname \<in> set handles then ret ()
      else resolve_file (svc\<lparr>pins := map (\<lambda>f. (acc, f)) handles @ pins svc\<rparr>) acc fname)"

definition change_of :: "Service \<Rightarrow> str \<Rightarrow> nat \<Rightarrow> str list \<Rightarrow> ChangeSpec \<Rightarrow> (Change \<times> str list) read cmd" where
  "change_of svc acc position handles spec =
     (case (spec_text_of (spec_file spec), spec_text_of (spec_key spec)) of
        (None, _) \<Rightarrow> ret (missing (at_change position ''file not specified''))
      | (Some _, None) \<Rightarrow> ret (missing (at_change position ''key not specified''))
      | (Some fname, Some key) \<Rightarrow>
        let is_dict = or_else (spec_is_dict spec) False; op = to_uppercase (or_else (spec_op spec) []) in
        if op = ''DELETE'' then
          ret (Ok (\<lparr>change_file = fname, change_key = key, change_dict = is_dict, change_op = DeleteOp\<rparr>, handles))
        else if op = ''WRITE'' then
          and_then (outcome_of (resolve_once svc acc handles fname)) (\<lambda>r.
          case r of Inl e \<Rightarrow> ret (Err (db_error e))
          | Inr _ \<Rightarrow> and_then (table_of (acc, fname)) (\<lambda>t.
              ret (case record_from svc t (spec_data spec) (spec_structured spec) of
                Inl resp \<Rightarrow> refuse (or_else (code resp) InvalidDataCode) (at_change position (or_else (message resp) []))
              | Inr x \<Rightarrow> Ok (\<lparr>change_file = fname, change_key = key, change_dict = is_dict, change_op = WriteOp x\<rparr>,
                  if fname \<in> set handles then handles else handles @ [fname]))))
        else ret (refuse InvalidDataCode (at_change position (quoted op @ '' is not an operation; use WRITE or DELETE''))))"

fun changes_from :: "Service \<Rightarrow> str \<Rightarrow> nat \<Rightarrow> str list \<Rightarrow> ChangeSpec list \<Rightarrow> Change list read cmd" where
  "changes_from svc acc position handles [] = ret (Ok [])"
| "changes_from svc acc position handles (spec # specs) =
     and_then (change_of svc acc position handles spec) (\<lambda>r.
     case r of Inl resp \<Rightarrow> ret (Err resp)
     | Inr (c, handles') \<Rightarrow> and_then (changes_from svc acc (position + 1) handles' specs) (\<lambda>rest. ret (map_sum id ((#) c) rest)))"

definition transaction_changes :: "Service \<Rightarrow> str \<Rightarrow> ChangeSpec list \<Rightarrow> Change list read cmd" where
  "transaction_changes svc acc specs = changes_from svc acc 0 [] specs"

definition requested_changes :: "Request \<Rightarrow> ChangeSpec list read" where
  "requested_changes req =
     (case or_else (req_changes req) [] of [] \<Rightarrow> missing ''Changes not specified''
      | specs \<Rightarrow>
        if MAX_CHANGES < length specs then
          refuse TransactionScopeCode (''A transaction may carry at most '' @ show_nat MAX_CHANGES @ '' changes, and this one carries '' @ show_nat (length specs))
        else Ok specs)"

section \<open>Files, accounts and clients\<close>

definition file_attributes_json :: "Service \<Rightarrow> str \<Rightarrow> str \<Rightarrow> Json cmd" where
  "file_attributes_json svc acc name =
     and_then (file_attributes_for_account (svc_settings svc) (pins svc) acc name) (\<lambda>a.
     and_then (outcome_of (directory_root svc acc name)) (\<lambda>root.
     ret (json_object
       [(''account'', JString acc), (''name'', JString name), (''durable'', JBool (durable a)), (''queue'', JBool (att_queue a \<noteq> None)),
        (''visibility_timeout_seconds'', case att_queue a of Some q \<Rightarrow> json_nat (visibility_seconds q) | None \<Rightarrow> JNull),
        (''max_deliveries'', case att_queue a of Some q \<Rightarrow> json_nat (max_deliveries q) | None \<Rightarrow> JNull),
        (''autokey'', JBool (autokey a)), (''directory'', JBool (is_directory a)),
        (''path'', case root of Inr s \<Rightarrow> JString s | Inl _ \<Rightarrow> JNull)])))"

definition attributes_reply :: "Service \<Rightarrow> str \<Rightarrow> str \<Rightarrow> Response cmd" where
  "attributes_reply svc acc name = and_then (file_attributes_json svc acc name) (\<lambda>j. ret (resp_ok\<lparr>resp_record := Some j\<rparr>))"

definition create_file :: "Service \<Rightarrow> str \<Rightarrow> Request \<Rightarrow> Response cmd" where
  "create_file svc acc req =
     (case req_file req of None \<Rightarrow> ret (error_reply MissingFieldCode ''File name not specified'')
      | Some name \<Rightarrow>
        read_then (requested_attributes req FileAttributes_default) (\<lambda>a.
        reply_with (create_table_with (svc_settings svc) (pins svc) (tick svc) acc name a) db_error (\<lambda>_. attributes_reply svc acc name)))"

definition set_file :: "Service \<Rightarrow> str \<Rightarrow> Request \<Rightarrow> Response cmd" where
  "set_file svc acc req =
     (case req_file req of None \<Rightarrow> ret (error_reply MissingFieldCode ''File name not specified'')
      | Some name \<Rightarrow>
        if nothing_to_set req then
          ret (error_reply MissingFieldCode ''Nothing to set: name durable, autokey, queue, visibility_timeout or max_deliveries'')
        else
          and_then (file_attributes_for_account (svc_settings svc) (pins svc) acc name) (\<lambda>current.
          read_then (requested_attributes req current) (\<lambda>a.
          reply_with (set_file_attributes_for_account (svc_settings svc) (pins svc) (tick svc) acc name a ''attributes'') db_error
            (\<lambda>_. attributes_reply svc acc name))))"

definition delete_file :: "Service \<Rightarrow> str \<Rightarrow> Request \<Rightarrow> Response cmd" where
  "delete_file svc acc req =
     (case req_file req of None \<Rightarrow> ret (error_reply MissingFieldCode ''File name not specified'')
      | Some name \<Rightarrow> reply_with (delete_table_for_account (svc_settings svc) acc name) db_error (\<lambda>_. ret resp_ok))"

definition set_dict :: "Service \<Rightarrow> str \<Rightarrow> Request \<Rightarrow> Response cmd" where
  "set_dict svc acc req =
     (case req_file req of None \<Rightarrow> ret (error_reply MissingFieldCode ''File not specified'')
      | Some name \<Rightarrow>
        (case map_option trim (req_key req) of
           Some (c # cs) \<Rightarrow>
             (case req_structured req of
                Some (JObject m) \<Rightarrow>
                  (case dictionary_record (json_text svc) (c # cs) (JObject m) of
                     Inl msg \<Rightarrow> ret (error_reply InvalidDataCode msg)
                   | Inr r \<Rightarrow>
                     reply_with (get_table_mut (svc_settings svc) (pins svc) acc name) db_error (\<lambda>_.
                     and_then (with_table (acc, name) (\<lambda>t. ((), mark_dict_dirty (t\<lparr>tbl_dictionary := hm_insert (c # cs) r (tbl_dictionary t)\<rparr>)))) (\<lambda>_.
                     reply_with (note_write_for (svc_settings svc) (pins svc) (tick svc) acc name) (db_error_in ''Save error'') (\<lambda>_.
                     ret (resp_ok\<lparr>resp_record := Some (dictionary_entry r)\<rparr>)))))
              | _ \<Rightarrow> ret (error_reply MissingFieldCode ''Dictionary attributes not specified''))
         | _ \<Rightarrow> ret (error_reply MissingFieldCode ''Key not specified'')))"

definition requested_grant :: "Request \<Rightarrow> str \<Rightarrow> str option \<Rightarrow> ClientGrant read" where
  "requested_grant req empty_grant expires =
     (case requested_capabilities (req_capabilities req) of Inl resp \<Rightarrow> Err resp
      | Inr caps \<Rightarrow>
        (case requested_enqueue_files (req_enqueue_files req) of Inl resp \<Rightarrow> Err resp
         | Inr grants \<Rightarrow>
           let accounts = or_else (req_accounts_list req) []; admin = or_else (req_is_admin req) False in
           if \<not> admin \<and> accounts = [] \<and> caps = [] \<and> grants = [] then refuse InvalidRequestCode empty_grant
           else Ok \<lparr>cg_allowed_accounts = accounts, cg_is_admin = admin, cg_capabilities = caps, cg_expires_at = expires, cg_enqueue_files = grants\<rparr>))"

definition authorize_conn :: "Service \<Rightarrow> Request \<Rightarrow> Response cmd" where
  "authorize_conn svc req =
     (case req_thumbprint req of None \<Rightarrow> ret (error_reply MissingFieldCode ''Thumbprint not specified'')
      | Some tp \<Rightarrow>
        (case req_name req of None \<Rightarrow> ret (error_reply MissingFieldCode ''Name not specified'')
         | Some name \<Rightarrow>
           read_then (requested_grant req ''A client needs ADMIN, at least one account, capability or enqueue grant'' None) (\<lambda>grant.
           reply_with (add_authorized_client (svc_settings svc) (pins svc) (tick svc) name tp grant) db_error (\<lambda>_. ret resp_ok))))"

definition deauthorize_conn :: "Service \<Rightarrow> Request \<Rightarrow> Response cmd" where
  "deauthorize_conn svc req =
     (case req_name req of None \<Rightarrow> ret (error_reply MissingFieldCode ''Name not specified'')
      | Some name \<Rightarrow>
        reply_with (remove_authorized_client (svc_settings svc) (pins svc) (tick svc) name) db_error (\<lambda>removed.
        ret (if removed then resp_ok else error_reply ClientNotFoundCode ''Client not found'')))"

fun each_account :: "(str \<Rightarrow> bool cmd) \<Rightarrow> str \<Rightarrow> str list \<Rightarrow> Response cmd" where
  "each_account f ctx [] = ret resp_ok"
| "each_account f ctx (acc # accs) = reply_with (f acc) (db_error_in (ctx @ acc)) (\<lambda>_. each_account f ctx accs)"

definition add_accounts :: "Service \<Rightarrow> Request \<Rightarrow> Response cmd" where
  "add_accounts svc req =
     (case req_name req of None \<Rightarrow> ret (error_reply MissingFieldCode ''Name not specified'')
      | Some name \<Rightarrow> each_account (add_client_account (svc_settings svc) (pins svc) (tick svc) name) ''Error adding account '' (or_else (req_accounts_list req) []))"

definition remove_accounts :: "Service \<Rightarrow> Request \<Rightarrow> Response cmd" where
  "remove_accounts svc req =
     (case req_name req of None \<Rightarrow> ret (error_reply MissingFieldCode ''Name not specified'')
      | Some name \<Rightarrow> each_account (remove_client_account (svc_settings svc) (pins svc) (tick svc) name) ''Error removing account '' (or_else (req_accounts_list req) []))"

definition make_account :: "Service \<Rightarrow> Request \<Rightarrow> Response cmd" where
  "make_account svc req =
     (case req_target_account req of None \<Rightarrow> ret (error_reply MissingFieldCode ''Account name not specified'')
      | Some name \<Rightarrow> reply_with (create_account (svc_settings svc) (pins svc) (tick svc) name None) db_error (\<lambda>_. ret resp_ok))"

definition drop_account :: "Service \<Rightarrow> Request \<Rightarrow> Response cmd" where
  "drop_account svc req =
     (case req_target_account req of None \<Rightarrow> ret (error_reply MissingFieldCode ''Account name not specified'')
      | Some name \<Rightarrow> reply_with (delete_account (svc_settings svc) (pins svc) (tick svc) name) db_error (\<lambda>_. ret resp_ok))"

text \<open>
  A certificate is generated by running \<^verbatim>\<open>openssl\<close>, the parameter \<open>generate\<close>: the files it writes and what
  it reports. The first answer says whether a key has been written.
\<close>

record GeneratedCert =
  gen_thumbprint :: str
  gen_expires :: "str option"
  gen_record :: Json

definition generate_cert ::
  "Service \<Rightarrow> nat option option \<Rightarrow> (str \<Rightarrow> nat \<Rightarrow> (GeneratedCert, IoError) result) \<Rightarrow> Request \<Rightarrow> (bool \<times> Response) cmd" where
  "generate_cert svc config generate req =
     (let before = (\<lambda>resp. ret (False, resp)); empty = ''A non-admin certificate needs at least one allowed account, capability or enqueue grant'' in
      case req_name req of None \<Rightarrow> before (error_reply MissingFieldCode ''Name not specified'')
      | Some name \<Rightarrow>
        (case config of None \<Rightarrow> before (error_reply UnavailableCode ''Certificate generation is unavailable: no server configuration'')
         | Some ceiling \<Rightarrow>
           (case requested_capabilities (req_capabilities req) of Inl resp \<Rightarrow> before resp
            | Inr _ \<Rightarrow>
              (case requested_enqueue_files (req_enqueue_files req) of Inl resp \<Rightarrow> before resp
               | Inr _ \<Rightarrow>
                 (case requested_cert_days (req_days req) ceiling of Inl resp \<Rightarrow> before resp
                  | Inr days \<Rightarrow>
                    (case generate name days of Inl e \<Rightarrow> before (db_error (Io e))
                     | Inr g \<Rightarrow>
                       and_then (read_then (requested_grant req empty (gen_expires g)) (\<lambda>grant.
                         reply_with (add_authorized_client (svc_settings svc) (pins svc) (tick svc) name (gen_thumbprint g) grant)
                           (db_error_in ''Certificate generated but authorization failed'') (\<lambda>_.
                         ret (resp_ok\<lparr>resp_record := Some (gen_record g)\<rparr>)))) (\<lambda>resp. ret (True, resp))))))))"

section \<open>Select lists\<close>

type_synonym select_lists = "(str, RemoteSelectList) hashmap"

definition keep_list :: "Request \<Rightarrow> str \<Rightarrow> SelectList \<Rightarrow> select_lists \<Rightarrow> Response \<times> select_lists" where
  "keep_list req acc l kept =
     (resp_ok\<lparr>resp_count := Some (length (sel_entries l))\<rparr>,
      hm_insert (or_else (req_list_name req) ''DEFAULT'') (RemoteSelectList_new acc l) kept)"

record Page =
  page_entries :: "SelectEntry list"
  page_table :: str
  page_dict :: bool
  page_account :: str

text \<open>
  The part of \<^verbatim>\<open>GET.NEXT\<close> before it reads the file: the checks, and the step of the cursor. A cursor is a 64-bit
  number, which wraps; a slice that ends before it begins stops the handler, which is \<open>None\<close>.
\<close>

definition next_page :: "ClientInfo \<Rightarrow> Request \<Rightarrow> select_lists \<Rightarrow> ((Page, Response) result \<times> select_lists) option" where
  "next_page client req kept =
     (let list_name = or_else (req_list_name req) ''DEFAULT''; batch = or_else (req_batch_size req) 1 in
      case hm_get kept list_name of None \<Rightarrow> Some (refuse SelectListNotFoundCode ''Select list not found'', kept)
      | Some rl \<Rightarrow>
        if \<not> may_reach client (remote_account rl) then
          Some (refuse AccessDeniedCode (access_denied (remote_account rl)), kept)
        else if req_account req \<noteq> None \<and> req_account req \<noteq> Some (remote_account rl) then
          Some (refuse InvalidRequestCode (''Select list '' @ quoted list_name @ '' was selected in account '' @ quoted (remote_account rl) @
            '', not '' @ quoted (or_else (req_account req) [])), kept)
        else
          let entries = sel_entries (remote_list rl); cursor = remote_cursor rl in
          if length entries \<le> cursor then Some (Err (Response_default\<lparr>status := ''EOF''\<rparr>), kept)
          else
            let end_at = min ((cursor + batch) mod 2 ^ 64) (length entries) in
            if end_at < cursor then None
            else Some (Ok \<lparr>page_entries = take (end_at - cursor) (drop cursor entries), page_table = sel_table_name (remote_list rl),
                page_dict = sel_is_dict (remote_list rl), page_account = remote_account rl\<rparr>,
              hm_insert list_name (rl\<lparr>remote_cursor := end_at\<rparr>) kept))"

definition page_rows :: "Service \<Rightarrow> Table \<Rightarrow> Page \<Rightarrow> Response" where
  "page_rows svc t page =
     (let present = List.map_filter (\<lambda>e. map_option (Pair e) (hm_get (section_of (page_dict page) t) (entry_key e))) (page_entries page);
          rows = map (\<lambda>(e, r). (entry_key e, serialize_record_with_schema (scale_out svc) (record_schema t) r)) present;
          ps = map (entry_position \<circ> fst) present
      in resp_ok\<lparr>results := Some rows, resp_count := Some (length rows), positions := (if list_ex (\<lambda>p. p \<noteq> None) ps then Some ps else None)\<rparr>)"

section \<open>Which command, by whom\<close>

datatype Action =
    RunRecord str str
  | RunSelect str
  | RunPage
  | RunCreateAccount | RunCreateTestAccount | RunDeleteAccount
  | RunCreateFile str | RunSetFile str | RunDeleteFile str
  | RunExport Source str | RunImport ImportPlan str
  | RunIndex str str str str
  | RunListIndexes str "str option"
  | RunAuthorize | RunDeauthorize | RunAddAccounts | RunRemoveAccounts | RunGenerateCert
  | RunListConns | RunServerStats
  | RunListAccounts | RunListFiles str | RunFileStats str "str option"
  | RunListDict str | RunSetDict str
  | RunElsewhere str

definition target_account :: "Request \<Rightarrow> ClientInfo \<Rightarrow> str \<Rightarrow> str option read" where
  "target_account req client command =
     (case req_account req of
        Some acc \<Rightarrow> if may_reach client acc then Ok (Some acc) else refuse AccessDeniedCode (access_denied acc)
      | None \<Rightarrow>
        (case allowed_accounts client of [acc] \<Rightarrow> Ok (Some acc)
         | _ \<Rightarrow> if is_admin client \<or> needs_no_current_account command then Ok None
                else refuse AccountNotSpecifiedCode ''Account not specified''))"

definition in_account :: "str option \<Rightarrow> (str \<Rightarrow> 'a read) \<Rightarrow> 'a read" where
  "in_account acc f = (case acc of None \<Rightarrow> refuse AccountNotSpecifiedCode ''Account not specified'' | Some a \<Rightarrow> f a)"

definition requires :: "ClientInfo \<Rightarrow> Capability \<Rightarrow> 'a read \<Rightarrow> 'a read" where
  "requires client c r = (if client_can client c then r else refuse AdminRequiredCode (capability_required c))"

definition admin_only :: "ClientInfo \<Rightarrow> 'a read \<Rightarrow> 'a read" where
  "admin_only client r = (if is_admin client then r else refuse AdminRequiredCode ''Admin privileges required'')"

definition server_path :: "Request \<Rightarrow> str \<Rightarrow> (str \<Rightarrow> 'a read) \<Rightarrow> 'a read" where
  "server_path req none_given f = (case given (req_path req) of None \<Rightarrow> missing none_given | Some path \<Rightarrow> f path)"

definition export_action :: "str \<Rightarrow> Request \<Rightarrow> str option \<Rightarrow> Action read" where
  "export_action command req acc =
     (case export_source command req (or_else acc []) of Inl resp \<Rightarrow> Err resp
      | Inr src \<Rightarrow> server_path req (''No path given. EXPORT writes the archive to a path on the server host; to receive it over this '' @
          ''                     connection instead, use EXPORT.BYTES'') (\<lambda>path. Ok (RunExport src path)))"

definition import_action :: "Request \<Rightarrow> Action read" where
  "import_action req = server_path req (''No path given. IMPORT reads the archive from a path on the server host; to send it over this '' @
     ''                     connection instead, use IMPORT.BYTES'') (\<lambda>path. Ok (RunImport (import_plan req) path))"

definition index_action :: "str \<Rightarrow> Request \<Rightarrow> str \<Rightarrow> Action read" where
  "index_action command req acc = map_sum id (\<lambda>(fname, fld). RunIndex command acc fname fld) (index_target req)"

definition list_indexes_action :: "Request \<Rightarrow> str \<Rightarrow> Action read" where
  "list_indexes_action req acc =
     Ok (RunListIndexes acc (case map_option trim (req_file req) of Some (c # cs) \<Rightarrow> Some (c # cs) | _ \<Rightarrow> None))"

text \<open>The arms of the dispatch, in a table from the name of a command to what stands before its work.\<close>

definition arms :: "(str \<times> (str \<Rightarrow> Request \<Rightarrow> ClientInfo \<Rightarrow> str option \<Rightarrow> Action read)) list" where
  "arms =
     map (\<lambda>name. (name, \<lambda>command req client acc. in_account acc (\<lambda>a. Ok (RunRecord command a))))
       [''READ'', ''WRITE'', ''DELETE'', ''QUERY'', ''TRANSACT'', ''ENQUEUE'', ''DEQUEUE'', ''ACK'', ''NACK'', ''PEEK''] @
     map (\<lambda>name. (name, \<lambda>command req client acc. Ok (RunElsewhere command))) [''PUT.BYTES'', ''GET.BYTES'', ''EXPORT.BYTES'', ''IMPORT.BYTES''] @
     map (\<lambda>name. (name, \<lambda>command req client acc. admin_only client (export_action command req acc))) [''EXPORT.FILE'', ''EXPORT.ACCOUNT'', ''EXPORT.ALL''] @
     map (\<lambda>name. (name, \<lambda>command req client acc. in_account acc (index_action command req)))
       [''CREATE.INDEX'', ''SET.INDEX.EXCLUDE'', ''INDEX.STATS'', ''REBUILD.INDEX'', ''DELETE.INDEX''] @
     [(''SELECT'', \<lambda>command req client acc. in_account acc (\<lambda>a. Ok (RunSelect a))),
      (''GET.NEXT'', \<lambda>command req client acc. Ok RunPage),
      (''CREATE.ACCOUNT'', \<lambda>command req client acc. requires client AccountsManage (Ok RunCreateAccount)),
      (''CREATE.TEST.ACCOUNT'', \<lambda>command req client acc. requires client AccountsManage (Ok RunCreateTestAccount)),
      (''DELETE.ACCOUNT'', \<lambda>command req client acc. requires client AccountsManage (Ok RunDeleteAccount)),
      (''CREATE.FILE'', \<lambda>command req client acc. in_account acc (\<lambda>a. Ok (RunCreateFile a))),
      (''SET.FILE'', \<lambda>command req client acc. in_account acc (\<lambda>a. Ok (RunSetFile a))),
      (''DELETE.FILE'', \<lambda>command req client acc. in_account acc (\<lambda>a. Ok (RunDeleteFile a))),
      (''IMPORT'', \<lambda>command req client acc. admin_only client (import_action req)),
      (''LIST.INDEXES'', \<lambda>command req client acc. in_account acc (list_indexes_action req)),
      (''AUTHORIZE.CONN'', \<lambda>command req client acc. requires client ClientsManage (Ok RunAuthorize)),
      (''DEAUTHORIZE.CONN'', \<lambda>command req client acc. requires client ClientsManage (Ok RunDeauthorize)),
      (''ADD.CLIENT.ACCOUNT'', \<lambda>command req client acc. requires client ClientsManage (Ok RunAddAccounts)),
      (''REMOVE.CLIENT.ACCOUNT'', \<lambda>command req client acc. requires client ClientsManage (Ok RunRemoveAccounts)),
      (''LIST.CONNS'', \<lambda>command req client acc. requires client ServerObserve (Ok RunListConns)),
      (''LIST.ACCOUNTS'', \<lambda>command req client acc. Ok RunListAccounts),
      (''LIST.FILES'', \<lambda>command req client acc. in_account acc (\<lambda>a. Ok (RunListFiles a))),
      (''FILE.STATS'', \<lambda>command req client acc. in_account acc (\<lambda>a. Ok (RunFileStats a (req_file req)))),
      (''LIST.DICT'', \<lambda>command req client acc. in_account acc (\<lambda>a. Ok (RunListDict a))),
      (''SET.DICT'', \<lambda>command req client acc. in_account acc (\<lambda>a. Ok (RunSetDict a))),
      (''SERVER.STATS'', \<lambda>command req client acc. requires client ServerObserve (Ok RunServerStats)),
      (''GENERATE.CERT'', \<lambda>command req client acc. requires client ClientsManage (Ok RunGenerateCert))]"

definition authorize_locked :: "Request \<Rightarrow> ClientInfo \<Rightarrow> Action read" where
  "authorize_locked req client =
     (let command = to_uppercase (req_command req) in
      case target_account req client command of Inl resp \<Rightarrow> Err resp
      | Inr acc \<Rightarrow>
        (case map_of arms command of None \<Rightarrow> refuse UnknownCommandCode ''Unknown command''
         | Some arm \<Rightarrow> arm command req client acc))"

definition authorize :: "Request \<Rightarrow> ClientInfo \<Rightarrow> Action read" where
  "authorize req client =
     (let command = to_uppercase (req_command req) in
      case enqueue_grant_target command req client of
        Some account \<Rightarrow> Ok (if command = ''ENQUEUE'' then RunRecord command account else RunFileStats account (req_file req))
      | None \<Rightarrow>
        (case (if is_record_command command then allowed_account req client else None) of
           Some acc \<Rightarrow> Ok (RunRecord command acc)
         | None \<Rightarrow> authorize_locked req client))"

section \<open>Answering a request\<close>

text \<open>
  What runs once a request is authorized. \<open>None\<close> stands for the commands whose work is not modelled: queries and
  selections, transactions, index administration, listings and statistics, backup and restore.
\<close>

definition record_command :: "Service \<Rightarrow> str \<Rightarrow> Request \<Rightarrow> str \<Rightarrow> str \<Rightarrow> Response cmd option" where
  "record_command svc command req acc owner =
     map_of
       [(''READ'', read_record svc acc req),
        (''WRITE'', write_record svc acc req),
        (''DELETE'', delete_record svc acc req),
        (''ENQUEUE'', enqueue_record svc acc req),
        (''DEQUEUE'', dequeue_record svc acc req owner),
        (''ACK'', settle_claim svc acc req owner Ack),
        (''NACK'', settle_claim svc acc req owner Nack),
        (''PEEK'', peek_record svc acc req)] command"

definition transfer_command_elsewhere :: "str \<Rightarrow> Response" where
  "transfer_command_elsewhere command = error_reply InvalidRequestCode (command @
     '' carries raw bytes on the connection itself, so it is only available over the remote protocol '' @
     ''and only to a client that reads or writes the body it announces'')"

fun perform :: "Service \<Rightarrow> (str \<Rightarrow> nat \<Rightarrow> (GeneratedCert, IoError) result) \<Rightarrow> ClientInfo \<Rightarrow> Request \<Rightarrow> Action \<Rightarrow> Response cmd option" where
  "perform svc generate client req (RunRecord command acc) = record_command svc command req acc (client_name client)"
| "perform svc generate client req RunCreateAccount = Some (make_account svc req)"
| "perform svc generate client req RunDeleteAccount = Some (drop_account svc req)"
| "perform svc generate client req (RunCreateFile acc) = Some (create_file svc acc req)"
| "perform svc generate client req (RunSetFile acc) = Some (set_file svc acc req)"
| "perform svc generate client req (RunDeleteFile acc) = Some (delete_file svc acc req)"
| "perform svc generate client req RunAuthorize = Some (authorize_conn svc req)"
| "perform svc generate client req RunDeauthorize = Some (deauthorize_conn svc req)"
| "perform svc generate client req RunAddAccounts = Some (add_accounts svc req)"
| "perform svc generate client req RunRemoveAccounts = Some (remove_accounts svc req)"
| "perform svc generate client req RunGenerateCert =
     Some (and_then (generate_cert svc (cert_config svc) generate req) (\<lambda>(_, resp). ret resp))"
| "perform svc generate client req (RunSetDict acc) = Some (set_dict svc acc req)"
| "perform svc generate client req (RunElsewhere command) = Some (ret (transfer_command_elsewhere command))"
| "perform svc generate client req _ = None"

text \<open>A request that names an account out of reach is noted in the log before it is refused.\<close>

definition refuse_request :: "Service \<Rightarrow> Request \<Rightarrow> ClientInfo \<Rightarrow> Response \<Rightarrow> Response cmd" where
  "refuse_request svc req client resp =
     (case req_account req of
        Some acc \<Rightarrow>
          if may_reach client acc then ret resp
          else and_then (ignored (log_error (svc_settings svc) (pins svc) (tick svc) (log_key svc) (log_detail svc) (access_denied acc))) (\<lambda>_. ret resp)
      | None \<Rightarrow> ret resp)"

definition handle_request ::
  "Service \<Rightarrow> (str \<Rightarrow> nat \<Rightarrow> (GeneratedCert, IoError) result) \<Rightarrow> ClientInfo \<Rightarrow> Request \<Rightarrow> Response cmd option" where
  "handle_request svc generate client req =
     (case authorize req client of Inl resp \<Rightarrow> Some (refuse_request svc req client resp)
      | Inr a \<Rightarrow> perform svc generate client req a)"

end
