(* ===== verification/Handler_Props.thy ===== *)
theory Handler_Props
  imports Handler
begin

text \<open>
  What the server's commands guarantee: no action runs in an account the client may not reach, the shared and
  the exclusive path of the dispatch decide alike, what a request makes of a file's attributes is consistent and
  within its bounds, every code is what the wire names it, paging a select list hands out every entry once, and
  a dictionary entry that is accepted is one the queries read.
\<close>

section \<open>Actions\<close>

fun action_accounts :: "Action \<Rightarrow> str list" where
  "action_accounts (RunRecord _ acc) = [acc]"
| "action_accounts (RunSelect acc) = [acc]"
| "action_accounts (RunCreateFile acc) = [acc]"
| "action_accounts (RunSetFile acc) = [acc]"
| "action_accounts (RunDeleteFile acc) = [acc]"
| "action_accounts (RunIndex _ acc _ _) = [acc]"
| "action_accounts (RunListIndexes acc _) = [acc]"
| "action_accounts (RunListFiles acc) = [acc]"
| "action_accounts (RunFileStats acc _) = [acc]"
| "action_accounts (RunListDict acc) = [acc]"
| "action_accounts (RunSetDict acc) = [acc]"
| "action_accounts _ = []"

fun needed :: "Action \<Rightarrow> Capability option" where
  "needed RunCreateAccount = Some AccountsManage"
| "needed RunCreateTestAccount = Some AccountsManage"
| "needed RunDeleteAccount = Some AccountsManage"
| "needed RunAuthorize = Some ClientsManage"
| "needed RunDeauthorize = Some ClientsManage"
| "needed RunAddAccounts = Some ClientsManage"
| "needed RunRemoveAccounts = Some ClientsManage"
| "needed RunGenerateCert = Some ClientsManage"
| "needed RunListConns = Some ServerObserve"
| "needed RunServerStats = Some ServerObserve"
| "needed _ = None"

fun needs_admin :: "Action \<Rightarrow> bool" where
  "needs_admin (RunExport _ _) = True"
| "needs_admin (RunImport _ _) = True"
| "needs_admin _ = False"

definition permitted :: "ClientInfo \<Rightarrow> str option \<Rightarrow> Action \<Rightarrow> bool" where
  "permitted client acc a \<longleftrightarrow> set (action_accounts a) \<subseteq> set_option acc \<and> (\<forall>c. needed a = Some c \<longrightarrow> client_can client c) \<and>
     (needs_admin a \<longrightarrow> is_admin client)"

lemma refused_simps [simp]: "refuse c m \<noteq> Ok x" "missing m \<noteq> Ok x"
  by (simp_all add: refuse_def missing_def)

lemma gates [simp]:
  "in_account acc f = Ok x \<longleftrightarrow> (\<exists>a. acc = Some a \<and> f a = Ok x)"
  "requires client c r = Ok x \<longleftrightarrow> client_can client c \<and> r = Ok x"
  "admin_only client r = Ok x \<longleftrightarrow> is_admin client \<and> r = Ok x"
  "server_path req m g = Ok x \<longleftrightarrow> (\<exists>p. given (req_path req) = Some p \<and> g p = Ok x)"
  by (simp_all add: in_account_def requires_def admin_only_def server_path_def split: option.splits)

lemma index_action_Ok [simp]:
  "index_action command req acc = Ok a \<longleftrightarrow> (\<exists>f g. index_target req = Ok (f, g) \<and> a = RunIndex command acc f g)"
  by (cases "index_target req") (auto simp: index_action_def)

lemma export_action_Ok [simp]:
  "export_action command req acc = Ok a \<longleftrightarrow>
    (\<exists>src p. export_source command req (or_else acc []) = Ok src \<and> given (req_path req) = Some p \<and> a = RunExport src p)"
  by (cases "export_source command req (or_else acc [])") (auto simp: export_action_def)

lemma arms_permitted:
  assumes "(name, arm) \<in> set arms" "arm command req client acc = Ok a"
  shows "permitted client acc a"
  using assms unfolding arms_def
  by (auto simp: permitted_def import_action_def list_indexes_action_def)

lemma target_reachable: "target_account req client command = Ok (Some acc) \<Longrightarrow> may_reach client acc"
  by (auto simp: target_account_def may_reach_def split: option.splits if_splits list.splits)

lemma allowed_reachable: "allowed_account req client = Some acc \<Longrightarrow> may_reach client acc"
  by (auto simp: allowed_account_def may_reach_def split: option.splits if_splits list.splits)

lemma locked_permitted:
  assumes "authorize_locked req client = Ok a"
  shows "\<exists>acc. target_account req client (to_uppercase (req_command req)) = Ok acc \<and> permitted client acc a"
proof -
  from assms obtain acc arm where acc: "target_account req client (to_uppercase (req_command req)) = Ok acc"
    "map_of arms (to_uppercase (req_command req)) = Some arm" "arm (to_uppercase (req_command req)) req client acc = Ok a"
    by (auto simp: authorize_locked_def Let_def split: sum.splits option.splits)
  from arms_permitted [OF map_of_SomeD [OF acc(2)] acc(3)] acc(1) show ?thesis by blast
qed

text \<open>A request under an enqueue grant: the account and the file it names, and one of two commands.\<close>

definition under_grant :: "Request \<Rightarrow> ClientInfo \<Rightarrow> str \<Rightarrow> Action \<Rightarrow> bool" where
  "under_grant req client acc a \<longleftrightarrow> req_account req = Some acc \<and> (\<exists>f. req_file req = Some f \<and> may_enqueue client acc f) \<and>
     (a = RunRecord ''ENQUEUE'' acc \<or> a = RunFileStats acc (req_file req))"

lemma grant_target:
  assumes "enqueue_grant_target command req client = Some acc"
  shows "under_grant req client acc (if command = ''ENQUEUE'' then RunRecord command acc else RunFileStats acc (req_file req))"
  using assms by (auto simp: enqueue_grant_target_def under_grant_def split: if_splits option.splits)

lemma authorize_cases:
  assumes "authorize req client = Ok a"
  obtains (grant) acc where "enqueue_grant_target (to_uppercase (req_command req)) req client = Some acc"
      "a = (if to_uppercase (req_command req) = ''ENQUEUE'' then RunRecord (to_uppercase (req_command req)) acc else RunFileStats acc (req_file req))"
    | (fast) acc where "allowed_account req client = Some acc" "a = RunRecord (to_uppercase (req_command req)) acc"
    | (locked) "authorize_locked req client = Ok a"
proof -
  define c where "c = to_uppercase (req_command req)"
  have "(case enqueue_grant_target c req client of
        Some account \<Rightarrow> Ok (if c = ''ENQUEUE'' then RunRecord c account else RunFileStats account (req_file req))
      | None \<Rightarrow> (case (if is_record_command c then allowed_account req client else None) of
           Some acc \<Rightarrow> Ok (RunRecord c acc) | None \<Rightarrow> authorize_locked req client)) = Ok a"
    using assms unfolding authorize_def Let_def c_def .
  note a = this
  show thesis
  proof (cases "enqueue_grant_target c req client")
    case (Some acc)
    with a show thesis by (intro grant [of acc]) (auto simp: c_def [symmetric])
  next
    case None
    note none = this
    show thesis
    proof (cases "if is_record_command c then allowed_account req client else None")
      case (Some acc)
      with a none show thesis by (intro fast [of acc]) (simp_all add: c_def [symmetric] split: if_splits)
    next
      case None
      with a none show thesis by (intro locked) simp
    qed
  qed
qed

lemma map_of_same: "map_of (map (\<lambda>n. (n, f)) ns) k = (if k \<in> set ns then Some f else None)"
  by (induction ns) auto

lemma record_arm:
  assumes "is_record_command command"
  shows "map_of arms command = Some (\<lambda>command req client acc. in_account acc (\<lambda>a. Ok (RunRecord command a)))"
  using assms unfolding is_record_command_def arms_def map_of_append map_add_def map_of_same by (simp only: if_True option.case)

section \<open>Properties\<close>


definition Request_default :: Request where
  "Request_default = \<lparr>req_command = [], req_account = None, req_target_account = None, req_file = None, req_key = None, req_data = None,
     req_structured = None, req_is_dict = None, req_query_node = None, req_query_string = None, req_sort_specs = None, req_explode = None,
     req_list_name = None, req_batch_size = None, req_thumbprint = None, req_name = None, req_accounts_list = None, req_is_admin = None,
     req_days = None, req_capabilities = None, req_enqueue_files = None, req_durable = None, req_field = None, req_values = None,
     req_limit = None, req_queue = None, req_visibility_timeout = None, req_max_deliveries = None, req_delay_seconds = None, req_due = None,
     req_wait_seconds = None, req_directory = None, req_path = None, req_length = None, req_changes = None, req_autokey = None,
     req_if_absent = None, req_overwrite = None, req_dry_run = None, req_if_match = None\<rparr>"

definition producer :: ClientInfo where
  "producer = \<lparr>client_name = ''feeder'', thumbprint = ''ab'', allowed_accounts = [], is_admin = False, capabilities = [], expires_at = None,
     enqueue_files = [\<lparr>grant_account = ''ACME'', grant_file = ''JOBS''\<rparr>]\<rparr>"

definition feed :: Request where
  "feed = Request_default\<lparr>req_command := ''enqueue'', req_account := Some ''ACME'', req_file := Some ''JOBS''\<rparr>"

lemma upper_enqueue: "to_uppercase ''enqueue'' = ''ENQUEUE''"
proof -
  have "map ascii_upper ''enqueue'' = ''ENQUEUE''" by code_simp
  then show ?thesis by (simp add: to_uppercase_ascii)
qed


text \<open>
  C26. The shared path of the dispatch decides as the exclusive one would: a record command whose account it
  resolves on its own is the action, in the account, that the other path comes to.
\<close>

theorem fast_path_same:
  assumes "is_record_command (to_uppercase (req_command req))" "allowed_account req client = Some acc"
  shows "authorize_locked req client = Ok (RunRecord (to_uppercase (req_command req)) acc)"
proof -
  have t: "target_account req client command = Ok (Some acc)" for command
    using assms(2) by (auto simp: allowed_account_def target_account_def split: option.splits if_splits list.splits)
  show ?thesis unfolding authorize_locked_def Let_def t record_arm [OF assms(1)] by (simp add: in_account_def)
qed

theorem fast_path_same_witness:
  "authorize_locked (feed\<lparr>req_account := None\<rparr>) (producer\<lparr>allowed_accounts := [''ACME'']\<rparr>) = Ok (RunRecord ''ENQUEUE'' ''ACME'')"
  using fast_path_same [of "feed\<lparr>req_account := None\<rparr>" "producer\<lparr>allowed_accounts := [''ACME'']\<rparr>" "''ACME''"]
  by (simp add: feed_def upper_enqueue is_record_command_def allowed_account_def producer_def Request_default_def)

text \<open>Every error code is the one its wire name reads back as.\<close>

theorem code_round_trip: "code_from_wire (code_as_str c) = Some c"
  by (cases c) (simp_all add: code_from_wire_def ErrorCode_ALL_def)

section \<open>Attributes\<close>

lemma default_policy_ok:
  "\<exists>n. visibility QueuePolicy_default = from_secs n \<and> 0 < n \<and> n \<le> MAX_VISIBILITY_SECONDS"
  "0 < max_deliveries QueuePolicy_default" "max_deliveries QueuePolicy_default \<le> MAX_DELIVERY_LIMIT"
  by (simp_all add: QueuePolicy_default_def DEFAULT_VISIBILITY_def DEFAULT_MAX_DELIVERIES_def MAX_DELIVERY_LIMIT_def
      MAX_VISIBILITY_SECONDS_def from_secs_def)

lemma queue_attributes_ok:
  assumes "attributes_ok current" "\<not> is_directory current" "queue_attributes req current = Ok a"
  shows "attributes_ok a \<and> \<not> is_directory a"
proof -
  let ?existing = "or_else (att_queue current) QueuePolicy_default"
  have ex: "\<exists>n. visibility ?existing = from_secs n \<and> 0 < n \<and> n \<le> MAX_VISIBILITY_SECONDS"
    "0 < max_deliveries ?existing" "max_deliveries ?existing \<le> MAX_DELIVERY_LIMIT"
    using assms(1,2) default_policy_ok by (auto simp: attributes_ok_def is_directory_def or_else_def split: option.splits)
  have v: "\<exists>n. vis = from_secs n \<and> 0 < n \<and> n \<le> MAX_VISIBILITY_SECONDS"
    if "(case req_visibility_timeout req of None \<Rightarrow> Ok (visibility ?existing)
         | Some seconds \<Rightarrow> if 1 \<le> seconds \<and> seconds \<le> MAX_VISIBILITY_SECONDS then Ok (from_secs seconds) else Err visibility_refusal) = Ok vis" for vis
  proof (cases "req_visibility_timeout req")
    case None
    with that ex(1) show ?thesis by simp
  next
    case (Some seconds)
    with that show ?thesis by (intro exI [of _ seconds]) (auto split: if_splits)
  qed
  have d: "0 < n \<and> n \<le> MAX_DELIVERY_LIMIT"
    if "(case req_max_deliveries req of None \<Rightarrow> Ok (max_deliveries ?existing)
         | Some n \<Rightarrow> if 1 \<le> n \<and> n \<le> MAX_DELIVERY_LIMIT then Ok n
             else refuse InvalidDataCode (''max_deliveries must be between 1 and '' @ show_nat MAX_DELIVERY_LIMIT)) = Ok n" for n
    using that ex(2,3) by (auto split: option.splits if_splits)
  from assms(3) obtain vis n where
    "\<exists>m. vis = from_secs m \<and> 0 < m \<and> m \<le> MAX_VISIBILITY_SECONDS" "0 < n \<and> n \<le> MAX_DELIVERY_LIMIT"
    "a = \<lparr>durable = or_else (req_durable req) (if att_queue current \<noteq> None then durable current else True),
      att_queue = Some \<lparr>visibility = vis, max_deliveries = n\<rparr>, att_directory = None, autokey = False\<rparr>"
    unfolding queue_attributes_def Let_def using v d by (auto simp del: show_radix.simps split: sum.splits)
  then show ?thesis by (simp add: attributes_ok_def is_directory_def)
qed

definition path_readable :: "str option \<Rightarrow> bool" where
  "path_readable p \<longleftrightarrow> (case p of None \<Rightarrow> True | Some s \<Rightarrow> utf8_valid s \<and> trim s = s)"

lemma directory_attributes_ok:
  assumes "attributes_ok current" "path_readable (req_path req)" "directory_attributes req current w = Ok a"
  shows "attributes_ok a \<and> is_directory a"
  using assms by (auto simp: directory_attributes_def attributes_ok_def is_directory_def path_readable_def refuse_def
      split: if_splits option.splits)

text \<open>
  C28. What \<^verbatim>\<open>CREATE.FILE\<close> and \<^verbatim>\<open>SET.FILE\<close> make of a file's attributes is consistent: a directory file is no queue and
  mints no keys, a queue mints none of its own, and its claim timeout and delivery limit are within their bounds;
  a file that has attributes of its own keeps its type.
\<close>

theorem requested_attributes_ok:
  assumes "attributes_ok current" "path_readable (req_path req)" "requested_attributes req current = Ok a"
  shows "attributes_ok a \<and> (current_is_new current \<or> is_directory a = is_directory current)"
proof -
  let ?wd = "or_else (req_directory req) (is_directory current \<or> req_path req \<noteq> None)"
  let ?wa = "or_else (req_autokey req) (autokey current)"
  have kept: "current_is_new current \<or> ?wd = is_directory current"
    using assms(3) by (auto simp: requested_attributes_def Let_def split: if_splits)
  show ?thesis
  proof (cases ?wd)
    case True
    then have "directory_attributes req current ?wa = Ok a"
      using assms(3) by (auto simp: requested_attributes_def Let_def split: if_splits)
    from directory_attributes_ok [OF assms(1,2) this] kept True show ?thesis by simp
  next
    case False
    show ?thesis
    proof (cases "queue_attributes req current = Ok a \<and> \<not> is_directory current")
      case True
      with queue_attributes_ok [OF assms(1), of req a] show ?thesis by simp
    next
      case no_queue: False
      have nd: "current_is_new current \<Longrightarrow> \<not> is_directory current" by (simp add: current_is_new_def FileAttributes_default_def is_directory_def)
      with kept False have "\<not> is_directory current" by auto
      then have "a = \<lparr>durable = or_else (req_durable req) (durable current), att_queue = None, att_directory = None, autokey = ?wa\<rparr>"
        using assms(3) False no_queue by (auto simp: requested_attributes_def Let_def split: if_splits)
      with \<open>\<not> is_directory current\<close> show ?thesis by (simp add: attributes_ok_def is_directory_def)
    qed
  qed
qed

theorem requested_attributes_ok_witness:
  "requested_attributes (Request_default\<lparr>req_queue := Some True, req_visibility_timeout := Some 90\<rparr>) FileAttributes_default =
     Ok \<lparr>durable = True, att_queue = Some \<lparr>visibility = from_secs 90, max_deliveries = 5\<rparr>, att_directory = None, autokey = False\<rparr> \<and>
   attributes_ok \<lparr>durable = True, att_queue = Some \<lparr>visibility = from_secs 90, max_deliveries = 5\<rparr>, att_directory = None, autokey = False\<rparr>"
proof -
  have r: "requested_attributes (Request_default\<lparr>req_queue := Some True, req_visibility_timeout := Some 90\<rparr>) FileAttributes_default =
     Ok \<lparr>durable = True, att_queue = Some \<lparr>visibility = from_secs 90, max_deliveries = 5\<rparr>, att_directory = None, autokey = False\<rparr>"
    by (simp add: requested_attributes_def Request_default_def FileAttributes_default_def is_directory_def or_else_def queue_attributes_def
        MAX_VISIBILITY_SECONDS_def QueuePolicy_default_def DEFAULT_MAX_DELIVERIES_def Let_def)
  moreover have "attributes_ok FileAttributes_default" by (simp add: attributes_ok_def FileAttributes_default_def)
  moreover have "path_readable (req_path (Request_default\<lparr>req_queue := Some True, req_visibility_timeout := Some 90\<rparr>))"
    by (simp add: path_readable_def Request_default_def)
  ultimately show ?thesis using requested_attributes_ok by blast
qed

text \<open>
  \<^verbatim>\<open>SET.FILE\<close> does change the type of a file whose attributes are the default ones, which is every ordinary file
  nobody set anything on: asking for a directory goes through to the engine with the entry of a directory file.
\<close>

lemma directory_over_default:
  "requested_attributes (Request_default\<lparr>req_file := Some name, req_directory := Some True\<rparr>) FileAttributes_default =
     Ok \<lparr>durable = False, att_queue = None, att_directory = Some default_path, autokey = False\<rparr>"
  by (simp add: requested_attributes_def directory_attributes_def Request_default_def FileAttributes_default_def is_directory_def or_else_def
      current_is_new_def default_path_def Let_def)

theorem set_file_changes_type:
  assumes "hm_get (file_attributes db) (acc, name) = Some FileAttributes_default"
  shows "set_file svc acc (Request_default\<lparr>req_file := Some name, req_directory := Some True\<rparr>) db =
    reply_with (set_file_attributes_for_account (svc_settings svc) (pins svc) (tick svc) acc name
      \<lparr>durable = False, att_queue = None, att_directory = Some default_path, autokey = False\<rparr> ''attributes'') db_error
      (\<lambda>_. attributes_reply svc acc name) db"
proof -
  let ?req = "Request_default\<lparr>req_file := Some name, req_directory := Some True\<rparr>"
  have f: "file_attributes_for_account (svc_settings svc) (pins svc) acc name db = Some (Ok FileAttributes_default, db)"
    by (simp add: file_attributes_for_account_def assms)
  have n: "\<not> nothing_to_set ?req" "req_file ?req = Some name" by (simp_all add: nothing_to_set_def)
  show ?thesis
    unfolding set_file_def n(2) by (simp only: option.case n(1) if_False and_then_def f prod.case directory_over_default read_then_def sum.case)
qed

text \<open>No record is held back further than the ceiling from now, whichever way the request says when.\<close>

theorem requested_due_bounded:
  assumes "requested_due req now = Ok (Some due_at)"
  shows "due_at \<le> saturating_add now (MAX_DELAY_SECONDS * 1000)"
proof -
  have "saturating_add now (s * 1000) \<le> saturating_add now (MAX_DELAY_SECONDS * 1000)" if "s \<le> MAX_DELAY_SECONDS" for s
    using that by (simp add: saturating_add_def)
  with assms show ?thesis by (auto simp: requested_due_def split: option.splits if_splits)
qed

section \<open>Paging\<close>

text \<open>The pages a client gets until the list says it is at its end: fuel bounds the number of requests.\<close>

fun walk :: "nat \<Rightarrow> ClientInfo \<Rightarrow> Request \<Rightarrow> select_lists \<Rightarrow> SelectEntry list list option" where
  "walk 0 client req kept = None"
| "walk (Suc n) client req kept =
     (case next_page client req kept of
        Some (Inr page, kept') \<Rightarrow> map_option ((#) (page_entries page)) (walk n client req kept')
      | Some (Inl resp, kept') \<Rightarrow> if status resp = ''EOF'' then Some [] else None
      | None \<Rightarrow> None)"

definition may_page :: "ClientInfo \<Rightarrow> Request \<Rightarrow> RemoteSelectList \<Rightarrow> bool" where
  "may_page client req rl \<longleftrightarrow> may_reach client (remote_account rl) \<and> (req_account req = None \<or> req_account req = Some (remote_account rl))"

lemma next_page_step:
  assumes "hm_get kept (or_else (req_list_name req) ''DEFAULT'') = Some rl" "may_page client req rl"
    and "remote_cursor rl < length (sel_entries (remote_list rl))" "remote_cursor rl + or_else (req_batch_size req) 1 < 2 ^ 64"
  shows "\<exists>page. next_page client req kept = Some (Ok page, hm_insert (or_else (req_list_name req) ''DEFAULT'')
      (rl\<lparr>remote_cursor := min (remote_cursor rl + or_else (req_batch_size req) 1) (length (sel_entries (remote_list rl)))\<rparr>) kept) \<and>
    page_entries page = take (or_else (req_batch_size req) 1) (drop (remote_cursor rl) (sel_entries (remote_list rl)))"
proof -
  have "take (min (c + b) (length xs) - c) (drop c xs) = take b (drop c xs)" if "c < length xs" for b c and xs :: "SelectEntry list"
    using that by (auto simp: min_def)
  with assms show ?thesis by (auto simp: next_page_def may_page_def Let_def)
qed

lemma walk_chunks:
  assumes "hm_get kept (or_else (req_list_name req) ''DEFAULT'') = Some rl" "may_page client req rl" "or_else (req_batch_size req) 1 = b" "0 < b"
    and "length (sel_entries (remote_list rl)) + b < 2 ^ 64" "remote_cursor rl \<le> length (sel_entries (remote_list rl))"
    and "length (sel_entries (remote_list rl)) - remote_cursor rl < n"
  shows "walk n client req kept = Some (chunks b (drop (remote_cursor rl) (sel_entries (remote_list rl))))"
  using assms
proof (induction n arbitrary: kept rl)
  case (Suc n)
  let ?es = "sel_entries (remote_list rl)" and ?c = "remote_cursor rl"
  show ?case
  proof (cases "?c < length ?es")
    case False
    with Suc.prems have "next_page client req kept = Some (Err (Response_default\<lparr>status := ''EOF''\<rparr>), kept)"
      by (auto simp: next_page_def may_page_def Let_def)
    with False Suc.prems(6) show ?thesis by simp
  next
    case True
    let ?rl = "rl\<lparr>remote_cursor := min (?c + b) (length ?es)\<rparr>"
    have "?c + or_else (req_batch_size req) 1 < 2 ^ 64" using Suc.prems(3,5) True by simp
    from next_page_step [OF Suc.prems(1,2) True this] Suc.prems(3) obtain page where
      page: "next_page client req kept = Some (Ok page, hm_insert (or_else (req_list_name req) ''DEFAULT'') ?rl kept)"
        "page_entries page = take b (drop ?c ?es)" by auto
    have "walk n client req (hm_insert (or_else (req_list_name req) ''DEFAULT'') ?rl kept) = Some (chunks b (drop (remote_cursor ?rl) ?es))"
      using Suc.IH [of "hm_insert (or_else (req_list_name req) ''DEFAULT'') ?rl kept" ?rl] Suc.prems True by (simp add: may_page_def)
    moreover have "drop (remote_cursor ?rl) ?es = drop b (drop ?c ?es)" by (simp add: min_def add.commute)
    ultimately have "walk (Suc n) client req kept = Some (take b (drop ?c ?es) # chunks b (drop b (drop ?c ?es)))"
      by (simp add: page)
    moreover have "drop ?c ?es \<noteq> []" using True by simp
    ultimately show ?thesis using Suc.prems(4) by (subst chunks.simps) simp
  qed
qed simp

text \<open>
  C27. Paging a select list to its end hands out every entry of the list once, in order, in batches of the size asked
  for, and ends: as many requests as the list has entries, and one more, are enough.
\<close>

theorem paging_complete:
  assumes "hm_get kept (or_else (req_list_name req) ''DEFAULT'') = Some rl" "may_page client req rl" "or_else (req_batch_size req) 1 = b" "0 < b"
    and "length (sel_entries (remote_list rl)) + b < 2 ^ 64" "remote_cursor rl = 0"
  shows "\<exists>pages. walk (Suc (length (sel_entries (remote_list rl)))) client req kept = Some pages \<and>
    concat pages = sel_entries (remote_list rl) \<and> (\<forall>page \<in> set pages. page \<noteq> [] \<and> length page \<le> b)"
proof -
  have "walk (Suc (length (sel_entries (remote_list rl)))) client req kept = Some (chunks b (sel_entries (remote_list rl)))"
    using walk_chunks [OF assms(1-5), of "Suc (length (sel_entries (remote_list rl)))"] assms(6) by (simp del: walk.simps)
  then show ?thesis
    using concat_chunks [OF assms(4)] chunks_lengths [of _ b "sel_entries (remote_list rl)"] by (simp del: walk.simps)
qed

definition three_keys :: RemoteSelectList where
  "three_keys = RemoteSelectList_new ''ACME'' (SelectList_from_keys ''JOBS'' False [''a'', ''b'', ''c''])"

definition reader :: ClientInfo where "reader = producer\<lparr>allowed_accounts := [''ACME'']\<rparr>"

theorem paging_complete_witness:
  "\<exists>pages. walk 4 reader (Request_default\<lparr>req_batch_size := Some 2\<rparr>) [(''DEFAULT'', three_keys)] = Some pages \<and>
     map entry_key (concat pages) = [''a'', ''b'', ''c'']"
proof -
  let ?req = "Request_default\<lparr>req_batch_size := Some 2\<rparr>"
  have h: "hm_get [(''DEFAULT'', three_keys)] (or_else (req_list_name ?req) ''DEFAULT'') = Some three_keys"
    by (simp add: hm_get_def or_else_def Request_default_def)
  have m: "may_page reader ?req three_keys"
    by (simp add: may_page_def may_reach_def reader_def producer_def three_keys_def RemoteSelectList_new_def Request_default_def)
  have e: "sel_entries (remote_list three_keys) = map SelectEntry_new [''a'', ''b'', ''c'']" "remote_cursor three_keys = 0"
    by (simp_all add: three_keys_def RemoteSelectList_new_def SelectList_from_keys_def)
  have k: "map entry_key (map SelectEntry_new ks) = ks" for ks by (induction ks) (simp_all add: SelectEntry_new_def)
  from paging_complete [OF h m, of 2] e(2) obtain pages where
    "walk (Suc (length (sel_entries (remote_list three_keys)))) reader ?req [(''DEFAULT'', three_keys)] = Some pages"
    "concat pages = sel_entries (remote_list three_keys)" by (auto simp: or_else_def e)
  moreover have "Suc (length (sel_entries (remote_list three_keys))) = 4" by (simp add: e)
  moreover have "map entry_key (sel_entries (remote_list three_keys)) = [''a'', ''b'', ''c'']" unfolding e by (rule k)
  ultimately show ?thesis by metis
qed

text \<open>
  A batch size near the largest 64-bit number, sent for a list that has been paged before, makes the sum wrap and
  the handler stop.
\<close>

theorem large_batch_panics:
  assumes "hm_get kept (or_else (req_list_name req) ''DEFAULT'') = Some rl" "may_page client req rl"
    and "0 < remote_cursor rl" "remote_cursor rl < length (sel_entries (remote_list rl))" "remote_cursor rl < 2 ^ 64"
    and "req_batch_size req = Some u64_max"
  shows "next_page client req kept = None"
proof -
  have "(remote_cursor rl + u64_max) mod 2 ^ 64 = remote_cursor rl - 1"
  proof -
    have "remote_cursor rl + u64_max = (remote_cursor rl - 1) + 2 ^ 64" using assms(3) by (simp add: u64_max_def)
    then show ?thesis using assms(5) by simp
  qed
  with assms show ?thesis by (auto simp: next_page_def may_page_def or_else_def Let_def)
qed

section \<open>Dictionary entries\<close>

lemma at_least_one_Ok: "at_least_one n what d = Ok i \<longleftrightarrow> n = Ok (Some i) \<and> 1 \<le> i \<or> n = Ok None \<and> d = Ok i"
  by (auto simp: at_least_one_def split: sum.splits option.splits)

lemma spec_number_bound: "spec_number jt spec name = Ok (Some i) \<Longrightarrow> 1 \<le> i \<Longrightarrow> i < 2 ^ 63"
proof -
  assume s: "spec_number jt spec name = Ok (Some i)" "1 \<le> i"
  have d: "n \<le> m" if "from_str_radix m r str = Some n" for m r str n
    using that by (auto simp: from_str_radix_def Let_def split: if_splits option.splits)
  have p: "j < 2 ^ 63" if "parse_i64 str = Some j" for str j
    using that d by (auto simp: parse_i64_def split: if_splits) fastforce+
  have n: "j < 2 ^ 63" if "number_as_i64 num = Some j" "1 \<le> j" for num j
    using that by (cases num) (auto split: if_splits)
  from s p n show "i < 2 ^ 63"
    by (auto simp: spec_number_def split: option.splits Json.splits if_splits)
qed

lemma drop_trailing_keeps: "d \<noteq> [] \<Longrightarrow> drop_trailing_empty (xs @ d # ys) = xs @ d # drop_trailing_empty ys"
  by (simp add: drop_trailing_empty_def dropWhile_append3)

lemma show_i64_positive: "1 \<le> i \<Longrightarrow> show_i64 i = show_radix 10 (nat i)"
  by (simp add: show_i64_def del: show_radix.simps)

lemma dict_text_attribute:
  "i < length attrs \<Longrightarrow> is_ascii (attrs ! i) \<Longrightarrow> dict_text (from_attributes attrs) i = Some (attrs ! i)"
  by (simp add: dict_text_def from_attributes_def get_at_def Value_text_def first_text_def text_of_valid utf8_valid_ascii)

lemma ascii_show: "is_ascii (show_radix 10 n)"
  by (intro visible_text_ascii visible_text_show) simp_all

lemma parse_u64_i64: "1 \<le> i \<Longrightarrow> i < 2 ^ 63 \<Longrightarrow> parse_u64 (show_radix 10 (nat i)) = Some (nat i)"
  by (rule from_str_radix_show) (simp_all add: u64_max_def)

lemma entry_record_shape:
  assumes "entry_record key spec fld width = Ok r" "1 \<le> fld" "1 \<le> width"
  shows "\<exists>h j rest. j \<in> set DICT_JUSTIFICATIONS \<and> r = from_attributes (show_radix 10 (nat fld) # h # j # show_radix 10 (nat width) # rest)"
proof -
  let ?h = "case spec_text spec ''heading'' of Some h \<Rightarrow> (if h = [] then key else h) | None \<Rightarrow> key"
  let ?j = "upper_text (spec_text spec ''justification'') (DICT_JUSTIFICATIONS ! 0)"
  from assms(1) have j: "?j \<in> set DICT_JUSTIFICATIONS" by (auto simp: entry_record_def Let_def split: if_splits)
  from assms(1) obtain ys where "r = from_attributes (drop_trailing_empty ([show_i64 fld, ?h, ?j] @ show_i64 width # ys))"
    by (auto simp: entry_record_def Let_def split: if_splits)
  moreover have "show_i64 width \<noteq> []" using assms(3) by (simp add: show_i64_positive del: show_radix.simps)
  ultimately have "r = from_attributes (show_i64 fld # ?h # ?j # show_i64 width # drop_trailing_empty ys)"
    using drop_trailing_keeps [of "show_i64 width" "[show_i64 fld, ?h, ?j]" ys] by simp
  with j assms(2,3) show ?thesis unfolding show_i64_positive [OF assms(2)] show_i64_positive [OF assms(3)] by blast
qed

text \<open>
  A dictionary entry \<^verbatim>\<open>SET.DICT\<close> accepts is one the queries and listings read as it was meant: the field resolves to
  the attribute the request numbers, from one up, its width is at least one and its justification one the
  listing lays out.
\<close>

theorem accepted_entry_is_seen:
  assumes "dictionary_record jt key spec = Ok r" "hm_get (tbl_dictionary t) key = Some r" "key \<noteq> ''ID''"
  shows "\<exists>n w. spec_number jt spec ''field'' = Ok (Some n) \<and> 1 \<le> n \<and> field_index t key = Some (nat n - 1) \<and>
    1 \<le> w \<and> field_width_in t key = w \<and> field_justification_in t key \<in> {''L'', ''R''}"
proof -
  from assms(1) obtain fld width where f: "spec_number jt spec ''field'' = Ok (Some fld)" "1 \<le> fld"
    and w: "at_least_one (spec_number jt spec ''width'') ''Display width'' (Ok DEFAULT_DICT_WIDTH) = Ok width"
    and e: "entry_record key spec fld width = Ok r"
    by (auto simp: dictionary_record_def at_least_one_Ok split: sum.splits)
  have w1: "1 \<le> width \<and> width < 2 ^ 63"
    using w spec_number_bound [of jt spec "''width''" width] by (auto simp: at_least_one_Ok DEFAULT_DICT_WIDTH_def DEFAULT_FIELD_WIDTH_def)
  note f1 = spec_number_bound [OF f]
  from entry_record_shape [OF e f(2)] w1 obtain h j rest where j: "j \<in> set DICT_JUSTIFICATIONS"
    and r: "r = from_attributes (show_radix 10 (nat fld) # h # j # show_radix 10 (nat width) # rest)" by blast
  have d: "dict_text r 0 = Some (show_radix 10 (nat fld))" "dict_text r 2 = Some j" "dict_text r 3 = Some (show_radix 10 (nat width))"
    unfolding r using j by (auto simp: dict_text_attribute ascii_show DICT_JUSTIFICATIONS_def simp del: show_radix.simps)
  have "field_index t key = Some (nat fld - 1)"
    using assms(2,3) d(1) parse_u64_i64 [OF f(2) f1] f(2)
    by (simp add: field_index_def attribute_index_def DICT_FIELD_IDX_def del: show_radix.simps)
  moreover have "field_width_in t key = nat width"
    using assms(2,3) d(3) parse_u64_i64 [of width] w1 by (simp add: field_width_in_def DICT_WIDTH_IDX_def del: show_radix.simps)
  moreover have "field_justification_in t key \<in> {''L'', ''R''}"
    using assms(2,3) d(2) j by (auto simp: field_justification_in_def DICT_JUSTIFY_IDX_def DICT_JUSTIFICATIONS_def)
  moreover have "1 \<le> nat width" using w1 by arith
  ultimately show ?thesis using f by (intro exI [of _ fld] exI [of _ "nat width"]) simp
qed

definition city_spec :: Json where
  "city_spec = JObject [(''field'', JNumber (PosInt 3)), (''justification'', JString ''r''), (''width'', JString ''20'')]"

theorem accepted_entry_is_seen_witness:
  "\<exists>r. dictionary_record (\<lambda>_. []) ''CITY'' city_spec = Ok r \<and>
     field_index (Table_new\<lparr>tbl_dictionary := [(''CITY'', r)]\<rparr>) ''CITY'' = Some 2"
proof -
  have t: "trim ''r'' = ''r''" "trim ''20'' = ''20''" by (simp_all add: trim_visible_text visible_def)
  have "map ascii_upper ''r'' = ''R''" by code_simp
  then have u: "to_uppercase ''r'' = ''R''" by (simp add: to_uppercase_ascii)
  have p: "parse_i64 ''20'' = Some 20" by (simp add: parse_i64_def from_str_radix_def to_digit_def Let_def)
  have n: "spec_number (\<lambda>_. []) city_spec ''field'' = Ok (Some 3)" "spec_number (\<lambda>_. []) city_spec ''width'' = Ok (Some 20)"
    by (simp_all add: spec_number_def json_get_def city_spec_def t p)
  have x: "spec_text city_spec ''heading'' = None" "spec_text city_spec ''justification'' = Some ''r''" "spec_text city_spec ''conversion'' = None"
    "spec_text city_spec ''association'' = None" "spec_text city_spec ''associationDepth'' = None"
    by (simp_all add: spec_text_def json_get_def city_spec_def t)
  obtain r where r: "dictionary_record (\<lambda>_. []) ''CITY'' city_spec = Ok r"
    by (simp add: dictionary_record_def n at_least_one_def entry_record_def x upper_text_def u DICT_JUSTIFICATIONS_def or_else_def Let_def
        del: show_radix.simps)
  have "hm_get (tbl_dictionary (Table_new\<lparr>tbl_dictionary := [(''CITY'', r)]\<rparr>)) ''CITY'' = Some r" by (simp add: hm_get_def)
  from accepted_entry_is_seen [OF r this] n(1) r show ?thesis by auto
qed

text \<open>
  Nothing bounds the attribute a dictionary entry numbers, and a record is as long as the last attribute an object
  names: a write of one field makes a record of as many empty fields as that number says.
\<close>

theorem padding_unbounded:
  assumes "hm_get (attr_map t) k = Some i" "hm_get (conv_map t) k = None"
  shows "\<exists>r. deserialize_record_in jt si t (JObject [(k, JString s)]) = Ok r \<and> length (rec_fields r) = Suc i"
  using assms by (simp add: deserialize_record_in_def unknown_def resolved_def List.map_filter_simps deserialize_scalar convert_in_def Let_def)

text \<open>
  A certificate asked for with an empty grant is refused when its key has been written already.
\<close>

theorem empty_grant_leaves_key:
  assumes "req_name req = Some name" "req_capabilities req = None" "req_enqueue_files req = None" "req_accounts_list req = None"
    "req_is_admin req = None" "requested_cert_days (req_days req) ceiling = Ok days" "generate name days = Ok g"
  shows "\<exists>resp. generate_cert svc (Some ceiling) generate req db = Some (Ok (True, resp), db) \<and> code resp = Some InvalidRequestCode"
  using assms by (simp add: generate_cert_def requested_capabilities_def requested_enqueue_files_def requested_grant_def or_else_def
      read_then_def refuse_def error_reply_def Let_def)

section \<open>Writing and reading\<close>

text \<open>A file the server has open: listed, loaded and current, not a directory file, buffered, and not due for a flush.\<close>

definition open_file :: "Service \<Rightarrow> Database \<Rightarrow> table_key \<Rightarrow> Table \<Rightarrow> bool" where
  "open_file svc db key t \<longleftrightarrow>
     (\<exists>dir. get_account_dir db (fst key) = Some dir \<and> listing_fresh (svc_settings svc) db (fst key) dir \<and> snd key \<in> set (listing db (fst key))) \<and>
     hm_get (tables db) key = Some t \<and> \<not> table_stale (svc_settings svc) db key t \<and> \<not> durable_writes (svc_settings svc) \<and>
     (\<exists>a. hm_get (file_attributes db) key = Some a \<and> \<not> durable a \<and> \<not> is_directory a) \<and>
     \<not> mark_due (svc_settings svc) key (tick svc) (bump_mark key (tick svc) db)"

lemma cached_attributes:
  "hm_get (file_attributes db) (acc, name) = Some a \<Longrightarrow> file_attributes_for_account cfg pinned acc name db = Some (Ok a, db)"
  by (simp add: file_attributes_for_account_def)

lemma not_directory:
  "hm_get (file_attributes db) (acc, name) = Some a \<Longrightarrow> \<not> is_directory a \<Longrightarrow> is_table_directory_for_account svc acc name db = Some (Ok False, db)"
  by (simp add: is_table_directory_for_account_def and_then_def cached_attributes)

lemma bump_mark_cong: "write_marks db = write_marks db' \<Longrightarrow>
    mark_due cfg key now (bump_mark key now db) = mark_due cfg key now (bump_mark key now db')"
  by (simp add: mark_due_def bump_mark_def Let_def)

lemma buffered_note:
  assumes "hm_get (file_attributes db) (acc, name) = Some a" "\<not> durable a" "\<not> durable_writes cfg"
    and "\<not> mark_due cfg (acc, name) now (bump_mark (acc, name) now db)"
  shows "note_write_for cfg pinned now acc name db = Some (Ok (), bump_mark (acc, name) now db)"
proof -
  have "is_table_durable_for_account cfg pinned acc name db = Some (Ok False, db)"
    using assms(1-3) by (simp add: is_table_durable_for_account_def and_then_def cached_attributes)
  with assms(4) show ?thesis by (simp add: note_write_for_def and_then_def)
qed

lemma table_of_get: "hm_get (tables db) key = Some t \<Longrightarrow> table_of key db = Some (Ok t, put_table key t db)"
  by (simp add: table_of_def with_table_get)

definition stored_with :: "str \<Rightarrow> Record \<Rightarrow> Table \<Rightarrow> Table" where
  "stored_with key r t = insert_record key r (t\<lparr>tbl_autokey := map_option (raise_past key) (tbl_autokey t)\<rparr>)"

lemma list_insert_not_Nil [simp]: "List.insert x xs \<noteq> []"
  by (auto simp: List.insert_def)

lemma stored_with_simps [simp]:
  "tbl_dictionary (stored_with key r t) = tbl_dictionary t" "hm_get (tbl_records (stored_with key r t)) key = Some r"
  "table_is_dirty (stored_with key r t)"
  by (simp_all add: stored_with_def insert_record_def mark_dirty_def table_is_dirty_def)

lemma write_in_open_file:
  assumes "hm_get (tables db) (acc, name) = Some t" "hm_get (file_attributes db) (acc, name) = Some a" "\<not> durable a"
    "\<not> durable_writes (svc_settings svc)" "\<not> mark_due (svc_settings svc) (acc, name) (tick svc) (bump_mark (acc, name) (tick svc) db)"
  shows "write_in_file svc acc name (Some key) r False Always db =
    Some (Ok \<lparr>written_key = key, written_version = version (digest svc) r, minted = False\<rparr>,
      bump_mark (acc, name) (tick svc) (put_table (acc, name) (stored_with key r t) db))"
proof -
  let ?w = "\<lparr>written_key = key, written_version = version (digest svc) r, minted = False\<rparr>"
  let ?db = "put_table (acc, name) (stored_with key r t) db"
  have w: "write_record_in (digest svc) False persisted (wall svc) name (Some key) r False Always t = (Ok ?w, stored_with key r t)" for persisted
    by (simp add: write_record_in_def choose_key_def condition_check_def stored_with_def Let_def)
  have n: "note_write_for (svc_settings svc) pinned (tick svc) acc name ?db = Some (Ok (), bump_mark (acc, name) (tick svc) ?db)" for pinned
    using assms(2-5) bump_mark_cong [of ?db db] by (intro buffered_note) (simp_all add: put_table_def)
  show ?thesis
    by (simp add: write_in_file_def mints_here_def and_then_def with_table_get [OF assms(1)] w n)
qed

text \<open>
  C4. A client that writes a record to an open file and is answered \<open>OK\<close> reads it back: the next read of that key
  answers the record as JSON and the version the write reported.
\<close>

theorem read_your_write:
  assumes "open_file svc db (acc, name) t" "req_file req = Some name" "req_key req = Some key" "key \<noteq> []"
    and "req_is_dict req = None" "req_if_absent req = None" "req_if_match req = None"
    and "record_from svc t (req_data req) (req_structured req) = Ok r"
  shows "\<exists>written db1 answer db2. write_record svc acc req db = Some (Ok written, db1) \<and> status written = ''OK'' \<and>
    read_record svc acc req db1 = Some (Ok answer, db2) \<and> resp_record answer = Some (serialize_record_in (scale_out svc) t r) \<and>
    resp_version answer = resp_version written \<and> resp_version written = Some (version (digest svc) r)"
proof -
  let ?k = "(acc, name)"
  let ?t1 = "stored_with key r t"
  from assms(1) obtain dir a where o: "get_account_dir db acc = Some dir" "listing_fresh (svc_settings svc) db acc dir" "name \<in> set (listing db acc)"
    "hm_get (tables db) ?k = Some t" "\<not> table_stale (svc_settings svc) db ?k t" "\<not> durable_writes (svc_settings svc)"
    "hm_get (file_attributes db) ?k = Some a" "\<not> durable a" "\<not> is_directory a"
    "\<not> mark_due (svc_settings svc) ?k (tick svc) (bump_mark ?k (tick svc) db)"
    by (auto simp: open_file_def)
  define d where "d = put_table ?k t (touch_lru ?k db)"
  have r: "resolve_file svc acc name db = Some (Ok (), touch_lru ?k db)"
    unfolding resolve_file_def by (rule get_table_loaded [OF o(1-5)])
  have tb: "table_of ?k (touch_lru ?k db) = Some (Ok t, d)" using o(4) by (simp add: d_def table_of_get touch_lru_def)
  have d: "hm_get (tables d) ?k = Some t" "hm_get (file_attributes d) ?k = Some a" "write_marks d = write_marks db"
    using o(7) by (simp_all add: d_def touch_lru_def put_table_def)
  define e where "e = bump_mark ?k (tick svc) (put_table ?k ?t1 d)"
  have w: "write_in_file svc acc name (Some key) r False Always d =
      Some (Ok \<lparr>written_key = key, written_version = version (digest svc) r, minted = False\<rparr>, e)"
    unfolding e_def using d o(6,8,10) bump_mark_cong [OF d(3)] by (intro write_in_open_file) simp_all
  have c: "requested_condition req = Ok Always" using assms(6,7) by (simp add: requested_condition_def)
  have f: "requested_file req = Ok name" using assms(2) by (simp add: requested_file_def)
  have wr: "write_record svc acc req db = Some (Ok (resp_ok\<lparr>resp_key := None, resp_version := Some (version (digest svc) r)\<rparr>), e)"
    using assms(3-5,8) by (simp add: write_record_def f c read_then_def and_then_def not_directory [OF o(7,9)] reply_with_def outcome_of_def r tb
        or_else_def w)
  have e: "hm_get (tables e) ?k = Some ?t1" "hm_get (file_attributes e) ?k = Some a"
    using d(2) by (simp_all add: e_def bump_mark_def put_table_def Let_def)
  have ready: "ready_or_resolve svc acc name e = Some (Ok (), touch_lru ?k e)"
    by (simp add: ready_or_resolve_def table_ready_for_read_def e table_stale_def)
  have tb1: "table_of ?k (touch_lru ?k e) = Some (Ok ?t1, put_table ?k ?t1 (touch_lru ?k e))" using e(1) by (simp add: table_of_get touch_lru_def)
  have j: "serialize_record_in (scale_out svc) ?t1 r = serialize_record_in (scale_out svc) t r"
    by (simp add: serialize_record_in_def record_schema_def)
  have "read_record svc acc req e = Some (Ok (resp_ok\<lparr>resp_record := Some (serialize_record_in (scale_out svc) t r),
      resp_version := Some (version (digest svc) r)\<rparr>), put_table ?k ?t1 (touch_lru ?k e))"
    using assms(2,3,5) by (simp add: read_record_def f read_then_def and_then_def not_directory [OF e(2) o(9)] reply_with_def outcome_of_def
        ready tb1 read_command_def or_else_def section_of_def j)
  with wr show ?thesis by (auto simp: resp_ok_def)
qed

definition small_service :: Service where
  "small_service = \<lparr>svc_settings = small_cfg 9, pins = [], tick = 0, wall = 0, json_text = \<lambda>_. [], scale_out = \<lambda>_ _. None,
     scale_in = \<lambda>_ _. None, digest = id, max_record_bytes = 100, tmp_name = ''.tmp'', log_key = [], log_detail = None, cert_config = None\<rparr>"

definition small_write :: Request where
  "small_write = Request_default\<lparr>req_file := Some ''F'', req_key := Some ''n'', req_data := Some (JString ''x'')\<rparr>"

theorem read_your_write_witness:
  "\<exists>written db1 answer db2.
     write_record small_service ''A'' small_write (small_database [((''A'', ''F''), small_table)]) = Some (Ok written, db1) \<and>
     read_record small_service ''A'' small_write db1 = Some (Ok answer, db2) \<and> resp_version answer = resp_version written"
proof -
  let ?db = "small_database [((''A'', ''F''), small_table)]"
  have "open_file small_service ?db (''A'', ''F'') small_table"
    using small_table_simps(2)
    by (simp add: open_file_def small_service_def, simp add: small_database_def small_cfg_def listing_fresh_def listing_def hm_contains_def hm_get_def
        table_stale_def FileAttributes_default_def is_directory_def mark_due_def bump_mark_def WriteMark_fresh_def Let_def hm_insert_def)
  moreover have "req_file small_write = Some ''F''" "req_key small_write = Some ''n''" "''n'' \<noteq> []" "req_is_dict small_write = None"
    "req_if_absent small_write = None" "req_if_match small_write = None"
    by (simp_all add: small_write_def Request_default_def)
  moreover have "record_from small_service small_table (req_data small_write) (req_structured small_write) = Ok (from_display_string ''x'')"
    by (simp add: record_from_def small_write_def Request_default_def)
  ultimately show ?thesis using read_your_write by blast
qed

end
