(* ===== verification/Archive_Props.thy ===== *)
theory Archive_Props
  imports Archive Hashfile
begin

text \<open>
  What an archive carries. A caller that writes the files of its manifest in order (\<open>write_archive\<close>) makes the
  bytes \<open>archive_image\<close>, and reading them feeds any sink exactly the records written, in their order, with the
  counts the trailer states.
\<close>

section \<open>A caller that keeps the order\<close>

type_synonym content = "(RecordKind \<times> str \<times> bytes) list"

fun write_records :: "content \<Rightarrow> Writer \<Rightarrow> Writer DbResult" where
  "write_records [] w = Ok w"
| "write_records ((kind, key, bs) # rs) w = try_ok (write_record_bytes kind key bs w) (write_records rs)"

fun write_files :: "content list \<Rightarrow> Writer \<Rightarrow> Writer DbResult" where
  "write_files [] w = Ok w"
| "write_files (rs # rss) w =
     try_ok (writer_begin_file w) (\<lambda>(_, w). try_ok (write_records rs w) (\<lambda>w. try_ok (writer_end_file w) (write_files rss)))"

definition write_archive :: "Documents \<Rightarrow> Manifest \<Rightarrow> content list \<Rightarrow> (Trailer \<times> bytes) DbResult" where
  "write_archive docs m contents =
     try_ok (Writer_begin docs m) (\<lambda>w. try_ok (write_files contents w) (writer_finish docs))"

text \<open>What a sink is given, and nothing else.\<close>

fun feed_records :: "'s Sink \<Rightarrow> FileEntry \<Rightarrow> content \<Rightarrow> ('s, unit) act" where
  "feed_records snk entry [] = act_of (Ok ())"
| "feed_records snk entry ((kind, key, bs) # rs) =
     act_then (sink_record snk entry kind key (length bs) bs) (\<lambda>_. feed_records snk entry rs)"

fun feed_files :: "'s Sink \<Rightarrow> nat \<Rightarrow> (FileEntry \<times> content) list \<Rightarrow> ('s, unit) act" where
  "feed_files snk index [] = act_of (Ok ())"
| "feed_files snk index ((entry, rs) # rest) =
     act_then (sink_begin_file snk index entry) (\<lambda>_. act_then (feed_records snk entry rs) (\<lambda>_.
       act_then (sink_end_file snk entry) (\<lambda>_. feed_files snk (Suc index) rest)))"

section \<open>The bytes\<close>

definition blob :: "bytes \<Rightarrow> bytes" where "blob bs = le_bytes 8 (length bs) @ bs"

fun record_image :: "RecordKind \<times> str \<times> bytes \<Rightarrow> bytes" where
  "record_image (kind, key, bs) = kind_tag kind # blob key @ le_bytes 8 (length bs) @ bs"

definition file_image :: "content \<Rightarrow> bytes" where
  "file_image rs = concat (map record_image rs) @ [TAG_END_OF_FILE]"

definition counts_of :: "FileEntry \<Rightarrow> content \<Rightarrow> FileCounts" where
  "counts_of entry rs =
     \<lparr>fc_account = fe_account entry, fc_name = fe_name entry, fc_records = length (filter (\<lambda>(k, _). k = DataKind) rs),
      fc_dictionary = length (filter (\<lambda>(k, _). k = DictionaryKind) rs), fc_bytes = sum_list (map (\<lambda>(_, _, bs). length bs) rs)\<rparr>"

definition trailer_for :: "Manifest \<Rightarrow> content list \<Rightarrow> Trailer" where
  "trailer_for m contents = \<lparr>tr_files = map2 counts_of (man_files m) contents\<rparr>"

definition doc_bytes :: "(bytes, str) result \<Rightarrow> bytes" where
  "doc_bytes d = (case d of Inl _ \<Rightarrow> [] | Inr bs \<Rightarrow> bs)"

definition archive_body :: "Documents \<Rightarrow> Manifest \<Rightarrow> content list \<Rightarrow> bytes" where
  "archive_body docs m contents =
     ARCHIVE_MAGIC @ blob (doc_bytes (manifest_doc docs m)) @ concat (map file_image contents) @
     TAG_END_OF_ARCHIVE # blob (doc_bytes (trailer_doc docs (trailer_for m contents)))"

definition archive_image :: "Documents \<Rightarrow> Manifest \<Rightarrow> content list \<Rightarrow> bytes" where
  "archive_image docs m contents =
     archive_body docs m contents @ le_bytes 4 (unat (crc32c (archive_body docs m contents)))"

section \<open>Writing\<close>

definition writer_ok :: "Writer \<Rightarrow> bool" where
  "writer_ok w \<longleftrightarrow> w_crc w = crc_update (w_sink w) crc_new \<and> w_written w = length (w_sink w)"

lemma put_simps [simp]:
  "w_sink (put bs w) = w_sink w @ bs" "w_manifest (put bs w) = w_manifest w" "w_open (put bs w) = w_open w"
  "w_next (put bs w) = w_next w" "w_counts (put bs w) = w_counts w" "writer_ok w \<Longrightarrow> writer_ok (put bs w)"
  by (simp_all add: put_def writer_ok_def crc_update_append)

lemma put_blob_simps [simp]:
  "w_sink (put_blob bs w) = w_sink w @ blob bs" "w_manifest (put_blob bs w) = w_manifest w" "w_open (put_blob bs w) = w_open w"
  "w_next (put_blob bs w) = w_next w" "w_counts (put_blob bs w) = w_counts w" "writer_ok w \<Longrightarrow> writer_ok (put_blob bs w)"
  by (simp_all add: put_blob_def blob_def)

lemma note_record_simps [simp]:
  "w_sink (note_record k n w) = w_sink w" "w_manifest (note_record k n w) = w_manifest w" "w_open (note_record k n w) = w_open w"
  "w_next (note_record k n w) = w_next w" "writer_ok (note_record k n w) \<longleftrightarrow> writer_ok w"
  by (simp_all add: note_record_def writer_ok_def)

text \<open>Adding what one more run of records counts for.\<close>

definition count_all :: "content \<Rightarrow> FileCounts \<Rightarrow> FileCounts" where
  "count_all rs c = fold (\<lambda>(kind, _, bs). count_record kind (length bs)) rs c"

lemma count_all_counts:
  "count_all rs c = c\<lparr>fc_records := fc_records c + length (filter (\<lambda>(k, _). k = DataKind) rs),
     fc_dictionary := fc_dictionary c + length (filter (\<lambda>(k, _). k = DictionaryKind) rs),
     fc_bytes := fc_bytes c + sum_list (map (\<lambda>(_, _, bs). length bs) rs)\<rparr>"
proof (induction rs arbitrary: c)
  case (Cons r rs)
  obtain kind key bs where "r = (kind, key, bs)" by (cases r)
  with Cons show ?case by (cases kind) (simp_all add: count_all_def count_record_def)
qed (simp add: count_all_def)

lemma write_records_image:
  assumes "w_open w \<noteq> None" "w_counts w \<noteq> []" "writer_ok w"
  shows "\<exists>w'. write_records rs w = Ok w' \<and> w_sink w' = w_sink w @ concat (map record_image rs) \<and> w_open w' = w_open w \<and>
    w_next w' = w_next w \<and> w_manifest w' = w_manifest w \<and> w_counts w' = butlast (w_counts w) @ [count_all rs (last (w_counts w))] \<and> writer_ok w'"
  using assms
proof (induction rs arbitrary: w)
  case (Cons r rs)
  obtain kind key bs where r: "r = (kind, key, bs)" by (cases r)
  let ?w = "note_record kind (length bs) (put bs (put (le_bytes 8 (length bs)) (put_blob key (put [kind_tag kind] w))))"
  have w: "write_record_bytes kind key bs w = Ok ?w"
    using Cons.prems(1) by (simp add: write_record_bytes_def open_record_def)
  have counts: "w_counts ?w = butlast (w_counts w) @ [count_record kind (length bs) (last (w_counts w))]"
    using Cons.prems(2) by (simp add: note_record_def)
  have "w_open ?w \<noteq> None" "w_counts ?w \<noteq> []" "writer_ok ?w" using Cons.prems counts by simp_all
  from Cons.IH [OF this] obtain w' where "write_records rs ?w = Ok w'" "w_sink w' = w_sink ?w @ concat (map record_image rs)"
    "w_open w' = w_open ?w" "w_next w' = w_next ?w" "w_manifest w' = w_manifest ?w"
    "w_counts w' = butlast (w_counts ?w) @ [count_all rs (last (w_counts ?w))]" "writer_ok w'" by auto
  with w counts r show ?case by (simp add: count_all_def)
qed (simp add: count_all_def)

lemma write_files_image:
  assumes "w_open w = None" "writer_ok w" "w_next w + length rss \<le> length (man_files (w_manifest w))"
  shows "\<exists>w'. write_files rss w = Ok w' \<and> w_sink w' = w_sink w @ concat (map file_image rss) \<and> w_open w' = None \<and>
    w_next w' = w_next w + length rss \<and> w_manifest w' = w_manifest w \<and>
    w_counts w' = w_counts w @ map2 counts_of (drop (w_next w) (man_files (w_manifest w))) rss \<and> writer_ok w'"
  using assms
proof (induction rss arbitrary: w)
  case (Cons rs rss)
  let ?entry = "man_files (w_manifest w) ! w_next w"
  let ?c = "\<lparr>fc_account = fe_account ?entry, fc_name = fe_name ?entry, fc_records = 0, fc_dictionary = 0, fc_bytes = 0\<rparr>"
  let ?w = "w\<lparr>w_counts := w_counts w @ [?c], w_open := Some (w_next w)\<rparr>"
  have b: "writer_begin_file w = Ok (?entry, ?w)" using Cons.prems by (simp add: writer_begin_file_def Let_def)
  have "w_open ?w \<noteq> None" "w_counts ?w \<noteq> []" "writer_ok ?w" using Cons.prems(2) by (simp_all add: writer_ok_def)
  from write_records_image [OF this, of rs] obtain w1 where w1: "write_records rs ?w = Ok w1"
    "w_sink w1 = w_sink w @ concat (map record_image rs)" "w_open w1 = Some (w_next w)" "w_next w1 = w_next w"
    "w_manifest w1 = w_manifest w" "w_counts w1 = w_counts w @ [count_all rs ?c]" "writer_ok w1" by auto
  let ?w2 = "(put [TAG_END_OF_FILE] (w1\<lparr>w_open := None\<rparr>))\<lparr>w_next := w_next w1 + 1\<rparr>"
  have "writer_ok (put [TAG_END_OF_FILE] (w1\<lparr>w_open := None\<rparr>))" using w1(7) by (intro put_simps(6)) (simp add: writer_ok_def)
  then have ok: "writer_ok ?w2" by (simp add: writer_ok_def)
  have e: "writer_end_file w1 = Ok ?w2" using w1(3) by (simp add: writer_end_file_def)
  have "w_open ?w2 = None" "w_next ?w2 + length rss \<le> length (man_files (w_manifest ?w2))"
    using Cons.prems(3) w1(4,5) by simp_all
  from Cons.IH [OF this(1) ok this(2)] obtain w' where w': "write_files rss ?w2 = Ok w'"
    "w_sink w' = w_sink ?w2 @ concat (map file_image rss)" "w_open w' = None" "w_next w' = w_next ?w2 + length rss"
    "w_manifest w' = w_manifest ?w2" "w_counts w' = w_counts ?w2 @ map2 counts_of (drop (w_next ?w2) (man_files (w_manifest ?w2))) rss"
    "writer_ok w'" by auto
  have "count_all rs ?c = counts_of ?entry rs" by (simp add: count_all_counts counts_of_def)
  moreover have "drop (w_next w) (man_files (w_manifest w)) = ?entry # drop (Suc (w_next w)) (man_files (w_manifest w))"
    using Cons.prems(3) by (simp add: Cons_nth_drop_Suc)
  ultimately have "w_counts w' = w_counts w @ map2 counts_of (drop (w_next w) (man_files (w_manifest w))) (rs # rss)"
    using w'(6) w1(4,5,6) by simp
  with b w1 e w' show ?case by (simp add: file_image_def [of rs])
qed simp

lemma write_archive_image:
  assumes "docs_ok docs m (trailer_for m contents)" "length contents = length (man_files m)"
  shows "write_archive docs m contents = Ok (trailer_for m contents, archive_image docs m contents)"
proof -
  from assms(1) obtain md td where d: "manifest_doc docs m = Ok md" "trailer_doc docs (trailer_for m contents) = Ok td"
    by (auto simp: docs_ok_def split: sum.splits)
  let ?start = "\<lparr>w_sink = [], w_crc = crc_new, w_written = 0, w_manifest = m, w_open = None, w_next = 0, w_counts = []\<rparr>"
  let ?w = "put_blob md (put ARCHIVE_MAGIC ?start)"
  have b: "Writer_begin docs m = Ok ?w" by (simp add: Writer_begin_def d Let_def)
  have "writer_ok ?start" by (simp add: writer_ok_def)
  then have ok: "writer_ok ?w" by (intro put_blob_simps(6) put_simps(6))
  have "w_open ?w = None" "w_next ?w + length contents \<le> length (man_files (w_manifest ?w))"
    using assms(2) by simp_all
  from write_files_image [OF this(1) ok this(2)] obtain w where w: "write_files contents ?w = Ok w"
    "w_sink w = ARCHIVE_MAGIC @ blob md @ concat (map file_image contents)" "w_open w = None" "w_next w = length contents"
    "w_manifest w = m" "w_counts w = map2 counts_of (man_files m) contents" "writer_ok w" by auto
  have s: "w_sink (put_blob td (put [TAG_END_OF_ARCHIVE] w)) = archive_body docs m contents"
    using w(2) d by (simp add: archive_body_def doc_bytes_def)
  moreover have "writer_ok (put_blob td (put [TAG_END_OF_ARCHIVE] w))" using w(7) by simp
  ultimately have "crc_finish (w_crc (put_blob td (put [TAG_END_OF_ARCHIVE] w))) = crc32c (archive_body docs m contents)"
    unfolding writer_ok_def crc32c_def by simp
  with s have "writer_finish docs w = Ok (trailer_for m contents, archive_image docs m contents)"
    using w d assms(2) by (simp add: writer_finish_def Let_def trailer_for_def archive_image_def)
  with b w(1) show ?thesis by (simp add: write_archive_def)
qed

text \<open>Streaming a body that has all the bytes announced writes what holding it would have.\<close>

lemma copy_body_full:
  assumes "0 < room" "left \<le> length body"
  shows "copy_body room left body w = Inr (put (take left body) w)"
  using assms
proof (induction room left body w rule: copy_body.induct)
  case (1 room left body w)
  show ?case
  proof (cases "left = 0")
    case True
    then show ?thesis by (simp add: copy_body.simps put_def)
  next
    case False
    let ?want = "min room left"
    have got: "take ?want body \<noteq> []" "length (take ?want body) = ?want" using False 1(2,3) by auto
    have p: "put (take (left - ?want) (drop ?want body)) (put (take ?want body) w) = put (take left body) w"
    proof -
      have "take ?want body @ take (left - ?want) (drop ?want body) = take left body"
        using 1(3) by (metis min.cobounded2 le_add_diff_inverse take_add)
      then show ?thesis by (simp add: put_def crc_update_append [symmetric] flip: length_append)
    qed
    have "copy_body room (left - ?want) (drop ?want body) (put (take ?want body) w) =
        Inr (put (take (left - ?want) (drop ?want body)) (put (take ?want body) w))"
      using 1(1) [OF False refl refl got(1)] 1(2,3) got(2) by (simp add: diff_le_mono)
    then show ?thesis
      using False got p by (subst copy_body.simps) (simp add: Let_def)
  qed
qed

lemma record_from_body_full:
  assumes "len \<le> length body"
  shows "record_from_body kind key len body w = write_record_bytes kind key (take len body) w"
proof -
  have "copy_body (min (max len 1) ARCHIVE_CHUNK) len body v = Inr (put (take len body) v)" for v
    by (rule copy_body_full) (use assms in \<open>simp_all add: ARCHIVE_CHUNK_def\<close>)
  with assms show ?thesis by (simp add: record_from_body_def write_record_bytes_def min_absorb2)
qed

section \<open>Reading\<close>

text \<open>\<open>parses p bs x\<close>: wherever the bytes \<open>bs\<close> come next, \<open>p\<close> takes them, folds them in and gives \<open>x\<close>.\<close>

definition parses :: "(Reader \<Rightarrow> ('a \<times> Reader) DbResult) \<Rightarrow> bytes \<Rightarrow> 'a \<Rightarrow> bool" where
  "parses p bs x \<longleftrightarrow> (\<forall>rest c n. p \<lparr>r_source = bs @ rest, r_crc = c, r_read = n\<rparr> =
     Ok (x, \<lparr>r_source = rest, r_crc = crc_update bs c, r_read = n + length bs\<rparr>))"

lemma parsesD:
  "parses p bs x \<Longrightarrow> p \<lparr>r_source = bs @ rest, r_crc = c, r_read = n\<rparr> =
     Ok (x, \<lparr>r_source = rest, r_crc = crc_update bs c, r_read = n + length bs\<rparr>)"
  by (simp add: parses_def)

lemma parses_seq:
  assumes "parses p bs x" "parses (q x) cs y"
  shows "parses (\<lambda>r. try_ok (p r) (\<lambda>(x, r). q x r)) (bs @ cs) y"
  using assms by (simp add: parses_def crc_update_append)

lemma parses_map: "parses p bs x \<Longrightarrow> parses (\<lambda>r. try_ok (p r) (\<lambda>(x, r). Ok (f x, r))) bs (f x)"
  by (simp add: parses_def)

lemma parses_take: "length bs = n \<Longrightarrow> parses (take_exact what n) bs bs"
  by (simp add: parses_def take_exact_def Let_def)

lemma parses_byte: "parses read_byte [b] b"
  unfolding read_byte_def by (rule parses_map [where x = "[b]" and f = hd, simplified]) (simp add: parses_take)

lemma parses_length: "n < 2 ^ 64 \<Longrightarrow> parses (read_length what) (le_bytes 8 n) n"
  unfolding read_length_def using parses_map [OF parses_take [of "le_bytes 8 n" 8], of _ le_value]
  by simp

lemma parses_key:
  assumes "length key \<le> ARCHIVE_MAX_KEY" "utf8_valid key"
  shows "parses read_key (blob key) key"
  unfolding read_key_def blob_def
proof (rule parses_seq)
  show "parses (read_length ''a key'') (le_bytes 8 (length key)) (length key)"
    using assms(1) by (intro parses_length) (simp add: ARCHIVE_MAX_KEY_def)
  show "parses (\<lambda>r. if ARCHIVE_MAX_KEY < length key then
      Err (archive_refused (''a key of '' @ show_nat (length key) @ '' bytes, past the '' @ show_nat ARCHIVE_MAX_KEY @ '' a key may be''))
    else try_ok (take_exact ''a key'' (length key) r) (\<lambda>(bs, r).
      case from_utf8 bs of None \<Rightarrow> Err (archive_refused ''a key that is not text'') | Some key \<Rightarrow> Ok (key, r))) key key"
    using assms by (simp add: parses_def parsesD [OF parses_take] from_utf8_def)
qed

lemma parses_document:
  assumes "length bs \<le> MAX_DOCUMENT_BYTES" "from_slice bs = Ok x"
  shows "parses (read_document what from_slice) (blob bs) x"
  unfolding read_document_def blob_def
proof (rule parses_seq)
  show "parses (read_length what) (le_bytes 8 (length bs)) (length bs)"
    using assms(1) by (intro parses_length) (simp add: MAX_DOCUMENT_BYTES_def)
  show "parses (\<lambda>r. if MAX_DOCUMENT_BYTES < length bs then
      Err (archive_refused (''its '' @ what @ '' claims to be '' @ show_nat (length bs) @ '' bytes, past the '' @ show_nat MAX_DOCUMENT_BYTES @
        '' one may be. It is damaged''))
    else try_ok (take_exact what (length bs) r) (\<lambda>(bs, r).
      case from_slice bs of Inl e \<Rightarrow> Err (archive_refused (''its '' @ what @ '' does not decode: '' @ e)) | Inr x \<Rightarrow> Ok (x, r))) bs x"
    using assms by (simp add: parses_def parsesD [OF parses_take])
qed

definition record_ok :: "RecordKind \<times> str \<times> bytes \<Rightarrow> bool" where
  "record_ok = (\<lambda>(_, key, bs). length key \<le> ARCHIVE_MAX_KEY \<and> utf8_valid key \<and> length bs < 2 ^ 64)"

lemma parses_record_head:
  assumes "record_ok (kind, key, bs)"
  shows "parses (\<lambda>r. try_ok (read_key r) (\<lambda>(key, r). try_ok (read_length ''a record'' r) (\<lambda>(len, r). Ok ((key, len), r))))
    (blob key @ le_bytes 8 (length bs)) (key, length bs)"
proof (rule parses_seq)
  show "parses read_key (blob key) key" using assms by (intro parses_key) (simp_all add: record_ok_def)
  show "parses (\<lambda>r. try_ok (read_length ''a record'' r) (\<lambda>(len, r). Ok ((key, len), r))) (le_bytes 8 (length bs)) (key, length bs)"
    using assms by (intro parses_map [where f = "Pair key"] parses_length) (simp add: record_ok_def)
qed

lemma read_record_head_image:
  assumes "record_ok (kind, key, bs)"
  shows "read_record_head \<lparr>r_source = blob key @ le_bytes 8 (length bs) @ rest, r_crc = c, r_read = n\<rparr> =
    Ok (key, length bs, \<lparr>r_source = rest, r_crc = crc_update (blob key @ le_bytes 8 (length bs)) c,
      r_read = n + length (blob key @ le_bytes 8 (length bs))\<rparr>)"
  using parsesD [OF parses_record_head [OF assms], of rest c n]
  by (auto simp: read_record_head_def try_ok_def split: sum.splits)

lemma kind_of_kind_tag [simp]: "kind_of_tag (kind_tag kind) = Some kind" "kind_tag kind \<noteq> TAG_END_OF_FILE"
  by (cases kind; simp add: TAG_RECORD_def TAG_DICT_def TAG_END_OF_FILE_def)+

declare kind_of_tag.simps [simp del]

lemma bounded_image:
  "bounded (length bs) f \<lparr>r_source = bs @ rest, r_crc = c, r_read = n\<rparr> =
     act_then (f bs) (\<lambda>_. act_of (Ok \<lparr>r_source = rest, r_crc = crc_update bs c, r_read = n + length bs\<rparr>))"
  by (auto simp: fun_eq_iff bounded_def act_then_def act_of_def Let_def split: option.splits sum.splits)

lemma act_then_assoc: "act_then (act_then m f) g = act_then m (\<lambda>x. act_then (f x) g)"
  by (auto simp: fun_eq_iff act_then_def split: option.splits sum.splits)

lemma act_then_of [simp]: "act_then (act_of (Ok x)) f = f x" "act_then (act_of (Err e)) f = act_of (Err e)"
  by (simp_all add: fun_eq_iff act_then_def act_of_def)

lemma read_records_cons:
  assumes "record_ok (kind, key, bs)"
  shows "read_records snk entry \<lparr>r_source = record_image (kind, key, bs) @ rest, r_crc = c, r_read = n\<rparr> s =
    act_then (sink_record snk entry kind key (length bs) bs) (\<lambda>_. read_records snk entry
      \<lparr>r_source = rest, r_crc = crc_update (record_image (kind, key, bs)) c, r_read = n + length (record_image (kind, key, bs))\<rparr>) s"
proof -
  let ?h = "blob key @ le_bytes 8 (length bs)"
  have "read_byte \<lparr>r_source = kind_tag kind # ?h @ bs @ rest, r_crc = c, r_read = n\<rparr> =
      Ok (kind_tag kind, \<lparr>r_source = ?h @ bs @ rest, r_crc = crc_update [kind_tag kind] c, r_read = n + 1\<rparr>)"
    using parsesD [OF parses_byte, of "kind_tag kind" "?h @ bs @ rest" c n] by simp
  then show ?thesis
    using read_record_head_image [OF assms, of "bs @ rest"]
    by (subst read_records.simps)
      (simp add: bounded_image act_then_def act_of_def crc_update_append add_ac split: option.splits sum.splits)
qed

lemma read_records_image:
  assumes "\<forall>r \<in> set rs. record_ok r"
  shows "read_records snk entry \<lparr>r_source = file_image rs @ rest, r_crc = c, r_read = n\<rparr> s =
    act_then (feed_records snk entry rs) (\<lambda>_.
      act_of (Ok \<lparr>r_source = rest, r_crc = crc_update (file_image rs) c, r_read = n + length (file_image rs)\<rparr>)) s"
  using assms
proof (induction rs arbitrary: c n s)
  case Nil
  show ?case
    using parsesD [OF parses_byte, of TAG_END_OF_FILE rest c n]
    by (subst read_records.simps) (simp add: file_image_def act_then_def act_of_def)
next
  case (Cons r rs)
  obtain kind key bs where r: "r = (kind, key, bs)" by (cases r)
  have img: "file_image (r # rs) = record_image (kind, key, bs) @ file_image rs" by (simp add: file_image_def r)
  have ok: "record_ok (kind, key, bs)" using Cons.prems r by simp
  have IH: "read_records snk entry \<lparr>r_source = file_image rs @ rest, r_crc = c, r_read = n\<rparr> =
    act_then (feed_records snk entry rs) (\<lambda>_.
      act_of (Ok \<lparr>r_source = rest, r_crc = crc_update (file_image rs) c, r_read = n + length (file_image rs)\<rparr>))" for c n
    using Cons by auto
  show ?case
    unfolding img append_assoc read_records_cons [OF ok] IH
    by (simp add: r act_then_assoc crc_update_append add_ac del: record_image.simps)
qed

lemma read_files_image:
  assumes "length contents = length entries" "\<forall>rs \<in> set contents. \<forall>r \<in> set rs. record_ok r"
  shows "read_files snk i entries \<lparr>r_source = concat (map file_image contents) @ rest, r_crc = c, r_read = n\<rparr> =
    act_then (feed_files snk i (zip entries contents)) (\<lambda>_. act_of (Ok \<lparr>r_source = rest,
      r_crc = crc_update (concat (map file_image contents)) c, r_read = n + length (concat (map file_image contents))\<rparr>))"
  using assms
proof (induction contents entries arbitrary: i c n rule: list_induct2)
  case (Cons rs contents entry entries)
  have "read_records snk entry \<lparr>r_source = file_image rs @ concat (map file_image contents) @ rest, r_crc = c, r_read = n\<rparr> =
      act_then (feed_records snk entry rs) (\<lambda>_. act_of (Ok \<lparr>r_source = concat (map file_image contents) @ rest,
        r_crc = crc_update (file_image rs) c, r_read = n + length (file_image rs)\<rparr>))"
    by (rule ext, rule read_records_image) (use Cons.prems in simp)
  with Cons show ?case by (simp add: act_then_assoc crc_update_append add_ac)
qed simp

definition contents_ok :: "Documents \<Rightarrow> Manifest \<Rightarrow> content list \<Rightarrow> bool" where
  "contents_ok docs m contents \<longleftrightarrow> docs_ok docs m (trailer_for m contents) \<and> archive_format m = ARCHIVE_CURRENT \<and>
     length contents = length (man_files m) \<and> (\<forall>rs \<in> set contents. \<forall>r \<in> set rs. record_ok r)"

lemma read_front_image:
  assumes "docs_ok docs m t" "archive_format m = ARCHIVE_CURRENT"
  shows "parses (read_front docs) (ARCHIVE_MAGIC @ blob (doc_bytes (manifest_doc docs m))) m"
proof -
  have "parses (read_document ''manifest'' (manifest_of docs)) (blob (doc_bytes (manifest_doc docs m))) m"
    using assms(1) by (intro parses_document) (auto simp: docs_ok_def doc_bytes_def split: sum.splits)
  with assms(2) show ?thesis
    by (simp add: parses_def read_front_def parsesD [OF parses_take [OF refl]] crc_update_append ARCHIVE_CURRENT_def OLDEST_SUPPORTED_def)
qed

lemma read_back_image:
  assumes "docs_ok docs m t" "length (tr_files t) = length (man_files m)"
    and "body = TAG_END_OF_ARCHIVE # blob (doc_bytes (trailer_doc docs t))"
    and "stored = crc_finish (crc_update body c)"
  shows "read_back docs m \<lparr>r_source = body @ le_bytes 4 (unat stored) @ rest, r_crc = c, r_read = n\<rparr> =
    Ok \<lparr>sum_manifest = m, sum_trailer = t, archive_bytes = n + length body + 4\<rparr>"
proof -
  have doc: "parses (read_document ''trailer'' (trailer_of docs)) (blob (doc_bytes (trailer_doc docs t))) t"
    using assms(1) by (intro parses_document) (auto simp: docs_ok_def doc_bytes_def split: sum.splits)
  have crc: "le_value (le_bytes 4 (unat stored)) = unat stored"
    by (rule le_value_le_bytes_id) (use unat_less_32 [of stored] in simp)
  show ?thesis
    using parsesD [OF parses_byte, of TAG_END_OF_ARCHIVE "blob (doc_bytes (trailer_doc docs t)) @ le_bytes 4 (unat stored) @ rest" c n]
      parsesD [OF doc, of "le_bytes 4 (unat stored) @ rest" "crc_update [TAG_END_OF_ARCHIVE] c" "n + 1"] assms(2,4) crc
    by (simp add: read_back_def assms(3) Let_def)
qed

lemma read_archive_image:
  assumes "contents_ok docs m contents"
  shows "read_archive docs (archive_image docs m contents) snk = act_then (feed_files snk 0 (zip (man_files m) contents))
    (\<lambda>_. act_of (Ok \<lparr>sum_manifest = m, sum_trailer = trailer_for m contents, archive_bytes = length (archive_image docs m contents)\<rparr>))"
proof -
  let ?front = "ARCHIVE_MAGIC @ blob (doc_bytes (manifest_doc docs m))" and ?files = "concat (map file_image contents)"
  let ?t = "trailer_for m contents"
  let ?closing = "TAG_END_OF_ARCHIVE # blob (doc_bytes (trailer_doc docs ?t))"
  have ok: "docs_ok docs m ?t" "archive_format m = ARCHIVE_CURRENT" "length contents = length (man_files m)"
    "\<forall>rs \<in> set contents. \<forall>r \<in> set rs. record_ok r" using assms by (simp_all add: contents_ok_def)
  let ?crc = "unat (crc32c (archive_body docs m contents))"
  have img: "archive_image docs m contents = ?front @ ?files @ ?closing @ le_bytes 4 ?crc"
    by (simp add: archive_image_def archive_body_def)
  let ?c = "crc_update ?files (crc_update ?front crc_new)"
  have crc: "crc32c (archive_body docs m contents) = crc_finish (crc_update ?closing ?c)"
    by (simp add: crc32c_def archive_body_def crc_update_append)
  have "length (tr_files ?t) = length (man_files m)" using ok(3) by (simp add: trailer_for_def)
  from read_back_image [OF ok(1) this refl crc, of "[]"]
  have tail: "read_back docs m \<lparr>r_source = ?closing @ le_bytes 4 ?crc, r_crc = ?c, r_read = length ?front + length ?files\<rparr> =
      Ok \<lparr>sum_manifest = m, sum_trailer = ?t, archive_bytes = length (archive_image docs m contents)\<rparr>"
    by (simp add: img)
  have front: "read_front docs (Reader_new (archive_image docs m contents)) =
      Ok (m, \<lparr>r_source = ?files @ ?closing @ le_bytes 4 ?crc, r_crc = crc_update ?front crc_new, r_read = length ?front\<rparr>)"
    using parsesD [OF read_front_image [OF ok(1,2)], of "?files @ ?closing @ le_bytes 4 ?crc" crc_new 0]
    by (simp add: Reader_new_def img)
  show ?thesis
    using tail by (simp add: read_archive_def front read_files_image [OF ok(3,4)] act_then_assoc del: append_assoc)
qed

section \<open>Archives cut short\<close>

text \<open>
  A parser is steady when more bytes behind what it read change nothing, and when it counts what it took.
\<close>

definition grow :: "bytes \<Rightarrow> Reader \<Rightarrow> Reader" where "grow z r = r\<lparr>r_source := r_source r @ z\<rparr>"

definition total :: "Reader \<Rightarrow> nat" where "total r = r_read r + length (r_source r)"

definition steady :: "(Reader \<Rightarrow> ('a \<times> Reader) DbResult) \<Rightarrow> bool" where
  "steady p \<longleftrightarrow> (\<forall>r x r'. p r = Ok (x, r') \<longrightarrow> total r' = total r \<and> (\<forall>z. p (grow z r) = Ok (x, grow z r')))"

lemma steadyD: "steady p \<Longrightarrow> p r = Ok (x, r') \<Longrightarrow> total r' = total r \<and> p (grow z r) = Ok (x, grow z r')"
  by (simp add: steady_def)

lemma steady_seq:
  assumes "steady p" "\<And>x. steady (q x)"
  shows "steady (\<lambda>r. try_ok (p r) (\<lambda>(x, r). q x r))"
  using assms unfolding steady_def by (fastforce simp: try_ok_Ok)

lemma steady_ok: "steady (\<lambda>r. Ok (x, r))" and steady_err: "steady (\<lambda>r. Err e)"
  by (simp_all add: steady_def)

lemma steady_take: "steady (take_exact what n)"
  by (auto simp: steady_def take_exact_Ok grow_def total_def)

lemma steady_if: "steady p \<Longrightarrow> steady q \<Longrightarrow> steady (\<lambda>r. if b then p r else q r)"
  by (cases b) simp_all

lemma steady_option: "steady p \<Longrightarrow> (\<And>x. steady (q x)) \<Longrightarrow> steady (\<lambda>r. case v of None \<Rightarrow> p r | Some x \<Rightarrow> q x r)"
  by (cases v) simp_all

lemma steady_sum: "(\<And>e. steady (p e)) \<Longrightarrow> (\<And>x. steady (q x)) \<Longrightarrow> steady (\<lambda>r. case v of Inl e \<Rightarrow> p e r | Inr x \<Rightarrow> q x r)"
  by (cases v) simp_all

lemmas steady_intro = steady_seq steady_take steady_ok steady_err steady_if steady_option steady_sum

lemma steady_parts: "steady read_byte" "steady (read_length what)" "steady read_key" "steady (read_document what from_slice)"
proof -
  show b: "steady read_byte" unfolding read_byte_def by (intro steady_intro)
  show l: "steady (read_length w)" for w unfolding read_length_def by (intro steady_intro)
  show "steady read_key" unfolding read_key_def by (intro steady_intro l)
  show "steady (read_document what from_slice)" unfolding read_document_def by (intro steady_intro l)
qed

lemma steady_front: "steady (read_front docs)"
  unfolding read_front_def by (intro steady_intro steady_parts)

lemma steady_record_head:
  "read_record_head r = Ok (key, len, r') \<Longrightarrow> total r' = total r \<and> read_record_head (grow z r) = Ok (key, len, grow z r')"
proof -
  assume "read_record_head r = Ok (key, len, r')"
  then obtain r1 where a: "read_key r = Ok (key, r1)" "read_length ''a record'' r1 = Ok (len, r')"
    by (auto simp: read_record_head_def try_ok_Ok)
  show ?thesis
    using steadyD [OF steady_parts(3) a(1), of z] steadyD [OF steady_parts(2) a(2), of z] by (simp add: read_record_head_def)
qed

lemma bounded_Ok:
  "bounded len f r s = Some (Ok r', s') \<longleftrightarrow> len \<le> length (r_source r) \<and> f (take len (r_source r)) s = Some (Ok (), s') \<and>
     r' = \<lparr>r_source = drop len (r_source r), r_crc = crc_update (take len (r_source r)) (r_crc r), r_read = r_read r + len\<rparr>"
  by (auto simp: bounded_def Let_def split: option.splits sum.splits if_splits)

lemma read_records_steady:
  "read_records snk entry r s = Some (Ok r', s') \<Longrightarrow> total r' = total r \<and> read_records snk entry (grow z r) s = Some (Ok (grow z r'), s')"
proof (induction snk entry r s rule: read_records.induct)
  case (1 snk entry r s)
  from 1(2) obtain tag r1 where t: "read_byte r = Ok (tag, r1)"
    by (subst (asm) read_records.simps) (auto split: sum.splits)
  note t' = steadyD [OF steady_parts(1) t, of z]
  show ?case
  proof (cases "tag = TAG_END_OF_FILE")
    case True
    with 1(2) t t' show ?thesis by (simp add: read_records.simps [of snk entry r] read_records.simps [of snk entry "grow z r"])
  next
    case False
    with 1(2) t obtain kind where k: "kind_of_tag tag = Some kind"
      by (subst (asm) read_records.simps) (auto split: option.splits)
    with 1(2) t False obtain key len r2 where h: "read_record_head r1 = Ok (key, len, r2)"
      by (subst (asm) read_records.simps) (auto split: sum.splits)
    note h' = steady_record_head [OF h, of z]
    from 1(2) t False k h obtain r3 s1 where b: "bounded len (sink_record snk entry kind key len) r2 s = Some (Ok r3, s1)"
      and rest: "read_records snk entry r3 s1 = Some (Ok r', s')"
      by (subst (asm) read_records.simps) (auto split: option.splits sum.splits)
    have b': "bounded len (sink_record snk entry kind key len) (grow z r2) s = Some (Ok (grow z r3), s1)" "total r3 = total r2"
      using b by (auto simp: bounded_Ok grow_def total_def)
    have "total r' = total r3 \<and> read_records snk entry (grow z r3) s1 = Some (Ok (grow z r'), s')"
      by (rule 1(1) [OF t refl False k h refl refl b refl refl rest])
    with t t' False k h' b' show ?thesis by (simp add: read_records.simps [of snk entry "grow z r"])
  qed
qed

lemma act_then_Ok: "act_then m f s = Some (Ok y, s') \<longleftrightarrow> (\<exists>x s1. m s = Some (Ok x, s1) \<and> f x s1 = Some (Ok y, s'))"
  by (auto simp: act_then_def split: option.splits sum.splits)

lemma read_files_steady:
  "read_files snk i entries r s = Some (Ok r', s') \<Longrightarrow>
     total r' = total r \<and> read_files snk i entries (grow z r) s = Some (Ok (grow z r'), s')"
proof (induction entries arbitrary: i r s)
  case (Cons entry entries)
  then obtain s1 s2 s3 r1 where a: "sink_begin_file snk i entry s = Some (Ok (), s1)"
    "read_records snk entry r s1 = Some (Ok r1, s2)" "sink_end_file snk entry s2 = Some (Ok (), s3)"
    "read_files snk (Suc i) entries r1 s3 = Some (Ok r', s')" by (auto simp: act_then_Ok)
  from read_records_steady [OF a(2), of z] Cons.IH [OF a(4)] a show ?case by (auto simp: act_then_def)
qed (simp add: act_of_def)

lemma read_back_steady:
  assumes "read_back docs m r = Ok sm"
  shows "read_back docs m (grow z r) = Ok sm \<and> archive_bytes sm \<le> total r"
proof -
  from assms obtain r1 t r2 where a: "read_byte r = Ok (TAG_END_OF_ARCHIVE, r1)"
    "read_document ''trailer'' (trailer_of docs) r1 = Ok (t, r2)" "length (tr_files t) = length (man_files m)" "4 \<le> length (r_source r2)"
    "le_value (take 4 (r_source r2)) = unat (crc_finish (r_crc r2))" "sm = \<lparr>sum_manifest = m, sum_trailer = t, archive_bytes = r_read r2 + 4\<rparr>"
    by (auto simp: read_back_def try_ok_Ok Let_def split: if_splits)
  from steadyD [OF steady_parts(1) a(1), of z] steadyD [OF steady_parts(4) a(2), of z] a(3-6)
  show ?thesis by (simp add: read_back_def grow_def total_def Let_def)
qed

lemma read_archive_steady:
  assumes "read_archive docs src snk s = Some (Ok sm, s')"
  shows "read_archive docs (src @ z) snk s = Some (Ok sm, s') \<and> archive_bytes sm \<le> length src"
proof -
  from assms obtain m r r1 where a: "read_front docs (Reader_new src) = Ok (m, r)"
    "read_files snk 0 (man_files m) r s = Some (Ok r1, s')" "read_back docs m r1 = Ok sm"
    by (auto simp: read_archive_def act_then_Ok act_of_def)
  have "grow z (Reader_new src) = Reader_new (src @ z)" "total (Reader_new src) = length src"
    by (simp_all add: grow_def Reader_new_def total_def)
  with steadyD [OF steady_front a(1), of z] read_files_steady [OF a(2), of z] read_back_steady [OF a(3), of z]
  show ?thesis by (simp add: read_archive_def act_then_def act_of_def)
qed

section \<open>What a pass that keeps nothing says\<close>

lemma discard_simps [simp]:
  "sink_begin_file Discard i e = act_of (Ok ())" "sink_record Discard e k key n body = act_of (Ok ())"
  "sink_end_file Discard e = act_of (Ok ())"
  by (simp_all add: Discard_def)

lemma discard_records_total: "\<exists>x s'. read_records Discard entry r s = Some (x, s')"
proof (induction "Discard :: 'a Sink" entry r s rule: read_records.induct)
  case (1 entry r s)
  then show ?case
    by (subst read_records.simps) (auto simp: bounded_def Let_def act_of_def split: sum.splits option.splits)
qed

lemma discard_files_total: "\<exists>x s'. read_files Discard i entries r s = Some (x, s')"
proof (induction entries arbitrary: i r s)
  case (Cons entry entries)
  obtain x s' where "read_records Discard entry r s = Some (x, s')" using discard_records_total by metis
  with Cons show ?case by (cases x) (simp_all add: act_then_def act_of_def)
qed (simp add: act_of_def)

lemma verify_archive_eq: "read_archive docs src Discard () = Some (verify_archive docs src, ())"
proof -
  have "\<exists>x. read_archive docs src Discard () = Some (x, ())"
  proof (cases "read_front docs (Reader_new src)")
    case (Inr mr)
    obtain x where "read_files Discard 0 (man_files (fst mr)) (snd mr) () = Some (x, ())" using discard_files_total by (metis old.unit.exhaust)
    with Inr show ?thesis by (cases x; cases mr) (auto simp: read_archive_def act_then_def act_of_def)
  qed (simp add: read_archive_def act_of_def)
  then show ?thesis by (auto simp: verify_archive_def)
qed

text \<open>A run of records that reads through once reads through into any sink, as the same records.\<close>

lemma discard_records_feed:
  assumes "read_records Discard entry r () = Some (Ok r', ())"
  shows "\<exists>rs. \<forall>(snk :: 's Sink) s. read_records snk entry r s = act_then (feed_records snk entry rs) (\<lambda>_. act_of (Ok r')) s"
  using assms
proof (induction "Discard :: unit Sink" entry r "()" rule: read_records.induct)
  case (1 entry r)
  from 1(2) obtain tag r1 where t: "read_byte r = Ok (tag, r1)"
    by (subst (asm) read_records.simps) (auto split: sum.splits)
  show ?case
  proof (cases "tag = TAG_END_OF_FILE")
    case True
    with 1(2) t have "r1 = r'" by (simp add: read_records.simps [of Discard])
    with t True show ?thesis
      by (intro exI [of _ "[]"] allI, subst read_records.simps) (simp add: act_of_def act_then_def)
  next
    case False
    with 1(2) t obtain kind where k: "kind_of_tag tag = Some kind"
      by (subst (asm) read_records.simps) (auto split: option.splits)
    with 1(2) t False obtain key len r2 where h: "read_record_head r1 = Ok (key, len, r2)"
      by (subst (asm) read_records.simps) (auto split: sum.splits)
    from 1(2) t False k h obtain r3 where b: "bounded len (sink_record Discard entry kind key len) r2 () = Some (Ok r3, ())"
      and rest: "read_records Discard entry r3 () = Some (Ok r', ())"
      by (subst (asm) read_records.simps) (auto split: option.splits sum.splits)
    from 1(1) [OF t refl False k h refl refl b refl _ rest] obtain rs where
      rs: "\<And>(snk :: 's Sink) s. read_records snk entry r3 s = act_then (feed_records snk entry rs) (\<lambda>_. act_of (Ok r')) s" by auto
    let ?bs = "take len (r_source r2)"
    have len: "length ?bs = len" and r3: "r3 = \<lparr>r_source = drop len (r_source r2), r_crc = crc_update ?bs (r_crc r2), r_read = r_read r2 + len\<rparr>"
      using b by (auto simp: bounded_Ok)
    have "bounded len f r2 = act_then (f ?bs) (\<lambda>_. act_of (Ok r3))" for f :: "bytes \<Rightarrow> ('s, unit) act"
      using len by (auto simp: fun_eq_iff bounded_def Let_def act_then_def act_of_def r3 split: option.splits sum.splits)
    with t False k h rs len show ?thesis
      by (intro exI [of _ "(kind, key, ?bs) # rs"] allI, subst read_records.simps)
        (simp add: act_then_def act_of_def split: option.splits sum.splits)
  qed
qed

lemma discard_files_feed:
  assumes "read_files Discard i entries r () = Some (Ok r', ())"
  shows "\<exists>contents. length contents = length entries \<and>
    (\<forall>(snk :: 's Sink) s. read_files snk i entries r s = act_then (feed_files snk i (zip entries contents)) (\<lambda>_. act_of (Ok r')) s)"
  using assms
proof (induction entries arbitrary: i r)
  case (Cons entry entries)
  then obtain r1 where a: "read_records Discard entry r () = Some (Ok r1, ())" "read_files Discard (Suc i) entries r1 () = Some (Ok r', ())"
    by (auto simp: act_then_Ok act_of_def)
  from discard_records_feed [OF a(1)] obtain rs where
    rs: "\<And>snk :: 's Sink. read_records snk entry r = act_then (feed_records snk entry rs) (\<lambda>_. act_of (Ok r1))" by (auto simp: fun_eq_iff)
  from Cons.IH [OF a(2)] obtain contents where c: "length contents = length entries"
    "\<And>snk :: 's Sink. read_files snk (Suc i) entries r1 = act_then (feed_files snk (Suc i) (zip entries contents)) (\<lambda>_. act_of (Ok r'))" by (auto simp: fun_eq_iff)
  show ?case
    by (intro exI [of _ "rs # contents"]) (simp add: c rs act_then_assoc)
qed (simp add: act_of_def act_then_def)

section \<open>Keys an archive cannot carry\<close>

definition storable :: "RecordKind \<times> str \<times> bytes \<Rightarrow> bool" where
  "storable = (\<lambda>(_, key, bs). length key \<le> MAX_KEY_LEN \<and> utf8_valid key \<and> length bs < 2 ^ 64)"

definition long_key :: "RecordKind \<times> str \<times> bytes \<Rightarrow> bool" where
  "long_key = (\<lambda>(_, key, _). ARCHIVE_MAX_KEY < length key)"

lemma storable_record_ok: "storable r \<Longrightarrow> \<not> long_key r \<Longrightarrow> record_ok r"
  by (auto simp: storable_def long_key_def record_ok_def)

lemma read_key_long:
  assumes "ARCHIVE_MAX_KEY < length key" "length key < 2 ^ 64"
  shows "\<exists>why. read_key \<lparr>r_source = blob key @ rest, r_crc = c, r_read = n\<rparr> = Err (archive_refused why)"
  using parsesD [OF parses_length [OF assms(2)], of "''a key''" "key @ rest" c n] assms(1)
  by (auto simp: read_key_def blob_def)

lemma read_records_long:
  assumes "\<forall>r \<in> set rs. storable r" "\<exists>r \<in> set rs. long_key r"
  shows "\<exists>why. read_records Discard entry \<lparr>r_source = file_image rs @ rest, r_crc = c, r_read = n\<rparr> s = Some (Err (archive_refused why), s)"
  using assms
proof (induction rs arbitrary: c n)
  case (Cons r rs)
  obtain kind key bs where r: "r = (kind, key, bs)" by (cases r)
  have img: "file_image (r # rs) = record_image (kind, key, bs) @ file_image rs" by (simp add: file_image_def r)
  show ?case
  proof (cases "long_key r")
    case True
    with Cons.prems(1) r have "ARCHIVE_MAX_KEY < length key" "length key < 2 ^ 64"
      by (auto simp: long_key_def storable_def MAX_KEY_LEN_def)
    from read_key_long [OF this, of "le_bytes 8 (length bs) @ bs @ file_image rs @ rest" "crc_update [kind_tag kind] c" "n + 1"]
    obtain why where "read_key \<lparr>r_source = blob key @ le_bytes 8 (length bs) @ bs @ file_image rs @ rest, r_crc = crc_update [kind_tag kind] c,
        r_read = n + 1\<rparr> = Err (archive_refused why)" by auto
    then show ?thesis
      using parsesD [OF parses_byte, of "kind_tag kind" "blob key @ le_bytes 8 (length bs) @ bs @ file_image rs @ rest" c n]
      unfolding img by (subst read_records.simps) (auto simp: read_record_head_def)
  next
    case False
    with Cons.prems r have "record_ok (kind, key, bs)" by (auto intro: storable_record_ok)
    moreover have "\<forall>r \<in> set rs. storable r" "\<exists>r \<in> set rs. long_key r" using Cons.prems False by auto
    ultimately show ?thesis
      using Cons.IH unfolding img append_assoc by (simp add: read_records_cons del: record_image.simps)
  qed
qed simp

lemma read_files_long:
  assumes "length contents = length entries" "\<forall>rs \<in> set contents. \<forall>r \<in> set rs. storable r"
    and "\<exists>rs \<in> set contents. \<exists>r \<in> set rs. long_key r"
  shows "\<exists>why. read_files Discard i entries \<lparr>r_source = concat (map file_image contents) @ rest, r_crc = c, r_read = n\<rparr> s =
    Some (Err (archive_refused why), s)"
  using assms
proof (induction contents entries arbitrary: i c n rule: list_induct2)
  case (Cons rs contents entry entries)
  show ?case
  proof (cases "\<exists>r \<in> set rs. long_key r")
    case True
    with Cons.prems obtain why where "read_records Discard entry \<lparr>r_source = file_image rs @ concat (map file_image contents) @ rest,
        r_crc = c, r_read = n\<rparr> s = Some (Err (archive_refused why), s)"
      using read_records_long [of rs entry "concat (map file_image contents) @ rest" c n s] by auto
    then show ?thesis by (auto simp: act_then_def)
  next
    case False
    with Cons.prems(1) have "\<forall>r \<in> set rs. record_ok r" by (auto intro: storable_record_ok)
    note step = read_records_image [OF this, of Discard entry "concat (map file_image contents) @ rest" c n s]
    have fed: "feed_records Discard entry rs s = Some (Ok (), s)" for s :: 'a
      by (induction rs) (auto simp: act_of_def)
    from Cons.prems False Cons.IH show ?thesis
      by (simp add: act_then_def step fed act_of_def)
  qed
qed simp

section \<open>A small archive\<close>

definition sample_manifest :: Manifest where
  "sample_manifest = \<lparr>archive_format = 1, storage_format = 1, taken_millis = 0, man_source = SourceAccount ''ACME'',
     man_files = [FileEntry_of ''ACME'' ''ORDERS'' FileAttributes_default []]\<rparr>"

definition sample_contents :: "content list" where
  "sample_contents = [ [(DictionaryKind, ''QTY'', ''1''), (DataKind, ''7'', ''12'')] ]"

definition long_contents :: "content list" where
  "long_contents = [ [(DataKind, replicate 256 (CHR ''k''), ''12'')] ]"

text \<open>Documents that know one manifest and one trailer, and a sink that keeps the keys it is given.\<close>

definition sample_docs :: "content list \<Rightarrow> Documents" where
  "sample_docs contents =
     \<lparr>manifest_doc = \<lambda>m. Ok ''M'', manifest_of = \<lambda>bs. if bs = ''M'' then Ok sample_manifest else Err ''unknown'',
      trailer_doc = \<lambda>t. Ok ''T'', trailer_of = \<lambda>bs. if bs = ''T'' then Ok (trailer_for sample_manifest contents) else Err ''unknown''\<rparr>"

definition collect_keys :: "str list Sink" where
  "collect_keys = \<lparr>sink_begin_file = \<lambda>index entry s. Some (Ok (), s @ [fe_name entry]),
     sink_record = \<lambda>entry kind key len body s. Some (Ok (), s @ [key]), sink_end_file = \<lambda>entry. act_of (Ok ())\<rparr>"

lemma sample_docs_ok: "docs_ok (sample_docs contents) sample_manifest (trailer_for sample_manifest contents)"
  by (simp add: docs_ok_def sample_docs_def MAX_DOCUMENT_BYTES_def)

lemma sample_contents_ok: "contents_ok (sample_docs sample_contents) sample_manifest sample_contents"
proof -
  have "utf8_valid ''QTY''" "utf8_valid ''7''" by (simp_all add: is_ascii_def utf8_valid_ascii)
  then show ?thesis
    by (simp add: contents_ok_def sample_docs_ok) (simp add: sample_manifest_def sample_contents_def ARCHIVE_CURRENT_def record_ok_def ARCHIVE_MAX_KEY_def)
qed

lemma sample_archive_length: "20 < length (archive_image (sample_docs sample_contents) sample_manifest sample_contents)"
  by (simp add: archive_image_def archive_body_def ARCHIVE_MAGIC_def blob_def doc_bytes_def sample_docs_def)

section \<open>Properties\<close>

text \<open>
  C13. An archive carries what it was given. A writer led through the files of its manifest in order finishes, its
  trailer counts each file's records, dictionary entries and bytes, and reading the archive hands any sink
  exactly those files and records, in that order, before it answers with that manifest and that trailer.
\<close>

theorem archive_round_trip:
  assumes "contents_ok docs m contents"
  shows "write_archive docs m contents = Ok (trailer_for m contents, archive_image docs m contents) \<and>
    read_archive docs (archive_image docs m contents) snk s =
      act_then (feed_files snk 0 (zip (man_files m) contents)) (\<lambda>_. act_of (Ok
        \<lparr>sum_manifest = m, sum_trailer = trailer_for m contents, archive_bytes = length (archive_image docs m contents)\<rparr>)) s"
  using assms by (simp add: write_archive_image read_archive_image contents_ok_def)

theorem archive_round_trip_witness:
  "read_archive (sample_docs sample_contents) (archive_image (sample_docs sample_contents) sample_manifest sample_contents) collect_keys [] =
     Some (Ok \<lparr>sum_manifest = sample_manifest, sum_trailer = trailer_for sample_manifest sample_contents,
       archive_bytes = length (archive_image (sample_docs sample_contents) sample_manifest sample_contents)\<rparr>, [''ORDERS'', ''QTY'', ''7''])"
proof -
  have "feed_files collect_keys 0 (zip (man_files sample_manifest) sample_contents) [] = Some (Ok (), [''ORDERS'', ''QTY'', ''7''])"
    by (simp add: sample_manifest_def sample_contents_def collect_keys_def act_then_def act_of_def FileEntry_of_def)
  then show ?thesis
    using archive_round_trip [OF sample_contents_ok, of collect_keys "[]"] by (simp add: act_then_def act_of_def)
qed

text \<open>
  C14. No torn archive passes for a short one: cut anywhere before its last byte, an archive is refused.
\<close>

theorem truncated_archive_refused:
  assumes "contents_ok docs m contents" and "n < length (archive_image docs m contents)"
  shows "\<exists>e. verify_archive docs (take n (archive_image docs m contents)) = Err e"
proof (rule ccontr)
  let ?a = "archive_image docs m contents"
  assume "\<not> ?thesis"
  then obtain sm where "verify_archive docs (take n ?a) = Ok sm" by (cases "verify_archive docs (take n ?a)") auto
  then have "read_archive docs (take n ?a) Discard () = Some (Ok sm, ())" by (simp add: verify_archive_eq)
  from read_archive_steady [OF this, of "drop n ?a"] have sm: "read_archive docs ?a Discard () = Some (Ok sm, ())" "archive_bytes sm \<le> n"
    by (simp_all add: assms(2))
  then have "archive_bytes sm = length ?a"
    by (auto simp: read_archive_image [OF assms(1)] act_then_Ok act_of_def)
  with sm(2) assms(2) show False by simp
qed

theorem truncated_archive_refused_witness:
  "\<exists>e. verify_archive (sample_docs sample_contents)
     (take 20 (archive_image (sample_docs sample_contents) sample_manifest sample_contents)) = Err e"
  by (rule truncated_archive_refused [OF sample_contents_ok sample_archive_length])

text \<open>
  An archive that verifies is never refused by a later pass: it is a list of records, the same for
  every sink, and a pass that applies them fails only where the sink itself does.
\<close>

theorem verified_archive_applies:
  assumes "verify_archive docs src = Ok sm"
  shows "\<exists>contents. length contents = length (man_files (sum_manifest sm)) \<and>
    (\<forall>(snk :: 's Sink) s. read_archive docs src snk s =
       act_then (feed_files snk 0 (zip (man_files (sum_manifest sm)) contents)) (\<lambda>_. act_of (Ok sm)) s)"
proof -
  have "read_archive docs src Discard () = Some (Ok sm, ())" using assms by (simp add: verify_archive_eq)
  then obtain m r r1 where a: "read_front docs (Reader_new src) = Ok (m, r)"
    "read_files Discard 0 (man_files m) r () = Some (Ok r1, ())" "read_back docs m r1 = Ok sm"
    by (auto simp: read_archive_def act_then_Ok act_of_def)
  have "sum_manifest sm = m" using a(3) by (auto simp: read_back_def try_ok_Ok Let_def split: if_splits)
  moreover from discard_files_feed [OF a(2)] obtain contents where c: "length contents = length (man_files m)"
    "\<And>snk :: 's Sink. read_files snk 0 (man_files m) r = act_then (feed_files snk 0 (zip (man_files m) contents)) (\<lambda>_. act_of (Ok r1))"
    by (auto simp: fun_eq_iff)
  ultimately show ?thesis
    using a by (intro exI [of _ contents]) (simp add: read_archive_def c act_then_assoc)
qed

theorem verified_archive_applies_witness:
  "\<exists>contents. length contents = 1 \<and>
     read_archive (sample_docs sample_contents) (archive_image (sample_docs sample_contents) sample_manifest sample_contents) collect_keys [] =
       act_then (feed_files collect_keys 0 (zip (man_files sample_manifest) contents)) (\<lambda>_. act_of (Ok
         \<lparr>sum_manifest = sample_manifest, sum_trailer = trailer_for sample_manifest sample_contents,
          archive_bytes = length (archive_image (sample_docs sample_contents) sample_manifest sample_contents)\<rparr>)) []"
proof -
  let ?d = "sample_docs sample_contents" and ?a = "archive_image (sample_docs sample_contents) sample_manifest sample_contents"
  let ?sm = "\<lparr>sum_manifest = sample_manifest, sum_trailer = trailer_for sample_manifest sample_contents, archive_bytes = length ?a\<rparr>"
  have "feed_files Discard 0 (zip (man_files sample_manifest) sample_contents) () = Some (Ok (), ())"
    by (simp add: sample_manifest_def sample_contents_def act_then_def act_of_def)
  then have "read_archive ?d ?a Discard () = Some (Ok ?sm, ())"
    by (simp add: read_archive_image [OF sample_contents_ok] act_then_def act_of_def)
  then have "verify_archive ?d ?a = Ok ?sm" by (simp add: verify_archive_eq)
  moreover have "length (man_files sample_manifest) = 1" by (simp add: sample_manifest_def)
  ultimately show ?thesis using verified_archive_applies [of ?d ?a ?sm, where 's = "str list"] by auto
qed

text \<open>
  C38. A backup that cannot be read back. The database stores keys of up to 64 KiB and the writer takes them, but the reader
  refuses a key past 255 bytes: an archive with one such key is written, answers its counts, and is refused whole.
\<close>

theorem long_key_backup_unreadable:
  assumes "docs_ok docs m (trailer_for m contents)" "archive_format m = ARCHIVE_CURRENT" "length contents = length (man_files m)"
    and "\<forall>rs \<in> set contents. \<forall>r \<in> set rs. storable r" and "\<exists>rs \<in> set contents. \<exists>r \<in> set rs. long_key r"
  shows "write_archive docs m contents = Ok (trailer_for m contents, archive_image docs m contents) \<and>
    (\<exists>why. verify_archive docs (archive_image docs m contents) = Err (archive_refused why))"
proof
  show "write_archive docs m contents = Ok (trailer_for m contents, archive_image docs m contents)"
    by (rule write_archive_image [OF assms(1,3)])
  let ?tail = "TAG_END_OF_ARCHIVE # blob (doc_bytes (trailer_doc docs (trailer_for m contents))) @
    le_bytes 4 (unat (crc32c (archive_body docs m contents)))"
  obtain c n where "read_front docs (Reader_new (archive_image docs m contents)) =
      Ok (m, \<lparr>r_source = concat (map file_image contents) @ ?tail, r_crc = c, r_read = n\<rparr>)"
    using parsesD [OF read_front_image [OF assms(1,2)], of "concat (map file_image contents) @ ?tail" crc_new 0]
    by (simp add: Reader_new_def archive_image_def archive_body_def)
  with read_files_long [OF assms(3,4,5), of 0 ?tail c n "()"] obtain why where
    "read_archive docs (archive_image docs m contents) Discard () = Some (Err (archive_refused why), ())"
    by (auto simp: read_archive_def act_then_def)
  then show "\<exists>why. verify_archive docs (archive_image docs m contents) = Err (archive_refused why)"
    by (auto simp: verify_archive_eq)
qed

theorem long_key_backup_unreadable_witness:
  "write_archive (sample_docs long_contents) sample_manifest long_contents =
     Ok (trailer_for sample_manifest long_contents, archive_image (sample_docs long_contents) sample_manifest long_contents) \<and>
   (\<exists>why. verify_archive (sample_docs long_contents) (archive_image (sample_docs long_contents) sample_manifest long_contents) =
     Err (archive_refused why))"
proof (rule long_key_backup_unreadable [OF sample_docs_ok])
  have "utf8_valid (replicate 256 (CHR ''k''))" by (rule utf8_valid_ascii) (simp add: is_ascii_def list_all_iff)
  then show "\<forall>rs \<in> set long_contents. \<forall>r \<in> set rs. storable r"
    by (simp add: long_contents_def storable_def MAX_KEY_LEN_def)
qed (simp_all add: long_contents_def long_key_def ARCHIVE_MAX_KEY_def sample_manifest_def ARCHIVE_CURRENT_def)

text \<open>
  What the manifest keeps of a file makes the same file again, a directory file's own place excepted, which is
  left behind on purpose.
\<close>

theorem entry_makes_same_file:
  assumes "attributes_ok a"
  shows "entry_attributes (FileEntry_of account name a ix) =
    (case att_directory a of None \<Rightarrow> a | Some _ \<Rightarrow> a\<lparr>att_directory := Some default_path\<rparr>)"
proof -
  have "\<lparr>visibility = from_secs (visibility_seconds p), max_deliveries = max_deliveries p\<rparr> = p" if "visibility p = from_secs s" for p s
    using that by (cases p) (simp add: visibility_seconds_def from_secs_def)
  with assms show ?thesis
    by (cases a) (auto simp: entry_attributes_def FileEntry_of_def entry_policy_def attributes_ok_def split: option.splits)
qed

end
