(* ===== verification/Archive_Engine.thy ===== *)
theory Archive_Engine
  imports Handler Archive_Props
begin

text \<open>
  What the engine does with an archive (\<^verbatim>\<open>db/engine/archive.rs\<close>): which files an export reads and in which
  order, what it writes of each, and an import as verify, plan, apply. The two passes of an import open the same path
  twice, so they are given what each of them finds there. Guards are not modelled: an export reads the tables as they
  are once it holds them all. The names log entries get are a parameter.
\<close>

section \<open>Export\<close>

definition LISTING :: str where "LISTING = ''DIR''"
definition SYSTEM_ACCOUNT :: str where "SYSTEM_ACCOUNT = ''SYSTEM''"
definition STORAGE_FORMAT :: nat where "STORAGE_FORMAT = 1"

record ExportTarget =
  et_account :: str
  et_name :: str
  et_attributes :: FileAttributes

definition require_account :: "str \<Rightarrow> unit cmd" where
  "require_account account =
     and_then (asks (\<lambda>db. get_account_dir db account)) (\<lambda>dir. if dir = None then fail (AccountNotFound account) else ret ())"

definition collect_account :: "Service \<Rightarrow> str \<Rightarrow> ExportTarget list cmd" where
  "collect_account svc account =
     and_then (list_tables_with_attributes_for_account (svc_settings svc) (pins svc) account) (\<lambda>files.
     ret (map (\<lambda>(name, a). \<lparr>et_account = account, et_name = name, et_attributes = a\<rparr>) (filter (\<lambda>(name, _). name \<noteq> LISTING) files)))"

fun collect_accounts :: "Service \<Rightarrow> str list \<Rightarrow> ExportTarget list cmd" where
  "collect_accounts svc [] = ret []"
| "collect_accounts svc (account # accounts) =
     (if account = SYSTEM_ACCOUNT then collect_accounts svc accounts
      else and_then (collect_account svc account) (\<lambda>ts. and_then (collect_accounts svc accounts) (\<lambda>rest. ret (ts @ rest))))"

definition export_targets :: "Service \<Rightarrow> Source \<Rightarrow> ExportTarget list cmd" where
  "export_targets svc source =
     (case source of
        SourceFile account fname \<Rightarrow>
          and_then (require_account account) (\<lambda>_.
          and_then (list_tables_for_account (svc_settings svc) account) (\<lambda>names.
          if fname \<notin> set names then fail (FileNotFound account fname)
          else if fname = LISTING then
            fail (InvalidRequest (quoted LISTING @ '' is the account'' @ [CHR 0x27] @
              ''s listing of its own files, not data. Export the account instead''))
          else
            and_then (file_attributes_for_account (svc_settings svc) (pins svc) account fname) (\<lambda>a.
            ret [\<lparr>et_account = account, et_name = fname, et_attributes = a\<rparr>])))
      | SourceAccount account \<Rightarrow> and_then (require_account account) (\<lambda>_. collect_account svc account)
      | SourceAll \<Rightarrow> and_then (list_accounts (svc_settings svc)) (collect_accounts svc))"

definition export_plan :: "Service \<Rightarrow> Source \<Rightarrow> ExportTarget list cmd" where
  "export_plan svc source =
     and_then (export_targets svc source) (\<lambda>ts. ret (sort_key (\<lambda>t. (et_account t, et_name t)) ts))"

text \<open>The handles of an export, each resolved while the ones before it are held.\<close>

fun hold_tables :: "Service \<Rightarrow> ExportTarget list \<Rightarrow> table_key list \<Rightarrow> unit cmd" where
  "hold_tables svc [] held_keys = ret ()"
| "hold_tables svc (t # ts) held_keys =
     (if is_directory (et_attributes t) then hold_tables svc ts held_keys
      else and_then (get_table_mut (svc_settings svc) (held_keys @ pins svc) (et_account t) (et_name t)) (\<lambda>_.
        hold_tables svc ts ((et_account t, et_name t) # held_keys)))"

definition index_entries :: "Table \<Rightarrow> IndexEntry list" where
  "index_entries t =
     map (\<lambda>(field, idx). \<lparr>ie_field = field, ie_excluded = fi_excluded idx\<rparr>) (sort_key fst (tbl_indexes t))"

fun entries_of :: "ExportTarget list \<Rightarrow> FileEntry list cmd" where
  "entries_of [] = ret []"
| "entries_of (t # ts) =
     and_then (if is_directory (et_attributes t) then ret []
       else and_then (table_of (et_account t, et_name t)) (\<lambda>tbl. ret (index_entries tbl))) (\<lambda>indexes.
     and_then (entries_of ts) (\<lambda>es. ret (FileEntry_of (et_account t) (et_name t) (et_attributes t) indexes # es)))"

text \<open>The records of a loaded file as they are written: the dictionary, then the data, each in the order of its keys.\<close>

definition map_content :: "RecordKind \<Rightarrow> (str, Record) hashmap \<Rightarrow> content" where
  "map_content kind m = map (\<lambda>(key, r). (kind, key, to_bytes r)) (sort_key fst m)"

definition table_content :: "Table \<Rightarrow> content" where
  "table_content t = map_content DictionaryKind (tbl_dictionary t) @ map_content DataKind (tbl_records t)"

fun export_directory_entries :: "Service \<Rightarrow> str \<Rightarrow> str \<Rightarrow> DirectoryRecord list \<Rightarrow> Writer \<Rightarrow> Writer cmd" where
  "export_directory_entries svc account name [] w = ret w"
| "export_directory_entries svc account name (e # es) w =
     and_then (with_root svc account name (\<lambda>root. (dir_open root (dr_key e) (max_record_bytes svc), root))) (\<lambda>opened.
     case opened of None \<Rightarrow> export_directory_entries svc account name es w
     | Some (body, len) \<Rightarrow>
       and_then (of_result (record_from_body DataKind (dr_key e) len body w)) (export_directory_entries svc account name es))"

definition export_directory_records :: "Service \<Rightarrow> str \<Rightarrow> str \<Rightarrow> Writer \<Rightarrow> Writer cmd" where
  "export_directory_records svc account name w =
     and_then (with_root svc account name directory_records) (\<lambda>es. export_directory_entries svc account name es w)"

definition export_file :: "Service \<Rightarrow> ExportTarget \<Rightarrow> Writer \<Rightarrow> Writer cmd" where
  "export_file svc t w =
     and_then (of_result (writer_begin_file w)) (\<lambda>(_, w).
     and_then (if is_directory (et_attributes t) then export_directory_records svc (et_account t) (et_name t) w
       else and_then (table_of (et_account t, et_name t)) (\<lambda>tbl. of_result (write_records (table_content tbl) w))) (\<lambda>w.
     of_result (writer_end_file w)))"

fun export_each :: "Service \<Rightarrow> ExportTarget list \<Rightarrow> Writer \<Rightarrow> Writer cmd" where
  "export_each svc [] w = ret w"
| "export_each svc (t # ts) w = and_then (export_file svc t w) (export_each svc ts)"

text \<open>The tables an export holds while it writes.\<close>

definition held_tables :: "ExportTarget list \<Rightarrow> table_key list" where
  "held_tables plan = map (\<lambda>t. (et_account t, et_name t)) (filter (\<lambda>t. \<not> is_directory (et_attributes t)) plan)"

definition export_planned :: "Service \<Rightarrow> Documents \<Rightarrow> Source \<Rightarrow> ExportTarget list \<Rightarrow> (Trailer \<times> bytes) cmd" where
  "export_planned svc docs source plan =
     and_then (hold_tables svc plan []) (\<lambda>_.
     and_then (entries_of plan) (\<lambda>entries.
     and_then (of_result (Writer_begin docs \<lparr>archive_format = ARCHIVE_CURRENT, storage_format = STORAGE_FORMAT,
       taken_millis = wall svc, man_source = source, man_files = entries\<rparr>)) (\<lambda>w.
     and_then (export_each (svc\<lparr>pins := held_tables plan @ pins svc\<rparr>) plan w) (\<lambda>w. of_result (writer_finish docs w)))))"

definition export :: "Service \<Rightarrow> Documents \<Rightarrow> Source \<Rightarrow> (Trailer \<times> bytes) cmd" where
  "export svc docs source =
     and_then (save (svc_settings svc) (pins svc) (tick svc)) (\<lambda>_.
     and_then (export_plan svc source) (export_planned svc docs source))"

text \<open>
  Where an archive is put: the staging name beside the path, which takes the bytes, and the rename once they
  are all there. The host's files are a map from names to their bytes.
\<close>

definition staging_name :: "str \<Rightarrow> str" where
  "staging_name name =
     (case extension name of Some ext \<Rightarrow> name @ ''.tmp'' | None \<Rightarrow> name @ ''.'' @ ARCHIVE_EXTENSION @ ''.tmp'')"

definition export_to_path ::
  "Service \<Rightarrow> Documents \<Rightarrow> Source \<Rightarrow> str \<Rightarrow> (str, bytes) hashmap \<Rightarrow> Database \<Rightarrow> (Trailer DbResult \<times> (str, bytes) hashmap \<times> Database) option" where
  "export_to_path svc docs source name host db =
     (case export svc docs source db of None \<Rightarrow> None
      | Some (Inl e, db) \<Rightarrow> Some (Err e, hm_remove (staging_name name) host, db)
      | Some (Inr (trailer, bs), db) \<Rightarrow> Some (Ok trailer, hm_insert name bs (hm_remove (staging_name name) host), db))"

section \<open>Import\<close>

datatype FileAction = FileCreated | FileReplaced

fun action_as_word :: "FileAction \<Rightarrow> str" where
  "action_as_word FileCreated = ''created''"
| "action_as_word FileReplaced = ''replaced''"

record ImportedFile =
  if_account :: str
  if_name :: str
  if_action :: FileAction
  if_records :: nat
  if_dictionary :: nat
  if_bytes :: nat

record ImportReport =
  rep_summary :: Summary
  rep_files :: "ImportedFile list"
  rep_accounts_created :: "str list"
  rep_dry_run :: bool

definition report_records :: "ImportReport \<Rightarrow> nat" where
  "report_records r = sum_list (map if_records (rep_files r))"

definition distinct_accounts :: "ImportedFile list \<Rightarrow> str list" where
  "distinct_accounts files = remdups_adj (sort (map if_account files))"

definition distinct_source_accounts :: "Summary \<Rightarrow> str list" where
  "distinct_source_accounts s = remdups_adj (sort (map fe_account (man_files (sum_manifest s))))"

fun join_text :: "str \<Rightarrow> str list \<Rightarrow> str" where
  "join_text sep [] = []"
| "join_text sep [x] = x"
| "join_text sep (x # y # ys) = x @ sep @ join_text sep (y # ys)"

text \<open>The files of the archive against the database: what each comes to, and the ones that are in the way.\<close>

fun resolve_imports :: "Settings \<Rightarrow> ImportPlan \<Rightarrow> (FileEntry \<times> FileCounts) list \<Rightarrow> (ImportedFile list \<times> str list) cmd" where
  "resolve_imports cfg plan [] = ret ([], [])"
| "resolve_imports cfg plan ((entry, counts) # rest) =
     (let account = (case into_account plan of Some into \<Rightarrow> into | None \<Rightarrow> fe_account entry) in
      and_then (asks (\<lambda>db. get_account_dir db account \<noteq> None)) (\<lambda>known.
      and_then (if known then and_then (list_tables_for_account cfg account) (\<lambda>names. ret (fe_name entry \<in> set names)) else ret False) (\<lambda>exists.
      and_then (resolve_imports cfg plan rest) (\<lambda>(planned, collisions).
      ret (\<lparr>if_account = account, if_name = fe_name entry, if_action = (if exists then FileReplaced else FileCreated),
             if_records = fc_records counts, if_dictionary = fc_dictionary counts, if_bytes = fc_bytes counts\<rparr> # planned,
           if exists \<and> \<not> plan_overwrite plan then (account @ ''/'' @ fe_name entry) # collisions else collisions)))))"

definition refuse_renaming :: "Summary \<Rightarrow> ImportPlan \<Rightarrow> unit DbResult" where
  "refuse_renaming s plan =
     (let accounts = distinct_source_accounts s in
      case into_account plan of
        Some into \<Rightarrow>
          if 1 < length accounts then
            Err (InvalidRequest (''This archive holds '' @ show_nat (length accounts) @ '' accounts ('' @ join_text '', '' accounts @
              ''), so it cannot be restored into '' @ quoted into @ ''. Restore it as it is, or export one account at a time''))
          else Ok ()
      | None \<Rightarrow> Ok ())"

definition plan_import :: "Settings \<Rightarrow> Summary \<Rightarrow> ImportPlan \<Rightarrow> ImportedFile list cmd" where
  "plan_import cfg s plan =
     and_then (of_result (refuse_renaming s plan)) (\<lambda>_.
     and_then (resolve_imports cfg plan (summary_files s)) (\<lambda>(planned, collisions).
     if collisions \<noteq> [] then
       fail (InvalidRequest ((if length collisions = 1 then ''This file is'' else ''These files are'') @
         '' already there and OVERWRITE was not given, so nothing was imported: '' @ join_text '', '' collisions))
     else ret planned))"

text \<open>The apply pass: the file being restored, and the sink that restores it.\<close>

record Pending =
  p_account :: str
  p_name :: str
  p_records :: "((str, Record) hashmap \<times> (str, Record) hashmap) option"
  p_indexes :: "IndexEntry list"

type_synonym restore_state = "Database \<times> Pending option"

definition on_db :: "'a cmd \<Rightarrow> (restore_state, 'a) act" where
  "on_db m = (\<lambda>(db, p). case m db of None \<Rightarrow> None | Some (r, db) \<Rightarrow> Some (r, (db, p)))"

definition restore_begin_file :: "Service \<Rightarrow> ImportedFile list \<Rightarrow> nat \<Rightarrow> FileEntry \<Rightarrow> (restore_state, unit) act" where
  "restore_begin_file svc files index entry =
     (if length files \<le> index then act_of (Err (InvalidRequest ''The archive changed while it was being read''))
      else let planned = files ! index in
        act_then (on_db (if if_action planned = FileReplaced
          then delete_table_for_account (svc_settings svc) (if_account planned) (if_name planned) else ret ())) (\<lambda>_.
        act_then (on_db (create_table_with (svc_settings svc) (pins svc) (tick svc) (if_account planned) (if_name planned)
          (entry_attributes entry))) (\<lambda>_ (db, _).
        Some (Ok (), (db, Some \<lparr>p_account = if_account planned, p_name = if_name planned,
          p_records = (if entry_is_directory entry then None else Some ([], [])), p_indexes = fe_indexes entry\<rparr>)))))"

text \<open>\<open>stream_to\<close> a staged file, then its commit.\<close>

definition stream_to :: "bytes \<Rightarrow> str \<Rightarrow> host_dir option \<Rightarrow> nat DbResult \<times> host_dir option" where
  "stream_to body staged root =
     (case root of None \<Rightarrow> (Err (Io io_not_found), None) | Some d \<Rightarrow> (Ok (length body), Some (host_create staged body d)))"

definition restore_directory_record :: "Service \<Rightarrow> str \<Rightarrow> str \<Rightarrow> str \<Rightarrow> nat \<Rightarrow> bytes \<Rightarrow> unit cmd" where
  "restore_directory_record svc account name key len body =
     and_then (with_root svc account name (\<lambda>root. dir_stage (tmp_name svc) root key len (max_record_bytes svc))) (\<lambda>staged.
     and_then (with_root svc account name (stream_to body staged)) (\<lambda>arrived.
     with_root svc account name (\<lambda>root. commit_staged root key staged arrived len)))"

definition restore_record :: "Service \<Rightarrow> FileEntry \<Rightarrow> RecordKind \<Rightarrow> str \<Rightarrow> nat \<Rightarrow> bytes \<Rightarrow> (restore_state, unit) act" where
  "restore_record svc entry kind key len body = (\<lambda>(db, pending).
     case pending of None \<Rightarrow> Some (Err (InvalidRequest ''A record outside any file''), (db, None))
     | Some p \<Rightarrow>
       (case p_records p of
          Some (records, dictionary) \<Rightarrow>
            (let r = from_bytes body in
             Some (Ok (), (db, Some (p\<lparr>p_records := Some
               (case kind of DataKind \<Rightarrow> (hm_insert key r records, dictionary)
                | DictionaryKind \<Rightarrow> (records, hm_insert key r dictionary))\<rparr>))))
        | None \<Rightarrow> on_db (restore_directory_record svc (p_account p) (p_name p) key len body) (db, pending)))"

text \<open>What \<open>end_file\<close> does to the loaded table, and to it again for one index.\<close>

definition install_records :: "(str, Record) hashmap \<Rightarrow> (str, Record) hashmap \<Rightarrow> Table \<Rightarrow> Table" where
  "install_records records dictionary t =
     touch_all (mark_dict_dirty (t\<lparr>tbl_records := records, tbl_dictionary := dictionary\<rparr>))"

definition restore_index :: "IndexEntry \<Rightarrow> Table \<Rightarrow> unit DbResult DbResult \<times> Table" where
  "restore_index ie t =
     (case create_index_excluding (ie_field ie) (ie_excluded ie) t of
        Inl e \<Rightarrow> (Err e, t)
      | Inr t1 \<Rightarrow> (case rebuild_index (ie_field ie) t1 of Inl e \<Rightarrow> (Ok (Err e), t1) | Inr t2 \<Rightarrow> (Ok (Ok ()), t2)))"

fun restore_indexes :: "Service \<Rightarrow> (str \<Rightarrow> str) \<Rightarrow> Pending \<Rightarrow> IndexEntry list \<Rightarrow> unit cmd" where
  "restore_indexes svc log_names p [] = ret ()"
| "restore_indexes svc log_names p (ie # ies) =
     and_then (with_table (p_account p, p_name p) (restore_index ie)) (\<lambda>r.
     and_then (case r of
         Inr rebuilt \<Rightarrow> of_result rebuilt
       | Inl e \<Rightarrow>
         let message = ''IMPORT: '' @ p_account p @ ''/'' @ p_name p @ '' restored, but its index on '' @ quoted (ie_field ie) @
           '' could not be rebuilt: '' @ error_display e
         in log_error (svc_settings svc) ((p_account p, p_name p) # pins svc) (tick svc) (log_names message) (log_detail svc) message) (\<lambda>_.
     restore_indexes svc log_names p ies))"

definition restore_end_file :: "Service \<Rightarrow> (str \<Rightarrow> str) \<Rightarrow> FileEntry \<Rightarrow> (restore_state, unit) act" where
  "restore_end_file svc log_names entry = (\<lambda>(db, pending).
     case pending of None \<Rightarrow> Some (Ok (), (db, None))
     | Some p \<Rightarrow>
       (case p_records p of None \<Rightarrow> Some (Ok (), (db, None))
        | Some (records, dictionary) \<Rightarrow>
          on_db (and_then (get_table_mut (svc_settings svc) (pins svc) (p_account p) (p_name p)) (\<lambda>_.
            and_then (with_table (p_account p, p_name p) (\<lambda>t. ((), install_records records dictionary t))) (\<lambda>_.
            restore_indexes svc log_names p (p_indexes p)))) (db, None)))"

definition Restore :: "Service \<Rightarrow> (str \<Rightarrow> str) \<Rightarrow> ImportedFile list \<Rightarrow> restore_state Sink" where
  "Restore svc log_names files =
     \<lparr>sink_begin_file = restore_begin_file svc files, sink_record = restore_record svc, sink_end_file = restore_end_file svc log_names\<rparr>"

fun create_accounts :: "Service \<Rightarrow> str list \<Rightarrow> str list cmd" where
  "create_accounts svc [] = ret []"
| "create_accounts svc (account # accounts) =
     and_then (asks (\<lambda>db. get_account_dir db account = None)) (\<lambda>missing_account.
     if missing_account then
       and_then (create_account (svc_settings svc) (pins svc) (tick svc) account None) (\<lambda>_.
       and_then (create_accounts svc accounts) (\<lambda>created. ret (account # created)))
     else create_accounts svc accounts)"

definition run_restore :: "Service \<Rightarrow> (str \<Rightarrow> str) \<Rightarrow> Documents \<Rightarrow> ImportedFile list \<Rightarrow> bytes \<Rightarrow> Summary cmd" where
  "run_restore svc log_names docs files source db =
     (case read_archive docs source (Restore svc log_names files) (db, None) of None \<Rightarrow> None | Some (r, (db, _)) \<Rightarrow> Some (r, db))"

definition open_archive :: "bytes option \<Rightarrow> bytes cmd" where
  "open_archive found = (case found of None \<Rightarrow> fail (Io io_not_found) | Some bs \<Rightarrow> ret bs)"

definition import :: "Service \<Rightarrow> (str \<Rightarrow> str) \<Rightarrow> Documents \<Rightarrow> bytes option \<Rightarrow> bytes option \<Rightarrow> ImportPlan \<Rightarrow> ImportReport cmd" where
  "import svc log_names docs first_pass second_pass plan =
     and_then (open_archive first_pass) (\<lambda>source.
     and_then (of_result (verify_archive docs source)) (\<lambda>s.
     and_then (plan_import (svc_settings svc) s plan) (\<lambda>files.
     if plan_dry_run plan then ret \<lparr>rep_summary = s, rep_files = files, rep_accounts_created = [], rep_dry_run = True\<rparr>
     else
       and_then (create_accounts svc (distinct_accounts files)) (\<lambda>created.
       and_then (open_archive second_pass) (\<lambda>source.
       and_then (run_restore svc log_names docs files source) (\<lambda>_.
       and_then (save (svc_settings svc) (pins svc) (tick svc)) (\<lambda>_.
       ret \<lparr>rep_summary = s, rep_files = files, rep_accounts_created = created, rep_dry_run = False\<rparr>)))))))"

end
