(* ===== verification/Archive_Engine_Props.thy ===== *)
theory Archive_Engine_Props
  imports Archive_Engine Handler_Props Accounts_Props
begin

text \<open>
  Backups over the engine: an import leaves the data alone until the archive has verified and its plan stands, an export
  writes the tables it holds, and restoring what was written of a table makes the same table, its indexes built anew.
\<close>

section \<open>Nothing is changed before the plan stands\<close>

text \<open>Everything a database holds but what it has cached about listings and the registry.\<close>

definition data_of :: "Database \<Rightarrow> (table_key, Table) hashmap \<times> disk \<times> (path, host_dir) hashmap \<times> bytes option \<times> bytes option \<times> ClientRegistry" where
  "data_of db = (tables db, disk_dirs db, disk_records db, disk_registry db, disk_certs db, clients db)"

lemma data_listing_free: "listing_free (\<lambda>db. data_of db = d)"
  by (simp add: listing_free_def data_of_def)

lemma keeps_resolve_imports: "keeps (\<lambda>db. data_of db = d) (resolve_imports cfg plan fs)"
proof (induction fs)
  case (Cons f fs)
  have l: "keeps (\<lambda>db. data_of db = d) (list_tables_for_account cfg account)" for account
    unfolding list_tables_for_account_def account_tables_def by (intro keeps_intro data_listing_free)
  obtain entry counts where f: "f = (entry, counts)" by (cases f)
  show ?case
    unfolding f resolve_imports.simps Let_def by (intro keeps_intro l Cons) (auto intro: keeps_intro split: prod.split)
qed (simp only: resolve_imports.simps keeps_basic)

lemma keeps_plan_import: "keeps (\<lambda>db. data_of db = d) (plan_import cfg s plan)"
  unfolding plan_import_def by (intro keeps_intro keeps_resolve_imports) (auto intro: keeps_intro split: prod.split)

lemma resolve_imports_actions:
  assumes "resolve_imports cfg plan fs db = Some (Ok (planned, []), db')" "\<not> plan_overwrite plan"
  shows "list_all (\<lambda>f. if_action f = FileCreated) planned"
  using assms
proof (induction fs arbitrary: db planned db')
  case (Cons f fs)
  obtain entry counts where "f = (entry, counts)" by (cases f)
  with Cons show ?case by (auto simp: Let_def and_then_Ok_iff split: if_splits)
qed simp

lemma plan_import_actions:
  "plan_import cfg s plan db = Some (Ok files, db') \<Longrightarrow> \<not> plan_overwrite plan \<Longrightarrow> list_all (\<lambda>f. if_action f = FileCreated) files"
  unfolding plan_import_def by (auto simp: and_then_Ok_iff split: if_splits prod.splits intro: resolve_imports_actions)

text \<open>
  C17. An import is all checks first. Whatever it answers, the data of the database is as it was, unless the archive
  verified whole, no dry run was asked for, and the plan stood; and without \<open>OVERWRITE\<close> a plan that stands creates every
  file and replaces none.
\<close>

theorem import_checks_first:
  assumes "import svc log_names docs first_pass second_pass plan db = Some (r, db')"
  shows "data_of db' = data_of db \<or>
    (\<exists>src s files db1. first_pass = Some src \<and> verify_archive docs src = Ok s \<and> \<not> plan_dry_run plan \<and>
       plan_import (svc_settings svc) s plan db = Some (Ok files, db1) \<and> data_of db1 = data_of db \<and>
       (plan_overwrite plan \<or> list_all (\<lambda>f. if_action f = FileCreated) files))"
proof (cases first_pass)
  case None
  with assms show ?thesis by (simp add: import_def open_archive_def)
next
  case (Some src)
  show ?thesis
  proof (cases "verify_archive docs src")
    case (Inl e)
    with assms Some show ?thesis by (auto simp: import_def open_archive_def and_then_def)
  next
    case (Inr s)
    note start = assms [unfolded import_def open_archive_def Some, simplified, unfolded and_then_def [of "of_result _"] Inr, simplified]
    have same: "plan_import (svc_settings svc) s plan db = Some (p, db1) \<Longrightarrow> data_of db1 = data_of db" for p db1
      using keepsD [OF keeps_plan_import] by blast
    from start show ?thesis
    proof (cases rule: and_then_SomeE)
      case (failed e)
      with same show ?thesis by auto
    next
      case (went_on files db1)
      show ?thesis
      proof (cases "plan_dry_run plan")
        case True
        with went_on same show ?thesis by auto
      next
        case False
        with went_on(1) same Some Inr plan_import_actions [OF went_on(1)] show ?thesis by auto
      qed
    qed
  qed
qed

theorem import_checks_first_witness:
  "\<exists>r db'. import small_service id (sample_docs sample_contents) (Some ARCHIVE_MAGIC) (Some [])
      \<lparr>into_account = None, plan_overwrite = True, plan_dry_run = False\<rparr> (small_database [((''A'', ''F''), small_table)]) = Some (r, db') \<and>
    data_of db' = data_of (small_database [((''A'', ''F''), small_table)])"
proof -
  let ?plan = "\<lparr>into_account = None, plan_overwrite = True, plan_dry_run = False\<rparr>" and ?db = "small_database [((''A'', ''F''), small_table)]"
  obtain e where e: "verify_archive (sample_docs sample_contents) ARCHIVE_MAGIC = Err e"
    by (simp add: verify_archive_def read_archive_def read_front_def Reader_new_def take_exact_def read_document_def read_length_def
        act_then_def act_of_def Let_def ARCHIVE_MAGIC_def)
  then have "import small_service id (sample_docs sample_contents) (Some ARCHIVE_MAGIC) (Some []) ?plan ?db = Some (Err e, ?db)"
    by (simp add: import_def open_archive_def and_then_def)
  from import_checks_first [OF this] this e show ?thesis by auto
qed

section \<open>Restoring a file\<close>

lemma map_of_sort_key: "hm_wf m \<Longrightarrow> map_of (sort_key fst m) = map_of m"
  by (rule iffD2 [OF map_of_inject_set]) (simp_all add: hm_wf_def distinct_map inj_on_def)

lemma insert_all_sorted: "hm_wf m \<Longrightarrow> hm_get (hm.insert_all (sort_key fst m) []) = hm_get m"
proof -
  assume wf: "hm_wf m"
  then have "distinct (map fst (sort_key fst m))" by (simp add: hm_wf_def distinct_map inj_on_def)
  from hm.get_insert_all [OF this] have "hm_get (hm.insert_all (sort_key fst m) []) = hm_get [] ++ map_of m"
    by (simp add: map_of_sort_key wf)
  also have "\<dots> = hm_get m" by (auto simp: fun_eq_iff hm_get_def map_add_def split: option.split)
  finally show ?thesis .
qed

lemma feed_append: "feed_records snk entry (rs @ rs') = act_then (feed_records snk entry rs) (\<lambda>_. feed_records snk entry rs')"
  by (induction rs) (auto simp: act_then_assoc)

definition stored_map :: "(str, Record) hashmap \<Rightarrow> bool" where
  "stored_map m \<longleftrightarrow> hm_wf m \<and> list_all (\<lambda>(_, r). record_stored r) m"

text \<open>The records of one kind, fed one after another.\<close>

lemma feed_map:
  assumes "list_all (\<lambda>(_, r). record_stored r) kvs" "p_records p = Some (records, dictionary)"
  shows "feed_records (Restore svc log_names files) entry (map (\<lambda>(key, r). (kind, key, to_bytes r)) kvs) (db, Some p) =
    Some (Ok (), (db, Some (p\<lparr>p_records := Some (case kind of
      DataKind \<Rightarrow> (hm.insert_all kvs records, dictionary) | DictionaryKind \<Rightarrow> (records, hm.insert_all kvs dictionary))\<rparr>)))"
  using assms
proof (induction kvs arbitrary: p records dictionary)
  case Nil
  then show ?case by (cases kind; cases p) (simp_all add: act_of_def hm.insert_all_simps)
next
  case (Cons kv kvs)
  obtain key r where kv: "kv = (key, r)" by (cases kv)
  let ?rd = "case kind of DataKind \<Rightarrow> (hm_insert key r records, dictionary) | DictionaryKind \<Rightarrow> (records, hm_insert key r dictionary)"
  have "sink_record (Restore svc log_names files) entry kind key (length (to_bytes r)) (to_bytes r) (db, Some p) =
      Some (Ok (), (db, Some (p\<lparr>p_records := Some ?rd\<rparr>)))"
    using Cons.prems kv by (simp add: Restore_def restore_record_def from_to_bytes Let_def)
  moreover obtain records' dictionary' where rd: "?rd = (records', dictionary')" by (cases ?rd)
  ultimately show ?case
    using Cons.IH [of "p\<lparr>p_records := Some ?rd\<rparr>" records' dictionary'] Cons.prems kv
    by (cases kind) (auto simp: act_then_def hm.insert_all_simps)
qed

lemma feed_table:
  assumes "stored_map (tbl_records t)" "stored_map (tbl_dictionary t)" "p_records p = Some ([], [])"
  shows "\<exists>records dictionary. feed_records (Restore svc log_names files) entry (table_content t) (db, Some p) =
      Some (Ok (), (db, Some (p\<lparr>p_records := Some (records, dictionary)\<rparr>))) \<and>
    hm_get records = hm_get (tbl_records t) \<and> hm_get dictionary = hm_get (tbl_dictionary t) \<and> hm_wf records"
proof -
  let ?rs = "sort_key fst (tbl_records t)" and ?ds = "sort_key fst (tbl_dictionary t)"
  have ok: "list_all (\<lambda>(_, r). record_stored r) ?rs" "list_all (\<lambda>(_, r). record_stored r) ?ds"
    using assms(1,2) by (simp_all add: stored_map_def list_all_iff)
  have "feed_records (Restore svc log_names files) entry (table_content t) (db, Some p) =
      Some (Ok (), (db, Some (p\<lparr>p_records := Some (hm.insert_all ?rs [], hm.insert_all ?ds [])\<rparr>)))"
    using feed_map [OF ok(2) assms(3), where kind = DictionaryKind] feed_map [OF ok(1), where kind = DataKind and dictionary = "hm.insert_all ?ds []"]
    by (simp add: table_content_def map_content_def feed_append act_then_def)
  moreover have "hm_get (hm.insert_all (sort_key fst m) []) = hm_get m" "hm_wf (hm.insert_all (sort_key fst m) [])" if "hm_wf m" for m :: "(str, Record) hashmap"
    using that insert_all_sorted by (simp_all add: hm.wf_insert_all)
  ultimately show ?thesis using assms(1,2) by (auto simp: stored_map_def)
qed

text \<open>Every index a table has can be made from its dictionary.\<close>

definition indexable :: "Table \<Rightarrow> str \<Rightarrow> bool" where
  "indexable t fld \<longleftrightarrow> trim fld \<noteq> ''ID'' \<and> is_valid_field_name (trim fld) \<and> field_index t (trim fld) \<noteq> None"

lemma indexable_cong: "hm_get (tbl_dictionary t) = hm_get (tbl_dictionary t') \<Longrightarrow> indexable t fld = indexable t' fld"
  by (simp add: indexable_def field_index_def)

definition index_current :: "Table \<Rightarrow> str \<Rightarrow> bool" where
  "index_current t fld = (case hm_get (tbl_indexes t) (trim fld) of None \<Rightarrow> False | Some idx \<Rightarrow> \<not> needs_rebuild idx)"

lemma rebuild_current [simp]: "needs_rebuild (rebuild records attr idx) = False"
  by (simp add: rebuild_def Let_def)

lemma restore_index_ok:
  assumes "table_ok t" "indexable t (ie_field ie)"
  shows "\<exists>t'. restore_index ie t = (Ok (Ok ()), t') \<and> table_ok t' \<and> tbl_records t' = tbl_records t \<and> tbl_dictionary t' = tbl_dictionary t \<and>
    index_current t' (ie_field ie) \<and> (\<forall>fld. index_current t fld \<longrightarrow> index_current t' fld)"
proof -
  obtain attr where attr: "field_index t (trim (ie_field ie)) = Some attr" using assms(2) by (auto simp: indexable_def)
  let ?f = "trim (ie_field ie)"
  let ?t1 = "t\<lparr>tbl_indexes := hm_insert ?f (rebuild (tbl_records t) attr (with_exclusions ?f attr (ie_excluded ie))) (tbl_indexes t)\<rparr>"
  have c: "create_index_excluding (ie_field ie) (ie_excluded ie) t = Ok ?t1"
    using assms(2) attr by (simp add: create_index_excluding_def indexable_def Let_def)
  have "field_index ?t1 ?f = field_index t ?f" by (simp add: field_index_def)
  with attr obtain idx where b: "rebuild_index (ie_field ie) ?t1 =
      Ok (?t1\<lparr>tbl_indexes := hm_insert ?f (rebuild (tbl_records t) attr idx) (tbl_indexes ?t1)\<rparr>)"
    by (simp add: rebuild_index_def Let_def)
  with c have "table_ok (?t1\<lparr>tbl_indexes := hm_insert ?f (rebuild (tbl_records t) attr idx) (tbl_indexes ?t1)\<rparr>)"
    using rebuild_index_ok create_index_ok assms(1) by blast
  with c b show ?thesis by (auto simp: restore_index_def index_current_def)
qed

lemma restore_indexes_ok:
  assumes "hm_get (tables db) (p_account p, p_name p) = Some t" "table_ok t" "\<forall>ie \<in> set ies. indexable t (ie_field ie)"
  shows "\<exists>db' t'. restore_indexes svc log_names p ies db = Some (Ok (), db') \<and> hm_get (tables db') (p_account p, p_name p) = Some t' \<and>
    table_ok t' \<and> tbl_records t' = tbl_records t \<and> tbl_dictionary t' = tbl_dictionary t \<and>
    (\<forall>ie \<in> set ies. index_current t' (ie_field ie)) \<and> (\<forall>fld. index_current t fld \<longrightarrow> index_current t' fld)"
  using assms
proof (induction ies arbitrary: db t)
  case (Cons ie ies)
  let ?k = "(p_account p, p_name p)"
  from restore_index_ok [OF Cons.prems(2), of ie] Cons.prems(3) obtain t1 where t1: "restore_index ie t = (Ok (Ok ()), t1)" "table_ok t1"
    "tbl_records t1 = tbl_records t" "tbl_dictionary t1 = tbl_dictionary t" "index_current t1 (ie_field ie)"
    "\<forall>fld. index_current t fld \<longrightarrow> index_current t1 fld" by auto
  have "hm_get (tables (put_table ?k t1 db)) ?k = Some t1" by (simp add: put_table_def)
  moreover have "\<forall>ie \<in> set ies. indexable t1 (ie_field ie)" using Cons.prems(3) indexable_cong [of t1 t] t1(4) by auto
  ultimately obtain db' t' where d: "restore_indexes svc log_names p ies (put_table ?k t1 db) = Some (Ok (), db')" "hm_get (tables db') ?k = Some t'"
    "table_ok t'" "tbl_records t' = tbl_records t1" "tbl_dictionary t' = tbl_dictionary t1"
    "\<forall>ie \<in> set ies. index_current t' (ie_field ie)" "\<forall>fld. index_current t1 fld \<longrightarrow> index_current t' fld"
    using Cons.IH [OF _ t1(2)] by blast
  have "restore_indexes svc log_names p (ie # ies) db = Some (Ok (), db')"
    using Cons.prems(1) t1(1) d(1) by (simp add: and_then_def with_table_def)
  with d t1 show ?case by auto
qed auto

lemma install_records_ok:
  assumes "table_ok t" "hm_wf records"
  shows "table_ok (install_records records dictionary t)" "tbl_records (install_records records dictionary t) = records"
    "tbl_dictionary (install_records records dictionary t) = dictionary"
proof -
  let ?t = "t\<lparr>tbl_records := records, tbl_dictionary := dictionary\<rparr>"
  have r: "tbl_records (mark_dict_dirty ?t) = records" "tbl_dictionary (mark_dict_dirty ?t) = dictionary"
    by (simp_all add: mark_dict_dirty_def recheck_index_attributes_def)
  then show "tbl_records (install_records records dictionary t) = records" "tbl_dictionary (install_records records dictionary t) = dictionary"
    by (simp_all add: install_records_def touch_all_def)
  let ?m = "tbl_indexes (mark_dict_dirty ?t)"
  have "hm_wf ?m \<and> (\<forall>f idx. hm_get ?m f = Some idx \<longrightarrow> index_ok (hm_get (tbl_records t)) f idx)"
    using fold_mark_stale_ok [of "tbl_indexes t" "hm_get (tbl_records t)" "moved_fields (?t\<lparr>dict_dirty := True\<rparr>)"] assms(1)
    by (auto simp: mark_dict_dirty_def recheck_index_attributes_def table_ok_def)
  with r assms(2) show "table_ok (install_records records dictionary t)"
    unfolding install_records_def by (intro table_okI) (auto simp: touch_all_def intro: index_ok_stale)
qed

text \<open>
  C15. Restoring a table makes it again. What an export writes of a table, fed to the restore of a file that has been
  created, leaves under that file the same records and the same dictionary under the same keys, with each of
  the table's indexes present, current and exact for the records that arrived.
\<close>

theorem restored_table_is_same:
  assumes "stored_map (tbl_records t)" "stored_map (tbl_dictionary t)"
    and "\<forall>ie \<in> set (index_entries t). indexable t (ie_field ie)"
    and "p_records p = Some ([], [])" "p_indexes p = index_entries t"
    and "get_table_mut (svc_settings svc) (pins svc) (p_account p) (p_name p) db = Some (Ok (), db1)"
    and "hm_get (tables db1) (p_account p, p_name p) = Some fresh" "table_ok fresh"
  shows "\<exists>db2 t2. act_then (feed_records (Restore svc log_names files) entry (table_content t))
      (\<lambda>_. sink_end_file (Restore svc log_names files) entry) (db, Some p) = Some (Ok (), (db2, None)) \<and>
    hm_get (tables db2) (p_account p, p_name p) = Some t2 \<and>
    hm_get (tbl_records t2) = hm_get (tbl_records t) \<and> hm_get (tbl_dictionary t2) = hm_get (tbl_dictionary t) \<and>
    table_ok t2 \<and> (\<forall>ie \<in> set (index_entries t). index_current t2 (ie_field ie))"
proof -
  let ?k = "(p_account p, p_name p)"
  from feed_table [OF assms(1,2,4), of svc log_names files entry db] obtain records dictionary where
    f: "feed_records (Restore svc log_names files) entry (table_content t) (db, Some p) =
      Some (Ok (), (db, Some (p\<lparr>p_records := Some (records, dictionary)\<rparr>)))"
    "hm_get records = hm_get (tbl_records t)" "hm_get dictionary = hm_get (tbl_dictionary t)" "hm_wf records" by blast
  let ?p = "p\<lparr>p_records := Some (records, dictionary)\<rparr>"
  let ?t = "install_records records dictionary fresh"
  note i = install_records_ok [OF assms(8) f(4), of dictionary]
  have k: "(p_account ?p, p_name ?p) = ?k" by simp
  have g: "hm_get (tables (put_table ?k ?t db1)) (p_account ?p, p_name ?p) = Some ?t" by (simp add: put_table_def)
  have "\<forall>ie \<in> set (index_entries t). indexable ?t (ie_field ie)"
    using assms(3) indexable_cong [of ?t t] i(3) f(3) by simp
  from restore_indexes_ok [OF g i(1) this, of svc log_names] obtain db2 t2 where
    d: "restore_indexes svc log_names ?p (index_entries t) (put_table ?k ?t db1) = Some (Ok (), db2)"
    "hm_get (tables db2) ?k = Some t2" "table_ok t2" "tbl_records t2 = tbl_records ?t" "tbl_dictionary t2 = tbl_dictionary ?t"
    "\<forall>ie \<in> set (index_entries t). index_current t2 (ie_field ie)" unfolding k by blast
  have "sink_end_file (Restore svc log_names files) entry (db, Some ?p) = Some (Ok (), (db2, None))"
    using assms(5-7) d(1) by (simp add: Restore_def restore_end_file_def on_db_def and_then_def with_table_def)
  with f d i show ?thesis by (auto simp: act_then_def)
qed

definition priced_table :: Table where
  "priced_table = (insert_record ''7'' sample_record Table_new)\<lparr>tbl_dictionary := [(''QTY'', from_attributes [''1''])],
     tbl_indexes := [(''QTY'', FileIndex_new ''QTY'' 0)]\<rparr>"

definition into_file :: Pending where
  "into_file = \<lparr>p_account = ''A'', p_name = ''F'', p_records = Some ([], []), p_indexes = index_entries priced_table\<rparr>"

lemma priced_table_ok:
  "stored_map (tbl_records priced_table)" "stored_map (tbl_dictionary priced_table)" "index_entries priced_table = [\<lparr>ie_field = ''QTY'', ie_excluded = []\<rparr>]"
  "indexable priced_table ''QTY''"
proof -
  have "from_attributes [''1''] = from_bytes ''1''" by code_simp
  then have q: "record_stored (from_attributes [''1''])" by (simp only: record_stored_from_bytes)
  show "stored_map (tbl_records priced_table)" "stored_map (tbl_dictionary priced_table)"
    using q by (simp_all add: stored_map_def priced_table_def sample_record_def record_stored_from_bytes insert_record_def mark_dirty_def Table_new_def hm_insert_def hm_wf_def)
  show "index_entries priced_table = [\<lparr>ie_field = ''QTY'', ie_excluded = []\<rparr>]"
    by (simp add: index_entries_def priced_table_def FileIndex_new_def with_exclusions_def normalise_exclusions_def bt_of_list_def)
  have "trim ''QTY'' = ''QTY''" by (simp add: trim_visible_text visible_def)
  moreover have "is_valid_field_name ''QTY''" by code_simp
  moreover note pair_entries(2)
  ultimately show "indexable priced_table ''QTY''"
    by (simp add: indexable_def field_index_def priced_table_def hm_get_def)
qed

theorem restored_table_is_same_witness:
  "\<exists>db2 t2. act_then (feed_records (Restore small_service id []) (FileEntry_of ''A'' ''F'' FileAttributes_default []) (table_content priced_table))
      (\<lambda>_. sink_end_file (Restore small_service id []) (FileEntry_of ''A'' ''F'' FileAttributes_default []))
      (small_database [((''A'', ''F''), small_table)], Some into_file) = Some (Ok (), (db2, None)) \<and>
    hm_get (tables db2) (''A'', ''F'') = Some t2 \<and> hm_get (tbl_records t2) ''k'' = None \<and> hm_get (tbl_records t2) ''7'' = Some sample_record \<and>
    index_current t2 ''QTY''"
proof -
  let ?db = "small_database [((''A'', ''F''), small_table)]"
  have g: "get_table_mut (svc_settings small_service) (pins small_service) ''A'' ''F'' ?db = Some (Ok (), touch_lru (''A'', ''F'') ?db)"
    by (rule get_table_loaded [where dir = "''db/A''" and t = small_table])
      (simp_all add: small_service_def table_stale_def, simp_all add: small_database_def hm_get_def)
  have t: "hm_get (tables (touch_lru (''A'', ''F'') ?db)) (''A'', ''F'') = Some small_table" "table_ok small_table"
    by (simp_all add: touch_lru_def small_database_def hm_get_def) (simp add: small_table_def insert_record_ok)
  have p: "p_account into_file = ''A''" "p_name into_file = ''F''" "p_records into_file = Some ([], [])" "p_indexes into_file = index_entries priced_table"
    by (simp_all add: into_file_def)
  have r: "hm_get (tbl_records priced_table) ''k'' = None" "hm_get (tbl_records priced_table) ''7'' = Some sample_record"
    by (simp_all add: priced_table_def insert_record_def mark_dirty_def Table_new_def hm_insert_def hm_get_def)
  from restored_table_is_same [OF priced_table_ok(1,2) _ p(3,4), of small_service ?db, unfolded p(1,2), OF _ g t] priced_table_ok(3,4) r
  show ?thesis by fastforce
qed

section \<open>Exporting\<close>

lemma put_table_same: "hm_get (tables db) key = Some t \<Longrightarrow> hm_get (tables (put_table key t db)) = hm_get (tables db)"
  by (simp add: put_table_def hm.get_insert fun_upd_idem)

definition held_as :: "Database \<Rightarrow> ExportTarget \<Rightarrow> Table \<Rightarrow> bool" where
  "held_as db t tbl \<longleftrightarrow> hm_get (tables db) (et_account t, et_name t) = Some tbl"

lemma held_as_cong: "hm_get (tables db) = hm_get (tables db') \<Longrightarrow> held_as db = held_as db'"
  by (simp add: fun_eq_iff held_as_def)

lemma entries_of_tables:
  assumes "entries_of plan db = Some (Ok entries, db')" "\<forall>t \<in> set plan. \<not> is_directory (et_attributes t)"
  shows "hm_get (tables db') = hm_get (tables db) \<and> (\<exists>tbls. list_all2 (held_as db) plan tbls \<and>
    entries = map2 (\<lambda>t tbl. FileEntry_of (et_account t) (et_name t) (et_attributes t) (index_entries tbl)) plan tbls)"
  using assms
proof (induction plan arbitrary: db entries)
  case (Cons t plan)
  then obtain tbl db1 es where h: "held_as db t tbl" "db1 = put_table (et_account t, et_name t) tbl db" "entries_of plan db1 = Some (Ok es, db')"
    "entries = FileEntry_of (et_account t) (et_name t) (et_attributes t) (index_entries tbl) # es"
    by (auto simp: and_then_Ok_iff table_of_def with_table_def held_as_def split: option.splits)
  have same: "hm_get (tables db1) = hm_get (tables db)" using h(1,2) put_table_same by (simp add: held_as_def)
  from Cons.IH [OF h(3)] Cons.prems(2) obtain tbls where "hm_get (tables db') = hm_get (tables db1)" "list_all2 (held_as db1) plan tbls"
    "es = map2 (\<lambda>t tbl. FileEntry_of (et_account t) (et_name t) (et_attributes t) (index_entries tbl)) plan tbls" by auto
  with h same held_as_cong [OF same] show ?case by (intro conjI exI [of _ "tbl # tbls"]) simp_all
qed simp

lemma export_each_tables:
  assumes "export_each svc plan w db = Some (Ok w', db')" "\<forall>t \<in> set plan. \<not> is_directory (et_attributes t)"
  shows "hm_get (tables db') = hm_get (tables db) \<and>
    (\<exists>tbls. list_all2 (held_as db) plan tbls \<and> write_files (map table_content tbls) w = Ok w')"
  using assms
proof (induction plan arbitrary: w db)
  case (Cons t plan)
  then obtain entry w0 w1 w2 tbl db1 where h: "writer_begin_file w = Ok (entry, w0)" "held_as db t tbl"
    "db1 = put_table (et_account t, et_name t) tbl db" "write_records (table_content tbl) w0 = Ok w1" "writer_end_file w1 = Ok w2"
    "export_each svc plan w2 db1 = Some (Ok w', db')"
    by (auto simp: export_file_def and_then_Ok_iff table_of_def with_table_def held_as_def split: option.splits)
  have same: "hm_get (tables db1) = hm_get (tables db)" using h(2,3) put_table_same by (simp add: held_as_def)
  from Cons.IH [OF h(6)] Cons.prems(2) obtain tbls where "hm_get (tables db') = hm_get (tables db1)" "list_all2 (held_as db1) plan tbls"
    "write_files (map table_content tbls) w2 = Ok w'" by auto
  with h same held_as_cong [OF same] show ?case by (intro conjI exI [of _ "tbl # tbls"]) simp_all
qed simp

lemma held_tables_unique: "list_all2 (held_as db) plan tbls \<Longrightarrow> list_all2 (held_as db) plan tbls' \<Longrightarrow> tbls = tbls'"
  by (induction plan arbitrary: tbls tbls') (auto simp: list_all2_Cons1 held_as_def)

text \<open>
  C16. An export of tables is the archive of what the tables hold. When it answers, the bytes are those the writer makes of the
  plan's files in order, each with the dictionary and the records its table had when all of them were held, described by
  the attributes and indexes of that table, and the tables are as they were.
\<close>

theorem export_is_archive_of_tables:
  assumes "export_planned svc docs source plan db = Some (Ok (trailer, bs), db')"
    and "\<forall>t \<in> set plan. \<not> is_directory (et_attributes t)"
  shows "\<exists>db1 tbls m. hold_tables svc plan [] db = Some (Ok (), db1) \<and> list_all2 (held_as db1) plan tbls \<and>
    man_files m = map2 (\<lambda>t tbl. FileEntry_of (et_account t) (et_name t) (et_attributes t) (index_entries tbl)) plan tbls \<and>
    write_archive docs m (map table_content tbls) = Ok (trailer, bs) \<and> hm_get (tables db') = hm_get (tables db1)"
proof -
  let ?m = "\<lambda>es. \<lparr>archive_format = ARCHIVE_CURRENT, storage_format = STORAGE_FORMAT, taken_millis = wall svc, man_source = source, man_files = es\<rparr>"
  from assms(1) obtain db1 entries db2 w w' where h: "hold_tables svc plan [] db = Some (Ok (), db1)" "entries_of plan db1 = Some (Ok entries, db2)"
    "Writer_begin docs (?m entries) = Ok w" "export_each (svc\<lparr>pins := held_tables plan @ pins svc\<rparr>) plan w db2 = Some (Ok w', db')"
    "writer_finish docs w' = Ok (trailer, bs)"
    by (auto simp: export_planned_def and_then_Ok_iff)
  from entries_of_tables [OF h(2) assms(2)] obtain tbls where e: "hm_get (tables db2) = hm_get (tables db1)" "list_all2 (held_as db1) plan tbls"
    "entries = map2 (\<lambda>t tbl. FileEntry_of (et_account t) (et_name t) (et_attributes t) (index_entries tbl)) plan tbls" by auto
  from export_each_tables [OF h(4) assms(2)] obtain tbls' where x: "hm_get (tables db') = hm_get (tables db2)" "list_all2 (held_as db2) plan tbls'"
    "write_files (map table_content tbls') w = Ok w'" by auto
  have "tbls' = tbls" using held_tables_unique x(2) e(2) held_as_cong [OF e(1)] by metis
  with h(3,5) x(3) have "write_archive docs (?m entries) (map table_content tbls) = Ok (trailer, bs)" by (simp add: write_archive_def)
  with h(1) e x(1) show ?thesis by (intro exI [of _ db1] exI [of _ tbls] exI [of _ "?m entries"]) simp
qed

definition small_plan :: "ExportTarget list" where
  "small_plan = [\<lparr>et_account = ''A'', et_name = ''F'', et_attributes = FileAttributes_default\<rparr>]"

theorem export_is_archive_of_tables_witness:
  "\<exists>trailer bs db' m. export_planned small_service (sample_docs sample_contents) (SourceFile ''A'' ''F'') small_plan
      (small_database [((''A'', ''F''), small_table)]) = Some (Ok (trailer, bs), db') \<and>
    man_files m = [FileEntry_of ''A'' ''F'' FileAttributes_default []] \<and>
    write_archive (sample_docs sample_contents) m [ [(DataKind, ''k'', to_bytes sample_record)] ] = Ok (trailer, bs)"
proof -
  let ?db = "small_database [((''A'', ''F''), small_table)]" and ?docs = "sample_docs sample_contents"
  have g: "get_table_mut (svc_settings small_service) (pins small_service) ''A'' ''F'' ?db = Some (Ok (), touch_lru (''A'', ''F'') ?db)"
    by (rule get_table_loaded [where dir = "''db/A''" and t = small_table])
      (simp_all add: small_service_def table_stale_def, simp_all add: small_database_def hm_get_def)
  have t: "hm_get (tables (touch_lru (''A'', ''F'') ?db)) (''A'', ''F'') = Some small_table"
    by (simp add: touch_lru_def small_database_def hm_get_def)
  have c: "index_entries small_table = []" "table_content small_table = [(DataKind, ''k'', to_bytes sample_record)]"
    by (simp_all add: index_entries_def table_content_def map_content_def small_table_def insert_record_def mark_dirty_def Table_new_def hm_insert_def)
  have d: "\<not> is_directory FileAttributes_default" by (simp add: is_directory_def FileAttributes_default_def)
  have h: "hold_tables small_service small_plan [] ?db = Some (Ok (), touch_lru (''A'', ''F'') ?db)"
    using g d by (simp add: small_plan_def and_then_def)
  have run: "\<exists>trailer bs db'. export_planned small_service ?docs (SourceFile ''A'' ''F'') small_plan ?db = Some (Ok (trailer, bs), db')"
    using d t c
    by (simp add: export_planned_def and_then_def h) (simp add: small_plan_def and_then_def table_of_def with_table_def put_table_def export_file_def Writer_begin_def sample_docs_def Let_def
        writer_begin_file_def write_record_bytes_def open_record_def writer_end_file_def writer_finish_def put_def put_blob_def note_record_def)
  then obtain trailer bs db' where run: "export_planned small_service ?docs (SourceFile ''A'' ''F'') small_plan ?db = Some (Ok (trailer, bs), db')" by auto
  have "\<forall>t \<in> set small_plan. \<not> is_directory (et_attributes t)" using d by (simp add: small_plan_def)
  from export_is_archive_of_tables [OF run this] h t c run show ?thesis
    by (auto simp: small_plan_def held_as_def list_all2_Cons1)
qed

text \<open>
  On a server with durable writes, the export of an account states every file of it as durable, whatever its entry
  says, where the export of the file alone does not.
\<close>

lemma fold_attributes_durable:
  assumes "fold (\<lambda>name m. and_then m (\<lambda>out. and_then (file_attributes_for_account cfg pinned account name) (\<lambda>a.
      ret (out @ [(name, a\<lparr>durable := durable a \<or> durable_writes cfg\<rparr>)])))) names m db = Some (Ok files, db')"
    and "durable_writes cfg" and "\<And>out db'. m db = Some (Ok out, db') \<Longrightarrow> \<forall>f \<in> set out. durable (snd f)"
  shows "\<forall>f \<in> set files. durable (snd f)"
  using assms(1,3)
proof (induction names arbitrary: m)
  case (Cons name names)
  show ?case
    by (rule Cons.IH [OF Cons.prems(1) [unfolded fold_simps]]) (use Cons.prems(2) assms(2) in \<open>force simp: and_then_Ok_iff\<close>)
qed auto

theorem account_export_says_durable:
  assumes "collect_account svc account db = Some (Ok targets, db')" "durable_writes (svc_settings svc)"
  shows "\<forall>t \<in> set targets. durable (et_attributes t)"
  using assms fold_attributes_durable [where m = "ret []"]
  by (auto simp: collect_account_def and_then_Ok_iff list_tables_with_attributes_for_account_def) fastforce

end
