(* ===== verification/Spec2Isabelle.thy ===== *)
theory Spec2Isabelle
  imports Section_Store Query_Props Transact_Props Accounts_Props Queue_Engine_Props Handler_Props Archive_Engine_Props
begin

text \<open>
  \<^bold>\<open>SmartRustyPick in Isabelle/HOL.\<close> SmartRustyPick is a multi-value (Pick style) database: records are
  lists of fields, fields lists of values, values lists of sub-values, kept in files grouped into accounts,
  and served over TLS. All of the core is in \<^verbatim>\<open>crates/core/src\<close>; paths below are relative to it.

  \<^bold>\<open>The parts and how they meet.\<close>

  \<^item> Stored bytes. A file of records is a directory of hashed groups, each a run of checksummed frames,
    with a meta file that says how many groups there are (\<^verbatim>\<open>db/hashfile.rs\<close>). Records become bytes through
    the three marks (\<^verbatim>\<open>db/models.rs\<close>). Small state is kept in checksummed text files (\<^verbatim>\<open>db/statefile.rs\<close>).
  \<^item> A loaded file, the \<open>Table\<close>, holds records, dictionary, dirty keys, secondary indexes, a key counter and
    the order of a queue (\<^verbatim>\<open>db/models.rs\<close>, \<^verbatim>\<open>db/index.rs\<close>, \<^verbatim>\<open>db/sequence.rs\<close>, \<^verbatim>\<open>db/queue.rs\<close>).
  \<^item> Commands on a table: writes and deletes under conditions (\<^verbatim>\<open>db/engine/write.rs\<close>), queries
    (\<^verbatim>\<open>db/query.rs\<close>), dictionary lookups (\<^verbatim>\<open>db/engine/dictionary.rs\<close>).
  \<^item> The engine keeps a cache of tables, writes them out in batches, and makes several changes at once
    through an intent log that is replayed at start (\<^verbatim>\<open>db/engine/{mod,cache,transaction}.rs\<close>,
    \<^verbatim>\<open>db/transaction.rs\<close>). It also keeps accounts, the listing \<open>DIR\<close> of each, and the clients that may
    connect. Directory files map keys to host files (\<^verbatim>\<open>db/directory.rs\<close>).
  \<^item> The server reads a request, decides whether the client may have it, runs the engine under a shared or
    an exclusive lock, and answers with records as JSON (\<^verbatim>\<open>server/models.rs\<close>, \<^verbatim>\<open>server/handler.rs\<close>).
  \<^item> A backup is an archive: the shape and the records of one file, one account or all of them as a checksummed
    stream, written by an export and put back by an import (\<^verbatim>\<open>db/archive.rs\<close>, \<^verbatim>\<open>db/engine/archive.rs\<close>).

  \<^bold>\<open>The theories\<close>, each below the ones it uses.

  \<^item> \<open>Prelude\<close> has the conventions of the whole library: \<open>result\<close> is \<open>'e + 'a\<close>, a \<open>HashMap\<close> is an
    association list \<open>hashmap\<close> with its own operations, a \<open>BTreeMap\<close> or \<open>BTreeSet\<close> is a sorted list; the
    interfaces \<open>finite_map\<close> and \<open>ordered_set\<close> are locales interpreted there on those operations as \<open>hm\<close> and \<open>bt\<close>,
    and the proofs about maps and sorted sets use the facts of the two. \<open>prefix_codec\<close>, a self-delimiting encoding,
    is interpreted on the frames of a group in \<open>Hashfile\<close> and on the changes of an intent in \<open>Transaction\<close>. \<open>Rust_Text\<close> models the standard library's text: UTF-8 as
    bytes (\<open>str\<close> is a byte list), lossy decoding, trimming, splitting, decimal and hexadecimal printing and parsing.
  \<^item> \<open>Base64\<close>: \<^verbatim>\<open>db/base64.rs\<close> on 32-bit words. \<open>Models\<close>: \<^verbatim>\<open>Record\<close>, \<^verbatim>\<open>Field\<close>, \<^verbatim>\<open>Value\<close>, display and edit
    strings, associations and select lists; which records survive storage. \<open>Attributes\<close>: the \<open>DIR\<close> entry of
    a file, capabilities, grants.
  \<^item> \<open>Checksum\<close> (CRC32C), \<open>Placement\<close> (FNV hash, group of a key, modulus policy with 64-bit wrap-around),
    \<open>Hashfile\<close> (frames, meta file, load and save on the bytes of a directory), \<open>Section_Store\<close> (a save is a
    map update, for every \<open>section_source\<close>: the maps of a table and, in \<open>Index_Store\<close>, an index; what a torn rehash
    and a damaged group do), \<open>Statefile\<close>, \<open>Sequence\<close> (minted keys, the counter and
    its file).
  \<^item> \<open>Queue\<close>, \<open>Queue_Laws\<close>, \<open>Queue_Props\<close>: the whole \<^verbatim>\<open>QueueState\<close>, its reachable states as an inductive
    relation, and its persistence.
  \<^item> \<open>Db_Error\<close>: every error of \<^verbatim>\<open>db/error.rs\<close>. \<open>Index\<close>, \<open>Index_Laws\<close>, \<open>Index_Store\<close>: secondary indexes and
    their files. \<open>Table\<close>, \<open>Table_Props\<close>: a loaded file, whose indexes stay exact under every operation,
    so that it provides the contract \<open>index_lookup\<close> the queries rely on.
    \<open>Dictionary\<close>: field names, conversions, association groups. \<open>Query\<close>, \<open>Query_Laws\<close>, \<open>Query_Props\<close>: parsing,
    evaluation, narrowing by an index (equal to a scan), exploding. \<open>Write\<close>: conditional writes, versions, minted keys.
  \<^item> \<open>Table_Store\<close>, \<open>Table_Store_Props\<close>: flushing a table section by section and loading it, with the states a
    crash leaves. \<open>Transaction\<close>, \<open>Transact\<close>, \<open>Transact_Props\<close>: intents, staging, applying, replaying.
  \<^item> \<open>Engine_State\<close> has the state of the engine as a record \<open>Database\<close> and a command type
    \<open>'a cmd\<close> (state in; a panic, or a result and the state out) with its combinators and rules. \<open>Catalog\<close>,
    \<open>Catalog_Props\<close>: listing, cache, eviction, batching, creating and deleting files. \<open>Accounts\<close>,
    \<open>Accounts_Props\<close>: sessions, account registry, clients, opening a database. \<open>Directory\<close>: directory files.
  \<^item> \<open>Queue_Engine\<close>, \<open>Queue_Engine_Props\<close>: the commands of \<^verbatim>\<open>db/engine/queue.rs\<close> on a loaded file and on the state of
    the engine, dead letters crossing from one file to another.
  \<^item> \<open>Record_Json\<close>: records as JSON objects (\<^verbatim>\<open>serialize_record\<close>, \<^verbatim>\<open>deserialize_record\<close> of \<^verbatim>\<open>db/engine/mod.rs\<close>).
    \<open>Protocol\<close>: requests, responses, error codes and what is read out of a request. \<open>Handler\<close>, \<open>Handler_Props\<close>: the
    commands of the server and the dispatch around them. \<open>Handler.Service\<close> pairs the engine's state with what
    a connection keeps; \<open>arms\<close> is the table of commands with the access each asks for, \<open>perform\<close> the work of one
    action, \<open>handle_request\<close> the two paths of the dispatch.
  \<^item> \<open>Archive\<close>, \<open>Archive_Props\<close>: the writer and the one reader of an archive, which feeds the records it finds to a \<open>Sink\<close>;
    its two JSON documents are a parameter. \<open>Archive_Engine\<close>, \<open>Archive_Engine_Props\<close>: export over the tables of the engine,
    and import as verify, plan and apply, its sink being \<open>Restore\<close>.

  \<^bold>\<open>What is shown.\<close> The claims C1 to C40 each stand behind a text that states them. In groups: storage
  (a flush followed by a load is the identity on records, dictionary and indexes; a checksum detects bursts;
  a damaged group is refused), transactions (a committed set is completed whole by a replay, a refused one changes nothing),
  indexes (always exact; a query through one equals a scan), queues (a record is available, held or claimed, never two of
  them; the oldest is claimed; what a sweep does), writes (conditions, lost-update safety, fresh keys), the cache (eviction
  loses nothing, durable writes are on disk, batched writes reach it within the batch), accounts and clients,
  the server (no action runs without the account and the capability it asks for; both paths of the dispatch decide alike;
  a client reads what it wrote; paging hands out each entry once; records survive the JSON round trip), and
  backups (what was written is what any sink is fed; no torn archive passes; an import changes nothing before its plan
  stands; a restored table is the table that was exported). Where
  the code falls short of its documentation, the theorem states what the code does on the inputs concerned.

  \<^bold>\<open>Bounds and parameters.\<close> Lengths are bounded where the code bounds them (64 KiB keys, 1 GiB records, 255-byte
  directory keys, 10000 changes in a set). Loops of the source are structural recursion, or have a measure
  (target modulus, association roots with the source's own depth limit); no definition takes fuel. The clock,
  modification times, lower-casing of Unicode text, floating point conversions and the order in which a directory
  is read are parameters or arguments. Handles held by other threads are an argument of the cache operations.

  \<^bold>\<open>Not modelled.\<close> TLS, sockets, threads and locks (\<^verbatim>\<open>server/mod.rs\<close>, \<^verbatim>\<open>server/transfer.rs\<close>): the model is
  sequential, one command after another, and a guard held around a read and a write is one step. Certificates are made
  by \<^verbatim>\<open>openssl\<close> (\<^verbatim>\<open>server/certs.rs\<close>). The text of a JSON document rests on \<^verbatim>\<open>serde_json\<close>; the model starts at its data type.
  Of the server's commands, dispatch and access control are modelled for all of them, the work for those \<open>Handler\<close> lists;
  the work of \<^verbatim>\<open>QUERY\<close>, \<^verbatim>\<open>SELECT\<close> and \<^verbatim>\<open>TRANSACT\<close> over the wire, of the index commands, and of listings, statistics and backups
  (which run \<open>Archive_Engine\<close>) is left open, \<open>perform\<close> giving no result for them: what the first three call in the engine is in \<open>Query\<close> and \<open>Transact\<close>. Health verdicts, reports
  and statistics (\<^verbatim>\<open>db/health.rs\<close>, \<^verbatim>\<open>db/report.rs\<close>) gather what the host's file system says for display.
  The command line, the web console, the configuration file and the host's file permissions are I/O around the engine.
\<close>

end
